(* ===== verification/Kernel_Prelude.thy ===== *)
theory Kernel_Prelude
  imports Main "HOL-Library.Word"
begin

text \<open>
  Shared vocabulary of the development.

  \<^item> The integer types of \<^verbatim>\<open>generic/types.h\<close> as fixed-width words: arithmetic wraps around
    as unsigned C arithmetic does.
  \<^item> The result type of an operation that need not return to its caller. A call of the
    \<^verbatim>\<open>panic\<close> macro prints its reason and resets the chip, so it is the value
    \<open>Inl (Panic reason)\<close>; dereferencing a null pointer or calling through a null function
    pointer is \<open>Inl NullDeref\<close>; indexing an array outside its bounds is \<open>Inl OutOfBounds\<close>;
    a shift by the width of the word or more, undefined in C, is \<open>Inl ShiftRange\<close>;
    a loop that never ends is \<open>Inl Diverge\<close>. \<open>rbind\<close> sequences
    two such operations.
  \<^item> The flat byte-addressed physical memory of the chip, with the little-endian 32-bit load
    and store the compiler emits for \<^verbatim>\<open>u32\<close> accesses, and their algebra.
\<close>

unbundle bit_operations_syntax

section \<open>Integer types\<close>

type_synonym u8 = "8 word"
type_synonym u16 = "16 word"
type_synonym u32 = "32 word"
type_synonym u64 = "64 word"

section \<open>Operations that may not return\<close>

datatype error =
    Panic string
  | NullDeref
  | OutOfBounds
  | ShiftRange
  | Diverge

type_synonym 'a res = "error + 'a"

named_theorems res_simps \<open>unfolding of sequenced operations\<close>

fun rbind :: "'a res \<Rightarrow> ('a \<Rightarrow> 'b res) \<Rightarrow> 'b res" where
  "rbind (Inl e) f = Inl e"
| "rbind (Inr x) f = f x"

lemma rbind_Inr_iff [res_simps]:
  "rbind r f = Inr y \<longleftrightarrow> (\<exists>x. r = Inr x \<and> f x = Inr y)"
  by (cases r) auto

lemma rbind_Inl_iff [res_simps]:
  "rbind r f = Inl e \<longleftrightarrow> r = Inl e \<or> (\<exists>x. r = Inr x \<and> f x = Inl e)"
  by (cases r) auto

lemma rbind_assoc: "rbind (rbind r f) g = rbind r (\<lambda>x. rbind (f x) g)"
  by (cases r) auto

lemma rbind_cong [fundef_cong]:
  "r = r' \<Longrightarrow> (\<And>x. r' = Inr x \<Longrightarrow> f x = g x) \<Longrightarrow> rbind r f = rbind r' g"
  by (cases r) auto

text \<open>A pointer dereference: the null pointer is \<^const>\<open>None\<close>.\<close>

fun deref :: "'p option \<Rightarrow> 'p res" where
  "deref None = Inl NullDeref"
| "deref (Some p) = Inr p"

lemma deref_Inr_iff [res_simps]: "deref p = Inr q \<longleftrightarrow> p = Some q"
  by (cases p) auto

text \<open>A loop modelled as a partial function: \<^const>\<open>None\<close> is a loop that never ends.\<close>

fun returns :: "'a option \<Rightarrow> 'a res" where
  "returns None = Inl Diverge"
| "returns (Some x) = Inr x"

lemma returns_Inr_iff [res_simps]: "returns p = Inr q \<longleftrightarrow> p = Some q"
  by (cases p) auto

text \<open>Applying an operation to each element in turn, and running a producer \<open>n\<close> times.\<close>

fun each :: "('a \<Rightarrow> 's \<Rightarrow> 's res) \<Rightarrow> 'a list \<Rightarrow> 's \<Rightarrow> 's res" where
  "each f [] s = Inr s"
| "each f (x # xs) s = rbind (f x s) (each f xs)"

fun drain :: "('s \<Rightarrow> ('a \<times> 's) res) \<Rightarrow> nat \<Rightarrow> 's \<Rightarrow> ('a list \<times> 's) res" where
  "drain f 0 s = Inr ([], s)"
| "drain f (Suc n) s = rbind (f s) (\<lambda>(x, s1). rbind (drain f n s1) (\<lambda>(xs, s2). Inr (x # xs, s2)))"

section \<open>The physical memory\<close>

type_synonym mem = "u32 \<Rightarrow> u8"

definition le32 :: "u8 \<Rightarrow> u8 \<Rightarrow> u8 \<Rightarrow> u8 \<Rightarrow> u32" where
  "le32 b0 b1 b2 b3 = ucast b0 OR push_bit 8 (ucast b1) OR push_bit 16 (ucast b2)
     OR push_bit 24 (ucast b3)"

definition load32 :: "mem \<Rightarrow> u32 \<Rightarrow> u32" where
  "load32 m a = le32 (m a) (m (a + 1)) (m (a + 2)) (m (a + 3))"

definition store32 :: "mem \<Rightarrow> u32 \<Rightarrow> u32 \<Rightarrow> mem" where
  "store32 m a v = m(a := ucast v, a + 1 := ucast (drop_bit 8 v),
     a + 2 := ucast (drop_bit 16 v), a + 3 := ucast (drop_bit 24 v))"

text \<open>The bytes a 32-bit access at \<open>a\<close> touches.\<close>

definition word_at :: "u32 \<Rightarrow> u32 set" where
  "word_at a = {a, a + 1, a + 2, a + 3}"

lemma word_offsets_distinct [simp]:
  "a + 1 \<noteq> (a :: u32)" "a + 2 \<noteq> (a :: u32)" "a + 3 \<noteq> (a :: u32)"
  "a \<noteq> a + 1" "a \<noteq> a + 2" "a \<noteq> a + 3"
  by simp_all

lemma unat_u8_u32: "unat (ucast (x :: u8) :: u32) = unat x"
proof -
  have "unat x < 2 ^ 32" using unsigned_less [of x, where ?'a = nat] by simp
  then show ?thesis by (simp add: unsigned_ucast_eq take_bit_nat_eq_self)
qed

lemma le32_split: "le32 (ucast v) (ucast (drop_bit 8 v)) (ucast (drop_bit 16 v)) (ucast (drop_bit 24 v)) = v"
proof (rule bit_word_eqI)
  fix n assume n: "n < LENGTH(32)"
  consider "n < 8" | "8 \<le> n" "n < 16" | "16 \<le> n" "n < 24" | "24 \<le> n" "n < 32"
    using n by fastforce
  then show "bit (le32 (ucast v) (ucast (drop_bit 8 v)) (ucast (drop_bit 16 v))
      (ucast (drop_bit 24 v))) n = bit v n"
    by cases (auto simp: le32_def bit_simps)
qed

lemma load32_store32_same [simp]: "load32 (store32 m a v) a = v"
  by (simp add: load32_def store32_def le32_split)

lemma load32_cong: "(\<And>b. b \<in> word_at a \<Longrightarrow> m b = m' b) \<Longrightarrow> load32 m a = load32 m' a"
  by (simp add: load32_def word_at_def)

lemma store32_outside [simp]: "b \<notin> word_at a \<Longrightarrow> store32 m a v b = m b"
  by (simp add: store32_def word_at_def)

lemma load32_store32_other:
  assumes "word_at a \<inter> word_at b = {}"
  shows "load32 (store32 m a v) b = load32 m b"
  using assms by (intro load32_cong store32_outside) auto

section \<open>Masking\<close>

lemma and_not_eq: "x AND NOT k = x - (x AND k)" for x k :: "'a::len word"
proof -
  have "(x AND k) + (x AND NOT k) = (x AND k) OR (x AND NOT k)"
    by (rule disjunctive_add) (auto simp: bit_and_iff bit_not_iff)
  also have "\<dots> = x" by (rule bit_word_eqI) (auto simp: bit_and_iff bit_not_iff bit_or_iff)
  finally show ?thesis by (simp add: eq_diff_eq ac_simps)
qed

lemma unat_and_mask: "unat (x AND mask n) = unat x mod 2 ^ n" for x :: "'a::len word"
  by (simp only: unsigned_take_bit_eq flip: take_bit_eq_mask) (simp only: take_bit_eq_mod)

lemma unat_and_not_mask: "unat (x AND NOT (mask n)) = unat x - unat x mod 2 ^ n" for x :: "'a::len word"
proof -
  have "x AND mask n \<le> x" by (simp add: word_le_nat_alt unat_and_mask)
  then show ?thesis unfolding and_not_eq by (simp add: unat_sub unat_and_mask)
qed

lemma unat_and_7: "unat (x AND 7 :: u32) = unat x mod 8"
  using unat_and_mask [of x 3] by (simp add: mask_eq_exp_minus_1)

lemma unat_and_not_7: "unat (x AND - 8 :: u32) = unat x - unat x mod 8"
  using unat_and_not_mask [of x 3] by (simp add: mask_eq_exp_minus_1)

lemma and_7_zero: "x AND 7 = (0 :: u32) \<longleftrightarrow> unat x mod 8 = 0"
  by (metis unat_and_7 unat_0_iff)

end
