(* ===== verification/Free_List.thy ===== *)
theory Free_List
  imports Kernel_Prelude
begin

text \<open>
  The specification of the first-fit allocator of \<^verbatim>\<open>mm/mm.c\<close>, on plain numbers. A block is an
  address and a size; a free list is a list of blocks in address order in which no two blocks
  touch (\<open>gaps\<close>), because adjacent free blocks are merged. \<open>free_insert\<close> gives a block back
  to the list and \<open>first_fit\<close> looks for one that is large enough.
\<close>

type_synonym block = "nat \<times> nat"

section \<open>Operations\<close>

text \<open>Putting \<open>(c, t)\<close> in front of the blocks \<open>bs\<close> above it, merging if they touch.\<close>

fun join :: "block \<Rightarrow> block list \<Rightarrow> block list" where
  "join (c, t) [] = [(c, t)]"
| "join (c, t) ((a, s) # bs) = (if c + t = a then (c, t + s) # bs else (c, t) # (a, s) # bs)"

text \<open>The same with the block \<open>(p, ps)\<close> below it.\<close>

fun glue :: "block \<Rightarrow> block \<Rightarrow> block list \<Rightarrow> block list" where
  "glue (p, ps) (c, t) bs =
     (if p + ps = c then join (p, ps + t) bs else (p, ps) # join (c, t) bs)"

fun free_after :: "block \<Rightarrow> block list \<Rightarrow> block \<Rightarrow> block list" where
  "free_after q [] (c, t) = glue q (c, t) []"
| "free_after q ((a, s) # bs) (c, t) =
     (if a < c then q # free_after (a, s) bs (c, t) else glue q (c, t) ((a, s) # bs))"

text \<open>The root of the list is a block of size zero below all others and never merges.\<close>

definition free_insert :: "nat \<Rightarrow> block list \<Rightarrow> block \<Rightarrow> block list" where
  "free_insert root bs b = tl (free_after (root, 0) bs b)"

fun first_fit :: "nat \<Rightarrow> block list \<Rightarrow> (block list \<times> block \<times> block list) option" where
  "first_fit n [] = None"
| "first_fit n (b # bs) =
     (if n \<le> snd b then Some ([], b, bs)
      else map_option (\<lambda>(pre, c, post). (b # pre, c, post)) (first_fit n bs))"

section \<open>Well-formed free lists\<close>

abbreviation sizes :: "block list \<Rightarrow> nat" where
  "sizes bs \<equiv> sum_list (map snd bs)"

definition good_block :: "block \<Rightarrow> bool" where
  "good_block b \<longleftrightarrow> fst b mod 8 = 0 \<and> snd b mod 8 = 0 \<and> 8 \<le> snd b"

definition bytes_of :: "block \<Rightarrow> nat set" where
  "bytes_of b = {fst b ..< fst b + snd b}"

definition apart :: "block \<Rightarrow> block \<Rightarrow> bool" where
  "apart b c \<longleftrightarrow> fst b + snd b \<le> fst c \<or> fst c + snd c \<le> fst b"

text \<open>All blocks are good, lie in \<open>lo ..< hi\<close>, are sorted, and any two leave a gap.\<close>

fun gaps :: "nat \<Rightarrow> block list \<Rightarrow> nat \<Rightarrow> bool" where
  "gaps lo [] hi = True"
| "gaps lo (b # bs) hi \<longleftrightarrow> good_block b \<and> lo \<le> fst b \<and> fst b + snd b \<le> hi
     \<and> gaps (Suc (fst b + snd b)) bs hi"

lemma gaps_mono: "gaps lo bs hi \<Longrightarrow> lo' \<le> lo \<Longrightarrow> gaps lo' bs hi"
  by (cases bs) auto

lemma gaps_append:
  "gaps lo (xs @ ys) hi \<longleftrightarrow>
     gaps lo xs hi \<and> gaps (if xs = [] then lo else Suc (fst (last xs) + snd (last xs))) ys hi"
  by (induction xs arbitrary: lo) auto

lemma gaps_memD:
  "gaps lo bs hi \<Longrightarrow> b \<in> set bs \<Longrightarrow> good_block b \<and> lo \<le> fst b \<and> fst b + snd b \<le> hi"
  by (induction bs arbitrary: lo) fastforce+

lemma gaps_split:
  assumes "gaps lo (pre @ b # post) hi"
  shows "gaps lo pre hi" "gaps (Suc (fst b + snd b)) post hi" "good_block b"
    "lo \<le> fst b" "fst b + snd b \<le> hi" "\<forall>c\<in>set pre. fst c + snd c < fst b"
    "\<forall>c\<in>set post. fst b + snd b < fst c"
proof -
  have "gaps lo (pre @ b # post) hi \<Longrightarrow> lo \<le> fst b \<and> good_block b \<and> gaps lo pre hi
    \<and> gaps (Suc (fst b + snd b)) post hi \<and> fst b + snd b \<le> hi
    \<and> (\<forall>c\<in>set pre. fst c + snd c < fst b)"
    by (induction pre arbitrary: lo) (fastforce)+
  with assms show "gaps lo pre hi" "gaps (Suc (fst b + snd b)) post hi" "good_block b"
    "lo \<le> fst b" "fst b + snd b \<le> hi" "\<forall>c\<in>set pre. fst c + snd c < fst b" by auto
  then show "\<forall>c\<in>set post. fst b + snd b < fst c" using gaps_memD by fastforce
qed

lemma gaps_remove:
  assumes "gaps lo (pre @ b # post) hi"
  shows "gaps lo (pre @ post) hi"
  using assms
proof (induction pre arbitrary: lo)
  case Nil
  then show ?case by (auto intro: gaps_mono)
qed auto

lemma gaps_replace:
  assumes "gaps lo (pre @ (a, s) # post) hi" "good_block (a', s')" "a \<le> a'" "a' + s' \<le> a + s"
  shows "gaps lo (pre @ (a', s') # post) hi"
  using assms
proof (induction pre arbitrary: lo)
  case Nil
  then show ?case by (auto elim: gaps_mono)
qed auto

section \<open>Inserting a block\<close>

lemma sizes_join: "sizes (join b bs) = snd b + sizes bs"
  by (cases "(b, bs)" rule: join.cases) auto

lemma sizes_glue: "sizes (glue q b bs) = snd q + snd b + sizes bs"
  by (cases q; cases b) (auto simp: sizes_join)

lemma sizes_free_after: "sizes (free_after q bs b) = snd q + snd b + sizes bs"
  by (induction q bs b rule: free_after.induct) (auto simp: sizes_glue simp del: glue.simps)

lemma free_after_hd: "\<exists>ps' R. free_after (p, ps) bs b = (p, ps') # R"
proof -
  have glue: "\<exists>ps' R. glue (p, ps) b' bs' = (p, ps') # R" for b' bs'
    by (cases b'; cases bs') auto
  show ?thesis by (cases "((p, ps), bs, b)" rule: free_after.cases) (use glue in auto)
qed

lemma gaps_join:
  assumes "good_block b" "lo \<le> fst b" "fst b + snd b \<le> hi" "gaps (fst b + snd b) bs hi"
  shows "gaps lo (join b bs) hi"
  using assms by (cases "(b, bs)" rule: join.cases) (auto simp: good_block_def add.assoc)

lemma gaps_glue:
  assumes "good_block (p, ps)" "good_block b" "lo \<le> p" "p + ps \<le> fst b" "fst b + snd b \<le> hi"
    "gaps (fst b + snd b) bs hi"
  shows "gaps lo (glue (p, ps) b bs) hi"
proof (cases "p + ps = fst b")
  case True
  have "gaps lo (join (p, ps + snd b) bs) hi"
    using assms True by (intro gaps_join) (auto simp: good_block_def add.assoc [symmetric])
  with True show ?thesis by (cases b) auto
next
  case False
  have "gaps (Suc (p + ps)) (join b bs) hi" using assms False by (intro gaps_join) auto
  with False assms show ?thesis by (cases b) auto
qed

lemma gaps_free_after:
  assumes "gaps lo ((p, ps) # bs) hi" "good_block b" "p + ps \<le> fst b" "fst b + snd b \<le> hi"
    "\<forall>c\<in>set bs. apart b c"
  shows "gaps lo (free_after (p, ps) bs b) hi"
  using assms
proof (induction bs arbitrary: lo p ps)
  case Nil
  then show ?case by (cases b) (auto intro!: gaps_glue simp del: glue.simps)
next
  case (Cons d bs)
  obtain a s where d: "d = (a, s)" by (cases d)
  obtain c t where b: "b = (c, t)" by (cases b)
  show ?case
  proof (cases "a < c")
    case True
    have "gaps (Suc (p + ps)) (free_after (a, s) bs b) hi"
      using Cons.prems True d b by (intro Cons.IH) (auto simp: apart_def good_block_def)
    with Cons.prems True d b show ?thesis by auto
  next
    case False
    have "gaps (c + t) ((a, s) # bs) hi"
      using Cons.prems False d b by (auto simp: apart_def good_block_def)
    with Cons.prems False d b show ?thesis
      by (auto intro!: gaps_glue simp del: glue.simps)
  qed
qed

lemma gaps_free_insert:
  assumes "gaps lo bs hi" "root < lo" "good_block b" "lo \<le> fst b" "fst b + snd b \<le> hi"
    "\<forall>c\<in>set bs. apart b c"
  shows "gaps lo (free_insert root bs b) hi"
proof (cases bs)
  case Nil
  with assms show ?thesis by (cases b) (auto simp: free_insert_def)
next
  case (Cons d ds)
  obtain a s where d: "d = (a, s)" by (cases d)
  obtain c t where b: "b = (c, t)" by (cases b)
  show ?thesis
  proof (cases "a < c")
    case True
    have "gaps lo (free_after (a, s) ds b) hi"
      using assms Cons True d b by (intro gaps_free_after) (auto simp: apart_def good_block_def)
    with True Cons d b show ?thesis by (simp add: free_insert_def)
  next
    case False
    have "gaps lo (join b (d # ds)) hi"
      using assms Cons False d b by (intro gaps_join) (auto simp: apart_def good_block_def)
    with False Cons d b assms(2,4) show ?thesis by (simp add: free_insert_def)
  qed
qed

lemma free_after_root:
  "root < fst b \<Longrightarrow> free_after (root, 0) bs b = (root, 0) # free_insert root bs b"
  by (cases b; cases "((root, 0 :: nat), bs, b)" rule: free_after.cases)
    (auto simp: free_insert_def)

lemma sizes_free_insert: "root < fst b \<Longrightarrow> sizes (free_insert root bs b) = snd b + sizes bs"
  using sizes_free_after [of "(root, 0)" bs b] by (simp add: free_after_root)

text \<open>A block apart from everything that is merged is apart from the result.\<close>

definition clear_of :: "block \<Rightarrow> block list \<Rightarrow> bool" where
  "clear_of d bs \<longleftrightarrow> (\<forall>b\<in>set bs. apart b d)"

lemma clear_of_simps [simp]:
  "clear_of d []" "clear_of d (b # bs) \<longleftrightarrow> apart b d \<and> clear_of d bs"
  "clear_of d (xs @ ys) \<longleftrightarrow> clear_of d xs \<and> clear_of d ys"
  by (auto simp: clear_of_def)

lemma apart_merge: "0 < snd d \<Longrightarrow> apart (c, t) d \<Longrightarrow> apart (c + t, s) d \<Longrightarrow> apart (c, t + s) d"
  by (auto simp: apart_def)

lemma clear_join: "0 < snd d \<Longrightarrow> apart b d \<Longrightarrow> clear_of d bs \<Longrightarrow> clear_of d (join b bs)"
  by (cases "(b, bs)" rule: join.cases) (auto intro: apart_merge)

lemma clear_glue:
  "0 < snd d \<Longrightarrow> apart q d \<Longrightarrow> apart b d \<Longrightarrow> clear_of d bs \<Longrightarrow> clear_of d (glue q b bs)"
  by (cases q; cases b) (auto intro!: clear_join intro: apart_merge)

lemma clear_free_after:
  "0 < snd d \<Longrightarrow> clear_of d (q # bs) \<Longrightarrow> apart b d \<Longrightarrow> clear_of d (free_after q bs b)"
  by (induction q bs b rule: free_after.induct) (auto intro: clear_glue simp del: glue.simps)

lemma clear_free_insert:
  assumes "0 < snd d" "root \<le> fst d" "root < fst b" "clear_of d bs" "apart b d"
  shows "clear_of d (free_insert root bs b)"
  using clear_free_after [of d "(root, 0)" bs b] assms
  by (simp add: free_after_root apart_def)

text \<open>Inserting into a gap that touches neither neighbour merges nothing.\<close>

lemma join_gap: "gaps (Suc (fst b + snd b)) bs hi \<Longrightarrow> join b bs = b # bs"
  by (cases "(b, bs)" rule: join.cases) auto

lemma free_after_gap:
  assumes "\<forall>c\<in>set ((p, ps) # pre). fst c + snd c < fst b" "gaps (Suc (fst b + snd b)) post hi"
  shows "free_after (p, ps) (pre @ post) b = (p, ps) # pre @ b # post"
  using assms
proof (induction pre arbitrary: p ps)
  case Nil
  then show ?case by (cases b; cases post) (auto simp: join_gap)
next
  case (Cons d pre)
  then show ?case by (cases b; cases d) auto
qed

lemma free_insert_gap:
  assumes "root < fst b" "\<forall>c\<in>set pre. fst c + snd c < fst b" "gaps (Suc (fst b + snd b)) post hi"
  shows "free_insert root (pre @ post) b = pre @ b # post"
  using free_after_gap [of root 0 pre b post hi] assms by (auto simp: free_insert_def)

section \<open>Finding a block\<close>

lemma first_fit_Some:
  "first_fit n bs = Some (pre, b, post) \<Longrightarrow>
   bs = pre @ b # post \<and> n \<le> snd b \<and> (\<forall>c\<in>set pre. snd c < n)"
  by (induction bs arbitrary: pre) (fastforce split: if_splits)+

lemma first_fit_None: "first_fit n bs = None \<longleftrightarrow> (\<forall>b\<in>set bs. snd b < n)"
  by (induction bs) auto

end
