(* ===== verification/Mem_Core.thy ===== *)
theory Mem_Core
  imports Free_List
begin

text \<open>
  The physical memory allocator of \<^verbatim>\<open>mm/mm.c\<close>. Its free lists are threaded through the memory
  they manage: a \<^verbatim>\<open>struct mm_node\<close> at address \<open>a\<close> is the two little-endian words at \<open>a\<close>
  (\<^verbatim>\<open>next\<close>) and \<open>a + 4\<close> (\<^verbatim>\<open>size\<close>) of the byte memory, so that all aliasing of headers and
  payload is that of the machine. The addresses the linker chooses (\<^verbatim>\<open>_heap_s\<close>, \<^verbatim>\<open>_heap_e\<close> and
  those of the \<^verbatim>\<open>root_obj\<close> fields) are parameters.
\<close>

section \<open>Block headers\<close>

definition mm_next :: "mem \<Rightarrow> u32 \<Rightarrow> u32" where
  "mm_next m a = load32 m a"

definition mm_size :: "mem \<Rightarrow> u32 \<Rightarrow> u32" where
  "mm_size m a = load32 m (a + 4)"

definition set_mm_next :: "u32 \<Rightarrow> u32 \<Rightarrow> mem \<Rightarrow> mem" where
  "set_mm_next a v m = store32 m a v"

definition set_mm_size :: "u32 \<Rightarrow> u32 \<Rightarrow> mem \<Rightarrow> mem" where
  "set_mm_size a v m = store32 m (a + 4) v"

definition mm_get_region :: "u32 \<Rightarrow> u32" where
  "mm_get_region size' = drop_bit 28 size' AND 15"

definition mm_set_region :: "u32 \<Rightarrow> u32 \<Rightarrow> u32" where
  "mm_set_region size' physmem = (size' AND NOT (push_bit 28 15)) OR push_bit 28 physmem"

definition mm_get_size :: "u32 \<Rightarrow> u32" where
  "mm_get_size size' = size' AND 0xFFFFFFF"

definition mm_set_size :: "u32 \<Rightarrow> u32 \<Rightarrow> u32" where
  "mm_set_size size' new_size = (size' AND NOT 0xFFFFFFF) OR new_size"

section \<open>The physical memories\<close>

record physmem =
  start_addr :: u32
  end_addr :: u32
  pm_size :: u32
  allocated :: u32
  min_alloc :: u32
  pm_name :: string
  root_node :: u32
  last_node :: u32
  root_obj :: u32 \<comment> \<open>the address of the embedded \<^verbatim>\<open>root_obj\<close>\<close>

definition static_physmem :: "u32 \<Rightarrow> u32 \<Rightarrow> string \<Rightarrow> u32 \<Rightarrow> u32 \<Rightarrow> physmem" where
  "static_physmem s e n mn r = \<lparr>start_addr = s, end_addr = e, pm_size = 0, allocated = 0,
     min_alloc = mn, pm_name = n, root_node = 0, last_node = 0, root_obj = r\<rparr>"

definition sram :: "u32 \<Rightarrow> physmem" where
  "sram = static_physmem 0 0 ''SRAM'' 16"

definition dram_bank_1 :: "u32 \<Rightarrow> physmem" where
  "dram_bank_1 = static_physmem 0x70000000 0x7007FFFF ''DRAM bank 1'' 256"

definition dram_bank_2 :: "u32 \<Rightarrow> physmem" where
  "dram_bank_2 = static_physmem 0x70080000 0x700FFFFF ''DRAM bank 2'' 256"

definition dram_bank_3 :: "u32 \<Rightarrow> physmem" where
  "dram_bank_3 = static_physmem 0x70100000 0x7017FFFF ''DRAM bank 3'' 256"

definition dram_bank_4 :: "u32 \<Rightarrow> physmem" where
  "dram_bank_4 = static_physmem 0x70180000 0x701FFFFF ''DRAM bank 4'' 256"

text \<open>
  \<^verbatim>\<open>physical_memories\<close> ends with a null pointer; the list holds the entries before it, and
  indexing past them is the null dereference (index 5) or an access out of bounds.
\<close>

definition physical_memories :: "(nat \<Rightarrow> u32) \<Rightarrow> physmem list" where
  "physical_memories root_addr =
     [sram (root_addr 0), dram_bank_1 (root_addr 1), dram_bank_2 (root_addr 2),
      dram_bank_3 (root_addr 3), dram_bank_4 (root_addr 4)]"

record mm_state =
  mm_mem :: mem
  mm_regions :: "physmem list"

definition get_physmem :: "nat \<Rightarrow> mm_state \<Rightarrow> physmem res" where
  "get_physmem i st = (if i < length (mm_regions st) then Inr (mm_regions st ! i) else Inl NullDeref)"

section \<open>Initialization\<close>

text \<open>The erase loop, byte by byte; the pointers are compared for equality and wrap around.\<close>

function clear_bytes :: "u32 \<Rightarrow> u32 \<Rightarrow> mem \<Rightarrow> mem" where
  "clear_bytes clear_start clear_end m =
     (if clear_start = clear_end then m
      else clear_bytes (clear_start + 1) clear_end (m(clear_start := 0)))"
  by pat_completeness auto
termination
proof (relation "measure (\<lambda>(s, e, m). unat (e - s))")
  fix s e :: u32 and m :: mem
  assume "s \<noteq> e"
  then have "unat (e - s - 1) < unat (e - s)" by (intro measure_unat) simp
  then show "((s + 1, e, m(s := 0)), s, e, m) \<in> measure (\<lambda>(s, e, m). unat (e - s))"
    by (simp add: diff_diff_eq)
qed simp

declare clear_bytes.simps [simp del]

definition mm_init_region :: "u32 \<Rightarrow> u32 \<Rightarrow> u32 \<Rightarrow> mem \<times> physmem \<Rightarrow> mem \<times> physmem" where
  "mm_init_region heap_s heap_e index = (\<lambda>(m, pm).
     let pm1 = (if start_addr pm = 0 \<and> end_addr pm = 0
                then pm\<lparr>start_addr := heap_s, end_addr := heap_e\<rparr> else pm);
         m1 = clear_bytes (start_addr pm1) (end_addr pm1) m;
         pm2 = (if start_addr pm1 AND 7 \<noteq> 0
                then pm1\<lparr>start_addr := (start_addr pm1 + 8) AND NOT 7\<rparr> else pm1);
         pm3 = (if end_addr pm2 AND 7 \<noteq> 0
                then pm2\<lparr>end_addr := end_addr pm2 AND NOT 7\<rparr> else pm2);
         node_start = start_addr pm3;
         node_end = end_addr pm3 - 8;
         pm4 = pm3\<lparr>pm_size := end_addr pm3 - 8 - start_addr pm3\<rparr>;
         m2 = set_mm_size (root_obj pm4) 0 m1;
         m3 = set_mm_next (root_obj pm4) node_start m2;
         pm5 = pm4\<lparr>last_node := node_end, root_node := root_obj pm4\<rparr>;
         m4 = set_mm_next node_start node_end m3;
         m5 = set_mm_size node_start (mm_set_size 0 (pm_size pm5)) m4;
         m6 = set_mm_size node_start (mm_set_region (mm_size m5 node_start) index) m5;
         m7 = set_mm_next node_end 0 m6;
         m8 = set_mm_size node_end 0 m7
     in (m8, pm5\<lparr>allocated := 0\<rparr>))"

fun mm_init_from :: "u32 \<Rightarrow> u32 \<Rightarrow> u32 \<Rightarrow> mem \<Rightarrow> physmem list \<Rightarrow> mem \<times> physmem list" where
  "mm_init_from heap_s heap_e index m [] = (m, [])"
| "mm_init_from heap_s heap_e index m (pm # pms) =
     (let (m', pm') = mm_init_region heap_s heap_e index (m, pm);
          (m'', pms') = mm_init_from heap_s heap_e (index + 1) m' pms
      in (m'', pm' # pms'))"

definition mm_init :: "u32 \<Rightarrow> u32 \<Rightarrow> mm_state \<Rightarrow> mm_state" where
  "mm_init heap_s heap_e st =
     (let (m, pms) = mm_init_from heap_s heap_e 0 (mm_mem st) (mm_regions st)
      in \<lparr>mm_mem = m, mm_regions = pms\<rparr>)"

section \<open>Inserting into the free list\<close>

partial_function (option) insert_scan :: "mem \<Rightarrow> u32 \<Rightarrow> u32 \<Rightarrow> u32 option" where
  "insert_scan m node iter =
     (if mm_next m iter < node then insert_scan m node (mm_next m iter) else Some iter)"

text \<open>What follows the loop: merge backwards, merge forwards, link.\<close>

definition insert_at :: "u32 \<Rightarrow> u32 \<Rightarrow> u32 \<Rightarrow> mem \<Rightarrow> mem" where
  "insert_at node iter last' m =
     (let iter_size = mm_get_size (mm_size m iter);
          insert_size = mm_get_size (mm_size m node);
          (m1, node1) =
            (if iter + iter_size = node
             then (set_mm_size iter (mm_size m iter + insert_size) m, iter) else (m, node));
          next_size = mm_get_size (mm_size m1 (mm_next m1 iter));
          insert_size1 = mm_get_size (mm_size m1 node1);
          m2 =
            (if node1 + insert_size1 = mm_next m1 iter then
               (if mm_next m1 iter = last' then set_mm_next node1 last' m1
                else
                  (let m' = set_mm_size node1 (mm_size m1 node1 + next_size) m1
                   in set_mm_next node1 (mm_next m' (mm_next m' iter)) m'))
             else set_mm_next node1 (mm_next m1 iter) m1)
      in if node1 \<noteq> iter then set_mm_next iter node1 m2 else m2)"

definition mm_list_insert :: "u32 \<Rightarrow> u32 \<Rightarrow> u32 \<Rightarrow> mem \<Rightarrow> mem res" where
  "mm_list_insert node root last' m =
     (if node < root \<or> last' < node then Inl (Panic ''Memory list error'')
      else rbind (returns (insert_scan m node root)) (\<lambda>iter. Inr (insert_at node iter last' m)))"

section \<open>Allocating and freeing\<close>

partial_function (option) alloc_scan :: "mem \<Rightarrow> u32 \<Rightarrow> u32 \<Rightarrow> u32 \<Rightarrow> (u32 \<times> u32) option" where
  "alloc_scan m size' iter_prev iter =
     (if mm_next m iter \<noteq> 0 then
        (if size' \<le> mm_get_size (mm_size m iter) then Some (iter_prev, iter)
         else alloc_scan m size' iter (mm_next m iter))
      else Some (iter_prev, iter))"

text \<open>The size of the block an allocation takes: header, minimum, alignment.\<close>

definition block_size :: "u32 \<Rightarrow> u32 \<Rightarrow> u32" where
  "block_size mn size' =
     (let size1 = size' + 8;
          size2 = (if size1 < mn then mn else size1)
      in if size2 AND 7 \<noteq> 0 then (size2 + 8) AND NOT 7 else size2)"

definition mm_alloc :: "u32 \<Rightarrow> nat \<Rightarrow> mm_state \<Rightarrow> (u32 \<times> mm_state) res" where
  "mm_alloc size0 index st =
     rbind (get_physmem index st) (\<lambda>pm.
       let m = mm_mem st; size' = block_size (min_alloc pm) size0
       in if pm_size pm - allocated pm < size' then Inr (0, st)
          else rbind (returns (alloc_scan m size' (root_node pm) (mm_next m (root_node pm))))
            (\<lambda>(iter_prev, iter).
              if mm_next m iter = 0 then Inr (0, st)
              else
                (let curr_block_size = mm_get_size (mm_size m iter);
                     m1 = set_mm_next iter_prev (mm_next m iter) m
                 in rbind
                   (if size' + min_alloc pm \<le> curr_block_size then
                      (let new_node = iter + size';
                           m2 = set_mm_size new_node
                             (mm_set_region (mm_size m1 new_node) (of_nat index)) m1;
                           m3 = set_mm_size new_node
                             (mm_set_size (mm_size m2 new_node) (curr_block_size - size')) m2;
                           pm' = pm\<lparr>allocated := allocated pm + size'\<rparr>;
                           m4 = set_mm_size iter (mm_set_size (mm_size m3 iter) size') m3
                       in rbind (mm_list_insert new_node (root_node pm) (last_node pm) m4)
                            (\<lambda>m5. Inr (m5, pm')))
                    else Inr (m1, pm\<lparr>allocated := allocated pm + curr_block_size\<rparr>))
                   (\<lambda>(m6, pm').
                     Inr (iter + 8,
                       \<lparr>mm_mem = set_mm_next iter 0xC0DEBABE m6,
                        mm_regions = (mm_regions st)[index := pm']\<rparr>)))))"

definition mm_free :: "u32 \<Rightarrow> mm_state \<Rightarrow> mm_state res" where
  "mm_free memory st =
     (if memory = 0 then Inl (Panic ''Trying to free NULL pointer'')
      else
        (let node = memory - 8; m = mm_mem st
         in if mm_next m node \<noteq> 0xC0DEBABE then Inl (Panic ''Pointer not made by mm_alloc*'')
            else
              (let i = unat (mm_get_region (mm_size m node))
               in rbind (get_physmem i st) (\<lambda>region.
                 let region' = region\<lparr>allocated := allocated region - mm_get_size (mm_size m node)\<rparr>
                 in rbind (mm_list_insert node (root_node region') (last_node region') m) (\<lambda>m'.
                   Inr \<lparr>mm_mem = m', mm_regions = (mm_regions st)[i := region']\<rparr>)))))"

definition mm_get_total :: "nat \<Rightarrow> mm_state \<Rightarrow> u32 res" where
  "mm_get_total i st = rbind (get_physmem i st) (\<lambda>pm. Inr (pm_size pm))"

definition mm_get_used :: "nat \<Rightarrow> mm_state \<Rightarrow> u32 res" where
  "mm_get_used i st = rbind (get_physmem i st) (\<lambda>pm. Inr (allocated pm))"

definition mm_get_free :: "nat \<Rightarrow> mm_state \<Rightarrow> u32 res" where
  "mm_get_free i st = rbind (get_physmem i st) (\<lambda>pm. Inr (pm_size pm - allocated pm))"

definition mm_get_frag :: "nat \<Rightarrow> mm_state \<Rightarrow> u32 res" where
  "mm_get_frag i st = Inr 0"

end
