(* ===== verification/Mem_Header.thy ===== *)
theory Mem_Header
  imports Mem_Core
begin

text \<open>
  Block headers in the byte memory, and that \<open>mm_list_insert\<close> implements \<^const>\<open>free_insert\<close>. Header
  words are pairs of a region number and a size (\<open>hdr\<close>), free lists in memory are described by
  \<open>links\<close>, and \<open>insert_refines\<close> is the simulation: scanning and merging in memory computes
  \<^const>\<open>free_after\<close> and touches nothing but headers of free blocks.
\<close>

abbreviation W :: "nat \<Rightarrow> u32" where
  "W n \<equiv> of_nat n"

lemma unat_W [simp]: "n < 2 ^ 32 \<Longrightarrow> unat (W n) = n"
  by (simp add: unat_of_nat take_bit_nat_eq_self)

lemma W_unat [simp]: "W (unat x) = x"
  by simp

lemma W_eq_iff: "a < 2 ^ 32 \<Longrightarrow> b < 2 ^ 32 \<Longrightarrow> W a = W b \<longleftrightarrow> a = b"
  by (metis unat_W)

lemma W_less_iff: "a < 2 ^ 32 \<Longrightarrow> b < 2 ^ 32 \<Longrightarrow> W a < W b \<longleftrightarrow> a < b"
  by (simp add: word_less_nat_alt)

lemma W_le_iff: "a < 2 ^ 32 \<Longrightarrow> b < 2 ^ 32 \<Longrightarrow> W a \<le> W b \<longleftrightarrow> a \<le> b"
  by (simp add: word_le_nat_alt)

section \<open>Header words\<close>

definition hdr :: "nat \<Rightarrow> nat \<Rightarrow> u32" where
  "hdr i s = push_bit 28 (W i) OR W s"

lemma nat_bit_less: "s < 2 ^ k \<Longrightarrow> bit s n \<Longrightarrow> n < k" for s :: nat
  by (metis bit_take_bit_iff take_bit_nat_eq_self)

lemma low_bits: "s < 268435456 \<Longrightarrow> bit s n \<Longrightarrow> n < 28" for s :: nat
  using nat_bit_less [of s 28 n] by simp

lemma mask28: "(0xFFFFFFF :: u32) = mask 28"
  by (simp add: mask_eq_exp_minus_1)

lemma mask4: "(15 :: u32) = mask 4"
  by (simp add: mask_eq_exp_minus_1)

lemma mm_get_size_hdr [simp]: "s < 2 ^ 28 \<Longrightarrow> mm_get_size (hdr i s) = W s"
  by (rule bit_word_eqI) (auto simp: mm_get_size_def hdr_def mask28 bit_simps dest: low_bits)

lemma mm_get_region_hdr [simp]:
  "s < 2 ^ 28 \<Longrightarrow> i < 16 \<Longrightarrow> mm_get_region (hdr i s) = W i"
  using nat_bit_less [of i 4]
  by (intro bit_word_eqI)
    (auto simp: mm_get_region_def hdr_def mask4 bit_simps dest: low_bits)

lemma hdr_add: "s + t < 2 ^ 28 \<Longrightarrow> hdr i s + W t = hdr i (s + t)"
proof -
  assume st: "s + t < 2 ^ 28"
  have eq: "hdr i r = push_bit 28 (W i) + W r" if "r < 2 ^ 28" for r
    unfolding hdr_def
    by (rule disjunctive_add [symmetric]) (use that in \<open>auto simp: bit_simps dest: low_bits\<close>)
  show ?thesis using st by (simp add: eq)
qed

lemma mm_set_size_region:
  "s < 2 ^ 28 \<Longrightarrow> mm_set_size (mm_set_region x (W i)) (W s) = hdr i s"
  by (rule bit_word_eqI)
    (auto simp: mm_set_size_def mm_set_region_def hdr_def mask28 mask4 bit_simps dest: low_bits)

lemma mm_set_size_hdr: "s < 2 ^ 28 \<Longrightarrow> mm_set_size (hdr i s) (W t) = hdr i t"
  by (rule bit_word_eqI)
    (auto simp: mm_set_size_def hdr_def mask28 bit_simps dest: low_bits)

lemma mm_set_region_size:
  "s < 2 ^ 28 \<Longrightarrow> mm_set_region (mm_set_size 0 (W s)) (W i) = hdr i s"
  by (rule bit_word_eqI)
    (auto simp: mm_set_size_def mm_set_region_def hdr_def mask28 mask4 bit_simps dest: low_bits)


section \<open>Headers in memory\<close>

definition span :: "nat \<Rightarrow> nat \<Rightarrow> u32 set" where
  "span lo hi = W ` {lo ..< hi}"

abbreviation header :: "nat \<Rightarrow> u32 set" where
  "header a \<equiv> span a (a + 8)"

definition far :: "nat \<Rightarrow> nat \<Rightarrow> bool" where
  "far a b \<longleftrightarrow> a + 8 \<le> b \<or> b + 8 \<le> a"

lemma span_disjoint:
  "hi \<le> lo' \<or> hi' \<le> lo \<Longrightarrow> hi \<le> 2 ^ 32 \<Longrightarrow> hi' \<le> 2 ^ 32 \<Longrightarrow> span lo hi \<inter> span lo' hi' = {}"
  by (auto simp: span_def W_eq_iff)

lemma span_mono: "lo' \<le> lo \<Longrightarrow> hi \<le> hi' \<Longrightarrow> span lo hi \<subseteq> span lo' hi'"
  by (auto simp: span_def)

lemma word_at_span: "word_at (W a) = span a (a + 4)"
proof -
  have "{a ..< a + 4} = {a, a + 1, a + 2, a + 3}" by auto
  then show ?thesis by (simp add: word_at_def span_def ac_simps)
qed

lemma W_plus4: "W a + 4 = W (a + 4)" by simp

lemma word_at_far:
  assumes "far a b" "a + 8 \<le> 2 ^ 32" "b + 8 \<le> 2 ^ 32" "i \<in> {0, 4}" "j \<in> {0, 4}"
  shows "word_at (W (a + i)) \<inter> word_at (W (b + j)) = {}"
  unfolding word_at_span by (rule span_disjoint) (use assms in \<open>auto simp: far_def\<close>)

lemma word_at_near:
  assumes "a + 8 \<le> 2 ^ 32"
  shows "word_at (W a) \<inter> word_at (W (a + 4)) = {}" "word_at (W (a + 4)) \<inter> word_at (W a) = {}"
  unfolding word_at_span by (rule span_disjoint; use assms in auto)+

named_theorems hdr_simps \<open>reading a header after writing one\<close>

lemma header_same [hdr_simps]:
  "mm_next (set_mm_next x v m) x = v" "mm_size (set_mm_size x v m) x = v"
  by (simp_all add: mm_next_def mm_size_def set_mm_next_def set_mm_size_def)

lemma header_near [hdr_simps]:
  "a + 8 \<le> 2 ^ 32 \<Longrightarrow> mm_next (set_mm_size (W a) v m) (W a) = mm_next m (W a)"
  "a + 8 \<le> 2 ^ 32 \<Longrightarrow> mm_size (set_mm_next (W a) v m) (W a) = mm_size m (W a)"
  unfolding mm_next_def mm_size_def set_mm_next_def set_mm_size_def W_plus4
  by (rule load32_store32_other, rule word_at_near, assumption)+

lemma header_far [hdr_simps]:
  assumes "far a b" "a + 8 \<le> 2 ^ 32" "b + 8 \<le> 2 ^ 32"
  shows "mm_next (set_mm_next (W a) v m) (W b) = mm_next m (W b)"
    "mm_next (set_mm_size (W a) v m) (W b) = mm_next m (W b)"
    "mm_size (set_mm_next (W a) v m) (W b) = mm_size m (W b)"
    "mm_size (set_mm_size (W a) v m) (W b) = mm_size m (W b)"
  unfolding mm_next_def mm_size_def set_mm_next_def set_mm_size_def W_plus4
  using word_at_far [OF assms, of 0 0] word_at_far [OF assms, of 0 4]
    word_at_far [OF assms, of 4 0] word_at_far [OF assms, of 4 4]
  by (auto intro!: load32_store32_other)

lemma word_at_header: "word_at (W a) \<subseteq> header a" "word_at (W a + 4) \<subseteq> header a"
  unfolding W_plus4 word_at_span by (simp_all only: span_def) (intro image_mono; force)+

lemma header_outside [hdr_simps]:
  assumes "b \<notin> header a"
  shows "set_mm_next (W a) v m b = m b" "set_mm_size (W a) v m b = m b"
proof -
  have "b \<notin> word_at (W a)" "b \<notin> word_at (W a + 4)"
    using assms word_at_header by auto
  then show "set_mm_next (W a) v m b = m b" "set_mm_size (W a) v m b = m b"
    by (simp_all add: set_mm_next_def set_mm_size_def)
qed

lemma header_cong:
  assumes "\<And>b. b \<in> header a \<Longrightarrow> m' b = m b"
  shows "mm_next m' (W a) = mm_next m (W a)" "mm_size m' (W a) = mm_size m (W a)"
  using assms word_at_header [of a] unfolding mm_next_def mm_size_def
  by (auto intro!: load32_cong)

section \<open>Linked free lists\<close>

fun links :: "nat \<Rightarrow> mem \<Rightarrow> nat \<Rightarrow> block list \<Rightarrow> nat \<Rightarrow> bool" where
  "links i m p [] q \<longleftrightarrow> mm_next m (W p) = W q"
| "links i m p ((a, s) # bs) q \<longleftrightarrow>
     mm_next m (W p) = W a \<and> mm_size m (W a) = hdr i s \<and> links i m a bs q"

definition same_header :: "mem \<Rightarrow> mem \<Rightarrow> nat \<Rightarrow> bool" where
  "same_header m m' a \<longleftrightarrow> mm_next m' (W a) = mm_next m (W a) \<and> mm_size m' (W a) = mm_size m (W a)"

lemma links_start:
  assumes "links i m a bs q" "mm_next m' (W p) = mm_next m (W a)"
    "\<forall>b\<in>set bs. same_header m m' (fst b)"
  shows "links i m' p bs q"
  using assms
proof (induction i m a bs q arbitrary: p rule: links.induct)
  case (2 i m a c s bs q)
  have "links i m' c bs q" using 2(2-) by (intro 2(1)) (auto simp: same_header_def)
  with 2(2-) show ?case by (simp add: same_header_def)
qed simp

lemma links_append:
  "links i m p (xs @ (a, s) # ys) q \<longleftrightarrow> links i m p xs a \<and> mm_size m (W a) = hdr i s \<and> links i m a ys q"
  by (induction xs arbitrary: p) auto


section \<open>Inserting implements the specification\<close>

definition first_addr :: "block list \<Rightarrow> nat \<Rightarrow> nat" where
  "first_addr bs q = (case bs of [] \<Rightarrow> q | b # _ \<Rightarrow> fst b)"

lemma links_first: "links i m p bs q \<Longrightarrow> mm_next m (W p) = W (first_addr bs q)"
  by (cases bs) (auto simp: first_addr_def)

text \<open>What an insertion below \<open>bs\<close> and above \<open>(p, ps)\<close> produces, and what it leaves alone.\<close>

definition inserted :: "nat \<Rightarrow> nat \<Rightarrow> nat \<Rightarrow> block list \<Rightarrow> nat \<Rightarrow> nat \<Rightarrow> mem \<Rightarrow> mem \<Rightarrow> block list \<Rightarrow> bool" where
  "inserted i p ps bs q c m m' R \<longleftrightarrow>
     links i m' p (tl R) q
     \<and> mm_size m' (W p) = (if ps = 0 then mm_size m (W p) else hdr i (snd (hd R)))
     \<and> (\<forall>b. b \<notin> header p \<and> b \<notin> header c \<and> (\<forall>d\<in>set bs. b \<notin> header (fst d)) \<longrightarrow> m' b = m b)"

text \<open>The situation in which a block \<open>(c, t)\<close> is inserted above \<open>(p, ps)\<close>.\<close>

definition insertable :: "nat \<Rightarrow> nat \<Rightarrow> nat \<Rightarrow> block list \<Rightarrow> nat \<Rightarrow> nat \<Rightarrow> nat \<Rightarrow> mem \<Rightarrow> bool" where
  "insertable i p ps bs q c t m \<longleftrightarrow>
     links i m p bs q \<and> gaps (p + max 8 ps) bs q
     \<and> p + max 8 ps \<le> c \<and> good_block (c, t) \<and> c + t \<le> q \<and> (\<forall>d\<in>set bs. apart (c, t) d)
     \<and> mm_get_size (mm_size m (W p)) = W ps \<and> (ps = 0 \<or> mm_size m (W p) = hdr i ps)
     \<and> mm_size m (W c) = hdr i t \<and> ps + t + sizes bs < 2 ^ 28 \<and> q + 8 \<le> 2 ^ 32"

lemma insertable_far:
  assumes "insertable i p ps bs q c t m" "c + t \<le> first_addr bs q" "(a, s) \<in> set bs"
  shows "far p a" "far c a" "far a p" "far a c" "a + 8 \<le> 2 ^ 32" "a + s \<le> q" "s < 2 ^ 28" "a < q"
proof -
  have g: "gaps (p + max 8 ps) bs q" using assms by (simp add: insertable_def)
  have b: "good_block (a, s)" "p + max 8 ps \<le> a" "a + s \<le> q"
    using gaps_memD [OF g assms(3)] by auto
  have "first_addr bs q \<le> a"
  proof (cases bs)
    case (Cons b bs')
    with g have "gaps (fst b) bs q" by simp
    with gaps_memD [OF this assms(3)] Cons show ?thesis by (simp add: first_addr_def)
  qed (use assms(3) in simp)
  moreover have "8 \<le> t" using assms by (simp add: insertable_def good_block_def)
  ultimately show "far p a" "far c a" "far a p" "far a c" using b assms(2) by (auto simp: far_def)
  show "a + 8 \<le> 2 ^ 32" "a + s \<le> q" "a < q" using b assms(1) by (auto simp: insertable_def good_block_def)
  have "s \<le> sizes bs" using assms(3) by (force intro: member_le_sum_list)
  then show "s < 2 ^ 28" using assms(1) by (simp add: insertable_def)
qed

lemma insert_at_glue:
  assumes ins: "insertable i p ps bs q c t m" and above: "c + t \<le> first_addr bs q"
  shows "inserted i p ps bs q c m (insert_at (W c) (W p) (W q) m) (glue (p, ps) (c, t) bs)"
proof -
  define n where "n = first_addr bs q"
  have lim: "p + 8 \<le> c" "p + ps \<le> c" "8 \<le> t" "c + t \<le> q" "q + 8 \<le> 2 ^ 32" "ps + t < 2 ^ 28"
    "mm_size m (W c) = hdr i t" "c + t \<le> n" "mm_get_size (mm_size m (W p)) = W ps"
    using ins above by (auto simp: insertable_def good_block_def n_def)
  note far_bs = insertable_far [OF ins above]
  have n: "n \<le> q" "mm_next m (W p) = W n"
    using ins far_bs(8) [of "fst (hd bs)" "snd (hd bs)"]
    by (auto simp: insertable_def links_first n_def first_addr_def split: list.split)
  have fars: "far p c" "far p n" "far c n" "far c p" "n + 8 \<le> 2 ^ 32" "c + 8 \<le> 2 ^ 32" "p + 8 \<le> 2 ^ 32"
    using lim n by (auto simp: far_def)
  define bk where "bk \<longleftrightarrow> p + ps = c"
  have bk: "W p + W ps = W c \<longleftrightarrow> bk"
    using W_eq_iff [of "p + ps" c] lim by (simp add: bk_def)
  have bk_ps: "bk \<Longrightarrow> ps \<noteq> 0" "bk \<Longrightarrow> mm_size m (W p) = hdr i ps"
    using ins lim by (auto simp: bk_def insertable_def)
  define m1 where "m1 = (if bk then set_mm_size (W p) (hdr i (ps + t)) m else m)"
  define nd where "nd = (if bk then p else c)"
  define nt where "nt = (if bk then ps + t else t)"
  have m1: "mm_next m1 (W p) = W n" "mm_size m1 (W nd) = hdr i nt"
    "mm_size m1 (W n) = mm_size m (W n)" "mm_next m1 (W n) = mm_next m (W n)"
    using fars lim n by (auto simp: m1_def nd_def nt_def hdr_simps)
  have fw: "W nd + W nt = W n \<longleftrightarrow> nd + nt = n" "W n = W q \<longleftrightarrow> n = q"
    using W_eq_iff [of "nd + nt" n] W_eq_iff [of n q] lim fars n
    by (simp_all add: nd_def nt_def bk_def split: if_splits)
  have nd: "nd + 8 \<le> 2 ^ 32" "far nd n" "nt < 2 ^ 28" "W nd \<noteq> W p \<longleftrightarrow> \<not> bk"
    using fars lim W_eq_iff [of c p] by (auto simp: nd_def nt_def)
  define m2 where "m2 = (if nd + nt = n \<and> n \<noteq> q
    then set_mm_next (W nd) (mm_next m (W n))
      (set_mm_size (W nd) (hdr i nt + mm_get_size (mm_size m (W n))) m1)
    else set_mm_next (W nd) (W n) m1)"
  have p_next: "mm_next (set_mm_size (W nd) v m1) (W p) = W n" for v
    using fars m1 by (auto simp: nd_def hdr_simps)
  have step1: "(if bk then (set_mm_size (W p) (mm_size m (W p) + W t) m, W p) else (m, W c)) = (m1, W nd)"
    using bk_ps lim by (auto simp: m1_def nd_def hdr_add)
  define m3 where "m3 = (if bk then m2 else set_mm_next (W p) (W nd) m2)"
  have eq: "insert_at (W c) (W p) (W q) m = m3"
    using lim nd fars
    by (simp add: insert_at_def Let_def bk step1 m1 fw p_next m2_def m3_def hdr_simps)
  have m3_nd: "mm_next m3 (W nd) = (if nd + nt = n \<and> n \<noteq> q then mm_next m (W n) else W n)"
    "mm_size m3 (W nd) = (if nd + nt = n \<and> n \<noteq> q
       then hdr i nt + mm_get_size (mm_size m (W n)) else hdr i nt)"
    using fars nd m1 by (auto simp: m3_def m2_def nd_def hdr_simps)
  have same: "\<forall>d\<in>set bs. same_header m m3 (fst d)"
  proof
    fix d assume "d \<in> set bs"
    then show "same_header m m3 (fst d)"
      using far_bs(1,2,5) [of "fst d" "snd d"] fars nd
      by (simp add: same_header_def m3_def m2_def m1_def nd_def hdr_simps)
  qed
  have *: "links i m3 nd (tl (join (nd, nt) bs)) q
    \<and> mm_size m3 (W nd) = hdr i (snd (hd (join (nd, nt) bs))) \<and> join (nd, nt) bs \<noteq> []
    \<and> fst (hd (join (nd, nt) bs)) = nd"
  proof (cases bs)
    case Nil
    then show ?thesis using m3_nd by (auto simp: n_def first_addr_def)
  next
    case (Cons b bs')
    obtain a s where b: "b = (a, s)" by (cases b)
    have a: "n = a" "n \<noteq> q" "s < 2 ^ 28" "mm_size m (W a) = hdr i s" "links i m a bs' q"
      using Cons b far_bs [of a s] ins by (auto simp: n_def first_addr_def insertable_def)
    have same': "\<forall>d\<in>set bs'. same_header m m3 (fst d)" "same_header m m3 a"
      using same Cons b by auto
    have "nt + s < 2 ^ 28" using ins Cons b by (auto simp: insertable_def nt_def)
    then show ?thesis
      using Cons b a m3_nd same' links_start [OF a(5), of m3]
      by (auto simp: hdr_add same_header_def)
  qed
  have "links i m3 p (tl (glue (p, ps) (c, t) bs)) q \<and>
    mm_size m3 (W p) = (if ps = 0 then mm_size m (W p) else hdr i (snd (hd (glue (p, ps) (c, t) bs))))"
  proof (cases bk)
    case True
    with * bk_ps show ?thesis by (simp add: nd_def nt_def bk_def)
  next
    case False
    from ins have "ps = 0 \<or> mm_size m (W p) = hdr i ps"
      by (simp add: insertable_def)
    moreover have "mm_next m3 (W p) = W nd" "mm_size m3 (W p) = mm_size m (W p)"
      using False fars by (auto simp: m3_def m2_def m1_def nd_def hdr_simps)
    moreover obtain s ds where "join (c, t) bs = (c, s) # ds"
      using * False by (cases "join (c, t) bs") (auto simp: nd_def nt_def)
    ultimately show ?thesis using * False by (auto simp: nd_def nt_def bk_def)
  qed
  moreover have "m3 b = m b" if "b \<notin> header p" "b \<notin> header c" for b
    using that by (simp add: m3_def m2_def m1_def nd_def hdr_simps)
  ultimately show ?thesis by (simp add: inserted_def eq)
qed

lemma insert_refines:
  assumes "insertable i p ps bs q c t m"
  shows "\<exists>iter. insert_scan m (W c) (W p) = Some iter
    \<and> inserted i p ps bs q c m (insert_at (W c) iter (W q) m) (free_after (p, ps) bs (c, t))"
  using assms
proof (induction bs arbitrary: p ps)
  case Nil
  then have "\<not> W q < W c"
    using W_less_iff [of q c] by (auto simp: insertable_def)
  then have "insert_scan m (W c) (W p) = Some (W p)"
    using Nil by (subst insert_scan.simps) (simp add: insertable_def)
  with insert_at_glue [OF Nil] Nil show ?case by (simp add: first_addr_def insertable_def del: glue.simps)
next
  case (Cons b bs)
  obtain a s where b: "b = (a, s)" by (cases b)
  have lim: "a + s \<le> q" "8 \<le> s" "c + t \<le> q" "8 \<le> t" "q + 8 \<le> 2 ^ 32" "p + 8 \<le> a" "p + 8 \<le> c" "p + ps \<le> a"
    "apart (c, t) (a, s)" "mm_next m (W p) = W a"
    using Cons.prems b by (auto simp: insertable_def good_block_def)
  have less: "W a < W c \<longleftrightarrow> a < c" using lim by (simp add: W_less_iff)
  show ?case
  proof (cases "a < c")
    case False
    then have "insert_scan m (W c) (W p) = Some (W p)"
      using less lim by (subst insert_scan.simps) simp
    moreover have "c + t \<le> a" using False lim by (auto simp: apart_def)
    ultimately show ?thesis
      using insert_at_glue [OF Cons.prems] False b by (simp add: first_addr_def del: glue.simps)
  next
    case True
    have ins: "insertable i a s bs q c t m"
      using Cons.prems b True lim
      by (auto simp: insertable_def apart_def good_block_def intro: gaps_mono)
    then obtain iter where it: "insert_scan m (W c) (W a) = Some iter"
      and R: "inserted i a s bs q c m (insert_at (W c) iter (W q) m) (free_after (a, s) bs (c, t))"
      using Cons.IH by blast
    let ?m' = "insert_at (W c) iter (W q) m"
    have sc: "insert_scan m (W c) (W p) = Some iter"
      using it less True lim by (subst insert_scan.simps) simp
    have "?m' x = m x" if "x \<in> header p" for x
    proof -
      have "x \<notin> header d" if "p + 8 \<le> d" "d \<le> q" for d
        using span_disjoint [of "p + 8" d "d + 8" p] that lim \<open>x \<in> header p\<close> by auto
      moreover have "\<forall>d\<in>set bs. p + 8 \<le> fst d \<and> fst d \<le> q"
      proof
        fix d assume "d \<in> set bs"
        moreover have "gaps (p + max 8 ps) (b # bs) q" using Cons.prems by (simp only: insertable_def)
        ultimately show "p + 8 \<le> fst d \<and> fst d \<le> q" using gaps_memD [of _ "b # bs" q d] by fastforce
      qed
      ultimately show ?thesis using R lim unfolding inserted_def by auto
    qed
    then have p: "mm_next ?m' (W p) = W a" "mm_size ?m' (W p) = mm_size m (W p)"
      using header_cong [of p ?m' m] lim by auto
    obtain s' ds where ds: "free_after (a, s) bs (c, t) = (a, s') # ds"
      using free_after_hd by blast
    have "inserted i p ps (b # bs) q c m ?m' (free_after (p, ps) (b # bs) (c, t))"
    proof -
      have "0 < ps \<longrightarrow> mm_size m (W p) = hdr i ps" using Cons.prems unfolding insertable_def by force
      moreover have "s \<noteq> 0" using lim by simp
      ultimately show ?thesis using R ds p b True by (simp add: inserted_def)
    qed
    with sc show ?thesis by blast
  qed
qed

end
