(* ===== verification/Mem_Invariant.thy ===== *)
theory Mem_Invariant
  imports Mem_Header
begin

section \<open>Searching implements the specification\<close>

lemma W_pos: "0 < a \<Longrightarrow> a < 2 ^ 32 \<Longrightarrow> W a \<noteq> 0"
  using W_eq_iff [of a 0] by simp

lemma links_next_nonzero:
  assumes "links i m p bs q" "0 < q" "q < 2 ^ 32" "\<forall>b\<in>set bs. 0 < fst b \<and> fst b < 2 ^ 32"
  shows "mm_next m (W p) \<noteq> 0"
  using assms by (cases bs) (auto simp: W_pos)

lemma alloc_scan_refines:
  assumes "links i m p bs q" "mm_next m (W q) = 0" "0 < q" "q < 2 ^ 32" "n < 2 ^ 32"
    "\<forall>b\<in>set bs. 0 < fst b \<and> fst b < 2 ^ 32 \<and> snd b < 2 ^ 28"
  shows "alloc_scan m (W n) (W p) (mm_next m (W p)) = Some
    (case first_fit n bs of
       None \<Rightarrow> (W (last (p # map fst bs)), W q)
     | Some (pre, b, post) \<Rightarrow> (W (last (p # map fst pre)), W (fst b)))"
  using assms
proof (induction bs arbitrary: p)
  case Nil
  then show ?case by (subst alloc_scan.simps) simp
next
  case (Cons b bs)
  obtain a s where b: "b = (a, s)" by (cases b)
  have a: "mm_next m (W p) = W a" "mm_get_size (mm_size m (W a)) = W s" "links i m a bs q" "s < 2 ^ 32"
    using Cons.prems b by auto
  have nz: "mm_next m (W a) \<noteq> 0"
    using a Cons.prems links_next_nonzero [of i m a bs q] by auto
  have IH: "alloc_scan m (W n) (W a) (mm_next m (W a)) = Some
    (case first_fit n bs of
       None \<Rightarrow> (W (last (a # map fst bs)), W q)
     | Some (pre, b, post) \<Rightarrow> (W (last (a # map fst pre)), W (fst b)))"
    using Cons a by (intro Cons.IH) auto
  have "W n \<le> W s \<longleftrightarrow> n \<le> s" using a Cons.prems by (intro W_le_iff) auto
  then show ?case using nz a IH b
    by (subst alloc_scan.simps) (auto split: option.splits)
qed

section \<open>Regions\<close>

text \<open>The specification of an allocation: the free list after it and the block taken.\<close>

definition spec_alloc :: "nat \<Rightarrow> nat \<Rightarrow> block list \<Rightarrow> (block list \<times> block) option" where
  "spec_alloc mn n F =
     (case first_fit n F of
        None \<Rightarrow> None
      | Some (pre, (a, s), post) \<Rightarrow>
          Some (if n + mn \<le> s then (pre @ (a + n, s - n) # post, (a, n)) else (pre @ post, (a, s))))"

definition region_shape :: "nat \<Rightarrow> physmem \<Rightarrow> bool" where
  "region_shape i pm \<longleftrightarrow>
     i < 16 \<and> unat (root_node pm) + 8 \<le> unat (start_addr pm)
     \<and> unat (start_addr pm) + unat (pm_size pm) = unat (last_node pm)
     \<and> unat (last_node pm) + 8 \<le> 2 ^ 32 \<and> unat (start_addr pm) mod 8 = 0
     \<and> unat (pm_size pm) < 2 ^ 28 \<and> unat (min_alloc pm) mod 8 = 0
     \<and> 8 \<le> unat (min_alloc pm) \<and> unat (min_alloc pm) < 2 ^ 28"

definition live_block :: "nat \<Rightarrow> mem \<Rightarrow> physmem \<Rightarrow> block list \<Rightarrow> block \<Rightarrow> bool" where
  "live_block i m pm F b \<longleftrightarrow>
     good_block b \<and> unat (start_addr pm) \<le> fst b \<and> fst b + snd b \<le> unat (last_node pm)
     \<and> clear_of b F \<and> mm_next m (W (fst b)) = 0xC0DEBABE \<and> mm_size m (W (fst b)) = hdr i (snd b)"

text \<open>
  Region \<open>i\<close> of the memory holds the free list \<open>F\<close> and the live blocks \<open>A\<close>; together they
  account for every byte.
\<close>

definition region_ok :: "nat \<Rightarrow> mem \<Rightarrow> physmem \<Rightarrow> block list \<Rightarrow> block list \<Rightarrow> bool" where
  "region_ok i m pm F A \<longleftrightarrow>
     region_shape i pm
     \<and> links i m (unat (root_node pm)) F (unat (last_node pm))
     \<and> mm_size m (root_node pm) = 0 \<and> mm_next m (last_node pm) = 0
     \<and> gaps (unat (start_addr pm)) F (unat (last_node pm))
     \<and> (\<forall>b\<in>set A. live_block i m pm F b) \<and> sorted_wrt apart A
     \<and> unat (allocated pm) = sizes A \<and> sizes F + sizes A = unat (pm_size pm)"

definition footprint :: "physmem \<Rightarrow> u32 set" where
  "footprint pm = header (unat (root_node pm)) \<union> span (unat (start_addr pm)) (unat (last_node pm) + 8)"

lemma region_header_frame:
  assumes ok: "region_ok i m pm F A"
    and same: "\<forall>b\<in>set F. same_header m m' (fst b)" "\<forall>b\<in>set A. same_header m m' (fst b)"
      "same_header m m' (unat (root_node pm))" "same_header m m' (unat (last_node pm))"
  shows "region_ok i m' pm F A"
  using ok same links_start [of i m "unat (root_node pm)" F "unat (last_node pm)" m' "unat (root_node pm)"]
  by (auto simp: region_ok_def live_block_def same_header_def)

lemma region_footprint_frame:
  assumes ok: "region_ok i m pm F A" and same: "\<And>b. b \<in> footprint pm \<Longrightarrow> m' b = m b"
  shows "region_ok i m' pm F A"
proof (rule region_header_frame [OF ok])
  let ?r = "unat (root_node pm)" and ?lo = "unat (start_addr pm)" and ?q = "unat (last_node pm)"
  have keep: "same_header m m' a" if "a = ?r \<or> ?lo \<le> a \<and> a \<le> ?q" for a
  proof -
    have "header a \<subseteq> footprint pm"
      using that span_mono [of ?lo a "a + 8" "?q + 8"] by (auto simp: footprint_def)
    then show ?thesis using header_cong [of a m' m] same by (auto simp: same_header_def)
  qed
  have g: "gaps ?lo F ?q" using ok by (simp add: region_ok_def)
  show "\<forall>b\<in>set F. same_header m m' (fst b)"
    using gaps_memD [OF g] by (intro ballI keep) fastforce
  show "\<forall>b\<in>set A. same_header m m' (fst b)"
    using ok by (intro ballI keep) (auto simp: region_ok_def live_block_def)
  show "same_header m m' ?r" "same_header m m' ?q"
    using keep [of ?r] keep [of ?q] ok by (auto simp: region_ok_def region_shape_def)
qed

text \<open>Unlinking a block writes the \<^verbatim>\<open>next\<close> field of the block before it.\<close>

lemma gaps_far:
  assumes "gaps (p + 8) bs q" "b \<in> set bs" "q + 8 \<le> 2 ^ 32"
  shows "far p (fst b)" "far (fst b) p" "p + 8 \<le> 2 ^ 32" "fst b + 8 \<le> 2 ^ 32"
  using gaps_memD [OF assms(1,2)] assms(3) by (auto simp: far_def good_block_def)

lemma links_remove:
  assumes "links i m p (pre @ (a, s) # post) q" "gaps (p + 8) (pre @ (a, s) # post) q" "q + 8 \<le> 2 ^ 32"
  shows "links i (set_mm_next (W (last (p # map fst pre))) (mm_next m (W a)) m) p (pre @ post) q"
  using assms
proof (induction pre arbitrary: p)
  case Nil
  then have "gaps (p + 8) post q" by (auto intro: gaps_mono)
  then have "\<forall>b\<in>set post. same_header m (set_mm_next (W p) (mm_next m (W a)) m) (fst b)"
    using gaps_far [OF _ _ Nil(3)] by (simp add: same_header_def hdr_simps)
  then show ?case using Nil links_start [of i m a post q _ p] by (simp add: header_same)
next
  case (Cons b pre)
  obtain c t where b: "b = (c, t)" by (cases b)
  let ?l = "last (c # map fst pre)"
  have g: "gaps (c + 8) (pre @ (a, s) # post) q" "8 \<le> t" "c + t \<le> q" "p + 8 \<le> c"
    using Cons.prems b by (auto simp: good_block_def intro: gaps_mono)
  then have IH: "links i (set_mm_next (W ?l) (mm_next m (W a)) m) c (pre @ post) q"
    using Cons b by (intro Cons.IH) auto
  have l: "?l = c \<or> (\<exists>d\<in>set pre. ?l = fst d)"
    by (cases pre rule: rev_cases) auto
  then have "?l = c \<or> c + 8 \<le> ?l \<and> ?l \<le> q"
    using gaps_memD [OF g(1)] by fastforce
  then have "far ?l p" "?l + 8 \<le> 2 ^ 32" "?l = c \<or> far ?l c"
    using g Cons.prems(3) by (auto simp: far_def)
  then show ?case using IH b Cons.prems g by (auto simp: hdr_simps)
qed

text \<open>The bytes a change of region bookkeeping may touch.\<close>

definition free_bytes :: "physmem \<Rightarrow> block list \<Rightarrow> u32 set" where
  "free_bytes pm F = header (unat (root_node pm)) \<union> (\<Union>b\<in>set F. span (fst b) (fst b + snd b))"

lemma round_up_8:
  "(if n mod 8 \<noteq> 0 then n + 8 - n mod 8 else n) = (n + 7) div 8 * 8" for n :: nat
proof -
  have "(8 * k + r + 7) div 8 = (if r = 0 then k else Suc k)" if "r < 8" for k r :: nat
    using that by auto
  from this [of "n mod 8" "n div 8"] show ?thesis
    using mod_less_eq_dividend [of n 8] by (auto simp: minus_mod_eq_div_mult [symmetric])
qed

lemma block_size_unat:
  assumes "unat sz + 16 \<le> 2 ^ 32" "unat mn < 2 ^ 28"
  shows "unat (block_size mn sz) = (max (unat mn) (unat sz + 8) + 7) div 8 * 8"
proof -
  have s1: "unat (sz + 8) = unat sz + 8" using assms by (simp add: unat_plus_if')
  define x where "x = (if sz + 8 < mn then mn else sz + 8)"
  have x: "unat x = max (unat mn) (unat sz + 8)" by (auto simp: x_def word_less_nat_alt s1)
  have up: "unat (x + 8) = unat x + 8" if "unat x mod 8 \<noteq> 0"
  proof -
    have "unat x \<noteq> 2 ^ 32 - 8" using that by auto
    then show ?thesis using assms x by (simp add: unat_plus_if')
  qed
  have "unat (block_size mn sz) = (if unat x mod 8 \<noteq> 0 then unat x + 8 - unat x mod 8 else unat x)"
    using up by (simp add: block_size_def Let_def x_def [symmetric] unat_and_not_7 and_7_zero)
  then show ?thesis unfolding round_up_8 x .
qed


definition only_in :: "u32 set \<Rightarrow> mem \<Rightarrow> mem \<Rightarrow> bool" where
  "only_in S m m' \<longleftrightarrow> (\<forall>x. x \<notin> S \<longrightarrow> m' x = m x)"

lemma only_in_refl [simp]: "only_in S m m"
  by (simp add: only_in_def)

lemma only_in_trans: "only_in S m m' \<Longrightarrow> only_in S m' m'' \<Longrightarrow> only_in S m m''"
  by (simp add: only_in_def)

lemma only_in_set:
  "only_in S m m' \<Longrightarrow> header a \<subseteq> S \<Longrightarrow> only_in S m (set_mm_next (W a) v m')"
  "only_in S m m' \<Longrightarrow> header a \<subseteq> S \<Longrightarrow> only_in S m (set_mm_size (W a) v m')"
  unfolding only_in_def by (metis header_outside subsetD)+

lemma only_in_same:
  assumes "only_in S m m'" "header a \<inter> S = {}"
  shows "same_header m m' a"
  using assms header_cong [of a m' m] by (auto simp: only_in_def same_header_def)

lemma region_bounds:
  assumes "region_ok i m pm F A"
  shows "unat (root_node pm) + 8 \<le> unat (start_addr pm)" "unat (start_addr pm) \<le> unat (last_node pm)"
    "unat (last_node pm) + 8 \<le> 2 ^ 32" "unat (pm_size pm) < 2 ^ 28" "sizes F + sizes A = unat (pm_size pm)"
    "gaps (unat (root_node pm) + 8) F (unat (last_node pm))"
    "\<And>b. b \<in> set F \<Longrightarrow> good_block b \<and> unat (start_addr pm) \<le> fst b \<and> fst b + snd b \<le> unat (last_node pm)"
    "\<And>b. b \<in> set A \<Longrightarrow> good_block b \<and> unat (start_addr pm) \<le> fst b \<and> fst b + snd b \<le> unat (last_node pm)
       \<and> clear_of b F"
proof -
  have g: "gaps (unat (start_addr pm)) F (unat (last_node pm))"
    using assms by (simp add: region_ok_def)
  show "unat (root_node pm) + 8 \<le> unat (start_addr pm)" "unat (start_addr pm) \<le> unat (last_node pm)"
    "unat (last_node pm) + 8 \<le> 2 ^ 32" "unat (pm_size pm) < 2 ^ 28" "sizes F + sizes A = unat (pm_size pm)"
    using assms by (auto simp: region_ok_def region_shape_def)
  then show "gaps (unat (root_node pm) + 8) F (unat (last_node pm))" using g gaps_mono by blast
  show "\<And>b. b \<in> set F \<Longrightarrow> good_block b \<and> unat (start_addr pm) \<le> fst b \<and> fst b + snd b \<le> unat (last_node pm)"
    using gaps_memD [OF g] by blast
  show "\<And>b. b \<in> set A \<Longrightarrow> good_block b \<and> unat (start_addr pm) \<le> fst b \<and> fst b + snd b \<le> unat (last_node pm)
       \<and> clear_of b F"
    using assms by (simp add: region_ok_def live_block_def)
qed

lemma free_bytes_header:
  assumes "region_ok i m pm F A" "d \<in> set F"
  shows "header (fst d) \<subseteq> free_bytes pm F"
  using span_mono [of "fst d" "fst d" "fst d + 8" "fst d + snd d"] region_bounds(7) [OF assms] assms(2)
  by (auto simp: free_bytes_def good_block_def)

lemma free_bytes_root: "header (unat (root_node pm)) \<subseteq> free_bytes pm F"
  by (simp add: free_bytes_def)

lemma free_bytes_live:
  assumes "region_ok i m pm F A" "b \<in> set A"
  shows "span (fst b) (fst b + snd b) \<inter> free_bytes pm F = {}"
proof -
  note R = region_bounds [OF assms(1)]
  have "span (fst b) (fst b + snd b) \<inter> span (fst d) (fst d + snd d) = {}" if "d \<in> set F" for d
    using R(3) R(7) [OF that] R(8) [OF assms(2)] that
    by (intro span_disjoint) (auto simp: clear_of_def apart_def)
  moreover have "span (fst b) (fst b + snd b) \<inter> header (unat (root_node pm)) = {}"
    using R(1-3) R(8) [OF assms(2)] by (intro span_disjoint) auto
  ultimately show ?thesis by (auto simp: free_bytes_def)
qed

lemma free_bytes_last:
  assumes "region_ok i m pm F A"
  shows "header (unat (last_node pm)) \<inter> free_bytes pm F = {}"
proof -
  note R = region_bounds [OF assms(1)]
  have "header (unat (last_node pm)) \<inter> span (fst d) (fst d + snd d) = {}" if "d \<in> set F" for d
    using R(3) R(7) [OF that] by (intro span_disjoint) auto
  moreover have "header (unat (last_node pm)) \<inter> header (unat (root_node pm)) = {}"
    using R(1-3) by (intro span_disjoint) auto
  ultimately show ?thesis by (auto simp: free_bytes_def)
qed

lemma free_bytes_footprint: "region_ok i m pm F A \<Longrightarrow> free_bytes pm F \<subseteq> footprint pm"
  using region_bounds(7) [of i m pm F A] region_bounds(2,3) [of i m pm F A]
  by (fastforce simp: free_bytes_def footprint_def span_def)

text \<open>What \<open>mm_alloc\<close> leaves of a region: the free list, the block, the account.\<close>

definition taken :: "nat \<Rightarrow> mem \<Rightarrow> physmem \<Rightarrow> block list \<Rightarrow> block list \<Rightarrow> mem \<Rightarrow> block list \<Rightarrow> block \<Rightarrow> bool" where
  "taken i m pm F A m' F' b \<longleftrightarrow>
     region_ok i m' (pm\<lparr>allocated := allocated pm + W (snd b)\<rparr>) F' (b # A)
     \<and> only_in (free_bytes pm F) m m'"

text \<open>Taking the block \<open>(a, s)\<close> out of the free bytes leaves a well-formed region.\<close>

lemma region_take:
  assumes ok: "region_ok i m pm F A"
    and ch: "only_in (free_bytes pm F) m m'"
    and blk: "good_block (a, s)" "span a (a + s) \<subseteq> free_bytes pm F" "unat (start_addr pm) \<le> a"
      "a + s \<le> unat (last_node pm)" "\<forall>b\<in>set A. apart (a, s) b" "clear_of (a, s) F'"
    and F': "links i m' (unat (root_node pm)) F' (unat (last_node pm))"
      "mm_size m' (root_node pm) = 0" "mm_size m' (W a) = hdr i s"
      "gaps (unat (start_addr pm)) F' (unat (last_node pm))" "\<forall>b\<in>set A. clear_of b F'"
      "sizes F' + s = sizes F"
  shows "taken i m pm F A (set_mm_next (W a) 0xC0DEBABE m') F' (a, s)"
proof -
  let ?r = "unat (root_node pm)" and ?q = "unat (last_node pm)" and ?lo = "unat (start_addr pm)"
  let ?m = "set_mm_next (W a) 0xC0DEBABE m'"
  note R = region_bounds [OF ok]
  have s8: "8 \<le> s" using blk by (simp add: good_block_def)
  have "header a \<subseteq> free_bytes pm F"
    using blk(2) span_mono [of a a "a + 8" "a + s"] s8 by auto
  with ch have only: "only_in (free_bytes pm F) m ?m"
    by (rule only_in_set)
  have a8: "a + 8 \<le> 2 ^ 32" "far a ?r" "far ?r a" "far a ?q" using R s8 blk(3,4) by (auto simp: far_def)
  have farF: "\<forall>b\<in>set F'. far a (fst b) \<and> fst b + 8 \<le> 2 ^ 32"
    using blk s8 gaps_memD [OF F'(4)] R by (fastforce simp: clear_of_def apart_def far_def good_block_def)
  then have same: "\<forall>b\<in>set F'. same_header m' ?m (fst b)"
    using a8 by (auto simp: same_header_def hdr_simps)
  have links: "links i ?m ?r F' ?q"
    using same a8 R(1-3) header_far(1) [of a ?r] by (intro links_start [OF F'(1)]) auto
  have root: "mm_size ?m (root_node pm) = 0"
    using F'(2) a8 R header_far(3) [of a ?r] by simp
  have "same_header m m' ?q"
    using ch free_bytes_last [OF ok] by (intro only_in_same) auto
  then have last: "mm_next ?m (last_node pm) = 0"
    using ok a8 R header_far(1) [of a ?q] by (simp add: same_header_def region_ok_def)
  have A: "live_block i ?m pm F' b" if b: "b \<in> set A" for b
  proof -
    have "header (fst b) \<subseteq> span (fst b) (fst b + snd b)"
      using R(8) [OF b] by (intro span_mono) (auto simp: good_block_def)
    then have "same_header m ?m (fst b)"
      using only free_bytes_live [OF ok b] by (intro only_in_same) auto
    then show ?thesis using ok F'(5) b by (auto simp: region_ok_def live_block_def same_header_def)
  qed
  have "unat (allocated pm) = sizes A" using ok by (simp add: region_ok_def)
  moreover have "unat (W s) = s" "sizes A + s < 2 ^ 32" using F'(6) R by auto
  ultimately have "unat (allocated pm + W s) = sizes A + s" by (simp add: unat_plus_if')
  moreover have "live_block i ?m pm F' (a, s)"
    using blk F'(3) a8 by (simp add: live_block_def hdr_simps)
  ultimately have "region_ok i ?m (pm\<lparr>allocated := allocated pm + W s\<rparr>) F' ((a, s) # A)"
    using ok links root last A F' blk
    by (auto simp: region_ok_def region_shape_def live_block_def)
  with only show ?thesis by (simp add: taken_def)
qed


text \<open>The facts both ways of taking a block start from.\<close>

lemma fit_facts:
  assumes ok: "region_ok i m pm F A" and F: "F = pre @ (a, s) # post"
  shows "links i (set_mm_next (W (last (unat (root_node pm) # map fst pre))) (mm_next m (W a)) m)
      (unat (root_node pm)) (pre @ post) (unat (last_node pm))"
    "mm_size (set_mm_next (W (last (unat (root_node pm) # map fst pre))) v m) (root_node pm) = 0"
    "mm_size (set_mm_next (W (last (unat (root_node pm) # map fst pre))) v m) (W a) = hdr i s"
    "only_in (free_bytes pm F) m (set_mm_next (W (last (unat (root_node pm) # map fst pre))) v m)"
    "\<forall>b\<in>set A. apart (a, s) b" "\<forall>b\<in>set A. clear_of b (pre @ post)" "clear_of (a, s) (pre @ post)"
    "gaps (unat (start_addr pm)) (pre @ post) (unat (last_node pm))"
    "span a (a + s) \<subseteq> free_bytes pm F" "unat (start_addr pm) \<le> a" "a + s \<le> unat (last_node pm)"
    "good_block (a, s)" "mm_size m (W a) = hdr i s" "s < 2 ^ 28"
proof -
  let ?r = "unat (root_node pm)" and ?q = "unat (last_node pm)" and ?lo = "unat (start_addr pm)"
  let ?l = "last (?r # map fst pre)"
  note R = region_bounds [OF ok]
  have g: "gaps ?lo (pre @ (a, s) # post) ?q" and l: "links i m ?r (pre @ (a, s) # post) ?q"
    using ok F by (simp_all add: region_ok_def)
  note sp = gaps_split [OF g]
  show "links i (set_mm_next (W ?l) (mm_next m (W a)) m) ?r (pre @ post) ?q"
    using l R(3,6) F by (intro links_remove) auto
  have pre: "\<And>d. d \<in> set pre \<Longrightarrow> good_block d \<and> ?lo \<le> fst d \<and> fst d + snd d \<le> ?q \<and> fst d + snd d < a"
    using R(7) F sp(6) by auto
  have lst: "?l = ?r \<or> (\<exists>d\<in>set pre. ?l = fst d)"
    by (cases pre rule: rev_cases) auto
  then have "?l = ?r \<or> ?lo \<le> ?l \<and> ?l + 8 \<le> a"
    using pre by (fastforce simp: good_block_def)
  then have far: "?l = ?r \<or> far ?l ?r" "far ?l a" "?l + 8 \<le> 2 ^ 32"
    using R(1-3) sp by (auto simp: far_def good_block_def)
  show "mm_size (set_mm_next (W ?l) v m) (root_node pm) = 0"
    using far ok header_far(3) [of ?l ?r] header_near(2) [of ?r] R(1-3)
    by (auto simp: region_ok_def)
  show sz: "mm_size m (W a) = hdr i s" using l by (simp add: links_append)
  show "mm_size (set_mm_next (W ?l) v m) (W a) = hdr i s"
    using far sz R sp header_far(3) [of ?l a] by (simp add: good_block_def)
  have "header ?l \<subseteq> free_bytes pm F"
    using lst F free_bytes_root [of pm F] free_bytes_header [OF ok, of "last pre"]
    by (auto simp: last_map)
  then show "only_in (free_bytes pm F) m (set_mm_next (W ?l) v m)" by (intro only_in_set) simp_all
  show "\<forall>b\<in>set A. apart (a, s) b" "\<forall>b\<in>set A. clear_of b (pre @ post)"
    using R(8) F by auto
  show "clear_of (a, s) (pre @ post)" using sp by (auto simp: clear_of_def apart_def)
  show "gaps ?lo (pre @ post) ?q" using g by (rule gaps_remove)
  show "span a (a + s) \<subseteq> free_bytes pm F" using F by (auto simp: free_bytes_def)
  show "?lo \<le> a" "a + s \<le> ?q" "good_block (a, s)" using sp by auto
  show "s < 2 ^ 28" using R(4,5) F by simp
qed

lemma take_whole:
  assumes "region_ok i m pm F A" "F = pre @ (a, s) # post"
  shows "taken i m pm F A
    (set_mm_next (W a) 0xC0DEBABE
      (set_mm_next (W (last (unat (root_node pm) # map fst pre))) (mm_next m (W a)) m))
    (pre @ post) (a, s)"
  by (rule region_take [OF assms(1)]) (use fit_facts [OF assms] assms(2) in simp_all)

text \<open>
  Splitting: the remainder gets a header of its own and is inserted back. Between the removed
  neighbours it touches no free block, so that nothing is merged.
\<close>

lemma take_split:
  fixes x :: u32
  assumes ok: "region_ok i m pm F A" and F: "F = pre @ (a, s) # post"
    and n: "n mod 8 = 0" "8 \<le> n" "n + 8 \<le> s"
  defines "m1 \<equiv> set_mm_next (W (last (unat (root_node pm) # map fst pre))) (mm_next m (W a)) m"
  defines "m4 \<equiv> set_mm_size (W a) (hdr i n) (set_mm_size (W (a + n)) (hdr i (s - n))
      (set_mm_size (W (a + n)) x m1))"
  shows "\<exists>m5. mm_list_insert (W (a + n)) (root_node pm) (last_node pm) m4 = Inr m5
    \<and> taken i m pm F A (set_mm_next (W a) 0xC0DEBABE m5) (pre @ (a + n, s - n) # post) (a, n)"
proof -
  let ?r = "unat (root_node pm)" and ?q = "unat (last_node pm)" and ?lo = "unat (start_addr pm)"
  let ?c = "a + n" and ?t = "s - n"
  note R = region_bounds [OF ok] and fit = fit_facts [OF ok F]
  have g: "gaps ?lo (pre @ (a, s) # post) ?q" using ok F by (simp add: region_ok_def)
  note sp = gaps_split [OF g]
  have lim: "a + s \<le> ?q" "?lo \<le> a" "8 \<le> s" "a mod 8 = 0" "s mod 8 = 0"
    using fit by (auto simp: good_block_def)
  have blk: "header a \<subseteq> free_bytes pm F" "header ?c \<subseteq> free_bytes pm F"
    using fit(9) span_mono [of a a "a + 8" "a + s"] span_mono [of a ?c "?c + 8" "a + s"] n lim by auto
  have m4: "only_in (free_bytes pm F) m m4"
    unfolding m4_def m1_def by (intro only_in_set fit(4) blk)
  have elsewhere: "same_header m1 m4 d" if "d + 8 \<le> a \<or> a + s \<le> d" "d + 8 \<le> 2 ^ 32" for d
  proof -
    have "far a d" "far ?c d" "a + 8 \<le> 2 ^ 32" "?c + 8 \<le> 2 ^ 32"
      using that n lim R(3) by (auto simp: far_def)
    then show ?thesis using that unfolding same_header_def m4_def
      by (simp add: header_far del: of_nat_add)
  qed
  have out: "fst d + 8 \<le> a \<or> a + s \<le> fst d" "fst d + 8 \<le> 2 ^ 32" if "d \<in> set (pre @ post)" for d
    using sp(6,7) R(3) R(7) [of d] that F by (auto simp: good_block_def)
  have l4: "links i m4 ?r (pre @ post) ?q"
    using fit(1) elsewhere [of ?r] elsewhere out R(1-3) lim
    by (intro links_start [OF fit(1)]) (auto simp: same_header_def m1_def)
  have sz: "mm_size m4 (root_node pm) = 0"
    using fit(2) elsewhere [of ?r] R(1-3) lim by (simp add: same_header_def m1_def)
  have ca: "mm_size m4 (W ?c) = hdr i ?t" "mm_size m4 (W a) = hdr i n"
    using n lim R(3) unfolding m4_def by (simp_all add: hdr_simps far_def del: of_nat_add)
  have ins: "insertable i ?r 0 (pre @ post) ?q ?c ?t m4"
    using l4 sz ca n lim R sp F fit(8) mm_get_size_hdr [of 0 0]
    by (auto simp: insertable_def good_block_def apart_def hdr_def intro: gaps_mono)
  obtain iter where sc: "insert_scan m4 (W ?c) (W ?r) = Some iter"
    and "inserted i ?r 0 (pre @ post) ?q ?c m4 (insert_at (W ?c) iter (W ?q) m4)
      (free_after (?r, 0) (pre @ post) (?c, ?t))"
    using insert_refines [OF ins] by blast
  moreover have "free_after (?r, 0) (pre @ post) (?c, ?t) = (?r, 0) # pre @ (?c, ?t) # post" 
    using sp n lim R(1) by (intro free_after_gap [where hi = ?q]) auto
  moreover define m5 where "m5 = insert_at (W ?c) iter (W ?q) m4"
  ultimately have m5: "links i m5 ?r (pre @ (?c, ?t) # post) ?q" "mm_size m5 (root_node pm) = 0"
    "\<And>b. b \<notin> header ?r \<Longrightarrow> b \<notin> header ?c \<Longrightarrow> (\<forall>d\<in>set (pre @ post). b \<notin> header (fst d)) \<Longrightarrow> m5 b = m4 b"
    using sz by (simp_all add: inserted_def del: of_nat_add)
  have "W ?c < W ?r \<longleftrightarrow> ?c < ?r" "W ?q < W ?c \<longleftrightarrow> ?q < ?c"
    using lim n R(1-3) by (intro W_less_iff; simp)+
  then have "mm_list_insert (W ?c) (root_node pm) (last_node pm) m4 = Inr m5"
    using sc lim n R(1-3) by (simp add: mm_list_insert_def m5_def del: of_nat_add)
  moreover have "taken i m pm F A (set_mm_next (W a) 0xC0DEBABE m5) (pre @ (?c, ?t) # post) (a, n)"
  proof (rule region_take [OF ok])
    have "only_in (free_bytes pm F) m4 m5"
      unfolding only_in_def
    proof (intro allI impI)
      fix b assume b: "b \<notin> free_bytes pm F"
      have "\<forall>d\<in>set (pre @ post). b \<notin> header (fst d)"
        using b free_bytes_header [OF ok] F by auto
      then show "m5 b = m4 b" using b free_bytes_root blk(2) by (intro m5(3)) auto
    qed
    then show "only_in (free_bytes pm F) m m5" using m4 only_in_trans by blast
    have "m5 b = m4 b" if "b \<in> header a" for b
    proof (rule m5(3))
      have far: "b \<notin> header d" if "far a d" "d + 8 \<le> 2 ^ 32" for d
        using that lim n R(3) \<open>b \<in> header a\<close> span_disjoint [of "a + 8" d "d + 8" a]
        by (auto simp: far_def)
      show "b \<notin> header ?r" "b \<notin> header ?c"
        using lim n R(1-3) by (intro far; simp add: far_def)+
      show "\<forall>d\<in>set (pre @ post). b \<notin> header (fst d)"
      proof
        fix d assume "d \<in> set (pre @ post)"
        then show "b \<notin> header (fst d)" using out [of d] lim by (intro far) (auto simp: far_def)
      qed
    qed
    then show "mm_size m5 (W a) = hdr i n" using header_cong(2) [of a m5 m4] ca by simp
    show "span a (a + n) \<subseteq> free_bytes pm F"
      using fit(9) span_mono [of a a "a + n" "a + s"] n by simp
    show "gaps ?lo (pre @ (?c, ?t) # post) ?q"
      using n lim by (intro gaps_replace [OF g]) (auto simp: good_block_def)
    show "\<forall>b\<in>set A. clear_of b (pre @ (?c, ?t) # post)"
      using fit(5,6) n by (auto simp: apart_def)
    show "\<forall>b\<in>set A. apart (a, n) b" using fit(5) n by (auto simp: apart_def)
    show "clear_of (a, n) (pre @ (?c, ?t) # post)"
      using sp(6,7) n by (auto simp: apart_def clear_of_def)
    show "sizes (pre @ (?c, ?t) # post) + n = sizes F" using n F by simp
  qed (use n lim m5 in \<open>auto simp: good_block_def\<close>)
  ultimately show ?thesis by blast
qed


section \<open>The allocator\<close>

text \<open>
  The allocator with free lists \<open>F i\<close> and live blocks \<open>L i\<close> in region \<open>i\<close>: every region is
  well formed and no two overlap.
\<close>

definition mm_rep :: "mm_state \<Rightarrow> (nat \<Rightarrow> block list) \<Rightarrow> (nat \<Rightarrow> block list) \<Rightarrow> bool" where
  "mm_rep st F L \<longleftrightarrow>
     (\<forall>i<length (mm_regions st). region_ok i (mm_mem st) (mm_regions st ! i) (F i) (L i))
     \<and> (\<forall>i<length (mm_regions st). \<forall>j<length (mm_regions st). i \<noteq> j \<longrightarrow>
          footprint (mm_regions st ! i) \<inter> footprint (mm_regions st ! j) = {})"

lemma mm_rep_update:
  assumes rep: "mm_rep st F L" and i: "i < length (mm_regions st)"
    and ok: "region_ok i m' ((mm_regions st ! i)\<lparr>allocated := v\<rparr>) F' L'"
    and ch: "only_in (footprint (mm_regions st ! i)) (mm_mem st) m'"
  shows "mm_rep \<lparr>mm_mem = m', mm_regions = (mm_regions st)[i := (mm_regions st ! i)\<lparr>allocated := v\<rparr>]\<rparr>
    (F(i := F')) (L(i := L'))"
proof -
  have fp: "footprint ((mm_regions st)[i := (mm_regions st ! i)\<lparr>allocated := v\<rparr>] ! j)
    = footprint (mm_regions st ! j)" for j
    by (cases "j = i") (use i in \<open>auto simp: footprint_def\<close>)
  have "region_ok j m' (mm_regions st ! j) (F j) (L j)"
    if "j < length (mm_regions st)" "j \<noteq> i" for j
  proof (rule region_footprint_frame)
    show "region_ok j (mm_mem st) (mm_regions st ! j) (F j) (L j)"
      using rep that by (simp add: mm_rep_def)
    show "m' b = mm_mem st b" if "b \<in> footprint (mm_regions st ! j)" for b
    proof -
      have "footprint (mm_regions st ! i) \<inter> footprint (mm_regions st ! j) = {}"
        using rep i \<open>j < _\<close> \<open>j \<noteq> i\<close> by (auto simp: mm_rep_def)
      then show ?thesis using ch that by (auto simp: only_in_def)
    qed
  qed
  with i ok have "\<forall>j<length (mm_regions st). region_ok j m'
      ((mm_regions st)[i := (mm_regions st ! i)\<lparr>allocated := v\<rparr>] ! j) ((F(i := F')) j) ((L(i := L')) j)"
    by (simp add: nth_list_update)
  with rep show ?thesis by (simp add: mm_rep_def fp)
qed

definition request :: "u32 \<Rightarrow> u32 \<Rightarrow> nat" where
  "request mn sz = (max (unat mn) (unat sz + 8) + 7) div 8 * 8"

lemma request_bounds:
  "request mn sz mod 8 = 0" "8 \<le> request mn sz" "unat sz + 8 \<le> request mn sz" "unat mn \<le> request mn sz"
proof -
  have up: "x \<le> (x + 7) div 8 * 8" for x :: nat
    using round_up_8 [of x] by (auto split: if_splits)
  show "request mn sz mod 8 = 0" "8 \<le> request mn sz" "unat sz + 8 \<le> request mn sz" "unat mn \<le> request mn sz"
    using up [of "max (unat mn) (unat sz + 8)"] by (auto simp: request_def)
qed

text \<open>One region: what the search and the checks of \<open>mm_alloc\<close> decide.\<close>

lemma region_search:
  assumes ok: "region_ok i m pm F A" and n: "n < 2 ^ 32"
  shows "alloc_scan m (W n) (root_node pm) (mm_next m (root_node pm)) = Some
    (case first_fit n F of
       None \<Rightarrow> (W (last (unat (root_node pm) # map fst F)), last_node pm)
     | Some (pre, b, post) \<Rightarrow> (W (last (unat (root_node pm) # map fst pre)), W (fst b)))"
    "mm_next m (last_node pm) = 0"
    "first_fit n F = Some (pre, b, post) \<Longrightarrow> mm_next m (W (fst b)) \<noteq> 0"
    "first_fit n F \<noteq> None \<Longrightarrow> \<not> pm_size pm - allocated pm < W n"
proof -
  let ?r = "unat (root_node pm)" and ?q = "unat (last_node pm)"
  note R = region_bounds [OF ok]
  have l: "links i m ?r F ?q" using ok by (simp add: region_ok_def)
  show q: "mm_next m (last_node pm) = 0" using ok by (simp add: region_ok_def)
  have F: "\<forall>b\<in>set F. 0 < fst b \<and> fst b < 2 ^ 32 \<and> snd b < 2 ^ 28"
  proof
    fix b assume b: "b \<in> set F"
    then have "snd b \<le> sizes F" by (force intro: member_le_sum_list)
    then show "0 < fst b \<and> fst b < 2 ^ 32 \<and> snd b < 2 ^ 28" using R(7) [OF b] R(1-5) by auto
  qed
  show "alloc_scan m (W n) (root_node pm) (mm_next m (root_node pm)) = Some
    (case first_fit n F of
       None \<Rightarrow> (W (last (?r # map fst F)), last_node pm)
     | Some (pre, b, post) \<Rightarrow> (W (last (?r # map fst pre)), W (fst b)))"
    using alloc_scan_refines [OF l _ _ _ n F] q R(1-3) by (simp only: W_unat)
  show "mm_next m (W (fst b)) \<noteq> 0" if ff: "first_fit n F = Some (pre, b, post)"
  proof -
    have Feq: "F = pre @ (fst b, snd b) # post" using first_fit_Some [OF ff] by simp
    then have "links i m (fst b) post ?q" using l links_append [of i m ?r pre "fst b" "snd b" post ?q] by simp
    then show ?thesis using F Feq R(1-3) by (intro links_next_nonzero) auto
  qed
  show "\<not> pm_size pm - allocated pm < W n" if "first_fit n F \<noteq> None"
  proof -
    have "\<not> (\<forall>b\<in>set F. snd b < n)" using that unfolding first_fit_None .
    then obtain b where b: "b \<in> set F" "n \<le> snd b" by (auto simp: not_less)
    then have "snd b \<le> sizes F" by (force intro: member_le_sum_list)
    moreover have "unat (pm_size pm - allocated pm) = sizes F"
    proof -
      have "allocated pm \<le> pm_size pm" using ok R(5) by (simp add: region_ok_def word_le_nat_alt)
      then show ?thesis using ok R(5) by (simp add: region_ok_def unat_sub)
    qed
    ultimately show ?thesis using b n by (simp add: word_less_nat_alt)
  qed
qed


lemma taken_rep:
  assumes rep: "mm_rep st F L" and i: "i < length (mm_regions st)" and pm: "pm = mm_regions st ! i"
    and t: "taken i (mm_mem st) pm (F i) (L i) m' F' b"
  shows "mm_rep \<lparr>mm_mem = m', mm_regions = (mm_regions st)[i := pm\<lparr>allocated := allocated pm + W (snd b)\<rparr>]\<rparr>
    (F(i := F')) (L(i := b # L i))"
proof -
  have "region_ok i (mm_mem st) pm (F i) (L i)" using rep i pm by (simp add: mm_rep_def)
  then have "only_in (footprint pm) (mm_mem st) m'"
    using t free_bytes_footprint by (fastforce simp: taken_def only_in_def)
  then show ?thesis using mm_rep_update [OF rep i] t pm by (simp add: taken_def)
qed

lemma alloc_implements:
  assumes rep: "mm_rep st F L" and i: "i < length (mm_regions st)" and sz: "unat sz + 16 \<le> 2 ^ 32"
  shows "case spec_alloc (unat (min_alloc (mm_regions st ! i)))
      (request (min_alloc (mm_regions st ! i)) sz) (F i) of
      None \<Rightarrow> mm_alloc sz i st = Inr (0, st)
    | Some (F', b) \<Rightarrow> \<exists>st'. mm_alloc sz i st = Inr (W (fst b + 8), st')
        \<and> mm_rep st' (F(i := F')) (L(i := b # L i))
        \<and> only_in (free_bytes (mm_regions st ! i) (F i)) (mm_mem st) (mm_mem st')"
proof -
  define pm m where "pm = mm_regions st ! i" and "m = mm_mem st"
  define n where "n = request (min_alloc pm) sz"
  have ok: "region_ok i m pm (F i) (L i)" using rep i by (simp add: mm_rep_def pm_def m_def)
  then have mn: "unat (min_alloc pm) < 2 ^ 28" "8 \<le> unat (min_alloc pm)" "unat (min_alloc pm) mod 8 = 0" "i < 16"
    by (auto simp: region_ok_def region_shape_def)
  have nb: "n = unat (block_size (min_alloc pm) sz)"
    using block_size_unat [OF sz mn(1)] by (simp add: n_def request_def)
  have bs: "block_size (min_alloc pm) sz = W n" "n < 2 ^ 32"
    unfolding nb using unsigned_less [of "block_size (min_alloc pm) sz"] by simp_all
  note S = region_search [OF ok bs(2)]
  have gp: "get_physmem i st = Inr pm" using i by (simp add: get_physmem_def pm_def)
  show ?thesis
  proof (cases "first_fit n (F i)")
    case None
    then have "mm_alloc sz i st = Inr (0, st)"
      using S(1,2) by (simp add: mm_alloc_def gp bs Let_def m_def [symmetric])
    then show ?thesis using None by (simp add: spec_alloc_def n_def pm_def)
  next
    case (Some r)
    then obtain pre a s post where ff: "first_fit n (F i) = Some (pre, (a, s), post)" by (cases r) auto
    define l where "l = last (unat (root_node pm) # map fst pre)"
    define m1 where "m1 = set_mm_next (W l) (mm_next m (W a)) m"
    have Feq: "F i = pre @ (a, s) # post" and ns: "n \<le> s" using first_fit_Some [OF ff] by auto
    note fit = fit_facts [OF ok Feq] and R = region_bounds [OF ok]
    have n: "n mod 8 = 0" "8 \<le> n" using request_bounds [of "min_alloc pm" sz] by (simp_all add: n_def)
    have cur: "mm_get_size (mm_size m (W a)) = W s" using fit(13,14) by simp
    have split_iff: "W n + min_alloc pm \<le> W s \<longleftrightarrow> n + unat (min_alloc pm) \<le> s"
      using fit(14) ns mn by (simp add: word_le_nat_alt unat_plus_if')
    have step: "mm_alloc sz i st = rbind
        (if n + unat (min_alloc pm) \<le> s then
           rbind (mm_list_insert (W (a + n)) (root_node pm) (last_node pm)
             (set_mm_size (W a) (hdr i n) (set_mm_size (W (a + n)) (hdr i (s - n))
               (set_mm_size (W (a + n)) (mm_set_region (mm_size m1 (W (a + n))) (W i)) m1))))
             (\<lambda>m5. Inr (m5, pm\<lparr>allocated := allocated pm + W n\<rparr>))
         else Inr (m1, pm\<lparr>allocated := allocated pm + W s\<rparr>))
        (\<lambda>(m6, pm'). Inr (W a + 8, \<lparr>mm_mem = set_mm_next (W a) 0xC0DEBABE m6,
           mm_regions = (mm_regions st)[i := pm']\<rparr>))"
    proof -
      have "far (a + n) a" "a + 8 \<le> 2 ^ 32" "a + n + 8 \<le> 2 ^ 32" if "n + unat (min_alloc pm) \<le> s"
        using n R(3) fit(11) that mn by (auto simp: far_def)
      then have "mm_size (set_mm_size (W (a + n)) v m') (W a) = mm_size m' (W a)"
        if "n + unat (min_alloc pm) \<le> s" for v m'
        using that header_far(4) [of "a + n" a] by (simp only: )
      moreover have "mm_size m1 (W a) = hdr i s" using fit(3) by (simp add: m1_def l_def)
      moreover have "mm_set_size (mm_set_region v (W i)) (W s - W n) = hdr i (s - n)" for v
        using mm_set_size_region [of "s - n" v i] ns fit(14) by simp
      moreover have "alloc_scan m (W n) (root_node pm) (mm_next m (root_node pm)) = Some (W l, W a)"
        using S(1) ff by (simp add: l_def)
      ultimately show ?thesis
        using S(4) S(3) [OF ff] ff fit(14)
        by (simp add: mm_alloc_def gp bs Let_def m_def [symmetric] cur split_iff l_def [symmetric]
            m1_def [symmetric] header_same mm_set_size_region mm_set_size_hdr flip: of_nat_add)
    qed
    show ?thesis
    proof (cases "n + unat (min_alloc pm) \<le> s")
      case True
      obtain m5 where "mm_list_insert (W (a + n)) (root_node pm) (last_node pm)
          (set_mm_size (W a) (hdr i n) (set_mm_size (W (a + n)) (hdr i (s - n))
            (set_mm_size (W (a + n)) (mm_set_region (mm_size m1 (W (a + n))) (W i)) m1))) = Inr m5"
        and t: "taken i m pm (F i) (L i) (set_mm_next (W a) 0xC0DEBABE m5) (pre @ (a + n, s - n) # post) (a, n)"
        using take_split [OF ok Feq n, of "mm_set_region (mm_size m1 (W (a + n))) (W i)"] True mn
        unfolding m1_def l_def by auto
      then show ?thesis
        using taken_rep [OF rep i pm_def t [unfolded m_def]] True ff step t
        by (simp add: spec_alloc_def n_def [symmetric] pm_def [symmetric] m_def [symmetric] taken_def)
    next
      case False
      have t: "taken i m pm (F i) (L i) (set_mm_next (W a) 0xC0DEBABE m1) (pre @ post) (a, s)"
        using take_whole [OF ok Feq] by (simp add: m1_def l_def)
      then show ?thesis
        using taken_rep [OF rep i pm_def t [unfolded m_def]] False ff step t
        by (simp add: spec_alloc_def n_def [symmetric] pm_def [symmetric] m_def [symmetric] taken_def)
    qed
  qed
qed


lemma sorted_wrt_remove1: "sorted_wrt P xs \<Longrightarrow> sorted_wrt P (remove1 x xs)"
  by (induction xs) (auto dest: set_remove1_subset [THEN subsetD])

lemma sizes_remove1: "b \<in> set bs \<Longrightarrow> sizes (remove1 b bs) + snd b = sizes bs"
  by (induction bs) auto

lemma apart_sym: "apart b c \<longleftrightarrow> apart c b"
  by (auto simp: apart_def)

lemma live_apart:
  assumes "sorted_wrt apart A" "b \<in> set A" "c \<in> set (remove1 b A)"
  shows "apart b c"
  using assms by (induction A) (auto simp: apart_sym split: if_splits dest: notin_set_remove1)

text \<open>Giving a live block back.\<close>

lemma region_give:
  assumes ok: "region_ok i m pm F A" and b: "b \<in> set A"
  shows "\<exists>m'. mm_list_insert (W (fst b)) (root_node pm) (last_node pm) m = Inr m'
    \<and> region_ok i m' (pm\<lparr>allocated := allocated pm - W (snd b)\<rparr>)
        (free_insert (unat (root_node pm)) F b) (remove1 b A)
    \<and> only_in (free_bytes pm (b # F)) m m'"
proof -
  let ?r = "unat (root_node pm)" and ?q = "unat (last_node pm)" and ?lo = "unat (start_addr pm)"
  obtain c t where bc: "b = (c, t)" by (cases b)
  note R = region_bounds [OF ok]
  note Rb = R(8) [OF b]
  have live: "mm_size m (W c) = hdr i t" "links i m ?r F ?q" "mm_size m (root_node pm) = 0"
    "gaps ?lo F ?q" "good_block (c, t)" "clear_of (c, t) F"
    using ok b bc by (auto simp: region_ok_def live_block_def)
  have tA: "sizes (remove1 b A) + t = sizes A" using sizes_remove1 [OF b] bc by simp
  have ins: "insertable i ?r 0 F ?q c t m"
    using live R Rb bc tA mm_get_size_hdr [of 0 0]
    by (simp add: insertable_def hdr_def clear_of_def apart_sym)
  obtain iter where sc: "insert_scan m (W c) (W ?r) = Some iter"
    and I: "inserted i ?r 0 F ?q c m (insert_at (W c) iter (W ?q) m) (free_after (?r, 0) F (c, t))"
    using insert_refines [OF ins] by blast
  define m' where "m' = insert_at (W c) iter (W ?q) m"
  let ?F' = "free_insert ?r F b"
  have m': "links i m' ?r ?F' ?q" "mm_size m' (root_node pm) = 0"
    "\<And>x. x \<notin> header ?r \<Longrightarrow> x \<notin> header c \<Longrightarrow> (\<forall>d\<in>set F. x \<notin> header (fst d)) \<Longrightarrow> m' x = m x"
    using I live(3) free_after_root [of ?r "(c, t)" F] R(1) Rb bc
    by (simp_all add: inserted_def m'_def)
  have "W c < W ?r \<longleftrightarrow> c < ?r" "W ?q < W c \<longleftrightarrow> ?q < c"
    using Rb bc R(1-3) by (intro W_less_iff; simp)+
  then have "mm_list_insert (W c) (root_node pm) (last_node pm) m = Inr m'"
    using sc Rb bc R(1-3) by (simp add: mm_list_insert_def m'_def)
  moreover have only: "only_in (free_bytes pm (b # F)) m m'"
    unfolding only_in_def
  proof (intro allI impI)
    fix x assume x: "x \<notin> free_bytes pm (b # F)"
    have "header c \<subseteq> free_bytes pm (b # F)"
      using bc Rb span_mono [of c c "c + 8" "c + t"] by (auto simp: free_bytes_def good_block_def)
    moreover have "x \<notin> header (fst d)" if "d \<in> set F" for d
      using x free_bytes_header [OF ok that] by (auto simp: free_bytes_def)
    ultimately show "m' x = m x"
      using x free_bytes_root [of pm "b # F"] by (intro m'(3)) blast+
  qed
  moreover have "region_ok i m' (pm\<lparr>allocated := allocated pm - W t\<rparr>) ?F' (remove1 b A)"
  proof -
    have fb: "free_bytes pm (b # F) = span c (c + t) \<union> free_bytes pm F"
      using bc by (auto simp: free_bytes_def)
    have "header ?q \<inter> span c (c + t) = {}" using Rb bc R(3) by (intro span_disjoint) auto
    then have "same_header m m' ?q"
      using free_bytes_last [OF ok] fb by (intro only_in_same [OF only]) auto
    then have last: "mm_next m' (last_node pm) = 0" using ok by (simp add: same_header_def region_ok_def)
    have A: "live_block i m' pm ?F' d" if d: "d \<in> set (remove1 b A)" for d
    proof -
      have dA: "d \<in> set A" using d set_remove1_subset by fast
      have ap: "apart b d" using ok b d by (intro live_apart) (auto simp: region_ok_def)
      note Rd = R(8) [OF dA]
      have h: "header (fst d) \<subseteq> span (fst d) (fst d + snd d)"
        using Rd by (intro span_mono) (auto simp: good_block_def)
      have "span (fst d) (fst d + snd d) \<inter> span c (c + t) = {}"
        using ap Rd Rb bc R(3) by (intro span_disjoint) (auto simp: apart_def)
      then have "same_header m m' (fst d)"
        using h fb free_bytes_live [OF ok dA] by (intro only_in_same [OF only]) auto
      moreover have "clear_of d ?F'"
        using Rd Rb R(1) ap bc by (intro clear_free_insert) (auto simp: good_block_def)
      ultimately show ?thesis using ok dA by (auto simp: region_ok_def live_block_def same_header_def)
    qed
    have "gaps ?lo ?F' ?q"
      using live R(1) Rb bc by (intro gaps_free_insert) (auto simp: clear_of_def apart_sym)
    moreover have "sizes ?F' = t + sizes F" using R(1) Rb bc by (simp add: sizes_free_insert)
    moreover have "unat (allocated pm - W t) = sizes (remove1 b A)"
    proof -
      have al: "unat (allocated pm) = sizes A" using ok by (simp add: region_ok_def)
      then have "W t \<le> allocated pm" using tA R(4,5) by (simp add: word_le_nat_alt)
      then show ?thesis using al tA R(4,5) by (simp add: unat_sub)
    qed
    ultimately show ?thesis
      using ok m' last A tA sorted_wrt_remove1 [of apart A b]
      by (auto simp: region_ok_def region_shape_def live_block_def)
  qed
  ultimately show ?thesis using bc by auto
qed


lemma free_implements:
  assumes rep: "mm_rep st F L" and i: "i < length (mm_regions st)" and b: "b \<in> set (L i)"
  shows "\<exists>st'. mm_free (W (fst b + 8)) st = Inr st'
    \<and> mm_rep st' (F(i := free_insert (unat (root_node (mm_regions st ! i))) (F i) b)) (L(i := remove1 b (L i)))
    \<and> only_in (free_bytes (mm_regions st ! i) (b # F i)) (mm_mem st) (mm_mem st')"
proof -
  define pm m where "pm = mm_regions st ! i" and "m = mm_mem st"
  have ok: "region_ok i m pm (F i) (L i)" using rep i by (simp add: mm_rep_def pm_def m_def)
  note R = region_bounds [OF ok]
  note Rb = R(8) [OF b]
  have sz: "snd b < 2 ^ 28" "i < 16"
    using sizes_remove1 [OF b] R(4,5) ok by (auto simp: region_ok_def region_shape_def)
  have hd: "mm_next m (W (fst b)) = 0xC0DEBABE" "mm_size m (W (fst b)) = hdr i (snd b)"
    using ok b by (auto simp: region_ok_def live_block_def)
  have ptr: "W (fst b + 8) \<noteq> 0" using Rb R(3) by (intro W_pos) (auto simp: good_block_def)
  obtain m' where m': "mm_list_insert (W (fst b)) (root_node pm) (last_node pm) m = Inr m'"
    "region_ok i m' (pm\<lparr>allocated := allocated pm - W (snd b)\<rparr>)
        (free_insert (unat (root_node pm)) (F i) b) (remove1 b (L i))"
    "only_in (free_bytes pm (b # F i)) m m'"
    using region_give [OF ok b] by blast
  have "unat (mm_get_region (hdr i (snd b))) = i" using sz by simp
  then have "mm_free (W (fst b + 8)) st = Inr \<lparr>mm_mem = m', mm_regions =
      (mm_regions st)[i := pm\<lparr>allocated := allocated pm - W (snd b)\<rparr>]\<rparr>"
    using ptr hd m'(1) sz i
    by (simp add: mm_free_def get_physmem_def Let_def m_def [symmetric] pm_def [symmetric])
  moreover have "only_in (footprint pm) m m'"
  proof -
    have "free_bytes pm (b # F i) = span (fst b) (fst b + snd b) \<union> free_bytes pm (F i)"
      by (auto simp: free_bytes_def)
    moreover have "span (fst b) (fst b + snd b) \<subseteq> footprint pm"
      using Rb span_mono [of "unat (start_addr pm)" "fst b" "fst b + snd b" "unat (last_node pm) + 8"]
      by (auto simp: footprint_def)
    ultimately show ?thesis using m'(3) free_bytes_footprint [OF ok] by (fastforce simp: only_in_def)
  qed
  ultimately show ?thesis
    using mm_rep_update [OF rep i, of m' "allocated pm - W (snd b)"] m'(2,3)
    by (simp add: pm_def m_def)
qed

end
