(* ===== verification/Mem_Init.thy ===== *)
theory Mem_Init
  imports Mem_Invariant
begin

text \<open>
  \<open>mm_init\<close> establishes the allocator invariant: each region starts out as one free block
  that covers it, with its root and last node linked around it.
\<close>

lemma span_Cons: "s < e \<Longrightarrow> span s e = insert (W s) (span (Suc s) e)"
  by (auto simp: span_def image_iff) (metis Suc_leI atLeastLessThan_iff le_neq_implies_less)

lemma clear_bytes_span:
  "s \<le> e \<Longrightarrow> e < 2 ^ 32 \<Longrightarrow> clear_bytes (W s) (W e) m = (\<lambda>x. if x \<in> span s e then 0 else m x)"
proof (induction "e - s" arbitrary: s m)
  case 0
  then show ?case by (subst clear_bytes.simps) (simp add: span_def)
next
  case (Suc k)
  then have se: "s < e" by simp
  then have "W s \<noteq> W e" using Suc.prems W_eq_iff [of s e] by simp
  moreover have "clear_bytes (W (Suc s)) (W e) (m(W s := 0))
      = (\<lambda>x. if x \<in> span (Suc s) e then 0 else (m(W s := 0)) x)"
    using Suc se by (intro Suc.hyps) auto
  ultimately show ?case
    using span_Cons [OF se] by (subst clear_bytes.simps) (auto simp: add.commute)
qed

definition raw_range :: "nat \<Rightarrow> nat \<Rightarrow> physmem \<Rightarrow> nat \<times> nat" where
  "raw_range hs he pm =
     (if start_addr pm = 0 \<and> end_addr pm = 0 then (hs, he)
      else (unat (start_addr pm), unat (end_addr pm)))"

definition raw_bytes :: "nat \<Rightarrow> nat \<Rightarrow> physmem \<Rightarrow> u32 set" where
  "raw_bytes hs he pm = span (fst (raw_range hs he pm)) (snd (raw_range hs he pm)) \<union> header (unat (root_obj pm))"

abbreviation up8 :: "nat \<Rightarrow> nat" where
  "up8 n \<equiv> (n + 7) div 8 * 8"

abbreviation down8 :: "nat \<Rightarrow> nat" where
  "down8 n \<equiv> n div 8 * 8"

text \<open>What a region needs of its address range before it is initialized.\<close>

definition raw_ok :: "nat \<Rightarrow> nat \<Rightarrow> nat \<Rightarrow> physmem \<Rightarrow> bool" where
  "raw_ok hs he i pm \<longleftrightarrow>
     (case raw_range hs he pm of (s, e) \<Rightarrow>
        i < 16 \<and> unat (root_obj pm) + 8 \<le> s \<and> up8 s + 16 \<le> down8 e \<and> e < 2 ^ 32 \<and> e - s < 2 ^ 28)
     \<and> unat (min_alloc pm) mod 8 = 0 \<and> 8 \<le> unat (min_alloc pm) \<and> unat (min_alloc pm) < 2 ^ 28"

definition whole :: "nat \<Rightarrow> nat \<Rightarrow> physmem \<Rightarrow> block list" where
  "whole hs he pm = (case raw_range hs he pm of (s, e) \<Rightarrow> [(up8 s, down8 e - 8 - up8 s)])"

lemma unat_eqD: "unat x = n \<Longrightarrow> x = W n"
  by auto

lemma align_up: "unat x + 8 \<le> 2 ^ 32 \<Longrightarrow>
  (if x AND 7 \<noteq> 0 then (x + 8) AND NOT 7 else x) = W (up8 (unat x))"
proof -
  assume x: "unat x + 8 \<le> 2 ^ 32"
  have up: "unat (x + 8) = unat x + 8" if "unat x mod 8 \<noteq> 0"
  proof -
    have "unat x \<noteq> 2 ^ 32 - 8" using that by auto
    then show ?thesis using x by (simp add: unat_plus_if')
  qed
  have "unat (if x AND 7 \<noteq> 0 then (x + 8) AND NOT 7 else x) = up8 (unat x)"
    unfolding round_up_8 [symmetric] using up by (simp add: unat_and_not_7 and_7_zero)
  then show ?thesis by (rule unat_eqD)
qed

lemma align_down: "(if x AND 7 \<noteq> 0 then x AND NOT 7 else x) = W (down8 (unat x))"
proof -
  have "unat (if x AND 7 \<noteq> 0 then x AND NOT 7 else x) = down8 (unat x)"
    by (auto simp: unat_and_not_7 minus_mod_eq_div_mult and_7_zero)
  then show ?thesis by (rule unat_eqD)
qed


lemma init_region_ok:
  assumes raw: "raw_ok hs he i pm" and h: "he < 2 ^ 32" "hs < 2 ^ 32"
    and init: "mm_init_region (W hs) (W he) (W i) (m, pm) = (m', pm')"
  shows "region_ok i m' pm' (whole hs he pm) [] \<and> footprint pm' \<subseteq> raw_bytes hs he pm
    \<and> only_in (raw_bytes hs he pm) m m'"
proof -
  obtain s e where se: "raw_range hs he pm = (s, e)" by fastforce
  define lo q r where "lo = up8 s" and "q = down8 e - 8" and "r = unat (root_obj pm)"
  have d8: "down8 e \<le> e" by simp
  have u8: "s \<le> up8 s" using round_up_8 [of s] by (auto split: if_splits)
  have m8: "q mod 8 = 0" "down8 e = q + 8"
    using raw se by (simp_all add: q_def raw_ok_def)
  have lim: "i < 16" "r + 8 \<le> s" "lo + 8 \<le> q" "q + 8 \<le> e" "e < 2 ^ 32" "e - s < 2 ^ 28" "s \<le> lo" "lo mod 8 = 0"
    "unat (min_alloc pm) mod 8 = 0" "8 \<le> unat (min_alloc pm)" "unat (min_alloc pm) < 2 ^ 28"
    using raw se d8 u8 m8(2) by (auto simp: raw_ok_def lo_def r_def)
  have pm1: "(if start_addr pm = 0 \<and> end_addr pm = 0
      then pm\<lparr>start_addr := W hs, end_addr := W he\<rparr> else pm) = pm\<lparr>start_addr := W s, end_addr := W e\<rparr>"
    using se by (auto simp: raw_range_def split: if_splits)
  define z where "z = clear_bytes (W s) (W e) m"
  have z: "only_in (raw_bytes hs he pm) m z"
    using lim by (simp add: z_def clear_bytes_span only_in_def raw_bytes_def se)
  have heads: "header lo \<subseteq> raw_bytes hs he pm" "header q \<subseteq> raw_bytes hs he pm" "header r \<subseteq> raw_bytes hs he pm"
    using lim span_mono [of s lo "lo + 8" e] span_mono [of s q "q + 8" e]
    by (auto simp: raw_bytes_def se r_def)
  have far: "far r lo" "far r q" "far lo q" "far q lo" "far lo r" "far q r" "r + 8 \<le> 2 ^ 32" "lo + 8 \<le> 2 ^ 32" "q + 8 \<le> 2 ^ 32"
    using lim by (auto simp: far_def)
  have al: "(if W s AND 7 \<noteq> 0 then (W s + 8) AND NOT 7 else W s) = W lo"
    "(if W e AND 7 \<noteq> 0 then W e AND NOT 7 else W e) = W (q + 8)"
  proof -
    have "unat (W s) = s" "unat (W e) = e" "unat (W s) + 8 \<le> 2 ^ 32" using lim by auto
    then show "(if W s AND 7 \<noteq> 0 then (W s + 8) AND NOT 7 else W s) = W lo"
      "(if W e AND 7 \<noteq> 0 then W e AND NOT 7 else W e) = W (q + 8)"
      using align_up [of "W s"] align_down [of "W e"] m8(2) by (simp_all only: lo_def)
  qed
  have sub: "W (q + 8) - 8 = W q" "W q - W lo = W (q - lo)" using lim by simp_all
  have sz: "q - lo < 2 ^ 28" using lim by auto
  have pm': "pm' = pm\<lparr>start_addr := W lo, end_addr := W (q + 8), pm_size := W (q - lo), allocated := 0,
      root_node := W r, last_node := W q\<rparr>"
    and m': "m' = set_mm_size (W q) 0 (set_mm_next (W q) 0
      (set_mm_size (W lo) (hdr i (q - lo)) (set_mm_size (W lo) (mm_set_size 0 (W (q - lo))) (set_mm_next (W lo) (W q)
        (set_mm_next (W r) (W lo) (set_mm_size (W r) 0 z))))))"
  proof -
    let ?p1 = "pm\<lparr>start_addr := W s, end_addr := W e\<rparr>"
    let ?p2 = "pm\<lparr>start_addr := W lo, end_addr := W e\<rparr>"
    have p2: "(if start_addr ?p1 AND 7 \<noteq> 0 then ?p1\<lparr>start_addr := (start_addr ?p1 + 8) AND NOT 7\<rparr> else ?p1) = ?p2"
      using al(1) by (cases "W s AND 7 = 0") simp_all
    have p3: "(if end_addr ?p2 AND 7 \<noteq> 0 then ?p2\<lparr>end_addr := end_addr ?p2 AND NOT 7\<rparr> else ?p2)
        = pm\<lparr>start_addr := W lo, end_addr := W (q + 8)\<rparr>"
      using al(2) by (cases "W e AND 7 = 0") simp_all
    have "(m', pm') = (set_mm_size (W q) 0 (set_mm_next (W q) 0
        (set_mm_size (W lo) (hdr i (q - lo)) (set_mm_size (W lo) (mm_set_size 0 (W (q - lo)))
          (set_mm_next (W lo) (W q) (set_mm_next (W r) (W lo) (set_mm_size (W r) 0 z)))))),
        pm\<lparr>start_addr := W lo, end_addr := W (q + 8), pm_size := W (q - lo), allocated := 0,
          root_node := W r, last_node := W q\<rparr>)"
      unfolding init [symmetric] mm_init_region_def Let_def prod.case pm1 p2 p3
      using mm_set_region_size [OF sz, of i] sub
      by (simp add: z_def r_def header_same)
    then show "pm' = pm\<lparr>start_addr := W lo, end_addr := W (q + 8), pm_size := W (q - lo), allocated := 0,
      root_node := W r, last_node := W q\<rparr>" "m' = set_mm_size (W q) 0 (set_mm_next (W q) 0
      (set_mm_size (W lo) (hdr i (q - lo)) (set_mm_size (W lo) (mm_set_size 0 (W (q - lo))) (set_mm_next (W lo) (W q)
        (set_mm_next (W r) (W lo) (set_mm_size (W r) 0 z))))))" by blast+
  qed
  have only: "only_in (raw_bytes hs he pm) m m'" unfolding m' by (intro only_in_set z heads)
  have u: "unat (W lo) = lo" "unat (W q) = q" "unat (W (q - lo)) = q - lo" "unat (W r) = r"
    using lim sz by (auto simp del: of_nat_diff)
  have hdrs: "mm_next m' (W r) = W lo" "mm_next m' (W lo) = W q" "mm_size m' (W lo) = hdr i (q - lo)"
    "mm_next m' (W q) = 0" "mm_size m' (W r) = 0"
    unfolding m' using far by (simp_all add: hdr_simps)
  have "footprint pm' \<subseteq> raw_bytes hs he pm"
    using u lim span_mono [of s lo "q + 8" e] by (auto simp: footprint_def pm' raw_bytes_def se r_def)
  moreover have blk: "(q - lo) mod 8 = 0" "8 \<le> q - lo"
    using lim(3,8) m8(1) by (simp_all add: mod_0_imp_dvd)
  moreover have "region_ok i m' pm' (whole hs he pm) []"
    using u lim m8 hdrs sz blk unfolding region_ok_def region_shape_def pm' whole_def se
    by (simp add: lo_def [symmetric] good_block_def del: of_nat_diff) 
  ultimately show ?thesis using only by blast
qed


lemma init_from_ok:
  assumes "\<forall>j<length pms. raw_ok hs he (k + j) (pms ! j)" "hs < 2 ^ 32" "he < 2 ^ 32"
    "\<forall>i<length pms. \<forall>j<length pms. i \<noteq> j \<longrightarrow> raw_bytes hs he (pms ! i) \<inter> raw_bytes hs he (pms ! j) = {}"
    "mm_init_from (W hs) (W he) (W k) m pms = (m', pms')"
  shows "length pms' = length pms
    \<and> (\<forall>j<length pms. region_ok (k + j) m' (pms' ! j) (whole hs he (pms ! j)) []
          \<and> footprint (pms' ! j) \<subseteq> raw_bytes hs he (pms ! j))
    \<and> only_in (\<Union>pm\<in>set pms. raw_bytes hs he pm) m m'"
  using assms
proof (induction pms arbitrary: k m m' pms')
  case (Cons pm pms)
  obtain m1 pm1 where r: "mm_init_region (W hs) (W he) (W k) (m, pm) = (m1, pm1)" by fastforce
  obtain m2 pms2 where f: "mm_init_from (W hs) (W he) (W (Suc k)) m1 pms = (m2, pms2)" by fastforce
  have res: "m' = m2" "pms' = pm1 # pms2" using Cons.prems(5) r f by (auto simp: add.commute)
  have r1: "region_ok k m1 pm1 (whole hs he pm) [] \<and> footprint pm1 \<subseteq> raw_bytes hs he pm
    \<and> only_in (raw_bytes hs he pm) m m1"
    using Cons.prems(1-3) by (intro init_region_ok [OF _ _ _ r]) auto
  have IH: "length pms2 = length pms
    \<and> (\<forall>j<length pms. region_ok (Suc k + j) m2 (pms2 ! j) (whole hs he (pms ! j)) []
          \<and> footprint (pms2 ! j) \<subseteq> raw_bytes hs he (pms ! j))
    \<and> only_in (\<Union>pm\<in>set pms. raw_bytes hs he pm) m1 m2"
  proof (rule Cons.IH [OF _ Cons.prems(2,3) _ f])
    show "\<forall>j<length pms. raw_ok hs he (Suc k + j) (pms ! j)"
      using Cons.prems(1) by (auto dest: spec [of _ "Suc j" for j])
    show "\<forall>i<length pms. \<forall>j<length pms. i \<noteq> j \<longrightarrow> raw_bytes hs he (pms ! i) \<inter> raw_bytes hs he (pms ! j) = {}"
      using Cons.prems(4) by fastforce
  qed
  have "region_ok k m2 pm1 (whole hs he pm) []"
  proof (rule region_footprint_frame [of _ m1])
    show "region_ok k m1 pm1 (whole hs he pm) []" using r1 by blast
    show "m2 b = m1 b" if "b \<in> footprint pm1" for b
    proof -
      have "b \<notin> raw_bytes hs he p" if p: "p \<in> set pms" for p
      proof -
        obtain j where "j < length pms" "p = pms ! j" using p by (auto simp: in_set_conv_nth)
        then have "raw_bytes hs he pm \<inter> raw_bytes hs he p = {}"
          using Cons.prems(4) [rule_format, of 0 "Suc j"] by simp
        then show ?thesis using r1 \<open>b \<in> footprint pm1\<close> by blast
      qed
      then show ?thesis using IH by (auto simp: only_in_def)
    qed
  qed
  moreover have "only_in (\<Union>pm\<in>set (pm # pms). raw_bytes hs he pm) m m2"
    using r1 IH by (auto simp: only_in_def)
  ultimately show ?case using res IH r1 by (simp add: All_less_Suc2)
qed simp


section \<open>The memories of the board\<close>

lemma all_less_5: "(\<forall>i<5. P i) \<longleftrightarrow> P 0 \<and> P 1 \<and> P 2 \<and> P 3 \<and> P (4 :: nat)"
  by (simp add: numeral_eq_Suc All_less_Suc conj_ac)

lemmas memories_defs = physical_memories_def sram_def dram_bank_1_def dram_bank_2_def
  dram_bank_3_def dram_bank_4_def static_physmem_def

lemma memories_raw_range:
  "map (raw_range hs he) (physical_memories r) =
     [(hs, he), (0x70000000, 0x7007FFFF), (0x70080000, 0x700FFFFF), (0x70100000, 0x7017FFFF),
      (0x70180000, 0x701FFFFF)]"
  by (simp add: memories_defs raw_range_def)

lemma memories_min_alloc: "map min_alloc (physical_memories r) = [16, 256, 256, 256, 256]"
  by (simp add: memories_defs)

lemma memories_root_obj: "map root_obj (physical_memories r) = map r [0, 1, 2, 3, 4]"
  by (simp add: memories_defs)

text \<open>
  The addresses the linker may choose: the five \<^verbatim>\<open>root_obj\<close> fields are in the data section below
  the heap, the heap is in the internal memory below the external one and holds at least two
  headers once aligned.
\<close>

definition linked_at :: "nat \<Rightarrow> nat \<Rightarrow> (nat \<Rightarrow> nat) \<Rightarrow> bool" where
  "linked_at hs he root \<longleftrightarrow>
     (\<forall>i<5. root i + 8 \<le> hs) \<and> (\<forall>i<5. \<forall>j<5. i \<noteq> j \<longrightarrow> far (root i) (root j))
     \<and> up8 hs + 16 \<le> down8 he \<and> he \<le> 0x70000000 \<and> he - hs < 2 ^ 28"

definition boot_mm :: "mem \<Rightarrow> (nat \<Rightarrow> nat) \<Rightarrow> mm_state" where
  "boot_mm m root = \<lparr>mm_mem = m, mm_regions = physical_memories (\<lambda>i. W (root i))\<rparr>"

lemma boot_raw:
  assumes "linked_at hs he root"
  shows "\<forall>j<5. raw_ok hs he j (physical_memories (\<lambda>i. W (root i)) ! j)"
    and "\<forall>i<5. \<forall>j<5. i \<noteq> j \<longrightarrow> raw_bytes hs he (physical_memories (\<lambda>i. W (root i)) ! i)
      \<inter> raw_bytes hs he (physical_memories (\<lambda>i. W (root i)) ! j) = {}"
proof -
  let ?pms = "physical_memories (\<lambda>i. W (root i))"
  have u: "s \<le> up8 s" for s :: nat using round_up_8 [of s] by (auto split: if_splits)
  have d: "down8 s \<le> s" for s :: nat by simp
  have root: "\<And>i. i < 5 \<Longrightarrow> root i + 8 \<le> hs" "hs < 0x70000000" "hs \<le> he" "he \<le> 0x70000000"
    using assms u [of hs] d [of he] unfolding linked_at_def by auto
  have ur: "\<And>i. i < 5 \<Longrightarrow> unat (W (root i)) = root i" using root(1,2) by fastforce
  define rs where "rs = [(hs, he), (0x70000000, 0x7007FFFF), (0x70080000, 0x700FFFFF),
      (0x70100000, 0x7017FFFF), (0x70180000, 0x701FFFFF :: nat)]"
  have rng: "\<forall>i<5. raw_range hs he (?pms ! i) = rs ! i \<and> root_obj (?pms ! i) = W (root i)"
    unfolding all_less_5 by (simp add: memories_defs raw_range_def rs_def)
  show "\<forall>j<5. raw_ok hs he j (?pms ! j)"
    using assms rng ur root(2) unfolding all_less_5 linked_at_def
    by (simp add: raw_ok_def rs_def memories_defs)
  have dis: "\<forall>i<5. \<forall>j<5. i \<noteq> j \<longrightarrow> snd (rs ! i) \<le> fst (rs ! j) \<or> snd (rs ! j) \<le> fst (rs ! i)"
    and lim: "\<forall>i<5. hs \<le> fst (rs ! i) \<and> snd (rs ! i) \<le> 2 ^ 32"
    unfolding all_less_5 using root(2-4) by (simp_all add: rs_def)
  show "\<forall>i<5. \<forall>j<5. i \<noteq> j \<longrightarrow> raw_bytes hs he (?pms ! i) \<inter> raw_bytes hs he (?pms ! j) = {}"
  proof (intro allI impI)
    fix i j :: nat assume i: "i < 5" and j: "j < 5" and ne: "i \<noteq> j"
    have rb: "raw_bytes hs he (?pms ! k) = span (fst (rs ! k)) (snd (rs ! k)) \<union> header (root k)" if "k < 5" for k
      using rng ur that by (simp add: raw_bytes_def)
    have "far (root i) (root j)" using assms i j ne by (simp add: linked_at_def)
    then have "header (root i) \<inter> header (root j) = {}"
      using root(1) [OF i] root(1) [OF j] root(2) by (intro span_disjoint) (auto simp: far_def)
    moreover have "span (fst (rs ! k)) (snd (rs ! k)) \<inter> header (root l) = {}" if "k < 5" "l < 5" for k l
      using lim root(1) [OF that(2)] root(2) that by (intro span_disjoint) (auto dest: spec [of _ k])
    moreover have "span (fst (rs ! i)) (snd (rs ! i)) \<inter> span (fst (rs ! j)) (snd (rs ! j)) = {}"
      using dis lim i j ne by (intro span_disjoint) auto
    ultimately show "raw_bytes hs he (?pms ! i) \<inter> raw_bytes hs he (?pms ! j) = {}"
      using rb i j by blast
  qed
qed

lemma mm_init_establishes:
  assumes "linked_at hs he root"
  shows "mm_rep (mm_init (W hs) (W he) (boot_mm m root))
    (\<lambda>i. whole hs he (physical_memories (\<lambda>i. W (root i)) ! i)) (\<lambda>_. [])"
proof -
  let ?pms = "physical_memories (\<lambda>i. W (root i))"
  obtain m' pms' where f: "mm_init_from (W hs) (W he) (W 0) m ?pms = (m', pms')" by fastforce
  have len: "length ?pms = 5" by (simp add: physical_memories_def)
  have "down8 he \<le> he" "hs \<le> up8 hs" using round_up_8 [of hs] by (auto split: if_splits)
  then have lim: "hs < 2 ^ 32" "he < 2 ^ 32" using assms unfolding linked_at_def by auto
  have "length pms' = length ?pms
    \<and> (\<forall>j<length ?pms. region_ok (0 + j) m' (pms' ! j) (whole hs he (?pms ! j)) []
          \<and> footprint (pms' ! j) \<subseteq> raw_bytes hs he (?pms ! j))
    \<and> only_in (\<Union>pm\<in>set ?pms. raw_bytes hs he pm) m m'"
    using boot_raw [OF assms] by (intro init_from_ok [OF _ lim _ f]) (simp_all add: len)
  moreover have "mm_init (W hs) (W he) (boot_mm m root) = \<lparr>mm_mem = m', mm_regions = pms'\<rparr>"
    using f by (simp add: mm_init_def boot_mm_def)
  ultimately show ?thesis
    using boot_raw(2) [OF assms] unfolding mm_rep_def by (simp add: len) blast
qed

end
