(* ===== verification/Mem_Run.thy ===== *)
theory Mem_Run
  imports Mem_Init
begin

text \<open>
  The allocator under arbitrary use. A client is a sequence of steps: it may allocate, free what
  it was given and write into what it was given, in any order. \<open>mm_step\<close> is that step relation
  on the allocator state and the list of the allocations held; \<open>mm_reachable\<close> are the states
  after any number of steps from the boot state.
\<close>

section \<open>Interface\<close>

text \<open>
  The contract of an allocator, as its clients use it: \<open>inv s L\<close> says that the blocks \<open>L\<close>
  (address and length of the usable memory) are held in state \<open>s\<close>.
\<close>

locale allocator =
  fixes inv :: "'s \<Rightarrow> block list \<Rightarrow> bool"
    and content :: "'s \<Rightarrow> mem"
    and alloc :: "u32 \<Rightarrow> 's \<Rightarrow> (u32 \<times> 's) res"
    and free :: "u32 \<Rightarrow> 's \<Rightarrow> 's res"
    and fits :: "u32 \<Rightarrow> bool"
    and put :: "mem \<Rightarrow> 's \<Rightarrow> 's"
  assumes alloc_law: "inv s L \<Longrightarrow> fits n \<Longrightarrow>
      alloc n s = Inr (0, s)
      \<or> (\<exists>b s'. alloc n s = Inr (W (fst b), s') \<and> W (fst b) \<noteq> 0 \<and> unat n \<le> snd b \<and> inv s' (b # L)
           \<and> (\<forall>c\<in>set L. \<forall>x\<in>span (fst c) (fst c + snd c). content s' x = content s x))"
    and free_law: "inv s L \<Longrightarrow> b \<in> set L \<Longrightarrow>
      \<exists>s'. free (W (fst b)) s = Inr s' \<and> inv s' (remove1 b L)
        \<and> (\<forall>c\<in>set (remove1 b L). \<forall>x\<in>span (fst c) (fst c + snd c). content s' x = content s x)"
    and bounds_law: "inv s L \<Longrightarrow> b \<in> set L \<Longrightarrow> fst b + snd b \<le> 2 ^ 32"
    and apart_law: "inv s L \<Longrightarrow> sorted_wrt apart L"
    and put_law: "inv s L \<Longrightarrow> b \<in> set L \<Longrightarrow> only_in (span (fst b) (fst b + snd b)) (content s) m
      \<Longrightarrow> inv (put m s) L \<and> content (put m s) = m"
begin

text \<open>Held blocks never share a byte.\<close>

lemma held_disjoint:
  assumes "inv s L" "j < k" "k < length L"
  shows "span (fst (L ! j)) (fst (L ! j) + snd (L ! j)) \<inter> span (fst (L ! k)) (fst (L ! k) + snd (L ! k)) = {}"
proof -
  have "apart (L ! j) (L ! k)" using apart_law [OF assms(1)] assms(2,3) by (simp add: sorted_wrt_nth_less)
  moreover have "fst (L ! j) + snd (L ! j) \<le> 2 ^ 32" "fst (L ! k) + snd (L ! k) \<le> 2 ^ 32"
    using bounds_law [OF assms(1)] assms(2,3) by simp_all
  ultimately show ?thesis by (intro span_disjoint) (auto simp: apart_def)
qed

text \<open>Freeing what was just allocated gives the same blocks back, contents included.\<close>

lemma alloc_free:
  assumes "inv s L" "fits n" "alloc n s = Inr (p, s')" "p \<noteq> 0"
  shows "\<exists>s''. free p s' = Inr s'' \<and> inv s'' L
    \<and> (\<forall>c\<in>set L. \<forall>x\<in>span (fst c) (fst c + snd c). content s'' x = content s x)"
proof -
  obtain b where b: "p = W (fst b)" "inv s' (b # L)"
    "\<forall>c\<in>set L. \<forall>x\<in>span (fst c) (fst c + snd c). content s' x = content s x"
    using alloc_law [OF assms(1,2)] assms(3,4) by auto
  with free_law [OF b(2), of b] show ?thesis by auto
qed

text \<open>Writing the block just allocated disturbs no other block.\<close>

lemma alloc_put:
  assumes "inv s L" "fits n" "alloc n s = Inr (p, s')" "p \<noteq> 0"
    and only: "\<And>x. \<not> x - p < n \<Longrightarrow> m x = content s' x"
  shows "\<exists>b. p = W (fst b) \<and> unat n \<le> snd b \<and> inv (put m s') (b # L) \<and> content (put m s') = m
    \<and> (\<forall>c\<in>set L. \<forall>x\<in>span (fst c) (fst c + snd c). m x = content s x)"
proof -
  obtain b where b: "p = W (fst b)" "unat n \<le> snd b" "inv s' (b # L)"
    "\<forall>c\<in>set L. \<forall>x\<in>span (fst c) (fst c + snd c). content s' x = content s x"
    using alloc_law [OF assms(1,2)] assms(3,4) by auto
  have inside: "x \<in> span (fst b) (fst b + snd b)" if "x - p < n" for x
  proof -
    have "x = W (fst b + unat (x - p))" using b(1) by simp
    moreover have "unat (x - p) < snd b" using that b(2) by (simp add: word_less_nat_alt)
    ultimately show ?thesis by (auto simp: span_def simp del: of_nat_add intro!: image_eqI)
  qed
  have "only_in (span (fst b) (fst b + snd b)) (content s') m"
    using inside only unfolding only_in_def by blast
  then have put: "inv (put m s') (b # L)" "content (put m s') = m"
    using put_law [OF b(3), of b m] by simp_all
  have "m x = content s x" if c: "c \<in> set L" "x \<in> span (fst c) (fst c + snd c)" for c x
  proof -
    obtain k where k: "k < length L" "c = L ! k" using c(1) by (auto simp: in_set_conv_nth)
    then have "span (fst b) (fst b + snd b) \<inter> span (fst c) (fst c + snd c) = {}"
      using held_disjoint [OF b(3), of 0 "Suc k"] by simp
    then have "\<not> x - p < n" using inside c(2) by blast
    then show ?thesis using only b(4) c by simp
  qed
  then show ?thesis using b(1,2) put by blast
qed

text \<open>Any number of allocations in a row succeeds or runs out of memory; nothing held is lost.\<close>

lemma alloc_each:
  assumes "inv s L" "\<forall>n\<in>set ns. fits n"
  shows "\<exists>s' M. each (\<lambda>n s. rbind (alloc n s) (\<lambda>(p, s). Inr s)) ns s = Inr s' \<and> inv s' (M @ L)
    \<and> (\<forall>c\<in>set L. \<forall>x\<in>span (fst c) (fst c + snd c). content s' x = content s x)"
  using assms
proof (induction ns arbitrary: s L)
  case Nil
  then show ?case by (auto intro: exI [of _ "[]"])
next
  case (Cons n ns)
  from Cons.prems have inv: "inv s L" and fit: "fits n" by auto
  from alloc_law [OF inv fit] show ?case
  proof
    assume "alloc n s = Inr (0, s)"
    then show ?thesis using Cons by auto
  next
    assume "\<exists>b s'. alloc n s = Inr (W (fst b), s') \<and> W (fst b) \<noteq> 0 \<and> unat n \<le> snd b \<and> inv s' (b # L)
           \<and> (\<forall>c\<in>set L. \<forall>x\<in>span (fst c) (fst c + snd c). content s' x = content s x)"
    then obtain b s' where b: "alloc n s = Inr (W (fst b), s')" "inv s' (b # L)"
      "\<forall>c\<in>set L. \<forall>x\<in>span (fst c) (fst c + snd c). content s' x = content s x" by blast
    obtain s'' M where s'': "each (\<lambda>n s. rbind (alloc n s) (\<lambda>(p, s). Inr s)) ns s' = Inr s''"
      "inv s'' (M @ b # L)"
      "\<forall>c\<in>set (b # L). \<forall>x\<in>span (fst c) (fst c + snd c). content s'' x = content s' x"
      using Cons.IH [OF b(2)] Cons.prems(2) by auto
    then show ?thesis using b by (intro exI [of _ s''] exI [of _ "M @ [b]"]) auto
  qed
qed

end


section \<open>The allocator implements the interface\<close>

lemma rep_bounds:
  assumes "mm_rep st F L" "j < length (mm_regions st)" "b \<in> set (L j)"
  shows "good_block b" "0 < fst b" "fst b + snd b + 8 \<le> 2 ^ 32"
    "span (fst b) (fst b + snd b) \<subseteq> footprint (mm_regions st ! j)"
proof -
  have "region_ok j (mm_mem st) (mm_regions st ! j) (F j) (L j)" using assms by (simp add: mm_rep_def)
  note R = region_bounds [OF this]
  show "good_block b" "0 < fst b" "fst b + snd b + 8 \<le> 2 ^ 32"
    using R(1-3) R(8) [OF assms(3)] by auto
  show "span (fst b) (fst b + snd b) \<subseteq> footprint (mm_regions st ! j)"
    using R(8) [OF assms(3)] span_mono [of "unat (start_addr (mm_regions st ! j))" "fst b" "fst b + snd b"
        "unat (last_node (mm_regions st ! j)) + 8"] by (auto simp: footprint_def)
qed

lemma live_kept:
  assumes rep: "mm_rep st F L" and i: "i < length (mm_regions st)" and j: "j < length (mm_regions st)"
    and ch: "only_in (free_bytes (mm_regions st ! i) (G @ F i)) (mm_mem st) m'" "set G \<subseteq> set (L i)"
    and b: "b \<in> set (L j)" "j = i \<Longrightarrow> \<forall>g\<in>set G. apart g b" and x: "x \<in> span (fst b) (fst b + snd b)"
  shows "m' x = mm_mem st x"
proof -
  have ok: "region_ok i (mm_mem st) (mm_regions st ! i) (F i) (L i)" using rep i by (simp add: mm_rep_def)
  have fb: "free_bytes (mm_regions st ! i) (G @ F i)
    = (\<Union>g\<in>set G. span (fst g) (fst g + snd g)) \<union> free_bytes (mm_regions st ! i) (F i)"
    by (auto simp: free_bytes_def)
  have "x \<notin> free_bytes (mm_regions st ! i) (G @ F i)"
  proof (cases "j = i")
    case True
    have "span (fst b) (fst b + snd b) \<inter> span (fst g) (fst g + snd g) = {}" if "g \<in> set G" for g
    proof (rule span_disjoint)
      show "fst b + snd b \<le> fst g \<or> fst g + snd g \<le> fst b" using b(2) True that by (auto simp: apart_def)
      show "fst b + snd b \<le> 2 ^ 32" using rep_bounds(3) [OF rep j b(1)] by simp
      show "fst g + snd g \<le> 2 ^ 32" using rep_bounds(3) [OF rep i, of g] ch(2) that by auto
    qed
    then show ?thesis using x True b(1) free_bytes_live [OF ok, of b] by (auto simp: fb)
  next
    case False
    then have dis: "footprint (mm_regions st ! i) \<inter> footprint (mm_regions st ! j) = {}"
      using rep i j by (auto simp: mm_rep_def)
    have "free_bytes (mm_regions st ! i) (G @ F i) \<subseteq> footprint (mm_regions st ! i)"
      using free_bytes_footprint [OF ok] rep_bounds(4) [OF rep i] ch(2) by (auto simp: fb)
    then show ?thesis using x dis rep_bounds(4) [OF rep j b(1)] by blast
  qed
  then show ?thesis using ch(1) by (simp add: only_in_def)
qed

definition payload :: "block \<Rightarrow> block" where
  "payload b = (fst b + 8, snd b - 8)"

definition mm_fits :: "u32 \<Rightarrow> bool" where
  "mm_fits n \<longleftrightarrow> unat n + 16 \<le> 2 ^ 32"

definition mm_holds :: "nat \<Rightarrow> mm_state \<Rightarrow> block list \<Rightarrow> bool" where
  "mm_holds i st P \<longleftrightarrow> i < length (mm_regions st) \<and> (\<exists>F L. mm_rep st F L \<and> P = map payload (L i))"

lemma spec_alloc_size:
  assumes "spec_alloc mn n F = Some (F', b)"
  shows "n \<le> snd b"
  using assms first_fit_Some [of n F]
  by (auto simp: spec_alloc_def split: option.splits if_splits)

lemma payload_span: "good_block b \<Longrightarrow>
  span (fst (payload b)) (fst (payload b) + snd (payload b)) \<subseteq> span (fst b) (fst b + snd b)"
  by (rule span_mono) (auto simp: payload_def good_block_def)

lemma payload_apart: "good_block b \<Longrightarrow> good_block c \<Longrightarrow> apart b c \<Longrightarrow> apart (payload b) (payload c)"
  by (auto simp: apart_def payload_def good_block_def)

lemma remove1_map_inj:
  "inj_on f (insert x (set xs)) \<Longrightarrow> remove1 (f x) (map f xs) = map f (remove1 x xs)"
  by (induction xs) (auto simp: inj_on_def)

lemma remove1_payload:
  assumes "\<forall>c\<in>set bs. good_block c" "good_block b"
  shows "remove1 (payload b) (map payload bs) = map payload (remove1 b bs)"
proof (rule remove1_map_inj, rule inj_onI)
  fix x y assume xy: "x \<in> insert b (set bs)" "y \<in> insert b (set bs)" "payload x = payload y"
  then have "8 \<le> snd x" "8 \<le> snd y" using assms by (auto simp: good_block_def)
  then show "x = y" using xy(3) by (auto simp: payload_def prod_eq_iff)
qed

lemma mm_alloc_length:
  assumes "mm_alloc n i st = Inr (p, st')"
  shows "length (mm_regions st') = length (mm_regions st)"
  using assms by (auto simp: mm_alloc_def Let_def res_simps split: if_splits prod.splits)


lemma mm_free_length:
  assumes "mm_free p st = Inr st'"
  shows "length (mm_regions st') = length (mm_regions st)"
  using assms by (auto simp: mm_free_def Let_def res_simps split: if_splits)

text \<open>The two refinement theorems as a client sees them, for the blocks of all regions.\<close>

lemma mm_alloc_client:
  assumes rep: "mm_rep st F L" and i: "i < length (mm_regions st)" and n: "mm_fits n"
  shows "mm_alloc n i st = Inr (0, st) \<or>
    (\<exists>b st' F'. mm_alloc n i st = Inr (W (fst b + 8), st') \<and> W (fst b + 8) \<noteq> 0 \<and> unat n + 8 \<le> snd b
       \<and> length (mm_regions st') = length (mm_regions st) \<and> mm_rep st' F' (L(i := b # L i))
       \<and> (\<forall>j<length (mm_regions st). \<forall>c\<in>set (L j). \<forall>x\<in>span (fst c) (fst c + snd c).
            mm_mem st' x = mm_mem st x))"
proof (cases "spec_alloc (unat (min_alloc (mm_regions st ! i))) (request (min_alloc (mm_regions st ! i)) n) (F i)")
  case None
  then show ?thesis using alloc_implements [OF rep i, of n] n by (simp add: mm_fits_def)
next
  case (Some r)
  obtain F' b where r: "r = (F', b)" by (cases r)
  obtain st' where a: "mm_alloc n i st = Inr (W (fst b + 8), st')"
    and rep': "mm_rep st' (F(i := F')) (L(i := b # L i))"
    and ch: "only_in (free_bytes (mm_regions st ! i) ([] @ F i)) (mm_mem st) (mm_mem st')"
    using alloc_implements [OF rep i, of n] n Some r by (auto simp: mm_fits_def)
  have len: "length (mm_regions st') = length (mm_regions st)" using mm_alloc_length [OF a] .
  have "unat n + 8 \<le> snd b"
    using spec_alloc_size [OF Some [unfolded r]] request_bounds(3) [of n "min_alloc (mm_regions st ! i)"] by simp
  moreover have "W (fst b + 8) \<noteq> 0"
    using rep_bounds(1-3) [OF rep', of i b] i len by (intro W_pos) (auto simp: good_block_def)
  moreover have "mm_mem st' x = mm_mem st x"
    if "j < length (mm_regions st)" "c \<in> set (L j)" "x \<in> span (fst c) (fst c + snd c)" for j c x
    using live_kept [OF rep i that(1) ch _ that(2) _ that(3)] by simp
  ultimately show ?thesis using a rep' len by blast
qed

lemma mm_free_client:
  assumes rep: "mm_rep st F L" and i: "i < length (mm_regions st)" and b: "b \<in> set (L i)"
  shows "\<exists>st' F'. mm_free (W (fst b + 8)) st = Inr st' \<and> length (mm_regions st') = length (mm_regions st)
     \<and> mm_rep st' F' (L(i := remove1 b (L i)))
     \<and> (\<forall>j<length (mm_regions st). \<forall>c\<in>set ((L(i := remove1 b (L i))) j). \<forall>x\<in>span (fst c) (fst c + snd c).
            mm_mem st' x = mm_mem st x)"
proof -
  obtain st' where f: "mm_free (W (fst b + 8)) st = Inr st'"
    and rep': "mm_rep st' (F(i := free_insert (unat (root_node (mm_regions st ! i))) (F i) b)) (L(i := remove1 b (L i)))"
    and ch: "only_in (free_bytes (mm_regions st ! i) ([b] @ F i)) (mm_mem st) (mm_mem st')"
    using free_implements [OF rep i b] by auto
  have "sorted_wrt apart (L i)" using rep i by (simp add: mm_rep_def region_ok_def)
  then have ap: "apart b c" if "c \<in> set (remove1 b (L i))" for c using live_apart b that by blast
  have "mm_mem st' x = mm_mem st x"
    if j: "j < length (mm_regions st)" and c: "c \<in> set ((L(i := remove1 b (L i))) j)"
      and x: "x \<in> span (fst c) (fst c + snd c)" for j c x
  proof (rule live_kept [OF rep i j ch _ _ _ x])
    show "set [b] \<subseteq> set (L i)" using b by simp
    show "c \<in> set (L j)" using c set_remove1_subset [of b "L i"] by (auto split: if_splits)
    show "\<forall>g\<in>set [b]. apart g c" if "j = i" using ap c that by simp
  qed
  then show ?thesis using f rep' mm_free_length [OF f] by blast
qed

lemma rep_apart:
  assumes rep: "mm_rep st F L" and i: "i < length (mm_regions st)" and j: "j < length (mm_regions st)"
    and b: "b \<in> set (L i)" and c: "c \<in> set (L j)" and ne: "(i, b) \<noteq> (j, c)"
  shows "span (fst b) (fst b + snd b) \<inter> span (fst c) (fst c + snd c) = {}"
proof (cases "i = j")
  case True
  have "sorted_wrt apart (L i)" using rep i by (simp add: mm_rep_def region_ok_def)
  moreover have "c \<in> set (remove1 b (L i))" using True c ne by (simp add: in_set_remove1)
  ultimately have "apart b c" using b live_apart by blast
  then show ?thesis
    using rep_bounds(3) [OF rep i b] rep_bounds(3) [OF rep j c] by (intro span_disjoint) (auto simp: apart_def)
next
  case False
  then have "footprint (mm_regions st ! i) \<inter> footprint (mm_regions st ! j) = {}"
    using rep i j by (auto simp: mm_rep_def)
  then show ?thesis using rep_bounds(4) [OF rep i b] rep_bounds(4) [OF rep j c] by blast
qed

text \<open>A write inside a payload touches no header.\<close>

lemma rep_write:
  assumes rep: "mm_rep st F L" and i: "i < length (mm_regions st)" and b: "b \<in> set (L i)"
    and m: "only_in (span (fst b + 8) (fst b + snd b)) (mm_mem st) m"
  shows "mm_rep (st\<lparr>mm_mem := m\<rparr>) F L"
proof -
  let ?S = "span (fst b + 8) (fst b + snd b)"
  have S: "?S \<subseteq> span (fst b) (fst b + snd b)" by (rule span_mono) auto
  have "region_ok j m (mm_regions st ! j) (F j) (L j)" if j: "j < length (mm_regions st)" for j
  proof (cases "j = i")
    case False
    then have "footprint (mm_regions st ! i) \<inter> footprint (mm_regions st ! j) = {}"
      using rep i j by (auto simp: mm_rep_def)
    then have "footprint (mm_regions st ! j) \<inter> ?S = {}" using S rep_bounds(4) [OF rep i b] by blast
    moreover have "region_ok j (mm_mem st) (mm_regions st ! j) (F j) (L j)" using rep j by (simp add: mm_rep_def)
    ultimately show ?thesis using region_footprint_frame m unfolding only_in_def by blast
  next
    case True
    have ok: "region_ok i (mm_mem st) (mm_regions st ! i) (F i) (L i)" using rep i by (simp add: mm_rep_def)
    note R = region_bounds [OF ok]
    have same: "same_header (mm_mem st) m d" if "header d \<inter> ?S = {}" for d
      using only_in_same [OF m that] .
    have off: "span d e \<inter> ?S = {}" if "fst b + snd b \<le> d \<or> e \<le> fst b + 8" "e \<le> 2 ^ 32" for d e
      using that R(3) R(8) [OF b] by (intro span_disjoint) auto
    have "region_ok i m (mm_regions st ! i) (F i) (L i)"
    proof (rule region_header_frame [OF ok])
      have fr: "?S \<inter> free_bytes (mm_regions st ! i) (F i) = {}" using S free_bytes_live [OF ok b] by blast
      show "\<forall>d\<in>set (F i). same_header (mm_mem st) m (fst d)"
        using fr free_bytes_header [OF ok] by (intro ballI same) blast
      show "same_header (mm_mem st) m (unat (root_node (mm_regions st ! i)))"
        using fr free_bytes_root by (intro same) blast
      show "same_header (mm_mem st) m (unat (last_node (mm_regions st ! i)))"
        using R(3) R(8) [OF b] by (intro same off) auto
      show "\<forall>d\<in>set (L i). same_header (mm_mem st) m (fst d)"
      proof (intro ballI same)
        fix d assume d: "d \<in> set (L i)"
        show "header (fst d) \<inter> ?S = {}"
        proof (cases "d = b")
          case True
          then show ?thesis using R(3) R(8) [OF b] by (intro off) (auto simp: good_block_def)
        next
          case False
          then have "span (fst b) (fst b + snd b) \<inter> span (fst d) (fst d + snd d) = {}"
            using rep_apart [OF rep i i b d] by auto
          moreover have "header (fst d) \<subseteq> span (fst d) (fst d + snd d)"
            using R(8) [OF d] by (intro span_mono) (auto simp: good_block_def)
          ultimately show ?thesis using S by blast
        qed
      qed
    qed
    with True show ?thesis by simp
  qed
  then show ?thesis using rep by (simp add: mm_rep_def)
qed


interpretation mm: allocator "mm_holds i" mm_mem "\<lambda>n. mm_alloc n i" mm_free mm_fits
    "\<lambda>m st. st\<lparr>mm_mem := m\<rparr>"
  for i :: nat
proof
  fix s P n assume inv: "mm_holds i s P" and n: "mm_fits n"
  then obtain F L where rep: "mm_rep s F L" "P = map payload (L i)" and i: "i < length (mm_regions s)"
    by (auto simp: mm_holds_def)
  show "mm_alloc n i s = Inr (0, s)
      \<or> (\<exists>b s'. mm_alloc n i s = Inr (W (fst b), s') \<and> W (fst b) \<noteq> 0 \<and> unat n \<le> snd b \<and> mm_holds i s' (b # P)
           \<and> (\<forall>c\<in>set P. \<forall>x\<in>span (fst c) (fst c + snd c). mm_mem s' x = mm_mem s x))"
    using mm_alloc_client [OF rep(1) i n]
  proof
    assume "\<exists>b st' F'. mm_alloc n i s = Inr (W (fst b + 8), st') \<and> W (fst b + 8) \<noteq> 0 \<and> unat n + 8 \<le> snd b
       \<and> length (mm_regions st') = length (mm_regions s) \<and> mm_rep st' F' (L(i := b # L i))
       \<and> (\<forall>j<length (mm_regions s). \<forall>c\<in>set (L j). \<forall>x\<in>span (fst c) (fst c + snd c).
            mm_mem st' x = mm_mem s x)"
    then obtain b st' F' where b: "mm_alloc n i s = Inr (W (fst b + 8), st')" "W (fst b + 8) \<noteq> 0"
      "unat n + 8 \<le> snd b" "length (mm_regions st') = length (mm_regions s)" "mm_rep st' F' (L(i := b # L i))"
      "\<forall>c\<in>set (L i). \<forall>x\<in>span (fst c) (fst c + snd c). mm_mem st' x = mm_mem s x" using i by blast
    have "mm_holds i st' (payload b # P)"
      unfolding mm_holds_def using b(4,5) i rep(2)
      by (intro conjI exI [of _ F'] exI [of _ "L(i := b # L i)"]) simp_all
    moreover have "mm_mem st' x = mm_mem s x" if "c \<in> set P" "x \<in> span (fst c) (fst c + snd c)" for c x
      using that b(6) rep payload_span rep_bounds(1) [OF rep(1) i] by fastforce
    ultimately show ?thesis using b(1-3) by (intro disjI2 exI [of _ "payload b"] exI [of _ st']) (auto simp: payload_def)
  qed simp
next
  fix s P b assume inv: "mm_holds i s P" and b: "b \<in> set P"
  then obtain F L where rep: "mm_rep s F L" "P = map payload (L i)" and i: "i < length (mm_regions s)"
    by (auto simp: mm_holds_def)
  obtain c where c: "c \<in> set (L i)" "b = payload c" using b rep(2) by auto
  note good = rep_bounds(1) [OF rep(1) i]
  have rm: "remove1 b P = map payload (remove1 c (L i))"
    using remove1_payload good c rep(2) by auto
  obtain s' F' where f: "mm_free (W (fst c + 8)) s = Inr s'" "length (mm_regions s') = length (mm_regions s)"
    "mm_rep s' F' (L(i := remove1 c (L i)))"
    "\<forall>d\<in>set (remove1 c (L i)). \<forall>x\<in>span (fst d) (fst d + snd d). mm_mem s' x = mm_mem s x"
    using mm_free_client [OF rep(1) i c(1)] i by fastforce
  have "mm_holds i s' (remove1 b P)"
    unfolding mm_holds_def using f(2,3) i rm
    by (intro conjI exI [of _ F'] exI [of _ "L(i := remove1 c (L i))"]) simp_all
  moreover have "mm_mem s' x = mm_mem s x"
    if d: "d \<in> set (remove1 b P)" and x: "x \<in> span (fst d) (fst d + snd d)" for d x
  proof -
    obtain e where e: "e \<in> set (remove1 c (L i))" "d = payload e" using d rm by auto
    then have "good_block e" using good [of e] set_remove1_subset [of c "L i"] by blast
    then show ?thesis using f(4) e x payload_span by blast
  qed
  ultimately show "\<exists>s'. mm_free (W (fst b)) s = Inr s' \<and> mm_holds i s' (remove1 b P)
        \<and> (\<forall>c\<in>set (remove1 b P). \<forall>x\<in>span (fst c) (fst c + snd c). mm_mem s' x = mm_mem s x)"
    using f(1) c(2) by (auto simp: payload_def)
next
  fix s P b assume "mm_holds i s P" "b \<in> set P"
  then show "fst b + snd b \<le> 2 ^ 32"
    using rep_bounds(1,3) by (fastforce simp: mm_holds_def payload_def good_block_def)
next
  fix s P assume "mm_holds i s P"
  then obtain F L where rep: "mm_rep s F L" "P = map payload (L i)" and i: "i < length (mm_regions s)"
    by (auto simp: mm_holds_def)
  then have "sorted_wrt apart (L i)" by (simp add: mm_rep_def region_ok_def)
  then show "sorted_wrt apart P"
    unfolding rep(2) sorted_wrt_map
    by (rule sorted_wrt_mono_rel [rotated]) (rule payload_apart; use rep_bounds(1) [OF rep(1) i] in blast)
next
  fix s P b m assume "mm_holds i s P" and b: "b \<in> set P"
    and m: "only_in (span (fst b) (fst b + snd b)) (mm_mem s) m"
  then obtain F L where rep: "mm_rep s F L" "P = map payload (L i)" and i: "i < length (mm_regions s)"
    by (auto simp: mm_holds_def)
  then obtain c where c: "c \<in> set (L i)" "b = payload c" using b by auto
  have "8 \<le> snd c" using rep_bounds(1) [OF rep(1) i c(1)] by (simp add: good_block_def)
  then have "only_in (span (fst c + 8) (fst c + snd c)) (mm_mem s) m" using m c(2) by (simp add: payload_def)
  from rep_write [OF rep(1) i c(1) this]
  show "mm_holds i (s\<lparr>mm_mem := m\<rparr>) P \<and> mm_mem (s\<lparr>mm_mem := m\<rparr>) = m"
    using i rep(2) by (auto simp: mm_holds_def)
qed


section \<open>Any sequence of operations\<close>

type_synonym held = "(u32 \<times> u32) list"

inductive mm_step :: "mm_state \<times> held \<Rightarrow> mm_state \<times> held \<Rightarrow> bool" where
  do_alloc: "mm_alloc n i st = Inr (p, st') \<Longrightarrow> mm_fits n \<Longrightarrow> i < 5 \<Longrightarrow>
    mm_step (st, H) (st', if p = 0 then H else (p, n) # H)"
| do_free: "(p, n) \<in> set H \<Longrightarrow> mm_free p st = Inr st' \<Longrightarrow> mm_step (st, H) (st', remove1 (p, n) H)"
| do_write: "(p, n) \<in> set H \<Longrightarrow> k < n \<Longrightarrow> mm_step (st, H) (st\<lparr>mm_mem := (mm_mem st)(p + k := v)\<rparr>, H)"

inductive_cases mm_stepE: "mm_step (st, H) (st', H')"

inductive mm_reachable :: "mm_state \<times> held \<Rightarrow> bool" where
  booted: "linked_at hs he root \<Longrightarrow> mm_reachable (mm_init (W hs) (W he) (boot_mm m root), [])"
| stepped: "mm_reachable s \<Longrightarrow> mm_step s s' \<Longrightarrow> mm_reachable s'"

text \<open>The blocks behind the held pointers.\<close>

definition backs :: "(nat \<Rightarrow> block list) \<Rightarrow> u32 \<times> u32 \<Rightarrow> nat \<Rightarrow> block \<Rightarrow> bool" where
  "backs L a i b \<longleftrightarrow> i < 5 \<and> b \<in> set (L i) \<and> fst a = W (fst b + 8) \<and> unat (snd a) + 8 \<le> snd b"

definition held_ok :: "mm_state \<Rightarrow> held \<Rightarrow> (nat \<Rightarrow> block list) \<Rightarrow> (nat \<Rightarrow> block list) \<Rightarrow> bool" where
  "held_ok st H F L \<longleftrightarrow> mm_rep st F L \<and> length (mm_regions st) = 5 \<and> distinct (map fst H)
     \<and> (\<forall>a\<in>set H. \<exists>i b. backs L a i b)"

lemma rep_new_apart:
  assumes rep: "mm_rep st F (L(i := b # L i))" and i: "i < length (mm_regions st)"
    and j: "j < length (mm_regions st)" and c: "c \<in> set (L j)"
  shows "fst b \<noteq> fst c"
proof
  assume eq: "fst b = fst c"
  have cL: "c \<in> set ((L(i := b # L i)) j)" using c by auto
  have good: "good_block b" "good_block c"
    using rep_bounds(1) [OF rep i, of b] rep_bounds(1) [OF rep j cL] by simp_all
  have "(i, b) \<noteq> (j, c)"
  proof
    assume "(i, b) = (j, c)"
    moreover have "sorted_wrt apart (b # L i)" using rep i by (auto simp: mm_rep_def region_ok_def)
    ultimately show False using c good by (auto simp: apart_def good_block_def)
  qed
  then have "span (fst b) (fst b + snd b) \<inter> span (fst c) (fst c + snd c) = {}"
    using c by (intro rep_apart [OF rep i j]) auto
  moreover have "W (fst b) \<in> span (fst b) (fst b + snd b)" "W (fst c) \<in> span (fst c) (fst c + snd c)"
    using good by (auto simp: span_def good_block_def)
  ultimately show False using eq by auto
qed

lemma backs_inj:
  assumes "mm_rep st F L" "length (mm_regions st) = 5" "backs L a i b" "fst a = W (fst c + 8)"
    "j < 5" "c \<in> set (L j)"
  shows "fst b = fst c"
proof -
  have "fst b + 8 < 2 ^ 32" "fst c + 8 < 2 ^ 32"
    using assms rep_bounds(1,3) [OF assms(1), of i b] rep_bounds(1,3) [OF assms(1), of j c]
    by (auto simp: backs_def good_block_def)
  then show ?thesis using assms(3,4) W_eq_iff [of "fst b + 8" "fst c + 8"] by (simp add: backs_def)
qed

lemma keeps_alloc:
  assumes ok: "held_ok st H F L" and a: "mm_alloc n i st = Inr (p, st')" "mm_fits n" "i < 5"
  shows "\<exists>F' L'. held_ok st' (if p = 0 then H else (p, n) # H) F' L'"
proof -
  have rep: "mm_rep st F L" and len: "length (mm_regions st) = 5" using ok by (simp_all add: held_ok_def)
  have i: "i < length (mm_regions st)" using a(3) len by simp
  show ?thesis
  proof (cases "p = 0")
    case True
    then have "st' = st" using mm_alloc_client [OF rep i a(2)] a(1) by auto
    then show ?thesis using ok True by auto
  next
    case False
    then obtain b F' where b: "p = W (fst b + 8)" "unat n + 8 \<le> snd b"
      "length (mm_regions st') = 5" "mm_rep st' F' (L(i := b # L i))"
      using mm_alloc_client [OF rep i a(2)] a(1) len by auto
    let ?L = "L(i := b # L i)"
    have old: "\<exists>j c. backs ?L x j c" "fst x \<noteq> p" if x: "x \<in> set H" for x
    proof -
      obtain j c where jc: "backs L x j c" using ok x by (auto simp: held_ok_def)
      then have jc': "backs ?L x j c" by (auto simp: backs_def)
      then show "\<exists>j c. backs ?L x j c" by blast
      have "fst b \<noteq> fst c"
        using rep_new_apart [OF b(4), of j c] jc b(3) a(3) by (simp add: backs_def)
      then show "fst x \<noteq> p" using backs_inj [OF b(4,3) jc', of b i] a(3) b(1) by auto
    qed
    have "backs ?L (p, n) i b" using b a(3) by (simp add: backs_def)
    then have "\<forall>x\<in>set ((p, n) # H). \<exists>j c. backs ?L x j c" using old(1) by (metis set_ConsD)
    moreover have "distinct (map fst ((p, n) # H))"
      using ok old(2) unfolding held_ok_def by (simp add: image_iff) (metis fst_conv)
    ultimately have "held_ok st' ((p, n) # H) F' ?L" using b(3,4) by (simp add: held_ok_def)
    then show ?thesis using False by auto
  qed
qed

lemma keeps_free:
  assumes ok: "held_ok st H F L" and h: "(p, n) \<in> set H" and f: "mm_free p st = Inr st'"
  shows "\<exists>F' L'. held_ok st' (remove1 (p, n) H) F' L'"
proof -
  have rep: "mm_rep st F L" and len: "length (mm_regions st) = 5" using ok by (simp_all add: held_ok_def)
  obtain i b where ib: "backs L (p, n) i b" using ok h by (auto simp: held_ok_def)
  have i: "i < length (mm_regions st)" using ib len by (simp add: backs_def)
  let ?L = "L(i := remove1 b (L i))"
  obtain F' where r: "length (mm_regions st') = 5" "mm_rep st' F' ?L"
    using mm_free_client [OF rep i, of b] ib f len by (auto simp: backs_def)
  have "\<exists>j c. backs ?L x j c" if x: "x \<in> set (remove1 (p, n) H)" for x
  proof -
    have dist: "distinct H" "distinct (map fst H)" using ok by (auto simp: held_ok_def distinct_map)
    then have xH: "x \<in> set H" "x \<noteq> (p, n)" using x by auto
    then have "fst x \<noteq> p" using dist(2) h by (auto simp: distinct_map inj_on_def)
    obtain j c where jc: "backs L x j c" using ok xH by (auto simp: held_ok_def)
    then have "(j, c) \<noteq> (i, b)" using ib \<open>fst x \<noteq> p\<close> by (auto simp: backs_def)
    then have "backs ?L x j c" using jc by (auto simp: backs_def in_set_remove1)
    then show ?thesis by blast
  qed
  then have "held_ok st' (remove1 (p, n) H) F' ?L"
    using ok r by (auto simp: held_ok_def distinct_map intro: inj_on_subset)
  then show ?thesis by blast
qed

lemma keeps_write:
  assumes ok: "held_ok st H F L" and h: "(p, n) \<in> set H" and k: "k < n"
  shows "held_ok (st\<lparr>mm_mem := (mm_mem st)(p + k := v)\<rparr>) H F L"
proof -
  have rep: "mm_rep st F L" and len: "length (mm_regions st) = 5" using ok by (simp_all add: held_ok_def)
  obtain i b where ib: "backs L (p, n) i b" using ok h by (auto simp: held_ok_def)
  have "p + k = W (fst b + 8 + unat k)" using ib by (simp add: backs_def)
  then have "p + k \<in> span (fst b + 8) (fst b + snd b)"
    using ib k by (auto simp: span_def backs_def word_less_nat_alt simp del: of_nat_add intro!: image_eqI)
  then have "only_in (span (fst b + 8) (fst b + snd b)) (mm_mem st) ((mm_mem st)(p + k := v))"
    by (auto simp: only_in_def)
  then show ?thesis
    using ok rep_write [OF rep, of i b] ib len by (simp add: held_ok_def backs_def)
qed

lemma reachable_ok: "mm_reachable s \<Longrightarrow> \<exists>F L. held_ok (fst s) (snd s) F L"
proof (induction rule: mm_reachable.induct)
  case (booted hs he root m)
  have "length (mm_regions (mm_init (W hs) (W he) (boot_mm m root))) = 5"
    by (simp add: mm_init_def boot_mm_def physical_memories_def Let_def split: prod.split)
  then show ?case using mm_init_establishes [OF booted, of m] by (auto simp: held_ok_def)
next
  case (stepped s s')
  then obtain F L where ok: "held_ok (fst s) (snd s) F L" by blast
  from stepped(2) have "mm_step (fst s, snd s) (fst s', snd s')" by simp
  then show ?case
  proof (rule mm_stepE)
    fix n i p
    assume "snd s' = (if p = 0 then snd s else (p, n) # snd s)" "mm_alloc n i (fst s) = Inr (p, fst s')"
      "mm_fits n" "i < 5"
    then show ?thesis using keeps_alloc [OF ok, of n i p "fst s'"] by simp
  next
    fix p n
    assume "snd s' = remove1 (p, n) (snd s)" "(p, n) \<in> set (snd s)" "mm_free p (fst s) = Inr (fst s')"
    then show ?thesis using keeps_free [OF ok, of p n "fst s'"] by simp
  next
    fix p n k v
    assume "snd s = snd s'" "fst s' = (fst s)\<lparr>mm_mem := (mm_mem (fst s))(p + k := v)\<rparr>"
      "(p, n) \<in> set (snd s')" "k < n"
    then show ?thesis using keeps_write [OF ok, of p n k v] by auto
  qed
qed


text \<open>
  \<^bold>\<open>Memory safety of the allocator (C1).\<close> In every state that any sequence of allocations, frees and
  client writes can reach, two held allocations share no byte.
\<close>

theorem held_never_overlap:
  assumes "mm_reachable (st, H)" "a \<in> set H" "b \<in> set H" "a \<noteq> b" "k < snd a" "l < snd b"
  shows "fst a + k \<noteq> fst b + l"
proof -
  obtain F L where ok: "held_ok st H F L" using reachable_ok [OF assms(1)] by auto
  then have rep: "mm_rep st F L" and len: "length (mm_regions st) = 5" by (simp_all add: held_ok_def)
  obtain i c where ic: "backs L a i c" using ok assms(2) by (auto simp: held_ok_def)
  obtain j d where jd: "backs L b j d" using ok assms(3) by (auto simp: held_ok_def)
  have "fst a \<noteq> fst b" using ok assms(2-4) by (auto simp: held_ok_def distinct_map inj_on_def)
  then have "(i, c) \<noteq> (j, d)" using ic jd by (auto simp: backs_def)
  then have dis: "span (fst c) (fst c + snd c) \<inter> span (fst d) (fst d + snd d) = {}"
    using ic jd len by (intro rep_apart [OF rep]) (auto simp: backs_def)
  have "fst a + k = W (fst c + 8 + unat k)" "fst b + l = W (fst d + 8 + unat l)"
    using ic jd by (simp_all add: backs_def)
  then have "fst a + k \<in> span (fst c) (fst c + snd c)" "fst b + l \<in> span (fst d) (fst d + snd d)"
    using ic jd assms(5,6)
    by (auto simp: span_def backs_def word_less_nat_alt simp del: of_nat_add intro!: image_eqI)
  then show ?thesis using dis by auto
qed

lemma client_returns:
  assumes "mm_reachable (st, H)"
  shows "(\<forall>n i. mm_fits n \<and> i < 5 \<longrightarrow> (\<exists>p st'. mm_alloc n i st = Inr (p, st')))
    \<and> (\<forall>a\<in>set H. \<exists>st'. mm_free (fst a) st = Inr st')"
proof -
  obtain F L where ok: "held_ok st H F L" using reachable_ok [OF assms] by auto
  then have rep: "mm_rep st F L" and len: "length (mm_regions st) = 5" by (simp_all add: held_ok_def)
  have "\<exists>p st'. mm_alloc n i st = Inr (p, st')" if "mm_fits n" "i < 5" for n i
    using mm_alloc_client [OF rep _ that(1), of i] that(2) len by auto
  moreover have "\<exists>st'. mm_free (fst a) st = Inr st'" if a: "a \<in> set H" for a
  proof -
    obtain i b where "backs L a i b" using ok a by (auto simp: held_ok_def)
    then show ?thesis using mm_free_client [OF rep, of i b] len by (auto simp: backs_def)
  qed
  ultimately show ?thesis by blast
qed

text \<open>
  \<^bold>\<open>No operation of a client fails (C2).\<close> In every reachable state an allocation from any of the five
  memories returns (a pointer or null), and freeing any held pointer returns: neither panics nor
  loops.
\<close>

theorem client_never_stuck:
  assumes "mm_reachable (st, H)"
  shows "(\<forall>n i. mm_fits n \<and> i < 5 \<longrightarrow> (\<exists>p st'. mm_alloc n i st = Inr (p, st')))
    \<and> (\<forall>a\<in>set H. \<exists>st'. mm_free (fst a) st = Inr st')"
  by (rule client_returns [OF assms])

text \<open>
  \<^bold>\<open>Isolation (C5).\<close> Allocating and freeing elsewhere leaves the contents of every other held
  allocation as they were.
\<close>

theorem held_contents_kept:
  assumes "mm_reachable (st, H)" "(p, n) \<in> set H" "k < n"
    "(mm_alloc s i st = Inr (q, st') \<and> mm_fits s \<and> i < 5)
     \<or> (mm_free q st = Inr st' \<and> (q, r) \<in> set H \<and> q \<noteq> p)"
  shows "mm_mem st' (p + k) = mm_mem st (p + k)"
proof -
  obtain F L where ok: "held_ok st H F L" using reachable_ok [OF assms(1)] by auto
  then have rep: "mm_rep st F L" and len: "length (mm_regions st) = 5" by (simp_all add: held_ok_def)
  obtain j c where jc: "backs L (p, n) j c" using ok assms(2) by (auto simp: held_ok_def)
  have "p + k = W (fst c + 8 + unat k)" using jc by (simp add: backs_def)
  then have x: "p + k \<in> span (fst c) (fst c + snd c)"
    using jc assms(3) by (auto simp: span_def backs_def word_less_nat_alt simp del: of_nat_add intro!: image_eqI)
  from assms(4) show ?thesis
  proof
    assume a: "mm_alloc s i st = Inr (q, st') \<and> mm_fits s \<and> i < 5"
    then show ?thesis using mm_alloc_client [OF rep, of i s] len jc x by (auto simp: backs_def)
  next
    assume f: "mm_free q st = Inr st' \<and> (q, r) \<in> set H \<and> q \<noteq> p"
    then obtain i b where ib: "backs L (q, r) i b" using ok by (auto simp: held_ok_def)
    then have ne: "(j, c) \<noteq> (i, b)" using jc f by (auto simp: backs_def)
    have c: "c \<in> set ((L(i := remove1 b (L i))) j)" using jc ne by (auto simp: backs_def in_set_remove1)
    have lim: "i < length (mm_regions st)" "j < length (mm_regions st)" "b \<in> set (L i)" "q = W (fst b + 8)"
      using ib jc len by (auto simp: backs_def)
    show ?thesis using mm_free_client [OF rep lim(1,3)] f c lim x by auto
  qed
qed

text \<open>
  \<^bold>\<open>Accounting (C6).\<close> In every reachable state the memory in use and the free memory of a region add up
  to its size, without wrap-around.
\<close>

theorem accounting:
  assumes "mm_reachable (st, H)" "i < 5"
  shows "\<exists>total used fr. mm_get_total i st = Inr total \<and> mm_get_used i st = Inr used
    \<and> mm_get_free i st = Inr fr \<and> unat used + unat fr = unat total"
proof -
  obtain F L where ok: "held_ok st H F L" using reachable_ok [OF assms(1)] by auto
  then have i: "i < length (mm_regions st)" and "region_ok i (mm_mem st) (mm_regions st ! i) (F i) (L i)"
    using assms(2) by (auto simp: held_ok_def mm_rep_def)
  then have "allocated (mm_regions st ! i) \<le> pm_size (mm_regions st ! i)"
    by (auto simp: region_ok_def word_le_nat_alt)
  then show ?thesis
    using i by (simp add: mm_get_total_def mm_get_used_def mm_get_free_def get_physmem_def unat_sub word_le_nat_alt)
qed


section \<open>A concrete run\<close>

lemma init_from_min_alloc: "map min_alloc (snd (mm_init_from hs he k m pms)) = map min_alloc pms"
proof (induction pms arbitrary: k m)
  case (Cons pm pms)
  have "min_alloc (snd (mm_init_region hs he k (m, pm))) = min_alloc pm"
    by (simp add: mm_init_region_def Let_def)
  then show ?case using Cons by (simp add: Let_def split: prod.split) (metis prod.sel(2))
qed simp

lemma init_min_alloc: "map min_alloc (mm_regions (mm_init hs he st)) = map min_alloc (mm_regions st)"
  using init_from_min_alloc [of hs he 0 "mm_mem st" "mm_regions st"]
  by (auto simp: mm_init_def Let_def split: prod.split)

lemma alloc_min_alloc:
  assumes "mm_alloc n i st = Inr (p, st')"
  shows "map min_alloc (mm_regions st') = map min_alloc (mm_regions st)"
proof -
  have upd: "map min_alloc ((mm_regions st)[i := (mm_regions st ! i)\<lparr>allocated := v\<rparr>]) = map min_alloc (mm_regions st)"
    if "i < length (mm_regions st)" for v
    using that by (simp add: map_update list_update_same_conv)
  then show ?thesis
    using assms by (auto simp: mm_alloc_def get_physmem_def Let_def res_simps split: if_splits prod.splits)
qed

definition demo_root :: "nat \<Rightarrow> nat" where
  "demo_root i = 0x20400000 + 8 * i"

definition demo_boot :: mm_state where
  "demo_boot = mm_init (W 0x20400100) (W 0x20460000) (boot_mm (\<lambda>_. 0) demo_root)"

lemma demo_linked: "linked_at 0x20400100 0x20460000 demo_root"
  by (simp add: linked_at_def all_less_5 demo_root_def far_def)

lemma demo_boot_reachable: "mm_reachable (demo_boot, [])"
  unfolding demo_boot_def by (rule booted [OF demo_linked])

definition demo_first :: "nat \<Rightarrow> block list" where
  "demo_first i = whole 0x20400100 0x20460000 (physical_memories (\<lambda>i. W (demo_root i)) ! i)"

lemma demo_rep: "mm_rep demo_boot demo_first (\<lambda>_. [])"
  unfolding demo_boot_def demo_first_def by (rule mm_init_establishes [OF demo_linked])

lemma demo_mins: "map min_alloc (mm_regions demo_boot) = [16, 256, 256, 256, 256]"
  by (simp add: demo_boot_def init_min_alloc boot_mm_def memories_min_alloc)

lemma demo_alloc:
  assumes "mm_rep st F L" "map min_alloc (mm_regions st) = [16, 256, 256, 256, 256]" "mm_fits n"
    "spec_alloc 16 (request 16 n) (F 0) = Some (F', b)"
  shows "\<exists>st'. mm_alloc n 0 st = Inr (W (fst b + 8), st') \<and> mm_rep st' (F(0 := F')) (L(0 := b # L 0))
    \<and> map min_alloc (mm_regions st') = [16, 256, 256, 256, 256]"
proof -
  have len: "0 < length (mm_regions st)" using assms(2) by (metis length_map length_Cons zero_less_Suc)
  have "map min_alloc (mm_regions st) ! 0 = 16" using assms(2) by simp
  then have "min_alloc (mm_regions st ! 0) = 16" using len by (simp add: nth_map)
  then obtain st' where st': "mm_alloc n 0 st = Inr (W (fst b + 8), st')" "mm_rep st' (F(0 := F')) (L(0 := b # L 0))"
    using alloc_implements [OF assms(1) len, of n] assms(3,4) by (auto simp: mm_fits_def)
  then show ?thesis using alloc_min_alloc [OF st'(1)] assms(2) by auto
qed

lemma demo_run:
  "\<exists>st1 st2. mm_alloc 100 0 demo_boot = Inr (0x20400108, st1) \<and> mm_alloc 50 0 st1 = Inr (0x20400178, st2)
    \<and> mm_reachable (st1, [(0x20400108, 100)])
    \<and> mm_reachable (st2, [(0x20400178, 50), (0x20400108, 100)])"
proof -
  let ?F = demo_first
  have F0: "?F 0 = [(0x20400100, 0x5FEF8)]"
    by (simp add: demo_first_def memories_defs whole_def raw_range_def)
  have r: "request 16 100 = 112" "request 16 50 = 64" by (simp_all add: request_def)
  have s1: "spec_alloc 16 (request 16 100) (?F 0) = Some ([(0x20400170, 0x5FE88)], (0x20400100, 112))"
    unfolding F0 r by (simp add: spec_alloc_def)
  have fit: "mm_fits 100" "mm_fits 50" by (simp_all add: mm_fits_def)
  obtain st1 where st1: "mm_alloc 100 0 demo_boot = Inr (W (0x20400100 + 8), st1)"
    "mm_rep st1 (?F(0 := [(0x20400170, 0x5FE88)])) ((\<lambda>_. [])(0 := [(0x20400100, 112)]))"
    "map min_alloc (mm_regions st1) = [16, 256, 256, 256, 256]"
    using demo_alloc [OF demo_rep demo_mins fit(1) s1] by auto
  have s2: "spec_alloc 16 (request 16 50) ((?F(0 := [(0x20400170, 0x5FE88)])) 0)
      = Some ([(0x204001B0, 0x5FE48)], (0x20400170, 64))"
    unfolding r by (simp add: spec_alloc_def)
  obtain st2 where st2: "mm_alloc 50 0 st1 = Inr (W (0x20400170 + 8), st2)"
    using demo_alloc [OF st1(2,3) fit(2) s2] by auto
  have a: "mm_alloc 100 0 demo_boot = Inr (0x20400108, st1)" "mm_alloc 50 0 st1 = Inr (0x20400178, st2)"
    using st1(1) st2 by simp_all
  have "mm_step (demo_boot, []) (st1, [(0x20400108, 100)])"
    using do_alloc [OF a(1) fit(1), of "[]"] by simp
  then have r1: "mm_reachable (st1, [(0x20400108, 100)])" using demo_boot_reachable stepped by blast
  have "mm_step (st1, [(0x20400108, 100)]) (st2, [(0x20400178, 50), (0x20400108, 100)])"
    using do_alloc [OF a(2) fit(2), of "[(0x20400108, 100)]"] by simp
  then have "mm_reachable (st2, [(0x20400178, 50), (0x20400108, 100)])" using r1 stepped by blast
  with a r1 show ?thesis by blast
qed

theorem held_never_overlap_witness:
  "\<exists>st. mm_reachable (st, [(0x20400178, 50), (0x20400108, 100)]) \<and> (0x20400178 :: u32) + 49 \<noteq> 0x20400108 + 99"
proof -
  obtain st where r: "mm_reachable (st, [(0x20400178, 50), (0x20400108, 100)])" using demo_run by blast
  from held_never_overlap [OF r, of "(0x20400178, 50)" "(0x20400108, 100)" 49 99] r show ?thesis by auto
qed

theorem client_never_stuck_witness:
  "\<exists>st st'. mm_reachable (st, [(0x20400108, 100)]) \<and> mm_free 0x20400108 st = Inr st'"
proof -
  obtain st where r: "mm_reachable (st, [(0x20400108, 100)])" using demo_run by blast
  from client_never_stuck [OF r] r show ?thesis by auto
qed

theorem held_contents_kept_witness:
  "\<exists>st st'. mm_reachable (st, [(0x20400108, 100)]) \<and> mm_alloc 50 0 st = Inr (0x20400178, st')
    \<and> mm_mem st' (0x20400108 + 7) = mm_mem st (0x20400108 + 7)"
proof -
  obtain st st' where r: "mm_reachable (st, [(0x20400108, 100)])" "mm_alloc 50 0 st = Inr (0x20400178, st')"
    using demo_run by blast
  from held_contents_kept [OF r(1), of "0x20400108" 100 7 50 0 "0x20400178" st'] r show ?thesis
    by (auto simp: mm_fits_def)
qed

theorem accounting_witness:
  "\<exists>total used fr. mm_get_total 0 demo_boot = Inr total \<and> mm_get_used 0 demo_boot = Inr used
    \<and> mm_get_free 0 demo_boot = Inr fr \<and> unat used + unat fr = unat total"
  using accounting [OF demo_boot_reachable, of 0] by simp

section \<open>The operations against their specification\<close>

text \<open>
  \<^bold>\<open>Allocation implements first fit (C3).\<close> On the linked headers of the free list, \<^verbatim>\<open>mm_alloc\<close>
  computes what \<^const>\<open>spec_alloc\<close> computes on the list of free blocks: null and no change if no
  block is large enough, otherwise the address of the payload of the first large enough block, the
  remainder split off, and no byte written outside the free blocks.
\<close>

theorem mm_alloc_refines:
  assumes "mm_rep st F L" "i < length (mm_regions st)" "unat sz + 16 \<le> 2 ^ 32"
  shows "case spec_alloc (unat (min_alloc (mm_regions st ! i)))
      (request (min_alloc (mm_regions st ! i)) sz) (F i) of
      None \<Rightarrow> mm_alloc sz i st = Inr (0, st)
    | Some (F', b) \<Rightarrow> \<exists>st'. mm_alloc sz i st = Inr (W (fst b + 8), st')
        \<and> mm_rep st' (F(i := F')) (L(i := b # L i))
        \<and> only_in (free_bytes (mm_regions st ! i) (F i)) (mm_mem st) (mm_mem st')"
  by (rule alloc_implements [OF assms])

text \<open>
  \<^bold>\<open>Freeing implements sorted insertion with merging (C4).\<close> Freeing the payload address of an
  allocated block returns, puts the block at its place in the free list, merges it with its
  neighbours, and writes nothing outside the block and the free blocks.
\<close>

theorem mm_free_refines:
  assumes "mm_rep st F L" "i < length (mm_regions st)" "b \<in> set (L i)"
  shows "\<exists>st'. mm_free (W (fst b + 8)) st = Inr st'
    \<and> mm_rep st' (F(i := free_insert (unat (root_node (mm_regions st ! i))) (F i) b)) (L(i := remove1 b (L i)))
    \<and> only_in (free_bytes (mm_regions st ! i) (b # F i)) (mm_mem st) (mm_mem st')"
  by (rule free_implements [OF assms])

lemma demo_region: "demo_first 0 = [(0x20400100, 0x5FEF8)]" "0 < length (mm_regions demo_boot)"
  "min_alloc (mm_regions demo_boot ! 0) = 16"
proof -
  show "demo_first 0 = [(0x20400100, 0x5FEF8)]" by (simp add: demo_first_def memories_defs whole_def raw_range_def)
  show l: "0 < length (mm_regions demo_boot)" using demo_mins by (metis length_map length_Cons zero_less_Suc)
  then show "min_alloc (mm_regions demo_boot ! 0) = 16" using demo_mins by (metis nth_map nth_Cons_0)
qed

theorem mm_alloc_refines_witness:
  "\<exists>st'. mm_alloc 100 0 demo_boot = Inr (0x20400108, st')
    \<and> mm_rep st' (demo_first(0 := [(0x20400170, 0x5FE88)])) ((\<lambda>_. [])(0 := [(0x20400100, 112)]))"
  using mm_alloc_refines [OF demo_rep demo_region(2), of 100] demo_region(3)
  by (simp add: demo_region(1) request_def spec_alloc_def) blast

lemma demo_one_held:
  "\<exists>st'. mm_rep st' (demo_first(0 := [(0x20400170, 0x5FE88)])) ((\<lambda>_. [])(0 := [(0x20400100, 112)]))
    \<and> 0 < length (mm_regions st')"
proof -
  obtain st' where st': "mm_alloc 100 0 demo_boot = Inr (0x20400108, st')"
    "mm_rep st' (demo_first(0 := [(0x20400170, 0x5FE88)])) ((\<lambda>_. [])(0 := [(0x20400100, 112)]))"
    using alloc_implements [OF demo_rep demo_region(2), of 100] demo_region(3)
    by (simp add: demo_region(1) request_def spec_alloc_def) blast
  have "length (mm_regions st') = length (mm_regions demo_boot)"
    using alloc_min_alloc [OF st'(1)] by (metis length_map)
  then show ?thesis using st'(2) demo_region(2) by metis
qed

theorem mm_free_refines_witness:
  "\<exists>st' st''. mm_rep st' (demo_first(0 := [(0x20400170, 0x5FE88)])) ((\<lambda>_. [])(0 := [(0x20400100, 112)]))
    \<and> mm_free 0x20400108 st' = Inr st''"
proof -
  obtain st' where r: "mm_rep st' (demo_first(0 := [(0x20400170, 0x5FE88)])) ((\<lambda>_. [])(0 := [(0x20400100, 112)]))"
    "0 < length (mm_regions st')" using demo_one_held by blast
  from mm_free_refines [OF r, of "(0x20400100, 112)"] r(1) show ?thesis by auto
qed

end
