(* ===== verification/Memory_Ops.thy ===== *)
theory Memory_Ops
  imports Kernel_Prelude
begin

text \<open>
  The byte loops of \<^verbatim>\<open>generic/memory.c\<close> and the checksum of \<^verbatim>\<open>generic/crc.c\<close>. A loop
  \<^verbatim>\<open>while (size--)\<close> on an unsigned \<^verbatim>\<open>size\<close> runs exactly \<open>unat size\<close> times. The string loops stop at
  a zero byte and may never find one, so they are partial functions.
\<close>

section \<open>Operations\<close>

fun copy_loop :: "nat \<Rightarrow> u32 \<Rightarrow> u32 \<Rightarrow> mem \<Rightarrow> mem" where
  "copy_loop 0 src_ptr dest_ptr m = m"
| "copy_loop (Suc n) src_ptr dest_ptr m =
     copy_loop n (src_ptr + 1) (dest_ptr + 1) (m(dest_ptr := m src_ptr))"

definition memory_copy :: "u32 \<Rightarrow> u32 \<Rightarrow> u32 \<Rightarrow> mem \<Rightarrow> mem" where
  "memory_copy src dest size' m = copy_loop (unat size') src dest m"

fun compare_loop :: "nat \<Rightarrow> u32 \<Rightarrow> u32 \<Rightarrow> mem \<Rightarrow> u8" where
  "compare_loop 0 src1_ptr src2_ptr m = 1"
| "compare_loop (Suc n) src1_ptr src2_ptr m =
     (if m src1_ptr \<noteq> m src2_ptr then 0 else compare_loop n (src1_ptr + 1) (src2_ptr + 1) m)"

definition memory_compare :: "u32 \<Rightarrow> u32 \<Rightarrow> u32 \<Rightarrow> mem \<Rightarrow> u8" where
  "memory_compare src1 src2 size' m = compare_loop (unat size') src1 src2 m"

fun fill_loop :: "nat \<Rightarrow> u32 \<Rightarrow> u8 \<Rightarrow> mem \<Rightarrow> mem" where
  "fill_loop 0 dest_ptr v m = m"
| "fill_loop (Suc n) dest_ptr v m = fill_loop n (dest_ptr + 1) v (m(dest_ptr := v))"

definition memory_fill :: "u32 \<Rightarrow> u8 \<Rightarrow> u32 \<Rightarrow> mem \<Rightarrow> mem" where
  "memory_fill dest v size' m = fill_loop (unat size') dest v m"

partial_function (option) string_len_from :: "mem \<Rightarrow> u32 \<Rightarrow> u32 \<Rightarrow> u32 option" where
  "string_len_from m src ret =
     (if m src \<noteq> 0 then string_len_from m (src + 1) (ret + 1) else Some ret)"

definition string_len :: "u32 \<Rightarrow> mem \<Rightarrow> u32 res" where
  "string_len src m = returns (string_len_from m src 0)"

partial_function (option) string_copy_from :: "u32 \<Rightarrow> u32 \<Rightarrow> mem \<Rightarrow> mem option" where
  "string_copy_from src dest m =
     (if m src \<noteq> 0 then string_copy_from (src + 1) (dest + 1) (m(dest := m src))
      else Some (m(dest := m src)))"

definition string_copy :: "u32 \<Rightarrow> u32 \<Rightarrow> mem \<Rightarrow> mem res" where
  "string_copy src dest m = returns (string_copy_from src dest m)"

section \<open>What the loops compute\<close>

text \<open>Offsets from the start of a range, with wrap-around of the address.\<close>

definition within :: "u32 \<Rightarrow> nat \<Rightarrow> u32 \<Rightarrow> bool" where
  "within a n x \<longleftrightarrow> unat (x - a) < n"

lemma within_0 [simp]: "\<not> within a 0 x"
  by (simp add: within_def)

lemma unat_step: "x \<noteq> a \<Longrightarrow> unat (x - a) = Suc (unat (x - (a + 1)))" for x a :: u32
proof -
  assume "x \<noteq> a"
  then have "unat (x - a - 1) = unat (x - a) - 1" "0 < unat (x - a)"
    by (simp_all add: unat_minus_one unat_gt_0)
  then show ?thesis by (simp add: diff_diff_eq)
qed

lemma within_Suc: "within a (Suc n) x \<longleftrightarrow> x = a \<or> within (a + 1) n x"
  by (cases "x = a") (auto simp: within_def unat_step)

lemma not_within_start:
  assumes "n < 2 ^ 32"
  shows "\<not> within (a + 1) n a"
proof -
  have "a - (a + 1) = 0xFFFFFFFF" by simp
  then have "unat (a - (a + 1)) = 0xFFFFFFFF" by (simp only:) simp
  then show ?thesis using assms by (simp only: within_def) simp
qed

lemma fill_loop_eq:
  "n < 2 ^ 32 \<Longrightarrow> fill_loop n d v m = (\<lambda>x. if within d n x then v else m x)"
proof (induction n arbitrary: d m)
  case (Suc n)
  then have "fill_loop n (d + 1) v (m(d := v)) = (\<lambda>x. if within (d + 1) n x then v else (m(d := v)) x)" by simp
  then show ?case by (auto simp: within_Suc)
qed (simp add: fun_eq_iff)

lemma copy_loop_eq:
  assumes "n < 2 ^ 32" "d = s \<or> n \<le> unat (d - s)"
  shows "copy_loop n s d m = (\<lambda>x. if within d n x then m (s + (x - d)) else m x)"
  using assms
proof (induction n arbitrary: s d m)
  case (Suc n)
  have IH: "copy_loop n (s + 1) (d + 1) (m(d := m s))
    = (\<lambda>x. if within (d + 1) n x then (m(d := m s)) (s + 1 + (x - (d + 1))) else (m(d := m s)) x)"
    using Suc.prems by (intro Suc.IH) (auto simp: algebra_simps)
  have "s + (x - d) \<noteq> d" if x: "within (d + 1) n x" for x
  proof
    assume "s + (x - d) = d"
    then have eq: "x - d = d - s" by (simp add: algebra_simps)
    have "x \<noteq> d" using x not_within_start [of n d] Suc.prems(1) by auto
    moreover have "unat (x - d) < Suc n" using x within_Suc [of d n x] by (simp add: within_def)
    ultimately show False using Suc.prems(2) eq by auto
  qed
  moreover have "s + 1 + (x - (d + 1)) = s + (x - d)" for x by simp
  ultimately show ?case
    using not_within_start [of n d] Suc.prems(1) unfolding copy_loop.simps IH
    by (auto simp: within_Suc fun_eq_iff)
qed (simp add: fun_eq_iff)

lemma compare_loop_eq:
  "n < 2 ^ 32 \<Longrightarrow> compare_loop n a b m = (if \<forall>k. unat k < n \<longrightarrow> m (a + k) = m (b + k) then 1 else 0)"
proof (induction n arbitrary: a b)
  case (Suc n)
  have split: "(\<forall>k. unat k < Suc n \<longrightarrow> P k) \<longleftrightarrow> P 0 \<and> (\<forall>k. unat k < n \<longrightarrow> P (k + 1))" for P :: "u32 \<Rightarrow> bool"
  proof
    assume all: "\<forall>k. unat k < Suc n \<longrightarrow> P k"
    have "P (k + 1)" if "unat k < n" for k :: u32
    proof -
      have "unat (k + 1) \<le> Suc (unat k)" by (cases "k + 1 = 0") (simp_all add: unatSuc [unfolded add.commute [of 1]])
      then show ?thesis using all that by auto
    qed
    then show "P 0 \<and> (\<forall>k. unat k < n \<longrightarrow> P (k + 1))" using all by simp
  next
    assume r: "P 0 \<and> (\<forall>k. unat k < n \<longrightarrow> P (k + 1))"
    show "\<forall>k. unat k < Suc n \<longrightarrow> P k"
    proof (intro allI impI)
      fix k :: u32 assume k: "unat k < Suc n"
      show "P k"
      proof (cases "k = 0")
        case False
        then have "unat (k - 1) < n" using k by (simp add: unat_minus_one unat_gt_0 [symmetric])
        then have "P (k - 1 + 1)" using r by blast
        then show ?thesis by simp
      qed (use r in simp)
    qed
  qed
  show ?case using Suc by (subst split) (simp add: add.commute add.left_commute)
qed simp


lemma within_less: "within a (unat n) x \<longleftrightarrow> x - a < n"
  by (simp add: within_def word_less_nat_alt)

lemma unat_u32_less: "unat (n :: u32) < 2 ^ 32"
  using unsigned_less [of n] by simp

text \<open>
  \<^verbatim>\<open>memory_copy\<close> copies forwards. It moves the source bytes to the destination, and changes nothing
  else, whenever the destination does not start inside the source; in particular when the two
  do not overlap, and when the destination is below the source.
\<close>

lemma memory_copy_correct:
  assumes "dest = src \<or> size' \<le> dest - src"
  shows "memory_copy src dest size' m = (\<lambda>x. if x - dest < size' then m (src + (x - dest)) else m x)"
  unfolding memory_copy_def
  using assms copy_loop_eq [of "unat size'" dest src m] unat_u32_less [of size']
  by (simp add: within_less word_le_nat_alt)

lemma memory_fill_correct:
  "memory_fill dest v size' m = (\<lambda>x. if x - dest < size' then v else m x)"
  unfolding memory_fill_def
  using fill_loop_eq [of "unat size'" dest v m] unat_u32_less [of size'] by (simp add: within_less)

lemma memory_compare_correct:
  "memory_compare src1 src2 size' m = 1 \<longleftrightarrow> (\<forall>k < size'. m (src1 + k) = m (src2 + k))"
  unfolding memory_compare_def
  using compare_loop_eq [of "unat size'" src1 src2 m] unat_u32_less [of size']
  by (simp add: word_less_nat_alt)

text \<open>
  Copying. A copy compares equal to its source when the two regions do not overlap.
\<close>

lemma copy_compares_equal:
  assumes "size' \<le> dest - src" "size' \<le> src - dest"
  shows "memory_compare src dest size' (memory_copy src dest size' m) = 1"
proof -
  have "\<not> src + k - dest < size'" if k: "k < size'" for k
  proof
    assume less: "src + k - dest < size'"
    have "unat (src - dest + k) = unat (src - dest) + unat k \<or> unat k + unat (src - dest) \<ge> 2 ^ 32"
      using unat_plus_if' [of "src - dest" k] by (auto simp: not_less)
    moreover have "unat (src - dest) + unat (dest - src) \<le> 2 ^ 32"
    proof -
      have "dest - src = - (src - dest)" by simp
      then show ?thesis using unat_plus_if' [of "src - dest" "dest - src"] unat_u32_less [of "src - dest"]
          unat_u32_less [of "dest - src"] by (auto simp: unat_sub_if' split: if_splits)
    qed
    ultimately show False
      using less k assms by (simp add: word_less_nat_alt word_le_nat_alt diff_add_eq)
  qed
  then show ?thesis
    using assms(1) by (simp add: memory_compare_correct memory_copy_correct)
qed

section \<open>Strings\<close>

fun string_at :: "mem \<Rightarrow> u32 \<Rightarrow> u8 list \<Rightarrow> bool" where
  "string_at m a [] \<longleftrightarrow> m a = 0"
| "string_at m a (c # cs) \<longleftrightarrow> c \<noteq> 0 \<and> m a = c \<and> string_at m (a + 1) cs"

lemma string_len_from_eq:
  "string_at m a cs \<Longrightarrow> string_len_from m a r = Some (r + of_nat (length cs))"
proof (induction cs arbitrary: a r)
  case Nil
  then show ?case by (subst string_len_from.simps) simp
next
  case (Cons c cs)
  then show ?case by (subst string_len_from.simps) (simp add: ac_simps)
qed

lemma string_len_from_zero:
  assumes "string_len_from m a r = Some y"
  shows "\<exists>k. m (a + of_nat k) = 0"
proof (rule string_len_from.raw_induct [OF _ assms, of "\<lambda>m a r y. \<exists>k. m (a + of_nat k) = 0"])
  fix f :: "mem \<Rightarrow> u32 \<Rightarrow> u32 \<Rightarrow> u32 option" and m :: mem and a r y :: u32
  assume IH: "\<And>m a r y. f m a r = Some y \<Longrightarrow> \<exists>k. m (a + of_nat k) = 0"
    and eq: "(if m a \<noteq> 0 then f m (a + 1) (r + 1) else Some r) = Some y"
  show "\<exists>k. m (a + of_nat k) = 0"
  proof (cases "m a = 0")
    case True
    then show ?thesis by (intro exI [of _ 0]) simp
  next
    case False
    then obtain k where "m (a + 1 + of_nat k) = 0" using IH eq by fastforce
    then show ?thesis by (intro exI [of _ "Suc k"]) (simp add: add.assoc)
  qed
qed

lemma string_at_zero:
  "m (a + of_nat k) = 0 \<Longrightarrow> \<exists>cs. string_at m a cs"
proof (induction k arbitrary: a)
  case 0
  then have "string_at m a []" by simp
  then show ?case by blast
next
  case (Suc k)
  show ?case
  proof (cases "m a = 0")
    case True
    then have "string_at m a []" by simp
    then show ?thesis by blast
  next
    case False
    obtain cs where "string_at m (a + 1) cs" using Suc.IH [of "a + 1"] Suc.prems by (auto simp: add.assoc)
    then have "string_at m a (m a # cs)" using False by simp
    then show ?thesis by blast
  qed
qed

text \<open>
  \<^verbatim>\<open>string_len\<close> returns exactly when there is a terminator, and then returns the number of bytes
  before the first one.
\<close>

lemma string_len_correct:
  "string_len a m = Inr n \<longleftrightarrow> (\<exists>cs. string_at m a cs \<and> n = of_nat (length cs))"
proof
  assume "string_len a m = Inr n"
  then have some: "string_len_from m a 0 = Some n" by (simp add: string_len_def res_simps)
  then obtain cs where cs: "string_at m a cs" using string_len_from_zero string_at_zero by blast
  with some string_len_from_eq [OF cs] show "\<exists>cs. string_at m a cs \<and> n = of_nat (length cs)" by auto
next
  assume "\<exists>cs. string_at m a cs \<and> n = of_nat (length cs)"
  then show "string_len a m = Inr n" using string_len_from_eq by (auto simp: string_len_def)
qed

lemma string_at_cong:
  "string_at m a cs \<Longrightarrow> (\<And>k. k \<le> length cs \<Longrightarrow> m' (a + of_nat k) = m (a + of_nat k)) \<Longrightarrow> string_at m' a cs"
proof (induction cs arbitrary: a)
  case Nil
  then show ?case using Nil(2) [of 0] by simp
next
  case (Cons c cs)
  have "string_at m' (a + 1) cs"
  proof (rule Cons.IH)
    show "string_at m (a + 1) cs" using Cons.prems by simp
    show "m' (a + 1 + of_nat k) = m (a + 1 + of_nat k)" if "k \<le> length cs" for k
      using Cons.prems(2) [of "Suc k"] that by (simp add: add.assoc)
  qed
  then show ?case using Cons.prems(1) Cons.prems(2) [of 0] by simp
qed

lemma string_copy_from_eq:
  assumes "string_at m src cs" "Suc (length cs) < 2 ^ 32" "dest = src \<or> length cs < unat (dest - src)"
  shows "string_copy_from src dest m = Some (copy_loop (Suc (length cs)) src dest m)"
  using assms
proof (induction cs arbitrary: src dest m)
  case Nil
  then show ?case by (subst string_copy_from.simps) simp
next
  case (Cons c cs)
  let ?m = "m(dest := m src)"
  have s1: "string_at ?m (src + 1) cs"
  proof (rule string_at_cong)
    show "string_at m (src + 1) cs" using Cons.prems by simp
    fix k assume k: "k \<le> length cs"
    have "src + 1 + of_nat k \<noteq> dest"
    proof
      assume eq: "src + 1 + of_nat k = dest"
      then have "dest - src = of_nat (Suc k)" by (simp add: algebra_simps)
      moreover have "unat (of_nat (Suc k) :: u32) = Suc k"
        using k Cons.prems(2) by (subst unat_of_nat) (simp add: take_bit_nat_eq_self)
      ultimately show False using Cons.prems(3) k by (auto simp del: of_nat_Suc)
    qed
    then show "?m (src + 1 + of_nat k) = m (src + 1 + of_nat k)" by simp
  qed
  have "string_copy_from (src + 1) (dest + 1) ?m = Some (copy_loop (Suc (length cs)) (src + 1) (dest + 1) ?m)"
    using Cons.prems(2,3) by (intro Cons.IH [OF s1]) auto
  then show ?case using Cons.prems(1) by (subst string_copy_from.simps) simp
qed

text \<open>
  String copies. \<^verbatim>\<open>string_copy\<close> returns, and is \<^verbatim>\<open>memory_copy\<close> of the characters and their
  terminator, when the destination is not inside the source string.
\<close>

lemma string_copy_correct:
  assumes "string_at m src cs" "Suc (length cs) < 2 ^ 32" "dest = src \<or> length cs < unat (dest - src)"
  shows "string_copy src dest m = Inr (memory_copy src dest (of_nat (Suc (length cs))) m)"
proof -
  have "unat (of_nat (Suc (length cs)) :: u32) = Suc (length cs)"
    using assms(2) by (subst unat_of_nat) (simp add: take_bit_nat_eq_self)
  then show ?thesis using string_copy_from_eq [OF assms] by (simp add: string_copy_def memory_copy_def del: of_nat_Suc)
qed

section \<open>Checksum\<close>

definition crc_shift :: "u8 \<Rightarrow> u8 \<Rightarrow> u8" where
  "crc_shift polynomial crc = drop_bit 1 (if crc AND 1 \<noteq> 0 then crc XOR polynomial else crc)"

definition crc_byte :: "u8 \<Rightarrow> u8 \<Rightarrow> u8 \<Rightarrow> u8" where
  "crc_byte polynomial crc b = (crc_shift polynomial ^^ 8) (crc XOR b)"

fun crc_loop :: "nat \<Rightarrow> u32 \<Rightarrow> u8 \<Rightarrow> u8 \<Rightarrow> mem \<Rightarrow> u8" where
  "crc_loop 0 src_ptr polynomial crc m = crc"
| "crc_loop (Suc n) src_ptr polynomial crc m =
     crc_loop n (src_ptr + 1) polynomial (crc_byte polynomial crc (m src_ptr)) m"

definition crc_calculate :: "u32 \<Rightarrow> u32 \<Rightarrow> u8 \<Rightarrow> mem \<Rightarrow> u8" where
  "crc_calculate src size' polynomial m = crc_loop (unat size') src polynomial 0 m"

text \<open>The checksum of a list of bytes, as a fold.\<close>

definition crc_of :: "u8 \<Rightarrow> u8 list \<Rightarrow> u8" where
  "crc_of p bs = foldl (crc_byte p) 0 bs"

definition bytes_at :: "mem \<Rightarrow> u32 \<Rightarrow> nat \<Rightarrow> u8 list" where
  "bytes_at m a n = map (\<lambda>i. m (a + of_nat i)) [0..<n]"

lemma bytes_at_Suc: "bytes_at m a (Suc n) = m a # bytes_at m (a + 1) n"
  unfolding bytes_at_def upt_conv_Cons [OF zero_less_Suc] map_Suc_upt [symmetric]
  by (simp add: add.assoc)

lemma crc_loop_fold: "crc_loop n a p c m = foldl (crc_byte p) c (bytes_at m a n)"
  by (induction n arbitrary: a c) (simp_all add: bytes_at_Suc, simp add: bytes_at_def)

lemma crc_calculate_fold: "crc_calculate a n p m = crc_of p (bytes_at m a (unat n))"
  by (simp add: crc_calculate_def crc_of_def crc_loop_fold)


lemma and_1_bit: "x AND 1 \<noteq> 0 \<longleftrightarrow> bit x 0" for x :: u8
  by (simp add: and_one_eq bit_0 odd_iff_mod_2_eq_one)

lemma bit_crc_shift: "bit (crc_shift p x) n \<longleftrightarrow> (bit x (Suc n) \<noteq> (bit x 0 \<and> bit p (Suc n)))"
  unfolding crc_shift_def and_1_bit by (auto simp: bit_drop_bit_eq bit_xor_iff)

lemma crc_shift_linear: "crc_shift p (a XOR b) = crc_shift p a XOR crc_shift p b"
  by (intro bit_word_eqI) (auto simp: bit_crc_shift bit_xor_iff)

lemma crc_shift_0 [simp]: "crc_shift p 0 = 0"
  by (simp add: crc_shift_def)

lemma funpow_linear: "(crc_shift p ^^ n) (a XOR b) = (crc_shift p ^^ n) a XOR (crc_shift p ^^ n) b"
  by (induction n) (simp_all add: crc_shift_linear)

lemma funpow_0 [simp]: "(crc_shift p ^^ n) 0 = 0"
  by (induction n) simp_all

lemma crc_byte_linear: "crc_byte p (c XOR d) (a XOR b) = crc_byte p c a XOR crc_byte p d b"
  unfolding crc_byte_def by (simp add: funpow_linear ac_simps flip: funpow_linear)

lemma crc_shift_top: "\<not> bit (crc_shift p x) 7"
  by (auto simp: bit_crc_shift dest: bit_imp_le_length)

lemma crc_shift_kernel: "\<not> bit p 0 \<Longrightarrow> crc_shift p x = 0 \<longleftrightarrow> x = 0 \<or> x = p XOR 1"
proof
  assume p: "\<not> bit p 0" and "crc_shift p x = 0"
  then have bits: "bit x (Suc n) \<longleftrightarrow> bit x 0 \<and> bit p (Suc n)" for n
    using bit_crc_shift [of p x n] by auto
  show "x = 0 \<or> x = p XOR 1"
  proof (cases "bit x 0")
    case True
    have "bit x n = bit (p XOR 1) n" for n
      by (cases n) (use True bits p in \<open>auto simp: bit_xor_iff bit_1_iff\<close>)
    then have "x = p XOR 1" by (intro bit_word_eqI) simp
    then show ?thesis ..
  next
    case False
    have "\<not> bit x n" for n by (cases n) (use False bits in auto)
    then have "x = 0" by (intro bit_word_eqI) simp
    then show ?thesis ..
  qed
next
  assume p: "\<not> bit p 0" and "x = 0 \<or> x = p XOR 1"
  then show "crc_shift p x = 0"
    by (intro bit_word_eqI) (auto simp: bit_crc_shift bit_xor_iff bit_1_iff)
qed

text \<open>
  A polynomial with the lowest bit clear and the highest set, as \<^verbatim>\<open>0xB2\<close>: the eight steps of a
  byte annihilate exactly two differences.
\<close>

lemma crc_steps_kernel:
  assumes p: "\<not> bit p 0" "bit p 7" and n: "0 < n"
  shows "(crc_shift p ^^ n) x = 0 \<longleftrightarrow> x = 0 \<or> x = p XOR 1"
  using n
proof (induction n arbitrary: x)
  case (Suc n)
  have top: "bit (p XOR 1) 7" using p by (simp add: bit_xor_iff bit_1_iff)
  have "(crc_shift p ^^ Suc n) x = (crc_shift p ^^ n) (crc_shift p x)" by (simp add: funpow_swap1)
  also have "\<dots> = 0 \<longleftrightarrow> crc_shift p x = 0"
  proof (cases "n = 0")
    case False
    then have "(crc_shift p ^^ n) (crc_shift p x) = 0 \<longleftrightarrow> crc_shift p x = 0 \<or> crc_shift p x = p XOR 1"
      using Suc.IH by simp
    then show ?thesis using top crc_shift_top [of p x] by metis
  qed simp
  also have "\<dots> \<longleftrightarrow> x = 0 \<or> x = p XOR 1" by (rule crc_shift_kernel [OF p(1)])
  finally show ?case .
qed simp

lemma xor_eq_self: "x XOR y = x \<longleftrightarrow> y = 0" for x y :: "'a::len word"
proof
  assume "x XOR y = x"
  then have "x XOR (x XOR y) = 0" by simp
  then show "y = 0" by (simp flip: xor.assoc)
qed simp

lemma foldl_crc_linear:
  "foldl (crc_byte p) (c XOR d) bs = foldl (crc_byte p) c bs XOR foldl (crc_byte p) d (replicate (length bs) 0)"
proof (induction bs arbitrary: c d)
  case (Cons b bs)
  show ?case using Cons.IH [of "crc_byte p c b" "crc_byte p d 0"] crc_byte_linear [of p c d b 0] by simp
qed simp

lemma zeros_kernel:
  assumes p: "\<not> bit p 0" "bit p 7" and d: "\<not> bit d 7"
  shows "foldl (crc_byte p) d (replicate n 0) = 0 \<longleftrightarrow> d = 0"
  using d
proof (induction n arbitrary: d)
  case (Suc n)
  have top: "\<not> bit (crc_byte p d 0) 7"
    using crc_shift_top [of p "(crc_shift p ^^ 7) d"] by (simp add: crc_byte_def numeral_eq_Suc)
  have "bit (p XOR 1) 7" using p by (simp add: bit_xor_iff bit_1_iff)
  then have "d \<noteq> p XOR 1" using Suc.prems by auto
  then have "crc_byte p d 0 = 0 \<longleftrightarrow> d = 0" using crc_steps_kernel [OF p, of 8 d] by (simp add: crc_byte_def)
  then show ?case using Suc.IH [OF top] by simp
qed simp

text \<open>The check of a received frame: the checksum of the data followed by its checksum is zero.\<close>

lemma crc_residue: "crc_of p (bs @ [crc_of p bs]) = 0"
  by (simp add: crc_of_def crc_byte_def)

text \<open>
  Which single-byte errors the checksum with the protocol's polynomial detects: every change of a
  byte except by exclusive or with \<open>0xB3\<close>, wherever it occurs.
\<close>

lemma crc_of_byte_errors:
  "crc_of 0xB2 (xs @ (b XOR e) # ys) = crc_of 0xB2 (xs @ b # ys) \<longleftrightarrow> e = 0 \<or> e = 0xB3"
proof -
  let ?p = "0xB2 :: u8"
  define c where "c = foldl (crc_byte ?p) 0 xs"
  define d where "d = crc_byte ?p 0 e"
  have p: "\<not> bit ?p 0" "bit ?p 7" by (simp_all add: bit_0 bit_numeral_rec numeral_eq_Suc flip: numeral_One)
  have "crc_of ?p (xs @ (b XOR e) # ys) = foldl (crc_byte ?p) (crc_byte ?p c b XOR d) ys"
    using crc_byte_linear [of ?p c 0 b e] by (simp add: crc_of_def c_def d_def)
  also have "\<dots> = crc_of ?p (xs @ b # ys) XOR foldl (crc_byte ?p) d (replicate (length ys) 0)"
    by (simp add: foldl_crc_linear crc_of_def c_def)
  finally have "crc_of ?p (xs @ (b XOR e) # ys) = crc_of ?p (xs @ b # ys) \<longleftrightarrow>
      foldl (crc_byte ?p) d (replicate (length ys) 0) = 0" by (simp add: xor_eq_self)
  also have "\<dots> \<longleftrightarrow> d = 0"
    using crc_shift_top [of ?p "(crc_shift ?p ^^ 7) e"] by (intro zeros_kernel p) (simp add: d_def crc_byte_def numeral_eq_Suc)
  also have "\<dots> \<longleftrightarrow> e = 0 \<or> e = 0xB3" using crc_steps_kernel [OF p, of 8 e] by (simp add: d_def crc_byte_def)
  finally show ?thesis .
qed

text \<open>
  \<^bold>\<open>Error detection of the frame checksum (C11).\<close> If one byte of the protected bytes changes, the
  checksum that the code computes over them changes, unless the change is an exclusive or with
  \<open>0xB3\<close>: that single-byte error is never detected, wherever it occurs.
\<close>

theorem crc_detects_byte_errors:
  assumes "bytes_at m a (unat n) = xs @ b # ys" "bytes_at m' a (unat n) = xs @ (b XOR e) # ys"
  shows "crc_calculate a n 0xB2 m' = crc_calculate a n 0xB2 m \<longleftrightarrow> e = 0 \<or> e = 0xB3"
  using crc_of_byte_errors [of xs b e ys] assms by (simp add: crc_calculate_fold)

theorem crc_detects_byte_errors_witness:
  "crc_calculate 0x100 3 0xB2 ((\<lambda>_. 7)(0x101 := 0xB4)) = crc_calculate 0x100 3 0xB2 (\<lambda>_. 7)"
proof -
  have "bytes_at (\<lambda>_. 7) 0x100 (unat (3 :: u32)) = [7] @ 7 # [7]"
    "bytes_at ((\<lambda>_. 7)(0x101 := 0xB4)) 0x100 (unat (3 :: u32)) = [7] @ (7 XOR 0xB3) # [7]"
    by (simp_all add: bytes_at_def upt_rec)
  from crc_detects_byte_errors [OF this] show ?thesis by simp
qed

end
