(* ===== verification/Page_Alloc.thy ===== *)
theory Page_Alloc
  imports Mem_Run Memory_Ops
begin

text \<open>
  The two front ends of the memory allocator: \<^verbatim>\<open>mm/bmalloc.c\<close> counts bytes, \<^verbatim>\<open>mm/pmalloc.c\<close> counts
  pages of 512 bytes. Both panic where \<^verbatim>\<open>mm_alloc\<close> returns null, so that their callers never see
  a null pointer. The size of a page request is computed in 32 bits and can wrap around.
\<close>

section \<open>Operations\<close>

definition or_panic :: "string \<Rightarrow> (u32 \<times> mm_state) res \<Rightarrow> (u32 \<times> mm_state) res" where
  "or_panic reason r = rbind r (\<lambda>(ptr, st). if ptr = 0 then Inl (Panic reason) else Inr (ptr, st))"

definition fill_mm :: "u32 \<Rightarrow> u8 \<Rightarrow> u32 \<Rightarrow> mm_state \<Rightarrow> mm_state" where
  "fill_mm dest v size' st = st\<lparr>mm_mem := memory_fill dest v size' (mm_mem st)\<rparr>"

definition bmalloc :: "u32 \<Rightarrow> nat \<Rightarrow> mm_state \<Rightarrow> (u32 \<times> mm_state) res" where
  "bmalloc size' bank st = or_panic ''salloc failed'' (mm_alloc size' bank st)"

definition bcalloc :: "u32 \<Rightarrow> nat \<Rightarrow> mm_state \<Rightarrow> (u32 \<times> mm_state) res" where
  "bcalloc size' bank st =
     rbind (or_panic ''salloc failed'' (mm_alloc size' bank st))
       (\<lambda>(ptr, st'). Inr (ptr, fill_mm ptr 0 size' st'))"

definition bfree :: "u32 \<Rightarrow> mm_state \<Rightarrow> mm_state res" where
  "bfree ptr st = mm_free ptr st"

definition bmalloc_get_used :: "nat \<Rightarrow> mm_state \<Rightarrow> u32 res" where
  "bmalloc_get_used bank st = mm_get_used bank st"

definition bmalloc_get_free :: "nat \<Rightarrow> mm_state \<Rightarrow> u32 res" where
  "bmalloc_get_free bank st = mm_get_free bank st"

definition bmalloc_get_total :: "nat \<Rightarrow> mm_state \<Rightarrow> u32 res" where
  "bmalloc_get_total bank st = mm_get_total bank st"

definition pmalloc :: "u32 \<Rightarrow> nat \<Rightarrow> mm_state \<Rightarrow> (u32 \<times> mm_state) res" where
  "pmalloc count' bank st = or_panic ''palloc failed'' (mm_alloc (count' * 512) bank st)"

definition pcalloc :: "u32 \<Rightarrow> nat \<Rightarrow> mm_state \<Rightarrow> (u32 \<times> mm_state) res" where
  "pcalloc count' bank st =
     rbind (or_panic ''palloc failed'' (mm_alloc (count' * 512) bank st))
       (\<lambda>(ptr, st'). Inr (ptr, fill_mm ptr 0 (count' * 512) st'))"

definition pfree :: "u32 \<Rightarrow> mm_state \<Rightarrow> mm_state res" where
  "pfree ptr st = mm_free ptr st"

definition pmalloc_get_used :: "nat \<Rightarrow> mm_state \<Rightarrow> u32 res" where
  "pmalloc_get_used bank st = mm_get_used bank st"

definition pmalloc_get_free :: "nat \<Rightarrow> mm_state \<Rightarrow> u32 res" where
  "pmalloc_get_free bank st = mm_get_free bank st"

definition pmalloc_get_total :: "nat \<Rightarrow> mm_state \<Rightarrow> u32 res" where
  "pmalloc_get_total bank st = mm_get_total bank st"

section \<open>Their contract\<close>

lemma or_panic_Inr [res_simps]:
  "or_panic r x = Inr (p, st) \<longleftrightarrow> x = Inr (p, st) \<and> p \<noteq> 0"
  by (cases x) (auto simp: or_panic_def split: if_splits)

text \<open>
  What a caller gets: a block of at least \<open>n\<close> bytes that is apart from everything held in the
  region, with the contents of everything held unchanged.
\<close>

definition grants :: "nat \<Rightarrow> block list \<Rightarrow> mm_state \<Rightarrow> nat \<Rightarrow> u32 \<Rightarrow> mm_state \<Rightarrow> bool" where
  "grants bank P st n ptr st' \<longleftrightarrow>
     (\<exists>b. ptr = W (fst b) \<and> n \<le> snd b \<and> mm_holds bank st' (b # P))
     \<and> (\<forall>c\<in>set P. \<forall>x\<in>span (fst c) (fst c + snd c). mm_mem st' x = mm_mem st x)"

lemma grants_mono: "grants bank P st n ptr st' \<Longrightarrow> n' \<le> n \<Longrightarrow> grants bank P st n' ptr st'"
  unfolding grants_def using le_trans [of n' n] by blast

lemma alloc_grants:
  assumes "mm_holds bank st P" "mm_fits n"
  shows "or_panic r (mm_alloc n bank st) = Inl (Panic r)
    \<or> (\<exists>ptr st'. or_panic r (mm_alloc n bank st) = Inr (ptr, st') \<and> grants bank P st (unat n) ptr st')"
  using mm.alloc_law [OF assms] by (auto simp: or_panic_def grants_def)

lemma fill_grants:
  assumes h: "mm_holds bank st P" "mm_fits n" and a: "mm_alloc n bank st = Inr (ptr, st')" "ptr \<noteq> 0"
  shows "grants bank P st (unat n) ptr (fill_mm ptr v n st')
    \<and> (\<forall>k < n. mm_mem (fill_mm ptr v n st') (ptr + k) = v)"
proof -
  let ?m = "memory_fill ptr v n (mm_mem st')"
  have "\<not> x - ptr < n \<Longrightarrow> ?m x = mm_mem st' x" for x by (simp add: memory_fill_correct)
  from mm.alloc_put [OF h a this]
  have "grants bank P st (unat n) ptr (fill_mm ptr v n st')"
    unfolding grants_def fill_mm_def by auto
  moreover have "\<forall>k < n. mm_mem (fill_mm ptr v n st') (ptr + k) = v"
    by (simp add: fill_mm_def memory_fill_correct)
  ultimately show ?thesis ..
qed

lemma bcalloc_correct:
  assumes "mm_holds bank st P" "mm_fits size'"
  shows "bcalloc size' bank st = Inl (Panic ''salloc failed'')
    \<or> (\<exists>ptr st'. bcalloc size' bank st = Inr (ptr, st') \<and> grants bank P st (unat size') ptr st'
         \<and> (\<forall>k < size'. mm_mem st' (ptr + k) = 0))"
proof -
  obtain ptr st' where a: "mm_alloc size' bank st = Inr (ptr, st')"
    using mm.alloc_law [OF assms] by auto
  then show ?thesis
    using fill_grants [OF assms a] by (cases "ptr = 0") (auto simp: bcalloc_def or_panic_def)
qed

lemma page_fits: "unat count' < 2 ^ 23 - 1 \<Longrightarrow> mm_fits (count' * 512) \<and> unat (count' * 512) = 512 * unat count'"
  by (simp add: mm_fits_def unat_mult_lem [THEN iffD1])

lemma pmalloc_correct:
  assumes "mm_holds bank st P" "unat count' < 2 ^ 23 - 1"
  shows "pmalloc count' bank st = Inl (Panic ''palloc failed'')
    \<or> (\<exists>ptr st'. pmalloc count' bank st = Inr (ptr, st') \<and> grants bank P st (512 * unat count') ptr st')"
  using alloc_grants [OF assms(1), of "count' * 512"] page_fits [OF assms(2)]
  by (auto simp: pmalloc_def)

text \<open>
  Page allocation. A zeroed page request either panics or returns at least \<open>512 * count\<close>
  bytes, apart from everything held in the region and all zero, and leaves the contents of what is
  held. It never returns null.
\<close>

lemma pcalloc_correct:
  assumes "mm_holds bank st P" "unat count' < 2 ^ 23 - 1"
  shows "pcalloc count' bank st = Inl (Panic ''palloc failed'')
    \<or> (\<exists>ptr st'. pcalloc count' bank st = Inr (ptr, st') \<and> grants bank P st (512 * unat count') ptr st'
         \<and> (\<forall>k < count' * 512. mm_mem st' (ptr + k) = 0))"
proof -
  note fits = page_fits [OF assms(2)]
  obtain ptr st' where a: "mm_alloc (count' * 512) bank st = Inr (ptr, st')"
    using mm.alloc_law [OF assms(1)] fits by blast
  then show ?thesis
    using fill_grants [OF assms(1) _ a] fits by (cases "ptr = 0") (auto simp: pcalloc_def or_panic_def)
qed

lemma demo_holds: "mm_holds 0 demo_boot []"
  using demo_rep demo_region(2) by (auto simp: mm_holds_def)

text \<open>What is freed goes back: freeing a granted block restores the held blocks.\<close>

lemma pmalloc_pfree:
  assumes "mm_holds bank st P" "unat count' < 2 ^ 23 - 1" "pmalloc count' bank st = Inr (ptr, st')"
  shows "\<exists>st''. pfree ptr st' = Inr st'' \<and> mm_holds bank st'' P"
  using mm.alloc_free [OF assms(1), of "count' * 512" ptr st'] assms(3) page_fits [OF assms(2)]
  by (auto simp: pmalloc_def pfree_def res_simps)

text \<open>A page count of \<open>2 ^ 23\<close> wraps around to a request of no bytes at all.\<close>

lemma pmalloc_wraps: "pmalloc 0x800000 bank st = or_panic ''palloc failed'' (mm_alloc 0 bank st)"
proof -
  have "(0x800000 * 512 :: u32) = 0" by transfer simp
  then show ?thesis by (simp only: pmalloc_def)
qed

end
