(* ===== verification/Umalloc.thy ===== *)
theory Umalloc
  imports Page_Alloc
begin

text \<open>
  The fixed-size block allocator of \<^verbatim>\<open>mm/umalloc.c\<close>: an arena of equal blocks followed by a bitmap
  of 32-bit words in the same page allocation. A set bit marks a free block. The arena and the
  bitmap are bytes of the physical memory.
\<close>

section \<open>Operations\<close>

record umalloc_desc =
  arena :: u32
  bitmap :: u32
  blk_size :: u32
  blk_count :: u32
  used_blocks :: u32

definition index_to_addr :: "umalloc_desc \<Rightarrow> u32 \<Rightarrow> u32" where
  "index_to_addr desc index = arena desc + blk_size desc * index"

text \<open>The index, or \<^const>\<open>None\<close> where the code returns 0.\<close>

definition addr_to_index :: "umalloc_desc \<Rightarrow> u32 \<Rightarrow> u32 option" where
  "addr_to_index desc ptr =
     (if ptr < arena desc \<or> bitmap desc \<le> ptr then None
      else
        (let offset = ptr - arena desc
         in if offset mod blk_size desc \<noteq> 0 then None else Some (offset div blk_size desc)))"

definition bitmap_word :: "umalloc_desc \<Rightarrow> u32 \<Rightarrow> u32" where
  "bitmap_word desc index = bitmap desc + 4 * (index div 32)"

definition bit_mask :: "nat \<Rightarrow> u32" where
  "bit_mask j = push_bit j 1"

definition get_bitmap_value :: "umalloc_desc \<Rightarrow> u32 \<Rightarrow> mem \<Rightarrow> u8" where
  "get_bitmap_value desc index m =
     (if load32 m (bitmap_word desc index) AND bit_mask (unat (index mod 32)) \<noteq> 0 then 1 else 0)"

definition clear_bit_in_bitmap :: "umalloc_desc \<Rightarrow> u32 \<Rightarrow> mem \<Rightarrow> mem" where
  "clear_bit_in_bitmap desc index m =
     store32 m (bitmap_word desc index)
       (load32 m (bitmap_word desc index) OR bit_mask (unat (index mod 32)))"

text \<open>The loop over the words of the bitmap, with \<open>n\<close> words to go.\<close>

fun free_index_loop :: "nat \<Rightarrow> u32 \<Rightarrow> u32 \<Rightarrow> mem \<Rightarrow> (u32 \<times> mem) option" where
  "free_index_loop 0 i bitmask_ptr m = None"
| "free_index_loop (Suc n) i bitmask_ptr m =
     (let bitmask = load32 m bitmask_ptr
      in if bitmask \<noteq> 0 then
           (case find (\<lambda>j. bitmask AND bit_mask j \<noteq> 0) [0..<32] of
              Some j \<Rightarrow> Some (32 * i + of_nat j, store32 m bitmask_ptr (bitmask AND NOT (bit_mask j)))
            | None \<Rightarrow> free_index_loop n (i + 1) (bitmask_ptr + 4) m)
         else free_index_loop n (i + 1) (bitmask_ptr + 4) m)"

definition get_first_free_index :: "umalloc_desc \<Rightarrow> mem \<Rightarrow> (u32 \<times> mem) option" where
  "get_first_free_index desc m = free_index_loop (unat (blk_count desc div 32)) 0 (bitmap desc) m"

definition umalloc_pages :: "u32 \<Rightarrow> u32 \<Rightarrow> u32" where
  "umalloc_pages arena_size bitmap_size =
     (arena_size + bitmap_size) div 512 + (if (arena_size + bitmap_size) mod 512 \<noteq> 0 then 1 else 0)"

definition umalloc_new :: "u32 \<Rightarrow> u32 \<Rightarrow> nat \<Rightarrow> mm_state \<Rightarrow> (umalloc_desc \<times> mm_state) res" where
  "umalloc_new block_size' block_count0 bank st =
     (let block_count' = (block_count0 + 32) AND NOT (32 - 1);
          arena_size = block_count' * block_size';
          bitmap_size = block_count' div 8 + (if block_count' mod 8 \<noteq> 0 then 1 else 0);
          pages = umalloc_pages arena_size bitmap_size
      in rbind (pmalloc pages bank st) (\<lambda>(ptr, st').
           if ptr = 0 then Inl (Panic ''Can not make ualloc'')
           else Inr (\<lparr>arena = ptr, bitmap = ptr + arena_size, blk_size = block_size',
                      blk_count = block_count', used_blocks = 0\<rparr>,
                     fill_mm ptr 0xFF (pages * 512) st')))"

definition umalloc_delete :: "umalloc_desc \<Rightarrow> mm_state \<Rightarrow> mm_state res" where
  "umalloc_delete desc st = pfree (arena desc) st"

definition umalloc :: "umalloc_desc \<Rightarrow> mem \<Rightarrow> (u32 \<times> umalloc_desc \<times> mem) res" where
  "umalloc desc m =
     (case get_first_free_index desc m of
        None \<Rightarrow> Inl (Panic ''ups'')
      | Some (index, m') \<Rightarrow>
          Inr (index_to_addr desc index, desc\<lparr>used_blocks := used_blocks desc + 1\<rparr>, m'))"

definition ucalloc :: "umalloc_desc \<Rightarrow> mem \<Rightarrow> (u32 \<times> umalloc_desc \<times> mem) res" where
  "ucalloc desc m =
     rbind (umalloc desc m) (\<lambda>(ptr, desc', m'). Inr (ptr, desc', memory_fill ptr 0 (blk_size desc') m'))"

definition ufree :: "umalloc_desc \<Rightarrow> u32 \<Rightarrow> mem \<Rightarrow> (umalloc_desc \<times> mem) res" where
  "ufree desc ptr m =
     (case addr_to_index desc ptr of
        None \<Rightarrow> Inl (Panic ''bfree failed'')
      | Some index \<Rightarrow>
          if get_bitmap_value desc index m = 1 then Inl (Panic ''bfree failed'')
          else
            (let m' = clear_bit_in_bitmap desc index m
             in if used_blocks desc \<noteq> 0
                then Inr (desc\<lparr>used_blocks := used_blocks desc - 1\<rparr>, m')
                else Inl (Panic ''bfree failed'')))"

definition umalloc_get_used :: "umalloc_desc \<Rightarrow> u32" where
  "umalloc_get_used desc = used_blocks desc"

section \<open>The bitmap\<close>

text \<open>The state of an allocator in which the blocks with the indices \<open>U\<close> are in use.\<close>

definition free_bit :: "umalloc_desc \<Rightarrow> mem \<Rightarrow> nat \<Rightarrow> bool" where
  "free_bit desc m k \<longleftrightarrow> bit (load32 m (bitmap desc + W (4 * (k div 32)))) (k mod 32)"

definition umalloc_ok :: "umalloc_desc \<Rightarrow> mem \<Rightarrow> nat set \<Rightarrow> bool" where
  "umalloc_ok desc m U \<longleftrightarrow>
     (let c = unat (blk_count desc); s = unat (blk_size desc); a = unat (arena desc)
      in c mod 32 = 0 \<and> 0 < s \<and> 0 < a \<and> unat (bitmap desc) = a + c * s
         \<and> a + c * s + c div 8 \<le> 2 ^ 32
         \<and> (\<forall>k<c. free_bit desc m k \<longleftrightarrow> k \<notin> U) \<and> U \<subseteq> {..<c} \<and> unat (used_blocks desc) = card U)"

lemma bit_bit_mask: "bit (bit_mask j) n \<longleftrightarrow> j < 32 \<and> n = j"
  by (auto simp: bit_mask_def bit_exp_iff)

lemma bit_mask_and: "x AND bit_mask j \<noteq> 0 \<longleftrightarrow> j < 32 \<and> bit x j" for x :: u32
proof
  assume "x AND bit_mask j \<noteq> 0"
  then obtain n where "bit (x AND bit_mask j) n" using bit_eqI [of "x AND bit_mask j" 0] by auto
  then show "j < 32 \<and> bit x j" by (auto simp: bit_and_iff bit_bit_mask)
next
  assume "j < 32 \<and> bit x j"
  then have "bit (x AND bit_mask j) j" by (simp add: bit_and_iff bit_bit_mask)
  then show "x AND bit_mask j \<noteq> 0" by auto
qed

text \<open>Distinct bitmap words do not overlap.\<close>

lemma bitmap_words_apart:
  assumes "umalloc_ok desc m U" "i < unat (blk_count desc) div 32" "j < unat (blk_count desc) div 32" "i \<noteq> j"
  shows "word_at (bitmap desc + W (4 * i)) \<inter> word_at (bitmap desc + W (4 * j)) = {}"
proof -
  have b: "bitmap desc + W (4 * n) = W (unat (bitmap desc) + 4 * n)" for n by simp
  have lim: "unat (bitmap desc) + unat (blk_count desc) div 8 \<le> 2 ^ 32"
    using assms(1) by (simp add: umalloc_ok_def Let_def)
  have "4 * (unat (blk_count desc) div 32) \<le> unat (blk_count desc) div 8" by simp
  then show ?thesis
    unfolding b word_at_span using assms(2-4) lim by (intro span_disjoint) auto
qed

text \<open>The search finds the first free block, and marks it used.\<close>

lemma find_first_bit:
  "find (\<lambda>j. x AND bit_mask j \<noteq> 0) [0..<32] = (if x = 0 then None else Some (LEAST j. bit x j))" for x :: u32
proof (cases "x = 0")
  case False
  then obtain n where n: "bit x n" using bit_eqI [of x 0] by auto
  define j where "j = (LEAST j. bit x j)"
  have j: "bit x j" unfolding j_def using n by (rule LeastI)
  then have j32: "j < 32" using bit_imp_le_length [OF j] by simp
  have before: "\<not> bit x i" if "i < j" for i using that unfolding j_def by (rule not_less_Least)
  have "find (\<lambda>j. x AND bit_mask j \<noteq> 0) [0..<32] = Some j"
    unfolding find_Some_iff
  proof (intro exI conjI allI impI)
    show "j < length [0..<32]" "x AND bit_mask ([0..<32] ! j) \<noteq> 0" "j = [0..<32] ! j"
      using j j32 bit_mask_and [of x j] by (simp_all del: upt_rec_numeral)
    show "\<not> x AND bit_mask ([0..<32] ! i) \<noteq> 0" if "i < j" for i
      using before [OF that] j32 that bit_mask_and [of x i] by (simp del: upt_rec_numeral)
  qed
  then have "find (\<lambda>j. x AND bit_mask j \<noteq> 0) [0..<32] = Some (LEAST j. bit x j)"
    by (simp only: j_def)
  with False show ?thesis by (simp only: if_False)
qed (simp add: find_None_iff)

lemma free_index_loop_eq:
  assumes "\<And>i. i < n \<Longrightarrow> words i = load32 m (p + W (4 * i))"
  shows "free_index_loop n (W k) p m =
    (if \<exists>i<n. words i \<noteq> 0 then
       (let i = (LEAST i. i < n \<and> words i \<noteq> 0); j = (LEAST j. bit (words i) j)
        in Some (W (32 * (k + i) + j), store32 m (p + W (4 * i)) (words i AND NOT (bit_mask j))))
     else None)"
  using assms
proof (induction n arbitrary: k p words)
  case (Suc n)
  have w0: "words 0 = load32 m p" using Suc.prems [of 0] by simp
  show ?case
  proof (cases "words 0 = 0")
    case False
    then have "(LEAST i. i < Suc n \<and> words i \<noteq> 0) = 0" by (intro Least_equality) auto
    then show ?thesis using False w0 by (auto simp: find_first_bit Let_def algebra_simps)
  next
    case True
    define words' where "words' = (\<lambda>i. words (Suc i))"
    have IH: "free_index_loop n (W (Suc k)) (p + 4) m =
      (if \<exists>i<n. words' i \<noteq> 0 then
         (let i = (LEAST i. i < n \<and> words' i \<noteq> 0); j = (LEAST j. bit (words' i) j)
          in Some (W (32 * (Suc k + i) + j), store32 m (p + 4 + W (4 * i)) (words' i AND NOT (bit_mask j))))
       else None)"
    proof (rule Suc.IH)
      fix i assume "i < n"
      then show "words' i = load32 m (p + 4 + W (4 * i))"
        using Suc.prems [of "Suc i"] by (simp add: words'_def algebra_simps)
    qed
    have ex: "(\<exists>i<Suc n. words i \<noteq> 0) \<longleftrightarrow> (\<exists>i<n. words' i \<noteq> 0)"
      using True by (auto simp: words'_def less_Suc_eq_0_disj)
    have "(LEAST i. i < Suc n \<and> words i \<noteq> 0) = Suc (LEAST i. i < n \<and> words' i \<noteq> 0)" if "\<exists>i<n. words' i \<noteq> 0"
    proof -
      obtain i where "i < n" "words (Suc i) \<noteq> 0" using \<open>\<exists>i<n. _\<close> by (auto simp: words'_def)
      then show ?thesis
        using Least_Suc [of "\<lambda>i. i < Suc n \<and> words i \<noteq> 0" "Suc i"] True by (simp add: words'_def)
    qed
    then show ?thesis
      using True IH ex w0 by (auto simp: Let_def words'_def algebra_simps)
  qed
qed simp


abbreviation count_of :: "umalloc_desc \<Rightarrow> nat" where
  "count_of desc \<equiv> unat (blk_count desc)"

abbreviation blk_addr :: "umalloc_desc \<Rightarrow> nat \<Rightarrow> nat" where
  "blk_addr desc k \<equiv> unat (arena desc) + unat (blk_size desc) * k"

abbreviation word_of :: "umalloc_desc \<Rightarrow> nat \<Rightarrow> u32" where
  "word_of desc k \<equiv> bitmap desc + W (4 * (k div 32))"

lemma okD:
  assumes "umalloc_ok desc m U"
  shows "count_of desc mod 32 = 0" "0 < unat (blk_size desc)" "0 < unat (arena desc)"
    "unat (bitmap desc) = unat (arena desc) + count_of desc * unat (blk_size desc)"
    "unat (bitmap desc) + count_of desc div 8 \<le> 2 ^ 32"
    "\<And>k. k < count_of desc \<Longrightarrow> free_bit desc m k \<longleftrightarrow> k \<notin> U" "U \<subseteq> {..<count_of desc}"
    "unat (used_blocks desc) = card U"
  using assms by (simp_all add: umalloc_ok_def Let_def)

lemma first_free_index:
  assumes ok: "umalloc_ok desc m U"
  shows "get_first_free_index desc m =
    (if U = {..<count_of desc} then None
     else let k = (LEAST k. k \<notin> U)
          in Some (W k, store32 m (word_of desc k) (load32 m (word_of desc k) AND NOT (bit_mask (k mod 32)))))"
proof -
  let ?n = "count_of desc div 32"
  define words where "words = (\<lambda>i. load32 m (bitmap desc + W (4 * i)))"
  note D = okD [OF ok]
  have c: "count_of desc = 32 * ?n" using D(1) by auto
  have wbit: "bit (words i) j \<longleftrightarrow> 32 * i + j \<notin> U" if "i < ?n" "j < 32" for i j
  proof -
    have "32 * i + j < count_of desc" using that c by linarith
    from D(6) [OF this] show ?thesis using that by (simp add: free_bit_def words_def)
  qed
  have nz: "words i \<noteq> 0 \<longleftrightarrow> (\<exists>j<32. 32 * i + j \<notin> U)" if i: "i < ?n" for i
  proof
    assume "words i \<noteq> 0"
    then obtain j where "bit (words i) j" using bit_eqI [of "words i" 0] by auto
    moreover from this have "j < 32" using bit_imp_le_length by fastforce
    ultimately show "\<exists>j<32. 32 * i + j \<notin> U" using wbit i by blast
  next
    assume "\<exists>j<32. 32 * i + j \<notin> U"
    then obtain j where "bit (words i) j" using wbit i by blast
    then show "words i \<noteq> 0" by auto
  qed
  have loop: "get_first_free_index desc m =
    (if \<exists>i< ?n. words i \<noteq> 0 then
       (let i = (LEAST i. i < ?n \<and> words i \<noteq> 0); j = (LEAST j. bit (words i) j)
        in Some (W (32 * i + j), store32 m (bitmap desc + W (4 * i)) (words i AND NOT (bit_mask j))))
     else None)"
    using free_index_loop_eq [of ?n words m "bitmap desc" 0, OF words_def [THEN fun_cong]]
    unfolding get_first_free_index_def by (simp only: unat_div unat_numeral of_nat_0 add_0) simp
  show ?thesis
  proof (cases "U = {..<count_of desc}")
    case True
    have "32 * i + j \<in> U" if "i < ?n" "j < 32" for i j
    proof -
      have "32 * i + j < count_of desc" using that c by linarith
      then show ?thesis using True by simp
    qed
    then have "\<not> (\<exists>i< ?n. words i \<noteq> 0)" using nz by blast
    then have "get_first_free_index desc m = None" using loop by (simp only: if_False)
    then show ?thesis using True by simp
  next
    case False
    then obtain k0 where k0: "k0 < count_of desc" "k0 \<notin> U" using D(7) by auto
    define k where "k = (LEAST k. k \<notin> U)"
    have kU: "k \<notin> U" and kmin: "\<And>l. l \<notin> U \<Longrightarrow> k \<le> l"
      unfolding k_def using LeastI [of "\<lambda>k. k \<notin> U" k0] k0 by (auto intro: Least_le)
    have kc: "k < 32 * ?n" using kmin [OF k0(2)] k0 c by simp
    then have kn: "k div 32 < ?n" by simp
    have w: "words (k div 32) \<noteq> 0" using nz [OF kn] kU by (auto intro: exI [of _ "k mod 32"])
    have i: "(LEAST i. i < ?n \<and> words i \<noteq> 0) = k div 32"
    proof (rule Least_equality)
      show "k div 32 \<le> i" if i: "i < ?n \<and> words i \<noteq> 0" for i
      proof -
        obtain j where "j < 32" "32 * i + j \<notin> U" using nz i by blast
        then show ?thesis using kmin [of "32 * i + j"] by simp
      qed
    qed (use kn w in simp)
    have j: "(LEAST j. bit (words (k div 32)) j) = k mod 32"
    proof (rule Least_equality)
      show "bit (words (k div 32)) (k mod 32)" using wbit [OF kn, of "k mod 32"] kU by simp
      show "k mod 32 \<le> j" if "bit (words (k div 32)) j" for j
      proof -
        have "j < 32" using bit_imp_le_length [OF that] by simp
        then have "32 * (k div 32) + j \<notin> U" using wbit kn that by blast
        from kmin [OF this] show ?thesis using mult_div_mod_eq [of 32 k] by linarith
      qed
    qed
    show ?thesis using loop False kn w unfolding i j Let_def k_def [symmetric]
      by (auto simp: words_def i [unfolded words_def] j [unfolded words_def])
  qed
qed

lemma set_bitmap_word:
  assumes ok: "umalloc_ok desc m U" and k: "k < count_of desc" and l: "l < count_of desc"
    and v: "\<And>j. j < 32 \<Longrightarrow> j \<noteq> k mod 32 \<Longrightarrow> bit v j = bit (load32 m (word_of desc k)) j"
  shows "free_bit desc (store32 m (word_of desc k) v) l \<longleftrightarrow> (if l = k then bit v (k mod 32) else free_bit desc m l)"
proof (cases "l div 32 = k div 32")
  case True
  then have "l = k" if "l mod 32 = k mod 32" using that by (metis div_mult_mod_eq)
  then show ?thesis using True v [of "l mod 32"] by (auto simp: free_bit_def)
next
  case False
  have "word_at (word_of desc k) \<inter> word_at (word_of desc l) = {}"
    using False k l okD(1) [OF ok] by (intro bitmap_words_apart [OF ok]) auto
  then show ?thesis using False by (auto simp: free_bit_def load32_store32_other)
qed


section \<open>Allocation and deallocation\<close>

definition blk_words :: "umalloc_desc \<Rightarrow> u32 set" where
  "blk_words desc = span (unat (bitmap desc)) (unat (bitmap desc) + count_of desc div 8)"

lemma word_of_in:
  assumes "umalloc_ok desc m U" "k < count_of desc"
  shows "word_at (word_of desc k) \<subseteq> blk_words desc"
proof -
  have "word_of desc k = W (unat (bitmap desc) + 4 * (k div 32))" by simp
  moreover have "4 * (k div 32) + 4 \<le> count_of desc div 8"
  proof -
    obtain n where n: "count_of desc = 32 * n" using okD(1) [OF assms(1)] by auto
    then have "k div 32 < n" using assms(2) by simp
    then show ?thesis using n by simp
  qed
  ultimately show ?thesis unfolding blk_words_def by (simp only: word_at_span) (intro span_mono; simp)
qed

lemma index_addr:
  assumes "umalloc_ok desc m U" "k < count_of desc"
  shows "index_to_addr desc (W k) = W (blk_addr desc k)" "blk_addr desc k + unat (blk_size desc) \<le> unat (bitmap desc)"
proof -
  show "index_to_addr desc (W k) = W (blk_addr desc k)" by (simp add: index_to_addr_def)
  have "unat (blk_size desc) * Suc k \<le> unat (blk_size desc) * count_of desc" using assms(2) by (intro mult_le_mono) auto
  then show "blk_addr desc k + unat (blk_size desc) \<le> unat (bitmap desc)"
    using okD(4) [OF assms(1)] by (simp add: mult.commute)
qed

lemma umalloc_exhausted:
  assumes "umalloc_ok desc m {..<count_of desc}"
  shows "umalloc desc m = Inl (Panic ''ups'')"
  using first_free_index [OF assms] by (simp add: umalloc_def)

text \<open>
  \<^bold>\<open>Fixed-size allocation (C7).\<close> \<^verbatim>\<open>umalloc\<close> returns the first block that is not in use, marks it used and writes nothing but the
  bitmap.
\<close>

theorem umalloc_correct:
  assumes ok: "umalloc_ok desc m U" and free: "U \<noteq> {..<count_of desc}"
  defines "k \<equiv> LEAST k. k \<notin> U"
  shows "\<exists>desc' m'. umalloc desc m = Inr (W (blk_addr desc k), desc', m') \<and> k < count_of desc
    \<and> desc' = desc\<lparr>used_blocks := used_blocks desc + 1\<rparr> \<and> umalloc_ok desc' m' (insert k U)
    \<and> only_in (blk_words desc) m m'"
proof -
  note D = okD [OF ok]
  obtain k0 where k0: "k0 < count_of desc" "k0 \<notin> U" using D(7) free by auto
  have kU: "k \<notin> U" and "k \<le> k0"
    unfolding k_def using LeastI [of "\<lambda>k. k \<notin> U" k0] Least_le [of "\<lambda>k. k \<notin> U" k0] k0 by auto
  then have kc: "k < count_of desc" using k0 by simp
  let ?v = "load32 m (word_of desc k) AND NOT (bit_mask (k mod 32))"
  let ?m = "store32 m (word_of desc k) ?v" and ?d = "desc\<lparr>used_blocks := used_blocks desc + 1\<rparr>"
  have "umalloc desc m = Inr (W (blk_addr desc k), ?d, ?m)"
    using first_free_index [OF ok] free index_addr(1) [OF ok kc] by (simp add: umalloc_def k_def Let_def)
  moreover have "umalloc_ok ?d ?m (insert k U)"
  proof -
    have "free_bit ?d ?m l \<longleftrightarrow> l \<notin> insert k U" if l: "l < count_of desc" for l
      using set_bitmap_word [OF ok kc l, of ?v] D(6) [OF l]
      by (auto simp: bit_and_iff bit_not_iff bit_bit_mask free_bit_def)
    moreover have "unat (used_blocks desc + 1) = card (insert k U)"
    proof -
      have fin: "finite U" using D(7) finite_subset by blast
      have "card U < count_of desc" using D(7) kU kc by (metis card_lessThan finite_lessThan lessThan_iff psubset_card_mono psubsetI)
      then have "unat (used_blocks desc + 1) = card U + 1"
        using D(8) unat_u32_less [of "blk_count desc"] by (simp add: unat_plus_if')
      then show ?thesis using fin kU by simp
    qed
    ultimately show ?thesis using D kc by (simp add: umalloc_ok_def Let_def)
  qed
  moreover have "only_in (blk_words desc) m ?m"
    using word_of_in [OF ok kc] unfolding only_in_def by (meson store32_outside subsetD)
  ultimately show ?thesis using kc by blast
qed

lemma addr_to_index_eq:
  assumes ok: "umalloc_ok desc m U"
  shows "addr_to_index desc ptr = Some i \<longleftrightarrow> (\<exists>k<count_of desc. i = W k \<and> ptr = W (blk_addr desc k))"
proof
  note D = okD [OF ok]
  let ?s = "unat (blk_size desc)" and ?a = "unat (arena desc)"
  assume "addr_to_index desc ptr = Some i"
  then have r: "arena desc \<le> ptr" "ptr < bitmap desc" "(ptr - arena desc) mod blk_size desc = 0"
    "i = (ptr - arena desc) div blk_size desc"
    by (auto simp: addr_to_index_def Let_def not_less not_le split: if_splits)
  define off where "off = unat ptr - ?a"
  have off: "unat (ptr - arena desc) = off" using r(1) by (simp add: off_def unat_sub word_le_nat_alt)
  have "off mod ?s = 0" using r(3) off by (metis unat_0 unat_mod)
  then have "off = ?s * (off div ?s)" by auto
  moreover have "off < count_of desc * ?s"
    using r(1,2) D(4) by (simp add: off_def word_less_nat_alt word_le_nat_alt)
  moreover have "off div ?s < count_of desc" using \<open>off < _\<close> by (simp add: less_mult_imp_div_less)
  moreover have "i = W (off div ?s)" using r(4) off by (metis W_unat unat_div)
  moreover have "ptr = W (?a + off)" using r(1) by (simp add: off_def word_le_nat_alt)
  ultimately show "\<exists>k<count_of desc. i = W k \<and> ptr = W (blk_addr desc k)" by metis
next
  note D = okD [OF ok]
  let ?s = "unat (blk_size desc)" and ?a = "unat (arena desc)"
  assume "\<exists>k<count_of desc. i = W k \<and> ptr = W (blk_addr desc k)"
  then obtain k where k: "k < count_of desc" "i = W k" "ptr = W (blk_addr desc k)" by blast
  have lim: "blk_addr desc k + ?s \<le> unat (bitmap desc)" using index_addr(2) [OF ok k(1)] .
  then have "blk_addr desc k < 2 ^ 32" using D(2) unat_u32_less [of "bitmap desc"] by linarith
  then have "unat ptr = blk_addr desc k" unfolding k(3) by (rule unat_W)
  moreover have "ptr - arena desc = W (?s * k)" using k(3) by simp
  moreover have "?s * k < 2 ^ 32" using lim unat_u32_less [of "bitmap desc"] by simp
  then have "unat (W (?s * k)) = ?s * k" by (rule unat_W)
  then have "unat (W (?s * k) mod blk_size desc) = 0" "unat (W (?s * k) div blk_size desc) = k"
    using D(2) by (simp_all add: unat_mod unat_div)
  then have "W (?s * k) mod blk_size desc = 0" "W (?s * k) div blk_size desc = W k"
    by (simp_all add: unat_eqD unat_0_iff)
  ultimately show "addr_to_index desc ptr = Some i"
    using k(2) lim D(2) by (simp add: addr_to_index_def Let_def word_less_nat_alt word_le_nat_alt)
qed


text \<open>
  \<^bold>\<open>Fixed-size free (C8).\<close> \<^verbatim>\<open>ufree\<close> returns exactly for the addresses of blocks in use; for any other pointer (outside the
  arena, inside a block, or freed before) it panics.
\<close>

theorem ufree_correct:
  assumes ok: "umalloc_ok desc m U"
  shows "(\<exists>k\<in>U. ptr = W (blk_addr desc k) \<and>
      (\<exists>desc' m'. ufree desc ptr m = Inr (desc', m') \<and> umalloc_ok desc' m' (U - {k})
         \<and> only_in (blk_words desc) m m'))
    \<or> (\<forall>k\<in>U. ptr \<noteq> W (blk_addr desc k)) \<and> ufree desc ptr m = Inl (Panic ''bfree failed'')"
proof (cases "addr_to_index desc ptr")
  case None
  then have "\<forall>k\<in>U. ptr \<noteq> W (blk_addr desc k)"
  proof (intro ballI notI)
    fix k assume "k \<in> U" "ptr = W (blk_addr desc k)"
    then have "addr_to_index desc ptr = Some (W k)" using addr_to_index_eq [OF ok] okD(7) [OF ok] by blast
    then show False using None by simp
  qed
  then show ?thesis using None by (simp add: ufree_def)
next
  case (Some i)
  note D = okD [OF ok]
  obtain k where k: "k < count_of desc" "i = W k" "ptr = W (blk_addr desc k)"
    using Some addr_to_index_eq [OF ok] by blast
  have k32: "k < 2 ^ 32" using k(1) unat_u32_less [of "blk_count desc"] by simp
  have wrd: "bitmap_word desc i = word_of desc k" and md: "unat (i mod 32) = k mod 32"
  proof -
    have "unat i = k" using k(2) k32 by simp
    then show "unat (i mod 32) = k mod 32" by (simp add: unat_mod)
    have "i div 32 = W (k div 32)" using \<open>unat i = k\<close> by (intro unat_eqD) (simp add: unat_div)
    then show "bitmap_word desc i = word_of desc k" by (simp add: bitmap_word_def)
  qed
  have val: "get_bitmap_value desc i m = 1 \<longleftrightarrow> k \<notin> U"
    using D(6) [OF k(1)] by (auto simp: get_bitmap_value_def wrd md bit_mask_and free_bit_def)
  have only_k: "l = k" if "l \<in> U" "ptr = W (blk_addr desc l)" for l
  proof -
    have l: "l < count_of desc" using that D(7) by auto
    then have "addr_to_index desc ptr = Some (W l)" using addr_to_index_eq [OF ok] that(2) by blast
    then have "W l = W k" using Some k(2) by simp
    then show ?thesis using W_eq_iff [of l k] l k32 unat_u32_less [of "blk_count desc"] by simp
  qed
  show ?thesis
  proof (cases "k \<in> U")
    case False
    then show ?thesis using Some val only_k by (auto simp: ufree_def)
  next
    case True
    let ?v = "load32 m (word_of desc k) OR bit_mask (k mod 32)"
    let ?m = "store32 m (word_of desc k) ?v" and ?d = "desc\<lparr>used_blocks := used_blocks desc - 1\<rparr>"
    have fin: "finite U" using D(7) finite_subset by blast
    have pos: "0 < card U" using True fin by (auto simp: card_gt_0_iff)
    then have "used_blocks desc \<noteq> 0" using D(8) by auto
    then have "ufree desc ptr m = Inr (?d, ?m)"
      using Some val True by (simp add: ufree_def Let_def clear_bit_in_bitmap_def wrd md)
    moreover have "umalloc_ok ?d ?m (U - {k})"
    proof -
      have "free_bit ?d ?m l \<longleftrightarrow> l \<notin> U - {k}" if l: "l < count_of desc" for l
        using set_bitmap_word [OF ok k(1) l, of ?v] D(6) [OF l]
        by (auto simp: bit_or_iff bit_bit_mask free_bit_def)
      moreover have "unat (used_blocks desc - 1) = card (U - {k})"
        using D(8) pos True fin \<open>used_blocks desc \<noteq> 0\<close> by (simp add: unat_minus_one)
      ultimately show ?thesis using D by (auto simp: umalloc_ok_def Let_def)
    qed
    moreover have "only_in (blk_words desc) m ?m"
      using word_of_in [OF ok k(1)] unfolding only_in_def by (meson store32_outside subsetD)
    ultimately show ?thesis using True k(3) by blast
  qed
qed

text \<open>Blocks in use never overlap, and never reach the bitmap.\<close>

lemma blocks_apart:
  assumes "umalloc_ok desc m U" "k < l" "l < count_of desc"
  shows "blk_addr desc k + unat (blk_size desc) \<le> blk_addr desc l"
proof -
  have "unat (blk_size desc) * Suc k \<le> unat (blk_size desc) * l" using assms(2) by (intro mult_le_mono) auto
  then show ?thesis by simp
qed


section \<open>Creation\<close>

text \<open>The number of blocks a request is rounded to; always at least one more than asked for.\<close>

definition rounded_count :: "u32 \<Rightarrow> nat" where
  "rounded_count count0 = (unat count0 + 32) div 32 * 32"

lemma rounded_count_unat:
  assumes "unat count0 + 32 < 2 ^ 32"
  shows "unat ((count0 + 32) AND NOT (32 - 1)) = rounded_count count0"
proof -
  have "unat ((count0 + 32) AND NOT (mask 5)) = unat (count0 + 32) - unat (count0 + 32) mod 2 ^ 5"
    by (rule unat_and_not_mask)
  moreover have "(32 - 1 :: u32) = mask 5" by (simp add: mask_eq_exp_minus_1)
  moreover have "unat (count0 + 32) = unat count0 + 32" using assms by (simp add: unat_plus_if')
  moreover have "unat count0 + 32 - (unat count0 + 32) mod 2 ^ 5 = (unat count0 + 32) div 2 ^ 5 * 2 ^ 5"
    by (rule minus_mod_eq_div_mult)
  ultimately show ?thesis unfolding rounded_count_def by (simp only:) simp
qed

lemma load32_all_ones:
  assumes "\<forall>x\<in>word_at a. m x = 0xFF"
  shows "load32 m a = 0xFFFFFFFF"
proof -
  have "m a = 0xFF" "m (a + 1) = 0xFF" "m (a + 2) = 0xFF" "m (a + 3) = 0xFF"
    using assms by (simp_all add: word_at_def)
  then show ?thesis by (simp add: load32_def le32_def)
qed

lemma all_ones_bit: "j < 32 \<Longrightarrow> bit (0xFFFFFFFF :: u32) j"
proof -
  have "(0xFFFFFFFF :: u32) = mask 32" by (simp add: mask_eq_exp_minus_1)
  then show "j < 32 \<Longrightarrow> bit (0xFFFFFFFF :: u32) j" by (simp only: bit_mask_iff) simp
qed

text \<open>
  \<^bold>\<open>Making an allocator (C9).\<close> \<^verbatim>\<open>umalloc_new\<close> panics for lack of memory or returns a descriptor
  whose blocks are all free, with an arena and a bitmap that no other holder of memory shares.
\<close>

theorem umalloc_new_correct:
  assumes holds: "mm_holds bank st P" and s: "0 < block_size'" and count: "unat count0 + 32 < 2 ^ 32"
    and total: "rounded_count count0 * unat block_size' + rounded_count count0 div 8 < 2 ^ 31"
  shows "umalloc_new block_size' count0 bank st = Inl (Panic ''palloc failed'')
    \<or> (\<exists>desc st'. umalloc_new block_size' count0 bank st = Inr (desc, st')
         \<and> umalloc_ok desc (mm_mem st') {} \<and> blk_size desc = block_size'
         \<and> unat (blk_count desc) = rounded_count count0
         \<and> grants bank P st (rounded_count count0 * unat block_size' + rounded_count count0 div 8)
             (arena desc) st')"
proof -
  let ?c = "rounded_count count0" and ?s = "unat block_size'"
  let ?T = "?c * ?s + ?c div 8"
  define cw where "cw = (count0 + 32) AND NOT (32 - 1 :: u32)"
  have cw: "unat cw = ?c" using rounded_count_unat [OF count] by (simp add: cw_def)
  have c32: "?c mod 32 = 0" by (simp add: rounded_count_def)
  then have "?c mod 8 = 0" by presburger
  then have bm: "unat (cw div 8 + (if cw mod 8 \<noteq> 0 then 1 else 0)) = ?c div 8"
    using cw by (auto simp: unat_div unat_mod simp flip: unat_0_iff)
  have ar: "unat (cw * block_size') = ?c * ?s"
    using total cw by (subst unat_mult_lem [THEN iffD1]) auto
  define bmw where "bmw = cw div 8 + (if cw mod 8 \<noteq> 0 then 1 else 0)"
  have sum: "unat (cw * block_size' + bmw) = ?T"
    using total ar bm by (simp add: bmw_def [symmetric] unat_plus_if')
  define pages where "pages = umalloc_pages (cw * block_size') bmw"
  define p where "p = ?T div 512 + (if ?T mod 512 \<noteq> 0 then 1 else 0)"
  have "unat (cw * block_size' + bmw) div 512 < 2 ^ 32 - 1" using sum total by simp
  then have pages: "unat pages = p"
    using sum by (auto simp: pages_def umalloc_pages_def p_def unat_plus_if' unat_div unat_mod simp flip: unat_0_iff)
  have pT: "?T \<le> 512 * p" "p \<le> 2 ^ 22"
    using total by (auto simp: p_def)
  have fits: "mm_fits (pages * 512)" "unat (pages * 512) = 512 * p"
    using page_fits [of pages] pages pT(2) by auto
  have new: "umalloc_new block_size' count0 bank st = rbind (pmalloc pages bank st) (\<lambda>(ptr, st').
      if ptr = 0 then Inl (Panic ''Can not make ualloc'')
      else Inr (\<lparr>arena = ptr, bitmap = ptr + cw * block_size', blk_size = block_size',
                 blk_count = cw, used_blocks = 0\<rparr>, fill_mm ptr 0xFF (pages * 512) st'))"
    unfolding umalloc_new_def Let_def pages_def bmw_def cw_def by (rule refl)
  obtain ptr st1 where a: "mm_alloc (pages * 512) bank st = Inr (ptr, st1)"
    using mm.alloc_law [OF holds fits(1)] by auto
  show ?thesis
  proof (cases "ptr = 0")
    case True
    then show ?thesis using new a by (simp add: pmalloc_def or_panic_def)
  next
    case False
    let ?st = "fill_mm ptr 0xFF (pages * 512) st1"
    let ?d = "\<lparr>arena = ptr, bitmap = ptr + cw * block_size', blk_size = block_size',
                 blk_count = cw, used_blocks = 0\<rparr>"
    have ret: "umalloc_new block_size' count0 bank st = Inr (?d, ?st)"
      using new a False by (simp add: pmalloc_def or_panic_def)
    have g: "grants bank P st (512 * p) ptr ?st" "\<forall>k < pages * 512. mm_mem ?st (ptr + k) = 0xFF"
      using fill_grants [OF holds fits(1) a False, where v = "0xFF"] fits(2) by auto
    then obtain b where b: "ptr = W (fst b)" "512 * p \<le> snd b" "mm_holds bank ?st (b # P)"
      by (auto simp: grants_def)
    have lim: "fst b + snd b \<le> 2 ^ 32" using mm.bounds_law [OF b(3), of b] by simp
    have cpos: "32 \<le> ?c" by (simp add: rounded_count_def)
    have fb: "fst b + ?T \<le> 2 ^ 32" "unat ptr = fst b" using lim b(1,2) pT(1) cpos by auto
    have bmp: "unat (ptr + cw * block_size') = fst b + ?c * ?s"
    proof -
      have "4 \<le> ?c div 8" using cpos by simp
      then have "unat ptr + unat (cw * block_size') < 2 ^ 32" using fb ar by linarith
      then show ?thesis using fb(2) ar by (simp add: unat_plus_if')
    qed
    have ok: "umalloc_ok ?d (mm_mem ?st) {}"
    proof -
      have "free_bit ?d (mm_mem ?st) k" if k: "k < ?c" for k
      proof -
        have "mm_mem ?st x = 0xFF" if x: "x \<in> word_at (word_of ?d k)" for x
        proof -
          have "x \<in> span (fst b + ?c * ?s + 4 * (k div 32)) (fst b + ?c * ?s + 4 * (k div 32) + 4)"
          proof -
            have "ptr + cw * block_size' = W (fst b + ?c * ?s)" using bmp by (rule unat_eqD)
            then have "word_of ?d k = W (fst b + ?c * ?s + 4 * (k div 32))" by simp
            then show ?thesis using x by (simp only: word_at_span)
          qed
          then obtain y where y: "x = W y" "fst b \<le> y" "y < fst b + ?c * ?s + 4 * (k div 32) + 4"
            by (auto simp: span_def)
          have "4 * (k div 32) + 4 \<le> ?c div 8"
          proof -
            obtain n where n: "?c = 32 * n" using c32 by auto
            then have "k div 32 < n" using k by simp
            then show ?thesis using n by simp
          qed
          then have "y - fst b < 512 * p" using y pT(1) by simp
          moreover have "x = ptr + W (y - fst b)" using y(1,2) b(1) by simp
          moreover have "W (y - fst b) < pages * 512"
            using calculation(1) fits(2) lim b(2) by (subst word_less_nat_alt) simp
          ultimately show ?thesis using g(2) by metis
        qed
        then have "load32 (mm_mem ?st) (word_of ?d k) = 0xFFFFFFFF" by (intro load32_all_ones) blast
        then show ?thesis unfolding free_bit_def using all_ones_bit [of "k mod 32"] by simp
      qed
      moreover have "0 < unat block_size'" using s by (simp add: word_less_nat_alt)
      moreover have "0 < fst b" using False fb(2) by (metis gr0I unat_0_iff)
      ultimately show ?thesis using c32 cw fb bmp by (simp add: umalloc_ok_def Let_def)
    qed
    have "grants bank P st ?T ptr ?st" using grants_mono [OF g(1) pT(1)] .
    then show ?thesis using ret ok cw by auto
  qed
qed

section \<open>Concrete instances\<close>

definition demo_desc :: umalloc_desc where
  "demo_desc = \<lparr>arena = 0x20400108, bitmap = 0x20400208, blk_size = 8, blk_count = 32, used_blocks = 0\<rparr>"

lemma demo_desc_ok: "umalloc_ok demo_desc (\<lambda>_. 0xFF) {}"
proof -
  have "load32 (\<lambda>_. 0xFF) a = 0xFFFFFFFF" for a by (simp add: load32_def le32_def)
  then show ?thesis
    using all_ones_bit by (auto simp: umalloc_ok_def demo_desc_def free_bit_def Let_def)
qed

theorem umalloc_correct_witness:
  "\<exists>desc' m'. umalloc demo_desc (\<lambda>_. 0xFF) = Inr (0x20400108, desc', m') \<and> umalloc_ok desc' m' {0}"
proof -
  have "{} \<noteq> {..<count_of demo_desc}" by (auto simp: demo_desc_def set_eq_iff intro: exI [of _ 0])
  from umalloc_correct [OF demo_desc_ok this] show ?thesis by (auto simp: demo_desc_def)
qed

theorem ufree_correct_witness: "ufree demo_desc 0x20400110 (\<lambda>_. 0xFF) = Inl (Panic ''bfree failed'')"
  using ufree_correct [OF demo_desc_ok] by simp

theorem umalloc_new_correct_witness:
  "umalloc_new 8 100 0 demo_boot = Inl (Panic ''palloc failed'')
    \<or> (\<exists>desc st'. umalloc_new 8 100 0 demo_boot = Inr (desc, st') \<and> umalloc_ok desc (mm_mem st') {})"
  using umalloc_new_correct [OF demo_holds, of 8 100] by (auto simp: rounded_count_def)

end
