(* ===== verification/DList_Heap.thy ===== *)
theory DList_Heap
  imports Kernel_Prelude
begin

text \<open>
  The generic doubly linked list of \<^verbatim>\<open>kernel/dlist.c\<close>. The nodes live in a heap from node
  pointers to \<^verbatim>\<open>struct dlist_node\<close> values; the null pointer is \<^const>\<open>None\<close>. A node heap is
  shared by all lists of the kernel, so the operations take the heap and one \<^verbatim>\<open>struct dlist\<close>
  and return both. \<open>dlist_rep h l xs\<close> says that the heap \<open>h\<close> links the list \<open>l\<close> to exactly the
  nodes \<open>xs\<close>; the refinement lemmas show that each operation computes the corresponding
  operation on \<open>xs\<close> and touches no node outside the list.
\<close>

section \<open>Data (dlist.h)\<close>

record ('p, 'o) dlist_node =
  nd_prev :: "'p option"
  nd_next :: "'p option"
  nd_obj :: "'o option"

record 'p dlist =
  dl_first :: "'p option"
  dl_last :: "'p option"
  dl_size :: u32

type_synonym ('p, 'o) nheap = "'p \<Rightarrow> ('p, 'o) dlist_node"
type_synonym ('p, 'o) dstate = "('p, 'o) nheap \<times> 'p dlist"

definition set_next :: "'p \<Rightarrow> 'p option \<Rightarrow> ('p, 'o) nheap \<Rightarrow> ('p, 'o) nheap" where
  "set_next p v h = h(p := (h p)\<lparr>nd_next := v\<rparr>)"

definition set_prev :: "'p \<Rightarrow> 'p option \<Rightarrow> ('p, 'o) nheap \<Rightarrow> ('p, 'o) nheap" where
  "set_prev p v h = h(p := (h p)\<lparr>nd_prev := v\<rparr>)"

section \<open>Operations (dlist.c)\<close>

text \<open>The check at the start of every insertion: the node must not be in a list.\<close>

definition node_linked :: "'p \<Rightarrow> ('p, 'o) dstate \<Rightarrow> bool" where
  "node_linked node = (\<lambda>(h, l). nd_next (h node) \<noteq> None \<or> nd_prev (h node) \<noteq> None
     \<or> dl_first l = Some node)"

fun dlist_insert_first :: "'p \<Rightarrow> ('p, 'o) dstate \<Rightarrow> ('p, 'o) dstate res" where
  "dlist_insert_first node (h, l) =
     (if node_linked node (h, l) then Inl (Panic ''List error'')
      else (case dl_first l of
          Some f \<Rightarrow>
            Inr (set_prev f (Some node) (set_next node (Some f) h),
              l\<lparr>dl_first := Some node, dl_size := dl_size l + 1\<rparr>)
        | None \<Rightarrow>
            Inr (h, l\<lparr>dl_first := Some node, dl_last := Some node, dl_size := dl_size l + 1\<rparr>)))"

fun dlist_insert_last :: "'p \<Rightarrow> ('p, 'o) dstate \<Rightarrow> ('p, 'o) dstate res" where
  "dlist_insert_last node (h, l) =
     (if node_linked node (h, l) then Inl (Panic ''List error'')
      else (case dl_last l of
          Some e \<Rightarrow>
            Inr (set_next e (Some node) (set_prev node (Some e) h),
              l\<lparr>dl_last := Some node, dl_size := dl_size l + 1\<rparr>)
        | None \<Rightarrow>
            Inr (h, l\<lparr>dl_first := Some node, dl_last := Some node, dl_size := dl_size l + 1\<rparr>)))"

fun dlist_insert_after :: "'p \<Rightarrow> 'p \<Rightarrow> ('p, 'o) dstate \<Rightarrow> ('p, 'o) dstate res" where
  "dlist_insert_after i_node a_node (h, l) =
     (if node_linked i_node (h, l) then Inl (Panic ''List error'')
      else if dl_last l = Some a_node then dlist_insert_last i_node (h, l)
      else
        (let h1 = set_next i_node (nd_next (h a_node)) h
         in rbind (deref (nd_next (h1 a_node))) (\<lambda>n.
           let h2 = set_prev n (Some i_node) h1;
               h3 = set_next a_node (Some i_node) h2;
               h4 = set_prev i_node (Some a_node) h3
           in Inr (h4, l\<lparr>dl_size := dl_size l + 1\<rparr>))))"

fun dlist_insert_before :: "'p \<Rightarrow> 'p \<Rightarrow> ('p, 'o) dstate \<Rightarrow> ('p, 'o) dstate res" where
  "dlist_insert_before i_node b_node (h, l) =
     (if node_linked i_node (h, l) then Inl (Panic ''List error'')
      else if dl_first l = Some b_node then dlist_insert_first i_node (h, l)
      else
        (let h1 = set_prev i_node (nd_prev (h b_node)) h
         in rbind (deref (nd_prev (h1 b_node))) (\<lambda>p.
           let h2 = set_next p (Some i_node) h1;
               h3 = set_next i_node (Some b_node) h2;
               h4 = set_prev b_node (Some i_node) h3
           in Inr (h4, l\<lparr>dl_size := dl_size l + 1\<rparr>))))"

fun dlist_remove_first :: "('p, 'o) dstate \<Rightarrow> ('p \<times> ('p, 'o) dstate) res" where
  "dlist_remove_first (h, l) =
     (case dl_first l of
        None \<Rightarrow> Inl (Panic ''List does not contain any elements'')
      | Some first \<Rightarrow>
          (let (h1, l1) = (case nd_next (h first) of
                 Some n \<Rightarrow> (set_prev n None h, l\<lparr>dl_first := Some n\<rparr>)
               | None \<Rightarrow> (h, l\<lparr>dl_first := None, dl_last := None\<rparr>))
           in if dl_size l1 = 0 then Inl (Panic ''List size is zero'')
              else Inr (first, set_prev first None (set_next first None h1),
                l1\<lparr>dl_size := dl_size l1 - 1\<rparr>)))"

fun dlist_remove_last :: "('p, 'o) dstate \<Rightarrow> ('p \<times> ('p, 'o) dstate) res" where
  "dlist_remove_last (h, l) =
     (case dl_last l of
        None \<Rightarrow> Inl (Panic ''List error'')
      | Some lst \<Rightarrow>
          (let (h1, l1) = (case nd_prev (h lst) of
                 Some n \<Rightarrow> (set_next n None h, l\<lparr>dl_last := Some n\<rparr>)
               | None \<Rightarrow> (h, l\<lparr>dl_last := None, dl_first := None\<rparr>))
           in if dl_size l1 = 0 then Inl (Panic ''List error'')
              else Inr (lst, set_prev lst None (set_next lst None h1),
                l1\<lparr>dl_size := dl_size l1 - 1\<rparr>)))"

fun dlist_remove :: "'p \<Rightarrow> ('p, 'o) dstate \<Rightarrow> ('p \<times> ('p, 'o) dstate) res" where
  "dlist_remove node (h, l) =
     rbind
       (if dl_first l = Some node then rbind (dlist_remove_first (h, l)) (\<lambda>(_, s). Inr s)
        else if dl_last l = Some node then rbind (dlist_remove_last (h, l)) (\<lambda>(_, s). Inr s)
        else
          rbind (deref (nd_prev (h node))) (\<lambda>p.
            let h1 = set_next p (nd_next (h node)) h
            in rbind (deref (nd_next (h1 node))) (\<lambda>n.
              let h2 = set_prev n (nd_prev (h1 node)) h1
              in if dl_size l = 0 then Inl (Panic ''List error'')
                 else Inr (h2, l\<lparr>dl_size := dl_size l - 1\<rparr>))))
       (\<lambda>(h', l'). Inr (node, set_prev node None (set_next node None h'), l'))"

text \<open>The loop of \<^verbatim>\<open>dlist_search\<close>: it follows \<^verbatim>\<open>next\<close> and does not end on a cyclic heap.\<close>

partial_function (option) search_from ::
  "('p, 'o) nheap \<Rightarrow> 'p \<Rightarrow> 'p option \<Rightarrow> u32 option" where
  "search_from h node iter =
     (case iter of
        None \<Rightarrow> Some 0
      | Some i \<Rightarrow> if i = node then Some 1 else search_from h node (nd_next (h i)))"

fun dlist_search :: "'p \<Rightarrow> ('p, 'o) dstate \<Rightarrow> u32 res" where
  "dlist_search node (h, l) = returns (search_from h node (dl_first l))"

definition dlist_init :: "'p dlist" where
  "dlist_init = \<lparr>dl_first = None, dl_last = None, dl_size = 0\<rparr>"

definition dlist_node_init :: "'p \<Rightarrow> ('p, 'o) nheap \<Rightarrow> ('p, 'o) nheap" where
  "dlist_node_init p h = h(p := \<lparr>nd_prev = None, nd_next = None, nd_obj = None\<rparr>)"

section \<open>The list a heap represents\<close>

definition head_or :: "'p list \<Rightarrow> 'p option \<Rightarrow> 'p option" where
  "head_or xs n = (case xs of [] \<Rightarrow> n | x # _ \<Rightarrow> Some x)"

definition last_or :: "'p list \<Rightarrow> 'p option \<Rightarrow> 'p option" where
  "last_or xs p = (if xs = [] then p else Some (last xs))"

lemma head_or_simps [simp]: "head_or [] n = n" "head_or (x # xs) n = Some x"
  by (simp_all add: head_or_def)

lemma last_or_simps [simp]: "last_or [] p = p" "last_or (x # xs) p = last_or xs (Some x)"
  by (simp_all add: last_or_def)

lemma head_or_append [simp]: "head_or (xs @ ys) n = head_or xs (head_or ys n)"
  by (cases xs) auto

lemma last_or_append [simp]: "last_or (xs @ ys) p = last_or ys (last_or xs p)"
  by (induction xs arbitrary: p) auto

lemma head_or_None_iff [simp]: "head_or xs None = None \<longleftrightarrow> xs = []"
  by (cases xs) auto

lemma last_or_None_iff [simp]: "last_or xs None = None \<longleftrightarrow> xs = []"
  by (simp add: last_or_def)

lemma head_or_Some_iff: "head_or xs None = Some x \<longleftrightarrow> (\<exists>ys. xs = x # ys)"
  by (cases xs) auto

lemma last_or_Some_iff: "last_or xs None = Some x \<longleftrightarrow> (\<exists>ys. xs = ys @ [x])"
  by (cases xs rule: rev_cases) auto

text \<open>A doubly linked segment whose neighbours are \<open>p\<close> on the left and \<open>n\<close> on the right.\<close>

fun dseg :: "('p, 'o) nheap \<Rightarrow> 'p option \<Rightarrow> 'p list \<Rightarrow> 'p option \<Rightarrow> bool" where
  "dseg h p [] n = True"
| "dseg h p (x # xs) n \<longleftrightarrow>
     nd_prev (h x) = p \<and> nd_next (h x) = head_or xs n \<and> dseg h (Some x) xs n"

lemma dseg_append [simp]:
  "dseg h p (xs @ ys) n \<longleftrightarrow> dseg h p xs (head_or ys n) \<and> dseg h (last_or xs p) ys n"
  by (induction xs arbitrary: p) auto

lemma dseg_cong:
  "(\<And>x. x \<in> set xs \<Longrightarrow> nd_prev (h' x) = nd_prev (h x) \<and> nd_next (h' x) = nd_next (h x)) \<Longrightarrow>
   dseg h' p xs n = dseg h p xs n"
  by (induction xs arbitrary: p) auto

definition dlist_rep :: "('p, 'o) nheap \<Rightarrow> 'p dlist \<Rightarrow> 'p list \<Rightarrow> bool" where
  "dlist_rep h l xs \<longleftrightarrow> dseg h None xs None \<and> distinct xs \<and> length xs < 2 ^ 32
     \<and> dl_first l = head_or xs None \<and> dl_last l = last_or xs None
     \<and> dl_size l = of_nat (length xs)"

text \<open>A node outside every list: both links are null, as \<^verbatim>\<open>dlist.h\<close> demands.\<close>

definition unlinked :: "('p, 'o) nheap \<Rightarrow> 'p \<Rightarrow> bool" where
  "unlinked h p \<longleftrightarrow> nd_prev (h p) = None \<and> nd_next (h p) = None"

lemma link_upd_simps [simp]:
  "nd_next (set_next p v h q) = (if q = p then v else nd_next (h q))"
  "nd_prev (set_next p v h q) = nd_prev (h q)"
  "nd_obj (set_next p v h q) = nd_obj (h q)"
  "nd_prev (set_prev p v h q) = (if q = p then v else nd_prev (h q))"
  "nd_next (set_prev p v h q) = nd_next (h q)"
  "nd_obj (set_prev p v h q) = nd_obj (h q)"
  by (auto simp: set_next_def set_prev_def)

lemma link_upd_outside [simp]:
  "q \<noteq> p \<Longrightarrow> set_next p v h q = h q" "q \<noteq> p \<Longrightarrow> set_prev p v h q = h q"
  by (auto simp: set_next_def set_prev_def)

lemma dseg_upd_outside [simp]:
  "q \<notin> set xs \<Longrightarrow> dseg (set_next q v h) p xs n = dseg h p xs n"
  "q \<notin> set xs \<Longrightarrow> dseg (set_prev q v h) p xs n = dseg h p xs n"
  by (rule dseg_cong; auto)+

text \<open>
  What every operation promises: it returns, the new heap represents \<open>xs'\<close>, nodes outside \<open>S\<close>
  are untouched, and no \<^verbatim>\<open>obj\<close> field changes.
\<close>

definition dl_post :: "('p, 'o) nheap \<Rightarrow> 'p set \<Rightarrow> 'p list \<Rightarrow> ('p, 'o) dstate \<Rightarrow> bool" where
  "dl_post h S xs' = (\<lambda>(h', l'). dlist_rep h' l' xs' \<and> (\<forall>p. p \<notin> S \<longrightarrow> h' p = h p)
     \<and> (\<forall>p. nd_obj (h' p) = nd_obj (h p)))"

definition dl_yields :: "('p, 'o) dstate res \<Rightarrow> ('p, 'o) nheap \<Rightarrow> 'p set \<Rightarrow> 'p list \<Rightarrow> bool" where
  "dl_yields r h S xs' \<longleftrightarrow> (\<exists>s. r = Inr s \<and> dl_post h S xs' s)"

lemma dl_yields_simps [simp]:
  "dl_yields (Inr s) h S xs' = dl_post h S xs' s" "dl_yields (Inl e) h S xs' = False"
  by (auto simp: dl_yields_def)

lemma of_nat_size_0: "n < 2 ^ 32 \<Longrightarrow> (of_nat n :: u32) = 0 \<longleftrightarrow> n = 0"
  by (auto simp: word_of_nat_eq_0_iff dest: nat_dvd_not_less)

section \<open>Each operation computes its list operation\<close>

lemma dlist_init_rep: "dlist_rep h dlist_init []"
  by (simp add: dlist_rep_def dlist_init_def)

lemma dlist_rep_frame:
  assumes "dlist_rep h l xs" "\<And>x. x \<in> set xs \<Longrightarrow> h' x = h x"
  shows "dlist_rep h' l xs"
  using assms dseg_cong [of xs h' h None None] by (auto simp: dlist_rep_def)

lemma not_linked:
  "dlist_rep h l xs \<Longrightarrow> unlinked h node \<Longrightarrow> node \<notin> set xs \<Longrightarrow> \<not> node_linked node (h, l)"
  by (auto simp: node_linked_def unlinked_def dlist_rep_def head_or_Some_iff)

lemmas dl_defs = dl_post_def dlist_rep_def unlinked_def

lemma insert_first_yields:
  assumes "dlist_rep h l xs" "unlinked h node" "node \<notin> set xs" "Suc (length xs) < 2 ^ 32"
  shows "dl_yields (dlist_insert_first node (h, l)) h (insert node (set xs)) (node # xs)"
  using assms not_linked [OF assms(1-3)] by (cases xs) (auto simp: dl_defs)

lemma insert_last_yields:
  assumes "dlist_rep h l xs" "unlinked h node" "node \<notin> set xs" "Suc (length xs) < 2 ^ 32"
  shows "dl_yields (dlist_insert_last node (h, l)) h (insert node (set xs)) (xs @ [node])"
  using assms not_linked [OF assms(1-3)] by (cases xs rule: rev_cases) (auto simp: dl_defs)

lemma insert_after_yields:
  assumes "dlist_rep h l (xs @ a # ys)" "unlinked h node" "node \<notin> set (xs @ a # ys)"
    "Suc (length (xs @ a # ys)) < 2 ^ 32"
  shows "dl_yields (dlist_insert_after node a (h, l)) h (insert node (set (xs @ a # ys)))
    (xs @ a # node # ys)"
proof (cases ys)
  case Nil
  have "dl_last l = Some a" using assms(1) Nil by (simp add: dlist_rep_def)
  with insert_last_yields [OF assms] not_linked [OF assms(1-3)] Nil show ?thesis by simp
next
  case (Cons y zs)
  have "dl_last l \<noteq> Some a"
    using assms(1) Cons by (auto simp: dlist_rep_def last_or_def split: if_splits)
  with assms Cons not_linked [OF assms(1-3)] show ?thesis by (auto simp: dl_defs)
qed

lemma insert_before_yields:
  assumes "dlist_rep h l (xs @ b # ys)" "unlinked h node" "node \<notin> set (xs @ b # ys)"
    "Suc (length (xs @ b # ys)) < 2 ^ 32"
  shows "dl_yields (dlist_insert_before node b (h, l)) h (insert node (set (xs @ b # ys)))
    (xs @ node # b # ys)"
proof (cases xs rule: rev_cases)
  case Nil
  have "dl_first l = Some b" using assms(1) Nil by (simp add: dlist_rep_def)
  with insert_first_yields [OF assms] not_linked [OF assms(1-3)] Nil show ?thesis by simp
next
  case (snoc zs z)
  have "dl_first l \<noteq> Some b"
    using assms(1) snoc by (cases zs) (auto simp: dlist_rep_def)
  with assms snoc not_linked [OF assms(1-3)] show ?thesis by (auto simp: dl_defs)
qed

text \<open>A removal returns the removed node, which is unlinked afterwards.\<close>

definition dl_removes ::
  "('p \<times> ('p, 'o) dstate) res \<Rightarrow> ('p, 'o) nheap \<Rightarrow> 'p set \<Rightarrow> 'p \<Rightarrow> 'p list \<Rightarrow> bool" where
  "dl_removes r h S x xs' \<longleftrightarrow> (\<exists>s. r = Inr (x, s) \<and> dl_post h S xs' s \<and> unlinked (fst s) x)"

lemma dl_removes_simps [simp]:
  "dl_removes (Inr (y, s)) h S x xs' \<longleftrightarrow> y = x \<and> dl_post h S xs' s \<and> unlinked (fst s) x"
  "dl_removes (Inl e) h S x xs' = False"
  by (auto simp: dl_removes_def)

lemma size_not_0: "dlist_rep h l xs \<Longrightarrow> xs \<noteq> [] \<Longrightarrow> dl_size l \<noteq> 0"
  by (auto simp: dlist_rep_def of_nat_size_0)

lemma remove_first_removes:
  assumes "dlist_rep h l (x # xs)"
  shows "dl_removes (dlist_remove_first (h, l)) h (set (x # xs)) x xs"
  using assms size_not_0 [OF assms] by (cases xs) (auto simp: dl_defs)

lemma remove_last_removes:
  assumes "dlist_rep h l (xs @ [x])"
  shows "dl_removes (dlist_remove_last (h, l)) h (set (xs @ [x])) x xs"
  using assms size_not_0 [OF assms] by (cases xs rule: rev_cases) (auto simp: dl_defs)

lemma dl_post_unlink:
  assumes "dl_post h S xs (h', l')" "unlinked h' x"
  shows "dl_post h S xs (set_prev x None (set_next x None h'), l')"
proof -
  have "set_prev x None (set_next x None h') = h'"
    using assms(2) by (auto simp: unlinked_def set_prev_def set_next_def fun_eq_iff)
  with assms(1) show ?thesis by simp
qed

lemma remove_removes:
  assumes rep: "dlist_rep h l (xs @ x # ys)"
  shows "dl_removes (dlist_remove x (h, l)) h (set (xs @ x # ys)) x (xs @ ys)"
proof (cases "xs = []")
  case True
  have first: "dl_first l = Some x" using rep True by (simp add: dlist_rep_def)
  obtain h' l' where "dlist_remove_first (h, l) = Inr (x, h', l')"
      and "dl_post h (set (x # ys)) ys (h', l')" "unlinked h' x"
    using remove_first_removes [of h l x ys] rep True by (force simp: dl_removes_def)
  with first True show ?thesis by (auto intro!: dl_post_unlink simp: unlinked_def)
next
  case nonempty: False
  have not_first: "dl_first l \<noteq> Some x"
    using rep nonempty by (cases xs) (auto simp: dlist_rep_def)
  show ?thesis
  proof (cases "ys = []")
    case True
    have last: "dl_last l = Some x" using rep True by (simp add: dlist_rep_def)
    obtain h' l' where "dlist_remove_last (h, l) = Inr (x, h', l')"
        and "dl_post h (set (xs @ [x])) xs (h', l')" "unlinked h' x"
      using remove_last_removes [of h l xs x] rep True by (force simp: dl_removes_def)
    with last not_first True show ?thesis by (auto intro!: dl_post_unlink simp: unlinked_def)
  next
    case False
    have not_last: "dl_last l \<noteq> Some x"
      using rep False by (auto simp: dlist_rep_def last_or_def split: if_splits)
    obtain zs z where xs: "xs = zs @ [z]" using nonempty by (cases xs rule: rev_cases) auto
    obtain w ws where ys: "ys = w # ws" using False by (cases ys) auto
    show ?thesis
      using rep not_first not_last size_not_0 [OF rep] unfolding xs ys by (auto simp: dl_defs)
  qed
qed

lemma search_from_seg:
  "dseg h p xs None \<Longrightarrow>
   search_from h node (head_or xs None) = Some (if node \<in> set xs then 1 else 0)"
  by (induction xs arbitrary: p) (auto simp: search_from.simps)

lemma dlist_search_correct:
  "dlist_rep h l xs \<Longrightarrow> dlist_search node (h, l) = Inr (if node \<in> set xs then 1 else 0)"
  by (auto simp: dlist_rep_def search_from_seg)

text \<open>Inserting a node that a list holds is refused, whatever list it is inserted into.\<close>

lemma linked_in_longer_list:
  assumes "dlist_rep h l xs" "x \<in> set xs" "xs \<noteq> [x]"
  shows "\<not> unlinked h x"
proof -
  obtain as bs where xs: "xs = as @ x # bs" using assms(2) by (auto simp: in_set_conv_decomp)
  with assms show ?thesis by (auto simp: dlist_rep_def unlinked_def)
qed

lemma member_linked: "dlist_rep h l xs \<Longrightarrow> x \<in> set xs \<Longrightarrow> node_linked x (h, l)"
  using linked_in_longer_list [of h l xs x]
  by (cases "xs = [x]") (auto simp: node_linked_def unlinked_def dlist_rep_def)

lemma insert_member_panics:
  assumes "dlist_rep h l xs" "x \<in> set xs"
  shows "dlist_insert_last x (h, l) = Inl (Panic ''List error'')"
    and "dlist_insert_first x (h, l) = Inl (Panic ''List error'')"
  using member_linked [OF assms] by simp_all

section \<open>The list as a first-in first-out queue\<close>

text \<open>
  The contract the run queues rely on: nodes are appended at one end and taken from the other,
  and both leave the nodes outside the queue free to be used.
\<close>

locale fifo =
  fixes rep :: "'s \<Rightarrow> 'q \<Rightarrow> 'a list \<Rightarrow> bool"
    and free :: "'s \<Rightarrow> 'a \<Rightarrow> bool"
    and enq :: "'a \<Rightarrow> 's \<times> 'q \<Rightarrow> ('s \<times> 'q) res"
    and deq :: "'s \<times> 'q \<Rightarrow> ('a \<times> 's \<times> 'q) res"
    and room :: nat
  assumes enq_law: "rep s q xs \<Longrightarrow> free s x \<Longrightarrow> x \<notin> set xs \<Longrightarrow> length xs < room \<Longrightarrow>
      \<exists>s' q'. enq x (s, q) = Inr (s', q') \<and> rep s' q' (xs @ [x])
        \<and> (\<forall>y. y \<notin> set (xs @ [x]) \<longrightarrow> free s y \<longrightarrow> free s' y)"
    and deq_law: "rep s q (x # xs) \<Longrightarrow>
      \<exists>s' q'. deq (s, q) = Inr (x, s', q') \<and> rep s' q' xs \<and> free s' x
        \<and> (\<forall>y. y \<notin> set (x # xs) \<longrightarrow> free s y \<longrightarrow> free s' y)"
    and rep_distinct: "rep s q xs \<Longrightarrow> distinct xs"
begin

lemma enq_each:
  assumes "rep s q xs" "distinct ys" "set xs \<inter> set ys = {}" "\<forall>y\<in>set ys. free s y"
    "length xs + length ys \<le> room"
  shows "\<exists>s' q'. each enq ys (s, q) = Inr (s', q') \<and> rep s' q' (xs @ ys)"
  using assms
proof (induction ys arbitrary: s q xs)
  case Nil
  then show ?case by auto
next
  case (Cons y ys)
  have "length xs < room" using Cons.prems(5) by simp
  then obtain s1 q1 where step: "enq y (s, q) = Inr (s1, q1)" "rep s1 q1 (xs @ [y])"
      and fr: "\<forall>z. z \<notin> set (xs @ [y]) \<longrightarrow> free s z \<longrightarrow> free s1 z"
    using enq_law [of s q xs y] Cons.prems by auto
  have "\<exists>s' q'. each enq ys (s1, q1) = Inr (s', q') \<and> rep s' q' ((xs @ [y]) @ ys)"
    using Cons.prems fr by (intro Cons.IH [OF step(2)]) auto
  with step(1) show ?case by auto
qed

lemma deq_drain:
  assumes "rep s q (xs @ ys)"
  shows "\<exists>s' q'. drain deq (length xs) (s, q) = Inr (xs, s', q') \<and> rep s' q' ys"
  using assms
proof (induction xs arbitrary: s q)
  case Nil
  then show ?case by auto
next
  case (Cons x xs)
  then obtain s1 q1 where step: "deq (s, q) = Inr (x, s1, q1)" "rep s1 q1 (xs @ ys)"
    using deq_law [of s q x "xs @ ys"] by auto
  from Cons.IH [OF step(2)] step(1) show ?case by auto
qed

text \<open>One round-robin step: the front element goes to the back.\<close>

lemma rotate_step:
  assumes "rep s q (x # xs)" "length xs < room"
  shows "\<exists>s' q'. rbind (deq (s, q)) (\<lambda>(y, t). enq y t) = Inr (s', q') \<and> rep s' q' (xs @ [x])"
proof -
  obtain s1 q1 where step: "deq (s, q) = Inr (x, s1, q1)" "rep s1 q1 xs" "free s1 x"
    using deq_law [OF assms(1)] by auto
  moreover have "x \<notin> set xs" using rep_distinct [OF assms(1)] by simp
  ultimately show ?thesis using enq_law [OF step(2,3)] assms(2) by auto
qed

end

interpretation dq: fifo dlist_rep unlinked dlist_insert_last dlist_remove_first "2 ^ 32 - 1"
proof unfold_locales
  fix h :: "('p, 'o) nheap" and l xs x
  assume rep: "dlist_rep h l xs" and x: "unlinked h x" "x \<notin> set xs"
    and room: "length xs < 2 ^ 32 - 1"
  then have "dl_yields (dlist_insert_last x (h, l)) h (insert x (set xs)) (xs @ [x])"
    by (intro insert_last_yields) auto
  then show "\<exists>h' l'. dlist_insert_last x (h, l) = Inr (h', l') \<and> dlist_rep h' l' (xs @ [x])
      \<and> (\<forall>y. y \<notin> set (xs @ [x]) \<longrightarrow> unlinked h y \<longrightarrow> unlinked h' y)"
    by (auto simp: dl_yields_def dl_post_def unlinked_def)
next
  fix h :: "('p, 'o) nheap" and l x xs
  assume "dlist_rep h l (x # xs)"
  then have "dl_removes (dlist_remove_first (h, l)) h (set (x # xs)) x xs"
    by (rule remove_first_removes)
  then show "\<exists>h' l'. dlist_remove_first (h, l) = Inr (x, h', l') \<and> dlist_rep h' l' xs
      \<and> unlinked h' x \<and> (\<forall>y. y \<notin> set (x # xs) \<longrightarrow> unlinked h y \<longrightarrow> unlinked h' y)"
    by (auto simp: dl_removes_def dl_post_def unlinked_def)
qed (simp add: dlist_rep_def)

end
