(* ===== verification/Circular_List.thy ===== *)
theory Circular_List
  imports DList_Heap
begin

text \<open>
  The intrusive circular list of \<^verbatim>\<open>kernel/list.h\<close>, used by the USB stack. A list is itself a
  node; an empty list points to itself in both directions and a node outside every list has
  null links. \<open>ring h l xs\<close> says that walking \<^verbatim>\<open>next\<close> from the list head \<open>l\<close> visits exactly
  \<open>xs\<close> and comes back to \<open>l\<close>, and that \<^verbatim>\<open>prev\<close> walks the same nodes backwards.
\<close>

section \<open>Data and operations (list.h)\<close>

record 'p list_node =
  ln_next :: "'p option"
  ln_prev :: "'p option"

type_synonym 'p lheap = "'p \<Rightarrow> 'p list_node"

definition lset_next :: "'p \<Rightarrow> 'p option \<Rightarrow> 'p lheap \<Rightarrow> 'p lheap" where
  "lset_next p v h = h(p := (h p)\<lparr>ln_next := v\<rparr>)"

definition lset_prev :: "'p \<Rightarrow> 'p option \<Rightarrow> 'p lheap \<Rightarrow> 'p lheap" where
  "lset_prev p v h = h(p := (h p)\<lparr>ln_prev := v\<rparr>)"

definition list_init :: "'p \<Rightarrow> 'p lheap \<Rightarrow> 'p lheap" where
  "list_init l h = lset_next l (Some l) (lset_prev l (Some l) h)"

definition list_node_init :: "'p \<Rightarrow> 'p lheap \<Rightarrow> 'p lheap" where
  "list_node_init l h = lset_prev l None (lset_next l None h)"

text \<open>\<^verbatim>\<open>_list_add\<close> and \<^verbatim>\<open>_list_delete\<close>: both neighbours are dereferenced.\<close>

definition list_link :: "'p \<Rightarrow> 'p option \<Rightarrow> 'p option \<Rightarrow> 'p lheap \<Rightarrow> 'p lheap res" where
  "list_link new prv nxt h =
     rbind (deref prv) (\<lambda>p. rbind (deref nxt) (\<lambda>n.
       let h1 = lset_next p (Some new) h;
           h2 = lset_prev n (Some new) h1;
           h3 = lset_next new nxt h2
       in Inr (lset_prev new prv h3)))"

definition list_unlink :: "'p option \<Rightarrow> 'p option \<Rightarrow> 'p lheap \<Rightarrow> 'p lheap res" where
  "list_unlink prv nxt h =
     rbind (deref prv) (\<lambda>p. rbind (deref nxt) (\<lambda>n.
       Inr (lset_prev n prv (lset_next p nxt h))))"

definition list_add_first :: "'p \<Rightarrow> 'p \<Rightarrow> 'p lheap \<Rightarrow> 'p lheap res" where
  "list_add_first new l h = list_link new (Some l) (ln_next (h l)) h"

definition list_add_last :: "'p \<Rightarrow> 'p \<Rightarrow> 'p lheap \<Rightarrow> 'p lheap res" where
  "list_add_last new l h = list_link new (ln_prev (h l)) (Some l) h"

definition list_delete_node :: "'p \<Rightarrow> 'p lheap \<Rightarrow> 'p lheap res" where
  "list_delete_node node h =
     rbind (list_unlink (ln_prev (h node)) (ln_next (h node)) h) (\<lambda>h1.
       Inr (lset_prev node None (lset_next node None h1)))"

definition list_delete_first :: "'p \<Rightarrow> 'p lheap \<Rightarrow> 'p lheap res" where
  "list_delete_first l h =
     (if ln_next (h l) = Some l then Inr h
      else rbind (deref (ln_next (h l))) (\<lambda>n. list_delete_node n h))"

definition list_delete_last :: "'p \<Rightarrow> 'p lheap \<Rightarrow> 'p lheap res" where
  "list_delete_last l h =
     (if ln_next (h l) = Some l then Inr h
      else rbind (deref (ln_prev (h l))) (\<lambda>n. list_delete_node n h))"

definition list_is_empty :: "'p \<Rightarrow> 'p lheap \<Rightarrow> u8" where
  "list_is_empty l h = (if ln_next (h l) = Some l then 1 else 0)"

text \<open>\<^verbatim>\<open>list_get_size\<close>: the loop of \<^verbatim>\<open>list_iterate\<close>, which ends only on a ring.\<close>

partial_function (option) count_from :: "'p lheap \<Rightarrow> 'p \<Rightarrow> 'p option \<Rightarrow> u32 \<Rightarrow> u32 res option" where
  "count_from h l node sz =
     (if node = Some l then Some (Inr sz)
      else case node of
          None \<Rightarrow> Some (Inl NullDeref)
        | Some n \<Rightarrow> count_from h l (ln_next (h n)) (sz + 1))"

definition list_get_size :: "'p \<Rightarrow> 'p lheap \<Rightarrow> u32 res" where
  "list_get_size l h = rbind (returns (count_from h l (ln_next (h l)) 0)) id"

section \<open>The ring a heap represents\<close>

fun lseg :: "'p lheap \<Rightarrow> 'p option \<Rightarrow> 'p list \<Rightarrow> 'p option \<Rightarrow> bool" where
  "lseg h p [] n = True"
| "lseg h p (x # xs) n \<longleftrightarrow>
     ln_prev (h x) = p \<and> ln_next (h x) = head_or xs n \<and> lseg h (Some x) xs n"

lemma lseg_append [simp]:
  "lseg h p (xs @ ys) n \<longleftrightarrow> lseg h p xs (head_or ys n) \<and> lseg h (last_or xs p) ys n"
  by (induction xs arbitrary: p) auto

lemma lseg_cong: "(\<And>x. x \<in> set xs \<Longrightarrow> h' x = h x) \<Longrightarrow> lseg h' p xs n = lseg h p xs n"
  by (induction xs arbitrary: p) auto

definition ring :: "'p lheap \<Rightarrow> 'p \<Rightarrow> 'p list \<Rightarrow> bool" where
  "ring h l xs \<longleftrightarrow> lseg h (Some l) xs (Some l) \<and> distinct (l # xs)
     \<and> ln_next (h l) = head_or xs (Some l) \<and> ln_prev (h l) = last_or xs (Some l)"

lemma llink_upd_simps [simp]:
  "ln_next (lset_next p v h q) = (if q = p then v else ln_next (h q))"
  "ln_prev (lset_next p v h q) = ln_prev (h q)"
  "ln_prev (lset_prev p v h q) = (if q = p then v else ln_prev (h q))"
  "ln_next (lset_prev p v h q) = ln_next (h q)"
  by (auto simp: lset_next_def lset_prev_def)

lemma llink_upd_outside [simp]:
  "q \<noteq> p \<Longrightarrow> lset_next p v h q = h q" "q \<noteq> p \<Longrightarrow> lset_prev p v h q = h q"
  by (auto simp: lset_next_def lset_prev_def)

lemma lseg_upd_outside [simp]:
  "q \<notin> set xs \<Longrightarrow> lseg (lset_next q v h) p xs n = lseg h p xs n"
  "q \<notin> set xs \<Longrightarrow> lseg (lset_prev q v h) p xs n = lseg h p xs n"
  by (rule lseg_cong, metis llink_upd_outside)+

definition ring_yields :: "'p lheap res \<Rightarrow> 'p lheap \<Rightarrow> 'p set \<Rightarrow> 'p \<Rightarrow> 'p list \<Rightarrow> bool" where
  "ring_yields r h S l xs' \<longleftrightarrow> (\<exists>h'. r = Inr h' \<and> ring h' l xs' \<and> (\<forall>p. p \<notin> S \<longrightarrow> h' p = h p))"

lemma ring_yields_simps [simp]:
  "ring_yields (Inr h') h S l xs' \<longleftrightarrow> ring h' l xs' \<and> (\<forall>p. p \<notin> S \<longrightarrow> h' p = h p)"
  "ring_yields (Inl e) h S l xs' = False"
  by (auto simp: ring_yields_def)

lemma list_init_ring: "ring (list_init l h) l []"
  by (simp add: ring_def list_init_def)

lemma ring_is_empty: "ring h l xs \<Longrightarrow> list_is_empty l h = (if xs = [] then 1 else 0)"
  by (cases xs) (auto simp: ring_def list_is_empty_def)

lemma add_first_yields:
  assumes "ring h l xs" "new \<notin> set (l # xs)"
  shows "ring_yields (list_add_first new l h) h (insert new (set (l # xs))) l (new # xs)"
  using assms by (cases xs) (auto simp: ring_def list_add_first_def list_link_def)

lemma add_last_yields:
  assumes "ring h l xs" "new \<notin> set (l # xs)"
  shows "ring_yields (list_add_last new l h) h (insert new (set (l # xs))) l (xs @ [new])"
  using assms by (cases xs rule: rev_cases) (auto simp: ring_def list_add_last_def list_link_def)

lemma delete_node_yields:
  assumes "ring h l (xs @ x # ys)"
  shows "ring_yields (list_delete_node x h) h (set (l # xs @ x # ys)) l (xs @ ys)"
proof -
  consider "xs = []" "ys = []" | y zs where "xs = []" "ys = y # zs"
    | z zs where "xs = zs @ [z]" "ys = []" | z zs y ws where "xs = zs @ [z]" "ys = y # ws"
    by (cases xs rule: rev_cases; cases ys) auto
  then show ?thesis
    using assms by cases (auto simp: ring_def list_delete_node_def list_unlink_def)
qed

lemma delete_node_nulls:
  "list_delete_node x h = Inr h' \<Longrightarrow> ln_next (h' x) = None \<and> ln_prev (h' x) = None"
  by (auto simp: list_delete_node_def res_simps)

lemma delete_first_yields:
  assumes "ring h l xs"
  shows "ring_yields (list_delete_first l h) h (set (l # xs)) l (tl xs)"
proof (cases xs)
  case Nil
  with assms show ?thesis by (auto simp: list_delete_first_def ring_def)
next
  case (Cons x ys)
  with assms delete_node_yields [of h l "[]" x ys] show ?thesis
    by (auto simp: list_delete_first_def ring_def)
qed

lemma delete_last_yields:
  assumes "ring h l xs"
  shows "ring_yields (list_delete_last l h) h (set (l # xs)) l (butlast xs)"
proof (cases xs rule: rev_cases)
  case Nil
  with assms show ?thesis by (auto simp: list_delete_last_def ring_def)
next
  case (snoc ys y)
  with assms have "ln_next (h l) \<noteq> Some l" by (cases ys) (auto simp: ring_def)
  with snoc assms delete_node_yields [of h l ys y "[]"] show ?thesis
    by (auto simp: list_delete_last_def ring_def)
qed

lemma count_from_seg:
  "lseg h p xs (Some l) \<Longrightarrow> l \<notin> set xs \<Longrightarrow>
   count_from h l (head_or xs (Some l)) n = Some (Inr (n + of_nat (length xs)))"
  by (induction xs arbitrary: p n) (auto simp: count_from.simps algebra_simps)

lemma get_size_ring: "ring h l xs \<Longrightarrow> list_get_size l h = Inr (of_nat (length xs))"
  by (auto simp: ring_def list_get_size_def count_from_seg)

section \<open>The ring as a double-ended queue\<close>

text \<open>
  The contract between the list and its clients (the URB queues, the device, interface and
  driver lists): additions at both ends and deletion anywhere, as list operations.
\<close>

locale intrusive_list =
  fixes rep :: "'s \<Rightarrow> 'a \<Rightarrow> 'a list \<Rightarrow> bool"
    and add_first add_last :: "'a \<Rightarrow> 'a \<Rightarrow> 's \<Rightarrow> 's res"
    and del :: "'a \<Rightarrow> 's \<Rightarrow> 's res"
  assumes add_first_law: "rep s l xs \<Longrightarrow> x \<notin> set (l # xs) \<Longrightarrow>
      \<exists>s'. add_first x l s = Inr s' \<and> rep s' l (x # xs)"
    and add_last_law: "rep s l xs \<Longrightarrow> x \<notin> set (l # xs) \<Longrightarrow>
      \<exists>s'. add_last x l s = Inr s' \<and> rep s' l (xs @ [x])"
    and del_law: "rep s l (xs @ x # ys) \<Longrightarrow> \<exists>s'. del x s = Inr s' \<and> rep s' l (xs @ ys)"
begin

lemma add_last_each:
  assumes "rep s l xs" "distinct ys" "set ys \<inter> set (l # xs) = {}"
  shows "\<exists>s'. each (\<lambda>x. add_last x l) ys s = Inr s' \<and> rep s' l (xs @ ys)"
  using assms
proof (induction ys arbitrary: s xs)
  case Nil
  then show ?case by auto
next
  case (Cons y ys)
  then obtain s1 where step: "add_last y l s = Inr s1" "rep s1 l (xs @ [y])"
    using add_last_law [of s l xs y] by auto
  have "\<exists>s'. each (\<lambda>x. add_last x l) ys s1 = Inr s' \<and> rep s' l ((xs @ [y]) @ ys)"
    using Cons.prems by (intro Cons.IH [OF step(2)]) auto
  with step(1) show ?case by auto
qed

lemma del_each:
  assumes "rep s l (xs @ ys)"
  shows "\<exists>s'. each del xs s = Inr s' \<and> rep s' l ys"
  using assms
proof (induction xs arbitrary: s)
  case Nil
  then show ?case by auto
next
  case (Cons x xs)
  then obtain s1 where "del x s = Inr s1" "rep s1 l (xs @ ys)"
    using del_law [of s l "[]" x "xs @ ys"] by auto
  with Cons.IH show ?case by fastforce
qed

lemma add_then_del:
  assumes "rep s l xs" "x \<notin> set (l # xs)"
  shows "\<exists>s'. rbind (add_last x l s) (del x) = Inr s' \<and> rep s' l xs"
    and "\<exists>s'. rbind (add_first x l s) (del x) = Inr s' \<and> rep s' l xs"
  using add_last_law [OF assms] add_first_law [OF assms] del_law [of _ l xs x "[]"]
    del_law [of _ l "[]" x xs] by fastforce+

end

interpretation cl: intrusive_list ring list_add_first list_add_last list_delete_node
proof unfold_locales
  fix h :: "'p lheap" and l xs x
  assume a: "ring h l xs" "x \<notin> set (l # xs)"
  show "\<exists>h'. list_add_first x l h = Inr h' \<and> ring h' l (x # xs)"
    using add_first_yields [OF a] by (auto simp: ring_yields_def)
  show "\<exists>h'. list_add_last x l h = Inr h' \<and> ring h' l (xs @ [x])"
    using add_last_yields [OF a] by (auto simp: ring_yields_def)
next
  fix h :: "'p lheap" and l xs x ys
  assume "ring h l (xs @ x # ys)"
  from delete_node_yields [OF this] show "\<exists>h'. list_delete_node x h = Inr h' \<and> ring h' l (xs @ ys)"
    by (auto simp: ring_yields_def)
qed

end
