(* ===== verification/Ring_Buffer.thy ===== *)
theory Ring_Buffer
  imports Mem_Header
begin

text \<open>
  The byte ring buffer of \<^verbatim>\<open>generic/ringbuffer.c\<close>, on the byte memory, and its specification as a
  queue of bytes. One byte of the buffer stays unused, so that a buffer of \<open>n\<close> bytes holds
  \<open>n - 1\<close>.
\<close>

section \<open>Operations\<close>

record ringbuffer =
  buffer_start :: u32
  buffer_end :: u32
  read_ptr :: u32
  write_ptr :: u32

definition ringbuffer_init :: "u32 \<Rightarrow> u32 \<Rightarrow> ringbuffer" where
  "ringbuffer_init buffer size' =
     \<lparr>buffer_start = buffer, buffer_end = buffer + size', read_ptr = buffer, write_ptr = buffer\<rparr>"

definition ringbuffer_add :: "u8 \<Rightarrow> ringbuffer \<times> mem \<Rightarrow> (ringbuffer \<times> mem) res" where
  "ringbuffer_add data = (\<lambda>(rb, m).
     let m' = m(write_ptr rb := data);
         rb1 = rb\<lparr>write_ptr := write_ptr rb + 1\<rparr>
     in if write_ptr rb1 = read_ptr rb1 then Inl (Panic ''Buffer overflow'')
        else if write_ptr rb1 = buffer_end rb1 then Inr (rb1\<lparr>write_ptr := buffer_start rb1\<rparr>, m')
        else Inr (rb1, m'))"

definition ringbuffer_read :: "ringbuffer \<times> mem \<Rightarrow> u8 \<times> ringbuffer" where
  "ringbuffer_read = (\<lambda>(rb, m).
     if read_ptr rb \<noteq> write_ptr rb then
       (let data = m (read_ptr rb); rb1 = rb\<lparr>read_ptr := read_ptr rb + 1\<rparr>
        in if read_ptr rb1 = buffer_end rb1 then (data, rb1\<lparr>read_ptr := buffer_start rb1\<rparr>)
           else (data, rb1))
     else (0, rb))"

fun read_loop :: "nat \<Rightarrow> u32 \<Rightarrow> u32 \<Rightarrow> ringbuffer \<times> mem \<Rightarrow> u32 \<times> ringbuffer \<times> mem" where
  "read_loop 0 data ret_size (rb, m) = (ret_size, rb, m)"
| "read_loop (Suc n) data ret_size (rb, m) =
     (if read_ptr rb = write_ptr rb then (ret_size, rb, m)
      else read_loop n (data + 1) (ret_size + 1)
             (rb\<lparr>read_ptr := read_ptr rb + 1\<rparr>, m(data := m (read_ptr rb))))"

definition ringbuffer_read_mult :: "u32 \<Rightarrow> u32 \<Rightarrow> ringbuffer \<times> mem \<Rightarrow> u32 \<times> ringbuffer \<times> mem" where
  "ringbuffer_read_mult data size' st = read_loop (unat size') data 0 st"

section \<open>The queue it represents\<close>

definition slot :: "nat \<Rightarrow> nat \<Rightarrow> nat \<Rightarrow> u32" where
  "slot s n k = W (s + k mod n)"

text \<open>A buffer of \<open>n\<close> bytes at \<open>s\<close> that holds \<open>xs\<close>, starting at offset \<open>r\<close>.\<close>

definition rb_rep :: "nat \<Rightarrow> nat \<Rightarrow> nat \<Rightarrow> u8 list \<Rightarrow> ringbuffer \<times> mem \<Rightarrow> bool" where
  "rb_rep s n r xs = (\<lambda>(rb, m).
     r < n \<and> length xs < n \<and> s + n < 2 ^ 32
     \<and> rb = \<lparr>buffer_start = W s, buffer_end = W (s + n), read_ptr = slot s n r,
             write_ptr = slot s n (r + length xs)\<rparr>
     \<and> (\<forall>i<length xs. m (slot s n (r + i)) = xs ! i))"

lemma slot_eq_iff:
  assumes "s + n < 2 ^ 32" "0 < n"
  shows "slot s n j = slot s n k \<longleftrightarrow> j mod n = k mod n"
proof -
  have "j mod n < n" "k mod n < n" using assms by simp_all
  then have "s + j mod n < 2 ^ 32" "s + k mod n < 2 ^ 32" using assms by linarith+
  then show ?thesis using W_eq_iff [of "s + j mod n" "s + k mod n"] by (simp add: slot_def del: of_nat_add)
qed

lemma mod_inj: "i < n \<Longrightarrow> j < n \<Longrightarrow> (r + i) mod n = (r + j) mod n \<longleftrightarrow> i = j" for r :: nat
proof (induction i j rule: linorder_wlog)
  case (le i j)
  have "(r + j) mod n = (r + i) mod n \<longleftrightarrow> n dvd j - i" using le by (simp add: mod_eq_dvd_iff_nat)
  also have "\<dots> \<longleftrightarrow> j = i" using le by (auto dest: dvd_imp_le)
  finally show ?case by auto
qed auto

lemma next_slot:
  assumes "s + n < 2 ^ 32" "0 < n"
  shows "slot s n k + 1 = (if Suc k mod n = 0 then W (s + n) else slot s n (Suc k))"
    "slot s n k + 1 = W (s + n) \<longleftrightarrow> Suc k mod n = 0"
proof -
  have k: "k mod n < n" using assms by simp
  have S: "Suc k mod n = (if Suc (k mod n) = n then 0 else Suc (k mod n))" by (simp add: mod_Suc)
  show "slot s n k + 1 = (if Suc k mod n = 0 then W (s + n) else slot s n (Suc k))"
  proof (cases "Suc (k mod n) = n")
    case True
    then have "W (s + k mod n) + 1 = W (s + n)" by (metis Suc_eq_plus1 add_Suc_right of_nat_Suc add.commute)
    then show ?thesis using True S by (simp add: slot_def)
  next
    case False
    then show ?thesis using S by (simp add: slot_def add.commute)
  qed
  have "slot s n k + 1 = W (s + Suc (k mod n))" by (simp add: slot_def add.commute)
  moreover have "W (s + Suc (k mod n)) = W (s + n) \<longleftrightarrow> s + Suc (k mod n) = s + n"
    using k assms by (intro W_eq_iff) linarith+
  ultimately show "slot s n k + 1 = W (s + n) \<longleftrightarrow> Suc k mod n = 0" using S by (simp del: of_nat_add of_nat_Suc)
qed


section \<open>The operations on the queue\<close>

lemma init_rep: "0 < n \<Longrightarrow> s + n < 2 ^ 32 \<Longrightarrow> rb_rep s n 0 [] (ringbuffer_init (W s) (W n), m)"
  by (simp add: rb_rep_def ringbuffer_init_def slot_def)

lemma write_free_slot:
  assumes rep: "rb_rep s n r xs (rb, m)"
  shows "\<forall>i<length xs. (m(slot s n (r + length xs) := d)) (slot s n (r + i)) = xs ! i"
proof -
  have "slot s n (r + i) \<noteq> slot s n (r + length xs)" if "i < length xs" for i
    using rep that by (auto simp: rb_rep_def slot_eq_iff mod_inj)
  then show ?thesis using rep by (auto simp: rb_rep_def)
qed

text \<open>
  \<^bold>\<open>Ring buffer insertion (C10).\<close> Adding a byte appends it to the queue if there is room. In a full buffer the overflow check runs
  before the write pointer wraps: when the oldest byte is at the start of the buffer it is missed
  and the whole queue is lost.
\<close>

theorem ringbuffer_add_correct:
  assumes rep: "rb_rep s n r xs (rb, m)"
  shows "if Suc (length xs) < n then
      \<exists>rb' m'. ringbuffer_add d (rb, m) = Inr (rb', m') \<and> rb_rep s n r (xs @ [d]) (rb', m')
    else if r = 0 then \<exists>rb' m'. ringbuffer_add d (rb, m) = Inr (rb', m') \<and> rb_rep s n 0 [] (rb', m')
    else ringbuffer_add d (rb, m) = Inl (Panic ''Buffer overflow'')"
proof -
  have lim: "s + n < 2 ^ 32" "0 < n" "r < n" "length xs < n" using rep by (auto simp: rb_rep_def)
  define w where "w = r + length xs"
  have rb: "rb = \<lparr>buffer_start = W s, buffer_end = W (s + n), read_ptr = slot s n r, write_ptr = slot s n w\<rparr>"
    using rep by (simp add: rb_rep_def w_def)
  have ne: "W (s + n) \<noteq> slot s n r"
    using lim W_eq_iff [of "s + n" "s + r"] by (auto simp: slot_def simp del: of_nat_add)
  note step = next_slot [OF lim(1,2), of w]
  have read: "slot s n w + 1 = slot s n r \<longleftrightarrow> Suc w mod n \<noteq> 0 \<and> Suc w mod n = r"
    using step(1) ne lim slot_eq_iff [OF lim(1,2), of "Suc w" r] by auto
  have res: "ringbuffer_add d (rb, m) =
    (if Suc w mod n \<noteq> 0 \<and> Suc w mod n = r then Inl (Panic ''Buffer overflow'')
     else Inr (rb\<lparr>write_ptr := slot s n (Suc w)\<rparr>, m(slot s n w := d)))"
  proof (cases "Suc w mod n = 0")
    case True
    then have "slot s n w + 1 = W (s + n)" "slot s n (Suc w) = W s" using step by (auto simp: slot_def)
    then show ?thesis using True ne by (simp add: ringbuffer_add_def rb Let_def)
  next
    case False
    then have "slot s n w + 1 = slot s n (Suc w)" "slot s n (Suc w) \<noteq> W (s + n)" using step by auto
    then show ?thesis using False read by (simp add: ringbuffer_add_def rb Let_def)
  qed
  show ?thesis
  proof (cases "Suc (length xs) < n")
    case True
    have "Suc w mod n \<noteq> r"
      using mod_inj [of "Suc (length xs)" n 0 r] True lim by (simp add: w_def)
    then have "ringbuffer_add d (rb, m) = Inr (rb\<lparr>write_ptr := slot s n (Suc w)\<rparr>, m(slot s n w := d))"
      using res by simp
    moreover have "rb_rep s n r (xs @ [d]) (rb\<lparr>write_ptr := slot s n (Suc w)\<rparr>, m(slot s n w := d))"
      using write_free_slot [OF rep, of d] lim True
      by (auto simp: rb_rep_def rb w_def less_Suc_eq nth_append)
    ultimately show ?thesis using True by auto
  next
    case False
    then have full: "Suc w = r + n" using lim by (simp add: w_def)
    then have m: "Suc w mod n = r" using lim by simp
    show ?thesis
    proof (cases "r = 0")
      case True
      then have "ringbuffer_add d (rb, m) = Inr (rb\<lparr>write_ptr := slot s n (Suc w)\<rparr>, m(slot s n w := d))"
        using res m by simp
      moreover have "rb_rep s n 0 [] (rb\<lparr>write_ptr := slot s n (Suc w)\<rparr>, m(slot s n w := d))"
        using True m lim by (simp add: rb_rep_def rb slot_def)
      ultimately show ?thesis using False True by auto
    next
      case nz: False
      then show ?thesis using res m False by simp
    qed
  qed
qed

text \<open>
  Reading takes the oldest byte; from an empty buffer it returns 0 and
  changes nothing.
\<close>

lemma ringbuffer_read_correct:
  assumes rep: "rb_rep s n r xs (rb, m)"
  shows "case xs of [] \<Rightarrow> ringbuffer_read (rb, m) = (0, rb)
    | x # ys \<Rightarrow> \<exists>rb'. ringbuffer_read (rb, m) = (x, rb') \<and> rb_rep s n (Suc r mod n) ys (rb', m)"
proof (cases xs)
  case Nil
  then show ?thesis using rep by (simp add: rb_rep_def ringbuffer_read_def)
next
  case (Cons x ys)
  have lim: "s + n < 2 ^ 32" "0 < n" "r < n" "length xs < n" using rep by (auto simp: rb_rep_def)
  have rb: "rb = \<lparr>buffer_start = W s, buffer_end = W (s + n), read_ptr = slot s n r,
      write_ptr = slot s n (r + length xs)\<rparr>" using rep by (simp add: rb_rep_def)
  have x: "m (slot s n r) = x" using rep Cons by (auto simp: rb_rep_def)
  have ne: "slot s n r \<noteq> slot s n (r + length xs)"
    using lim Cons mod_inj [of 0 n "length xs" r] by (simp add: slot_eq_iff)
  note step = next_slot [OF lim(1,2), of r]
  have res: "ringbuffer_read (rb, m) = (x, rb\<lparr>read_ptr := slot s n (Suc r)\<rparr>)"
  proof (cases "Suc r mod n = 0")
    case True
    then have "slot s n r + 1 = W (s + n)" "slot s n (Suc r) = W s" using step by (auto simp: slot_def)
    then show ?thesis using ne x by (simp add: ringbuffer_read_def rb Let_def)
  next
    case False
    then have "slot s n r + 1 = slot s n (Suc r)" "slot s n (Suc r) \<noteq> W (s + n)" using step by auto
    then show ?thesis using ne x by (simp add: ringbuffer_read_def rb Let_def)
  qed
  have sl: "slot s n (Suc r mod n + i) = slot s n (r + Suc i)" for i
    by (simp add: slot_def mod_add_left_eq)
  have "rb_rep s n (Suc r mod n) ys (rb\<lparr>read_ptr := slot s n (Suc r)\<rparr>, m)"
    using rep lim Cons sl sl [of 0] by (auto simp: rb_rep_def rb)
  then show ?thesis using res Cons by auto
qed


section \<open>Reading several bytes\<close>

lemma read_loop_pointer:
  assumes "\<forall>j<k. read_ptr rb + W j \<noteq> write_ptr rb"
  shows "fst (read_loop k data c (rb, m)) = c + W k
    \<and> fst (snd (read_loop k data c (rb, m))) = rb\<lparr>read_ptr := read_ptr rb + W k\<rparr>"
  using assms
proof (induction k arbitrary: data c rb m)
  case (Suc k)
  have ne: "read_ptr rb \<noteq> write_ptr rb" using Suc.prems [rule_format, of 0] by simp
  let ?rb = "rb\<lparr>read_ptr := read_ptr rb + 1\<rparr>"
  have "\<forall>j<k. read_ptr ?rb + W j \<noteq> write_ptr ?rb"
    using Suc.prems [rule_format, of "Suc j" for j] by (auto simp: add.assoc)
  then show ?case using Suc.IH [of ?rb "data + 1" "c + 1" "m(data := m (read_ptr rb))"] ne
    by (simp add: add.assoc del: fun_upd_apply)
qed simp

text \<open>
  Bulk reads leave the buffer. \<^verbatim>\<open>ringbuffer_read_mult\<close> never wraps the read pointer. Where the queue wraps around the end of the
  buffer, reading up to the end leaves the read pointer one past the buffer, outside it, and the
  following bytes are read from beyond the buffer.
\<close>

lemma ringbuffer_read_mult_leaves_buffer:
  assumes rep: "rb_rep s n r xs (rb, m)" and wraps: "n < r + length xs"
  shows "fst (ringbuffer_read_mult data (W (n - r)) (rb, m)) = W (n - r)
    \<and> read_ptr (fst (snd (ringbuffer_read_mult data (W (n - r)) (rb, m)))) = buffer_end rb"
proof -
  have lim: "s + n < 2 ^ 32" "0 < n" "r < n" "length xs < n" using rep by (auto simp: rb_rep_def)
  have rb: "buffer_end rb = W (s + n)" "read_ptr rb = W (s + r)" "write_ptr rb = W (s + (r + length xs - n))"
    using rep lim wraps by (auto simp: rb_rep_def slot_def le_mod_geq)
  have ne: "\<forall>j<n - r. read_ptr rb + W j \<noteq> write_ptr rb"
  proof (intro allI impI)
    fix j assume "j < n - r"
    then have "W (s + r + j) = W (s + (r + length xs - n)) \<longleftrightarrow> s + r + j = s + (r + length xs - n)"
      using lim by (intro W_eq_iff) linarith+
    then show "read_ptr rb + W j \<noteq> write_ptr rb" using lim wraps unfolding rb by (simp add: add.assoc del: of_nat_diff)
  qed
  have "unat (W (n - r)) = n - r" using lim by (intro unat_W) simp
  then show ?thesis
    using read_loop_pointer [OF ne, of data 0 m] lim rb
    by (simp add: ringbuffer_read_mult_def)
qed

section \<open>Concrete instances\<close>

definition demo_rb :: ringbuffer where
  "demo_rb = \<lparr>buffer_start = 0x100, buffer_end = 0x108, read_ptr = 0x106, write_ptr = 0x102\<rparr>"

lemma demo_rb_rep: "rb_rep 0x100 8 6 [5, 5, 5, 5] (demo_rb, \<lambda>_. 5)"
  by (simp add: rb_rep_def demo_rb_def slot_def nth_Cons')

theorem ringbuffer_add_correct_witness:
  "\<exists>rb' m'. ringbuffer_add 9 (demo_rb, \<lambda>_. 5) = Inr (rb', m') \<and> rb_rep 0x100 8 6 [5, 5, 5, 5, 9] (rb', m')"
  using ringbuffer_add_correct [OF demo_rb_rep, of 9] by simp

end
