(* ===== verification/Sched_Core.thy ===== *)
theory Sched_Core
  imports DList_Heap Page_Alloc Ring_Buffer
begin

text \<open>
  The state of the kernel scheduler (\<^verbatim>\<open>kernel/scheduler.h\<close>, the globals of \<^verbatim>\<open>kernel/scheduler.c\<close>) and
  the four scheduling classes of \<^verbatim>\<open>kernel/rt.c\<close>, \<^verbatim>\<open>app.c\<close>, \<^verbatim>\<open>background.c\<close> and \<^verbatim>\<open>idle.c\<close>.

  A thread control block is a record in a store indexed by its address. Its two embedded
  \<^verbatim>\<open>dlist_node\<close>s are nodes of one shared node heap, named by the address of the thread, so that the
  queues of the kernel alias exactly where the code's do. A \<^verbatim>\<open>struct dlist *\<close> to a queue of the run
  queue structure is a value of \<open>queue\<close>. A function pointer that a class leaves null is a call
  that ends in \<^const>\<open>NullDeref\<close>. Accesses to processor registers are events of a log.
\<close>

section \<open>State\<close>

datatype sched_class = REAL_TIME | APPLICATION | BACKGROUND | IDLE

datatype queue = App_rq | Background_rq | Rt_rq | Sleep_q | Blocked_q

datatype node_ptr = RqNode u32 | ThreadNode u32

record thread =
  stack_pointer :: u32
  stack_base :: u32
  rq_list :: "queue option"
  class_of :: sched_class
  thread_name :: "u8 list"
  name_len :: u8
  tick_to_wake :: u64
  runtime_curr :: u64
  runtime_new :: u64
  tid :: u32
  exit_pending :: u8
  code_addr :: u32

datatype hw_event =
    Set_priority string u8
  | Systick_set_rvr u32
  | Systick_set_cvr u32
  | Systick_enable u8
  | Systick_set_pending
  | Pendsv_set_pending
  | Cpsid_f
  | Cpsie_f
  | Gpio_toggle u32 u8
  | Scheduler_run
  | Usart_write u8
  | Print string

record kernel =
  k_mm :: mm_state
  k_thread :: "u32 \<Rightarrow> thread"
  k_node :: "(node_ptr, u32) nheap"
  k_queue :: "queue \<Rightarrow> node_ptr dlist"
  k_threads :: "node_ptr dlist" \<comment> \<open>\<^verbatim>\<open>cpu_rq.threads\<close>\<close>
  k_idle :: "u32 option"
  k_wake :: u64 \<comment> \<open>\<^verbatim>\<open>cpu_rq.tick_to_wake\<close>\<close>
  curr_thread :: "u32 option"
  next_thread :: "u32 option"
  scheduler_status :: u8
  k_tick :: u64
  stats_tick :: u64
  reschedule_pending :: u32
  k_tid :: u32 \<comment> \<open>the static \<^verbatim>\<open>tid\<close> of \<^verbatim>\<open>new_thread\<close>\<close>
  k_rb :: ringbuffer \<comment> \<open>\<^verbatim>\<open>rb\<close> of \<^verbatim>\<open>board/print.c\<close>\<close>
  k_hw :: "hw_event list" \<comment> \<open>newest first\<close>

definition upd_thread :: "u32 \<Rightarrow> (thread \<Rightarrow> thread) \<Rightarrow> kernel \<Rightarrow> kernel" where
  "upd_thread t f k = k\<lparr>k_thread := (k_thread k)(t := f (k_thread k t))\<rparr>"

definition emit :: "hw_event \<Rightarrow> kernel \<Rightarrow> kernel" where
  "emit e k = k\<lparr>k_hw := e # k_hw k\<rparr>"

text \<open>A \<^verbatim>\<open>dlist\<close> operation on one of the queues of the run queue structure.\<close>

definition on_queue ::
  "queue \<Rightarrow> ((node_ptr, u32) dstate \<Rightarrow> (node_ptr, u32) dstate res) \<Rightarrow> kernel \<Rightarrow> kernel res" where
  "on_queue q f k = rbind (f (k_node k, k_queue k q)) (\<lambda>(h, l).
     Inr (k\<lparr>k_node := h, k_queue := (k_queue k)(q := l)\<rparr>))"

definition queue_remove :: "node_ptr \<Rightarrow> queue \<Rightarrow> kernel \<Rightarrow> kernel res" where
  "queue_remove n q k = on_queue q (\<lambda>s. rbind (dlist_remove n s) (\<lambda>(_, s'). Inr s')) k"

definition queue_remove_first :: "queue \<Rightarrow> kernel \<Rightarrow> (node_ptr \<times> kernel) res" where
  "queue_remove_first q k = rbind (dlist_remove_first (k_node k, k_queue k q)) (\<lambda>(n, h, l).
     Inr (n, k\<lparr>k_node := h, k_queue := (k_queue k)(q := l)\<rparr>))"

definition obj_of :: "node_ptr \<Rightarrow> kernel \<Rightarrow> u32 res" where
  "obj_of n k = deref (nd_obj (k_node k n))"

section \<open>The real-time class (rt.c)\<close>

definition rt_pick_thread :: "kernel \<Rightarrow> (u32 option \<times> kernel) res" where
  "rt_pick_thread k =
     (if dl_first (k_queue k Rt_rq) = None then Inr (None, k)
      else rbind (queue_remove_first Rt_rq k) (\<lambda>(node, k1).
        rbind (obj_of node k1) (\<lambda>th.
          Inr (Some th, upd_thread th (\<lambda>t. t\<lparr>rq_list := None\<rparr>) k1))))"

definition rt_enqueue :: "u32 \<Rightarrow> kernel \<Rightarrow> kernel res" where
  "rt_enqueue th k = rbind (on_queue Rt_rq (dlist_insert_last (RqNode th)) k) (\<lambda>k1.
     Inr (upd_thread th (\<lambda>t. t\<lparr>rq_list := Some Rt_rq\<rparr>) k1))"

definition rt_dequeue :: "u32 \<Rightarrow> kernel \<Rightarrow> kernel res" where
  "rt_dequeue th k = queue_remove (RqNode th) Rt_rq k"

definition rt_block :: "u32 \<Rightarrow> kernel \<Rightarrow> kernel res" where
  "rt_block th k =
     (if rq_list (k_thread k th) = Some Blocked_q then Inr k
      else rbind (deref (rq_list (k_thread k th))) (\<lambda>q.
        rbind (queue_remove (RqNode th) q k) (\<lambda>k1.
        rbind (on_queue Blocked_q (dlist_insert_last (RqNode th)) k1) (\<lambda>k2.
          Inr (upd_thread th (\<lambda>t. t\<lparr>rq_list := Some Blocked_q\<rparr>) k2)))))"

definition rt_unblock :: "u32 \<Rightarrow> kernel \<Rightarrow> kernel res" where
  "rt_unblock th k =
     (if rq_list (k_thread k th) \<noteq> Some Blocked_q then Inr k
      else rbind (queue_remove (RqNode th) Blocked_q k) (\<lambda>k1.
        let k2 = upd_thread th (\<lambda>t. t\<lparr>tick_to_wake := 0\<rparr>) k1
        in rbind (on_queue Rt_rq (dlist_insert_last (RqNode th)) k2) (\<lambda>k3.
          Inr (upd_thread th (\<lambda>t. t\<lparr>rq_list := Some Rt_rq\<rparr>) k3))))"

section \<open>The application class (app.c)\<close>

definition app_pick_thread :: "kernel \<Rightarrow> (u32 option \<times> kernel) res" where
  "app_pick_thread k =
     (if dl_first (k_queue k App_rq) = None then Inr (None, k)
      else rbind (queue_remove_first App_rq k) (\<lambda>(node, k1).
        rbind (obj_of node k1) (\<lambda>th. Inr (Some th, k1))))"

definition app_enqueue :: "u32 \<Rightarrow> kernel \<Rightarrow> kernel res" where
  "app_enqueue th k = on_queue App_rq (dlist_insert_last (RqNode th)) k"

definition app_dequeue :: "u32 \<Rightarrow> kernel \<Rightarrow> kernel res" where
  "app_dequeue th k = queue_remove (RqNode th) App_rq k"

section \<open>The background class (background.c)\<close>

definition background_pick_thread :: "kernel \<Rightarrow> (u32 option \<times> kernel) res" where
  "background_pick_thread k =
     (if dl_first (k_queue k Background_rq) = None then Inr (None, k)
      else rbind (queue_remove_first Background_rq k) (\<lambda>(node, k1).
        rbind (obj_of node k1) (\<lambda>th. Inr (Some th, k1))))"

definition background_enqueue :: "u32 \<Rightarrow> kernel \<Rightarrow> kernel res" where
  "background_enqueue th k = on_queue Background_rq (dlist_insert_last (RqNode th)) k"

definition background_dequeue :: "u32 \<Rightarrow> kernel \<Rightarrow> kernel res" where
  "background_dequeue th k = queue_remove (RqNode th) Background_rq k"

section \<open>The idle class (idle.c)\<close>

definition idle_pick_thread :: "kernel \<Rightarrow> (u32 option \<times> kernel) res" where
  "idle_pick_thread k = Inr (k_idle k, k)"

definition idle_enqueue :: "u32 \<Rightarrow> kernel \<Rightarrow> kernel res" where
  "idle_enqueue th k = Inr (k\<lparr>k_idle := Some th\<rparr>)"

definition idle_dequeue :: "u32 \<Rightarrow> kernel \<Rightarrow> kernel res" where
  "idle_dequeue th k = Inr k"

section \<open>Calls through the class\<close>

fun class_next :: "sched_class \<Rightarrow> sched_class option" where
  "class_next REAL_TIME = Some APPLICATION"
| "class_next APPLICATION = Some BACKGROUND"
| "class_next BACKGROUND = Some IDLE"
| "class_next IDLE = None"

fun class_pick_thread :: "sched_class \<Rightarrow> kernel \<Rightarrow> (u32 option \<times> kernel) res" where
  "class_pick_thread REAL_TIME = rt_pick_thread"
| "class_pick_thread APPLICATION = app_pick_thread"
| "class_pick_thread BACKGROUND = background_pick_thread"
| "class_pick_thread IDLE = idle_pick_thread"

fun class_enqueue :: "sched_class \<Rightarrow> u32 \<Rightarrow> kernel \<Rightarrow> kernel res" where
  "class_enqueue REAL_TIME = rt_enqueue"
| "class_enqueue APPLICATION = app_enqueue"
| "class_enqueue BACKGROUND = background_enqueue"
| "class_enqueue IDLE = idle_enqueue"

fun class_dequeue :: "sched_class \<Rightarrow> u32 \<Rightarrow> kernel \<Rightarrow> kernel res" where
  "class_dequeue REAL_TIME = rt_dequeue"
| "class_dequeue APPLICATION = app_dequeue"
| "class_dequeue BACKGROUND = background_dequeue"
| "class_dequeue IDLE = idle_dequeue"

fun class_block :: "sched_class \<Rightarrow> u32 \<Rightarrow> kernel \<Rightarrow> kernel res" where
  "class_block REAL_TIME th k = rt_block th k"
| "class_block APPLICATION th k = Inl NullDeref"
| "class_block BACKGROUND th k = Inl NullDeref"
| "class_block IDLE th k = Inl NullDeref"

fun class_unblock :: "sched_class \<Rightarrow> u32 \<Rightarrow> kernel \<Rightarrow> kernel res" where
  "class_unblock REAL_TIME th k = rt_unblock th k"
| "class_unblock APPLICATION th k = Inl NullDeref"
| "class_unblock BACKGROUND th k = Inl NullDeref"
| "class_unblock IDLE th k = Inl NullDeref"

end
