(* ===== verification/Scheduler.thy ===== *)
theory Scheduler
  imports Sched_Core
begin

text \<open>
  The scheduler proper: \<^verbatim>\<open>kernel/scheduler.c\<close>. Loops over a linked list follow \<^verbatim>\<open>next\<close> pointers in
  the node heap and are partial functions.
\<close>

section \<open>Picking the next thread\<close>

function core_scan :: "sched_class option \<Rightarrow> kernel \<Rightarrow> (u32 \<times> kernel) res" where
  "core_scan None k = Inl (Panic ''Core scheduler error'')"
| "core_scan (Some c) k =
     rbind (class_pick_thread c k) (\<lambda>(thread, k1).
       case thread of
         Some th \<Rightarrow> Inr (th, k1)
       | None \<Rightarrow> core_scan (class_next c) k1)"
  by pat_completeness auto
termination
  by (relation "measure (\<lambda>(c, k). case c of None \<Rightarrow> 0 | Some c' \<Rightarrow>
    (case c' of REAL_TIME \<Rightarrow> 4 | APPLICATION \<Rightarrow> 3 | BACKGROUND \<Rightarrow> 2 | IDLE \<Rightarrow> 1))")
    (auto split: sched_class.splits)

definition core_scheduler :: "kernel \<Rightarrow> (u32 \<times> kernel) res" where
  "core_scheduler k = core_scan (Some REAL_TIME) k"

section \<open>Threads\<close>

partial_function (option) get_thread_from :: "kernel \<Rightarrow> u32 \<Rightarrow> node_ptr option \<Rightarrow> u32 option res option" where
  "get_thread_from k tid' it =
     (case it of
        None \<Rightarrow> Some (Inr None)
      | Some n \<Rightarrow>
          (case nd_obj (k_node k n) of
             None \<Rightarrow> Some (Inl NullDeref)
           | Some th \<Rightarrow>
               if tid (k_thread k th) = tid' then Some (Inr (Some th))
               else get_thread_from k tid' (nd_next (k_node k n))))"

definition get_thread :: "u32 \<Rightarrow> kernel \<Rightarrow> u32 option res" where
  "get_thread tid' k = rbind (returns (get_thread_from k tid' (dl_first (k_threads k)))) (\<lambda>r. r)"

section \<open>Delays\<close>

definition update_tick_to_wake :: "kernel \<Rightarrow> kernel res" where
  "update_tick_to_wake k =
     (case dl_first (k_queue k Sleep_q) of
        Some n \<Rightarrow> rbind (obj_of n k) (\<lambda>th. Inr (k\<lparr>k_wake := tick_to_wake (k_thread k th)\<rparr>))
      | None \<Rightarrow> Inr (k\<lparr>k_wake := 0\<rparr>))"

text \<open>The body of the loop for an expired thread.\<close>

definition wake_thread :: "node_ptr \<Rightarrow> u32 \<Rightarrow> kernel \<Rightarrow> kernel res" where
  "wake_thread iter th k =
     rbind (queue_remove iter Sleep_q k) (\<lambda>k1.
       let k2 = upd_thread th (\<lambda>t. t\<lparr>rq_list := None\<rparr>) k1
       in rbind (class_enqueue (class_of (k_thread k2 th)) th k2) (\<lambda>k3.
         Inr (upd_thread th (\<lambda>t. t\<lparr>tick_to_wake := 0\<rparr>) k3)))"

partial_function (option) expired_from :: "node_ptr option \<Rightarrow> kernel \<Rightarrow> kernel res option" where
  "expired_from iter k =
     (case iter of
        None \<Rightarrow> Some (Inr k)
      | Some n \<Rightarrow>
          (case nd_obj (k_node k n) of
             None \<Rightarrow> Some (Inl NullDeref)
           | Some th \<Rightarrow>
               if tick_to_wake (k_thread k th) < k_tick k then
                 (if isl (wake_thread n th k) then Some (wake_thread n th k)
                  else expired_from (nd_next (k_node (projr (wake_thread n th k)) n))
                         (projr (wake_thread n th k)))
               else Some (Inr k)))"

definition process_expired_delays :: "kernel \<Rightarrow> kernel res" where
  "process_expired_delays k =
     (if k_wake k \<le> k_tick k \<and> k_wake k \<noteq> 0 then
        rbind (rbind (returns (expired_from (dl_first (k_queue k Sleep_q)) k)) (\<lambda>r. r))
          update_tick_to_wake
      else Inr k)"

partial_function (option) delay_scan :: "u32 \<Rightarrow> node_ptr option \<Rightarrow> kernel \<Rightarrow> node_ptr option res option" where
  "delay_scan th iter k =
     (case iter of
        None \<Rightarrow> Some (Inr None)
      | Some n \<Rightarrow>
          (case nd_obj (k_node k n) of
             None \<Rightarrow> Some (Inl NullDeref)
           | Some t \<Rightarrow>
               if tick_to_wake (k_thread k th) < tick_to_wake (k_thread k t) then Some (Inr (Some n))
               else delay_scan th (nd_next (k_node k n)) k))"

definition scheduler_enqueue_delay :: "u32 \<Rightarrow> kernel \<Rightarrow> kernel res" where
  "scheduler_enqueue_delay th k =
     rbind
       (case dl_first (k_queue k Sleep_q) of
          None \<Rightarrow> on_queue Sleep_q (dlist_insert_first (RqNode th)) k
        | Some first \<Rightarrow>
            rbind (rbind (returns (delay_scan th (Some first) k)) (\<lambda>r. r)) (\<lambda>pos.
              case pos of
                Some n \<Rightarrow> on_queue Sleep_q (dlist_insert_before (RqNode th) n) k
              | None \<Rightarrow> on_queue Sleep_q (dlist_insert_last (RqNode th)) k))
       (\<lambda>k1. update_tick_to_wake (upd_thread th (\<lambda>t. t\<lparr>rq_list := Some Sleep_q\<rparr>) k1))"

section \<open>Removal and statistics\<close>

definition thread_in_list :: "u32 \<Rightarrow> kernel \<Rightarrow> bool" where
  "thread_in_list th k \<longleftrightarrow> nd_next (k_node k (RqNode th)) \<noteq> None \<or> nd_prev (k_node k (RqNode th)) \<noteq> None
     \<or> nd_next (k_node k (ThreadNode th)) \<noteq> None \<or> nd_prev (k_node k (ThreadNode th)) \<noteq> None"

definition lift_mm :: "(mm_state \<Rightarrow> mm_state res) \<Rightarrow> kernel \<Rightarrow> kernel res" where
  "lift_mm f k = rbind (f (k_mm k)) (\<lambda>m. Inr (k\<lparr>k_mm := m\<rparr>))"

text \<open>The parameter of \<^verbatim>\<open>scheduler_remove_thread\<close> is not used: it removes the current thread.\<close>

definition scheduler_remove_thread :: "kernel \<Rightarrow> kernel res" where
  "scheduler_remove_thread k =
     rbind (deref (curr_thread k)) (\<lambda>c.
       rbind (dlist_remove (ThreadNode c) (k_node k, k_threads k)) (\<lambda>(_, h, l).
         let k1 = k\<lparr>k_node := h, k_threads := l\<rparr>
         in rbind
           (case rq_list (k_thread k1 c) of
              Some q \<Rightarrow> queue_remove (RqNode c) q k1
            | None \<Rightarrow> Inr k1)
           (\<lambda>k2.
             if thread_in_list c k2 then Inl (Panic ''Exiting thread exist in a list'')
             else rbind
               (if code_addr (k_thread k2 c) \<noteq> 0 then lift_mm (mm_free (code_addr (k_thread k2 c))) k2
                else Inr k2)
               (\<lambda>k3. rbind (lift_mm (mm_free c) k3) (\<lambda>k4. Inr (k4\<lparr>curr_thread := None\<rparr>))))))"

partial_function (option) runtime_from :: "node_ptr option \<Rightarrow> kernel \<Rightarrow> kernel res option" where
  "runtime_from iter k =
     (case iter of
        None \<Rightarrow> Some (Inr k)
      | Some n \<Rightarrow>
          (case nd_obj (k_node k n) of
             None \<Rightarrow> Some (Inl NullDeref)
           | Some th \<Rightarrow>
               runtime_from (nd_next (k_node k n))
                 (upd_thread th (\<lambda>t. t\<lparr>runtime_curr := runtime_new t, runtime_new := 0\<rparr>) k)))"

definition calculate_runtime :: "kernel \<Rightarrow> kernel res" where
  "calculate_runtime k = rbind (returns (runtime_from (dl_first (k_threads k)) k)) (\<lambda>r. r)"

definition SYSTICK_RVR :: nat where
  "SYSTICK_RVR = 300000"

text \<open>The value \<open>cvr\<close> of the timer's current value register is an input.\<close>

definition get_curr_thread_runtime :: "u32 \<Rightarrow> kernel \<Rightarrow> u64 \<times> kernel" where
  "get_curr_thread_runtime cvr k =
     (if reschedule_pending k \<noteq> 0
      then (ucast (of_nat SYSTICK_RVR - cvr :: u32), k\<lparr>reschedule_pending := 0\<rparr>)
      else (of_nat SYSTICK_RVR, k))"

section \<open>The system tick\<close>

definition systick_exception :: "u32 \<Rightarrow> kernel \<Rightarrow> kernel res" where
  "systick_exception cvr k =
     (if scheduler_status k = 0 then Inr k
      else
        (let k1 = emit Cpsid_f k;
             (curr_runtime, k2) = get_curr_thread_runtime cvr k1;
             k3 = k2\<lparr>k_tick := k_tick k2 + curr_runtime, stats_tick := stats_tick k2 + curr_runtime\<rparr>
         in rbind (deref (curr_thread k3)) (\<lambda>c0.
           let k4 = upd_thread c0 (\<lambda>t. t\<lparr>runtime_new := runtime_new t + curr_runtime\<rparr>) k3
           in rbind
             (if of_nat (SYSTICK_RVR * 1000) \<le> stats_tick k4
              then calculate_runtime (emit (Gpio_toggle 2 8) (k4\<lparr>stats_tick := 0\<rparr>)) else Inr k4)
             (\<lambda>k5. rbind (process_expired_delays k5) (\<lambda>k6.
             rbind (deref (curr_thread k6)) (\<lambda>c.
             rbind
               (if tick_to_wake (k_thread k6 c) = 0 then class_enqueue (class_of (k_thread k6 c)) c k6
                else Inr k6)
               (\<lambda>k7. rbind
                 (if exit_pending (k_thread k7 c) \<noteq> 0 then scheduler_remove_thread k7 else Inr k7)
                 (\<lambda>k8. rbind (core_scheduler k8) (\<lambda>(th, k9).
                   Inr (emit Pendsv_set_pending (emit Cpsie_f (emit (Systick_set_cvr (of_nat SYSTICK_RVR))
                     (k9\<lparr>next_thread := Some th\<rparr>)))))))))))))"

text \<open>The context switch of \<^verbatim>\<open>context.s\<close>, which the pended exception runs.\<close>

definition context_switch :: "kernel \<Rightarrow> kernel" where
  "context_switch k = k\<lparr>curr_thread := next_thread k\<rparr>"

definition reschedule :: "kernel \<Rightarrow> kernel" where
  "reschedule k = emit Systick_set_pending (k\<lparr>reschedule_pending := 1\<rparr>)"

definition suspend_scheduler :: "kernel \<Rightarrow> kernel" where
  "suspend_scheduler k = k\<lparr>scheduler_status := 0\<rparr>"

definition resume_scheduler :: "kernel \<Rightarrow> kernel" where
  "resume_scheduler k = k\<lparr>scheduler_status := 1\<rparr>"

definition get_kernel_tick :: "kernel \<Rightarrow> u64" where
  "get_kernel_tick k = k_tick k"

definition get_idle_runtime :: "kernel \<Rightarrow> u64 res" where
  "get_idle_runtime k = rbind (deref (k_idle k)) (\<lambda>th. Inr (runtime_curr (k_thread k th)))"

definition scheduler_unblock_thread :: "u32 option \<Rightarrow> kernel \<Rightarrow> kernel res" where
  "scheduler_unblock_thread thread k =
     (let k1 = (if thread = curr_thread k then reschedule k else k)
      in if thread = curr_thread k1 then Inl (Panic ''ERROR'')
         else rbind (deref thread) (\<lambda>th. class_unblock (class_of (k_thread k1 th)) th k1))"

definition scheduler_block_thread :: "u32 option \<Rightarrow> kernel \<Rightarrow> kernel res" where
  "scheduler_block_thread thread k =
     (let k1 = (if thread = curr_thread k then reschedule k else k)
      in if thread = curr_thread k1 then Inl (Panic ''ERROR'')
         else rbind (deref thread) (\<lambda>th. class_block (class_of (k_thread k1 th)) th k1))"

end
