(* ===== verification/Sched_Queues.thy ===== *)
theory Sched_Queues
  imports Scheduler
begin

text \<open>
  The queues of the kernel as lists of threads. \<open>queues_on k Q ts rs\<close> says that the node heap of \<open>k\<close>
  links every queue \<open>q\<close> to the threads \<open>Q q\<close>, all among \<open>ts\<close>, and the list of all threads to \<open>rs\<close>,
  that no thread is in two queues, and that a thread in no queue is unlinked; \<open>ts\<close> and \<open>rs\<close> differ
  only while a thread is being created. The lemmas lift the list operations
  of the \<^verbatim>\<open>dlist\<close> component to the kernel state: each changes one queue and nothing else.
\<close>

type_synonym queues = "queue \<Rightarrow> u32 list"

definition queued :: "queues \<Rightarrow> u32 \<Rightarrow> bool" where
  "queued Q t \<longleftrightarrow> (\<exists>q. t \<in> set (Q q))"

definition queues_on :: "kernel \<Rightarrow> queues \<Rightarrow> u32 list \<Rightarrow> u32 list \<Rightarrow> bool" where
  "queues_on k Q ts rs \<longleftrightarrow>
     (\<forall>q. dlist_rep (k_node k) (k_queue k q) (map RqNode (Q q)))
     \<and> dlist_rep (k_node k) (k_threads k) (map ThreadNode rs)
     \<and> (\<forall>q. set (Q q) \<subseteq> set ts)
     \<and> (\<forall>q q' t. t \<in> set (Q q) \<longrightarrow> t \<in> set (Q q') \<longrightarrow> q = q')
     \<and> (\<forall>t\<in>set ts. nd_obj (k_node k (RqNode t)) = Some t \<and> nd_obj (k_node k (ThreadNode t)) = Some t)
     \<and> (\<forall>t\<in>set ts. \<not> queued Q t \<longrightarrow> unlinked (k_node k) (RqNode t))
     \<and> distinct ts \<and> length ts < 2 ^ 32"

abbreviation queues_ok :: "kernel \<Rightarrow> queues \<Rightarrow> u32 list \<Rightarrow> bool" where
  "queues_ok k Q ts \<equiv> queues_on k Q ts ts"

text \<open>The state with other links in one queue.\<close>

definition relinked :: "kernel \<Rightarrow> queue \<Rightarrow> (node_ptr, u32) nheap \<times> node_ptr dlist \<Rightarrow> kernel" where
  "relinked k q s = k\<lparr>k_node := fst s, k_queue := (k_queue k)(q := snd s)\<rparr>"

lemma relinked_simps [simp]:
  "k_thread (relinked k q s) = k_thread k" "k_threads (relinked k q s) = k_threads k"
  "k_mm (relinked k q s) = k_mm k" "k_idle (relinked k q s) = k_idle k" "k_wake (relinked k q s) = k_wake k"
  "curr_thread (relinked k q s) = curr_thread k" "next_thread (relinked k q s) = next_thread k"
  "scheduler_status (relinked k q s) = scheduler_status k" "k_tick (relinked k q s) = k_tick k"
  "stats_tick (relinked k q s) = stats_tick k" "reschedule_pending (relinked k q s) = reschedule_pending k"
  "k_tid (relinked k q s) = k_tid k" "k_rb (relinked k q s) = k_rb k" "k_hw (relinked k q s) = k_hw k"
  "k_node (relinked k q s) = fst s" "k_queue (relinked k q s) = (k_queue k)(q := snd s)"
  by (simp_all add: relinked_def)

lemma queues_on_cong:
  "k_node k' = k_node k \<Longrightarrow> k_queue k' = k_queue k \<Longrightarrow> k_threads k' = k_threads k \<Longrightarrow>
   queues_on k' Q ts rs = queues_on k Q ts rs"
  by (simp add: queues_on_def)

lemma upd_thread_simps [simp]:
  "k_node (upd_thread t f k) = k_node k" "k_queue (upd_thread t f k) = k_queue k"
  "k_threads (upd_thread t f k) = k_threads k" "k_mm (upd_thread t f k) = k_mm k"
  "k_idle (upd_thread t f k) = k_idle k" "k_wake (upd_thread t f k) = k_wake k"
  "curr_thread (upd_thread t f k) = curr_thread k" "next_thread (upd_thread t f k) = next_thread k"
  "scheduler_status (upd_thread t f k) = scheduler_status k" "k_tick (upd_thread t f k) = k_tick k"
  "stats_tick (upd_thread t f k) = stats_tick k" "reschedule_pending (upd_thread t f k) = reschedule_pending k"
  "k_tid (upd_thread t f k) = k_tid k" "k_rb (upd_thread t f k) = k_rb k" "k_hw (upd_thread t f k) = k_hw k"
  "k_thread (upd_thread t f k) = (k_thread k)(t := f (k_thread k t))"
  by (simp_all add: upd_thread_def)

lemma emit_simps [simp]:
  "k_node (emit e k) = k_node k" "k_queue (emit e k) = k_queue k"
  "k_threads (emit e k) = k_threads k" "k_mm (emit e k) = k_mm k"
  "k_idle (emit e k) = k_idle k" "k_wake (emit e k) = k_wake k"
  "curr_thread (emit e k) = curr_thread k" "next_thread (emit e k) = next_thread k"
  "scheduler_status (emit e k) = scheduler_status k" "k_tick (emit e k) = k_tick k"
  "stats_tick (emit e k) = stats_tick k" "reschedule_pending (emit e k) = reschedule_pending k"
  "k_tid (emit e k) = k_tid k" "k_rb (emit e k) = k_rb k" "k_thread (emit e k) = k_thread k"
  by (simp_all add: emit_def)

lemma queues_onD:
  assumes "queues_on k Q ts rs"
  shows queue_rep: "\<And>q. dlist_rep (k_node k) (k_queue k q) (map RqNode (Q q))"
    and threads_rep: "dlist_rep (k_node k) (k_threads k) (map ThreadNode rs)"
    and queue_sub: "\<And>q t. t \<in> set (Q q) \<Longrightarrow> t \<in> set ts"
    and queue_uniq: "\<And>q q' t. t \<in> set (Q q) \<Longrightarrow> t \<in> set (Q q') \<Longrightarrow> q = q'"
    and queue_obj: "\<And>t. t \<in> set ts \<Longrightarrow> nd_obj (k_node k (RqNode t)) = Some t"
    and thread_obj: "\<And>t. t \<in> set ts \<Longrightarrow> nd_obj (k_node k (ThreadNode t)) = Some t"
    and not_queued: "\<And>t. t \<in> set ts \<Longrightarrow> \<not> queued Q t \<Longrightarrow> unlinked (k_node k) (RqNode t)"
    and threads_distinct: "distinct ts" "length ts < 2 ^ 32"
  using assms unfolding queues_on_def by (simp, simp, blast, metis, simp, simp, simp, simp, simp)

lemma on_queue_relinked:
  "f (k_node k, k_queue k q) = Inr s \<Longrightarrow> on_queue q f k = Inr (relinked k q s)"
  by (cases s) (simp add: on_queue_def relinked_def)

lemma relinked_ok:
  assumes ok: "queues_on k Q ts rs"
    and post: "dl_post (k_node k) (RqNode ` A) (map RqNode ys) s"
    and A: "\<And>q' t. t \<in> A \<Longrightarrow> t \<in> set (Q q') \<Longrightarrow> q' = q"
    and ys: "set ys \<subseteq> A" "A \<subseteq> set ts" "\<And>t. t \<in> A \<Longrightarrow> t \<notin> set ys \<Longrightarrow> unlinked (fst s) (RqNode t)"
    and Q: "set (Q q) \<subseteq> A"
  shows "queues_on (relinked k q s) (Q(q := ys)) ts rs"
proof -
  have frame: "fst s p = k_node k p" if "p \<notin> RqNode ` A" for p using post that by (auto simp: dl_post_def)
  have obj: "nd_obj (fst s p) = nd_obj (k_node k p)" for p using post by (auto simp: dl_post_def)
  have rep: "dlist_rep (fst s) (snd s) (map RqNode ys)" using post by (auto simp: dl_post_def)
  have other: "dlist_rep (fst s) (k_queue k q') (map RqNode (Q q'))" if "q' \<noteq> q" for q'
    using A that by (intro dlist_rep_frame [OF queue_rep [OF ok]] frame) auto
  have threads: "dlist_rep (fst s) (k_threads k) (map ThreadNode rs)"
    by (intro dlist_rep_frame [OF threads_rep [OF ok]] frame) auto
  have unl: "unlinked (fst s) (RqNode t)" if t: "t \<in> set ts" "\<not> queued (Q(q := ys)) t" for t
  proof (cases "t \<in> A")
    case True
    moreover have "t \<notin> set ys" using t(2) unfolding queued_def by (metis fun_upd_same)
    ultimately show ?thesis using ys(3) by blast
  next
    case False
    then have "\<not> queued Q t" using t(2) Q unfolding queued_def by (metis fun_upd_other subsetD)
    moreover have "fst s (RqNode t) = k_node k (RqNode t)" using False by (intro frame) auto
    ultimately show ?thesis using not_queued [OF ok t(1)] by (simp add: unlinked_def)
  qed
  have uniq: "q1 = q2" if "t \<in> set ((Q(q := ys)) q1)" "t \<in> set ((Q(q := ys)) q2)" for q1 q2 t
    using that A ys(1) queue_uniq [OF ok, of t] by (auto split: if_splits)
  have sub: "t \<in> set ts" if "t \<in> set ((Q(q := ys)) q1)" for q1 t
    using that ys queue_sub [OF ok, of t] by (auto split: if_splits)
  have reps: "dlist_rep (fst s) (((k_queue k)(q := snd s)) q') (map RqNode ((Q(q := ys)) q'))" for q'
    using rep other by simp
  show ?thesis
    unfolding queues_on_def
    by (intro conjI allI ballI impI subsetI)
      (simp_all only: relinked_simps reps threads unl obj queue_obj [OF ok] thread_obj [OF ok]
         threads_distinct [OF ok] not_False_eq_True,
       (erule sub | erule (1) uniq)+)
qed

lemma queue_distinct:
  assumes "queues_on k Q ts rs"
  shows "distinct (Q q)" "distinct ts" "length ts < 2 ^ 32"
  using queue_rep [OF assms, of q] threads_distinct [OF assms] by (auto simp: dlist_rep_def distinct_map)

lemma queue_length:
  assumes "queues_on k Q ts rs" "t \<in> set ts" "t \<notin> set (Q q)"
  shows "Suc (length (Q q)) < 2 ^ 32"
proof -
  note d = queue_distinct [OF assms(1)]
  have "card (insert t (set (Q q))) \<le> card (set ts)"
    using assms(2) queue_sub [OF assms(1)] by (intro card_mono) auto
  then show ?thesis using d assms(3) by (simp add: distinct_card)
qed

lemma enqueue_ok:
  assumes ok: "queues_on k Q ts rs" and t: "t \<in> set ts" "\<not> queued Q t"
  shows "\<exists>s. on_queue q (dlist_insert_last (RqNode t)) k = Inr (relinked k q s)
    \<and> queues_on (relinked k q s) (Q(q := Q q @ [t])) ts rs \<and> nd_next (fst s (RqNode t)) = None
    \<and> (\<forall>x. fst s (ThreadNode x) = k_node k (ThreadNode x))"
proof -
  have no: "t \<notin> set (Q q)" for q using t by (auto simp: queued_def)
  have "dl_yields (dlist_insert_last (RqNode t) (k_node k, k_queue k q)) (k_node k)
      (insert (RqNode t) (set (map RqNode (Q q)))) (map RqNode (Q q) @ [RqNode t])"
    using queue_length [OF ok t(1) no] no
    by (intro insert_last_yields queue_rep [OF ok] not_queued [OF ok] t) auto
  then obtain s where s: "dlist_insert_last (RqNode t) (k_node k, k_queue k q) = Inr s"
    "dl_post (k_node k) (RqNode ` insert t (set (Q q))) (map RqNode (Q q @ [t])) s"
    by (auto simp: dl_yields_def)
  have "queues_on (relinked k q s) (Q(q := Q q @ [t])) ts rs"
    by (rule relinked_ok [OF ok s(2)])
      (use t(1) no queue_sub [OF ok] queue_uniq [OF ok] in auto)
  moreover have "nd_next (fst s (RqNode t)) = None"
    using s(2) by (auto simp: dl_post_def dlist_rep_def split: prod.splits)
  moreover have "\<forall>x. fst s (ThreadNode x) = k_node k (ThreadNode x)"
    using s(2) by (auto simp: dl_post_def split: prod.splits)
  ultimately show ?thesis using on_queue_relinked [where f="dlist_insert_last (RqNode t)", OF s(1)] by blast
qed

lemma remove_ok:
  assumes ok: "queues_on k Q ts rs" and t: "t \<in> set (Q q)"
  shows "\<exists>s. queue_remove (RqNode t) q k = Inr (relinked k q s)
    \<and> queues_on (relinked k q s) (Q(q := remove1 t (Q q))) ts rs
    \<and> (\<forall>x. fst s (ThreadNode x) = k_node k (ThreadNode x))"
proof -
  obtain as bs where Q: "Q q = as @ t # bs" using t by (auto simp: in_set_conv_decomp)
  have rep: "dlist_rep (k_node k) (k_queue k q) (map RqNode as @ RqNode t # map RqNode bs)"
    using queue_rep [OF ok, of q] Q by simp
  have r: "remove1 t (Q q) = as @ bs" using queue_distinct(1) [OF ok, of q] by (simp add: Q remove1_append)
  obtain s where s: "dlist_remove (RqNode t) (k_node k, k_queue k q) = Inr (RqNode t, s)"
    "dl_post (k_node k) (RqNode ` set (Q q)) (map RqNode (as @ bs)) s" "unlinked (fst s) (RqNode t)"
    using remove_removes [OF rep] Q unfolding dl_removes_def by (auto simp: image_Un)
  have "queues_on (relinked k q s) (Q(q := as @ bs)) ts rs"
    by (rule relinked_ok [OF ok s(2)])
      (use Q s(3) queue_sub [OF ok, of _ q] queue_uniq [OF ok] in auto)
  moreover have "rbind (dlist_remove (RqNode t) (k_node k, k_queue k q)) (\<lambda>(_, s'). Inr s') = Inr s"
    using s(1) by simp
  moreover have "\<forall>x. fst s (ThreadNode x) = k_node k (ThreadNode x)"
    using s(2) by (auto simp: dl_post_def split: prod.splits)
  ultimately show ?thesis
    using on_queue_relinked [of "\<lambda>s. rbind (dlist_remove (RqNode t) s) (\<lambda>(_, s'). Inr s')" k q] r
    unfolding queue_remove_def by metis
qed

lemma remove_first_ok:
  assumes ok: "queues_on k Q ts rs" and Q: "Q q = t # bs"
  shows "\<exists>s. queue_remove_first q k = Inr (RqNode t, relinked k q s)
    \<and> queues_on (relinked k q s) (Q(q := bs)) ts rs \<and> obj_of (RqNode t) (relinked k q s) = Inr t"
proof -
  have rep: "dlist_rep (k_node k) (k_queue k q) (RqNode t # map RqNode bs)"
    using queue_rep [OF ok, of q] Q by simp
  have t: "t \<in> set ts" using queue_sub [OF ok, of t q] Q by simp
  obtain s where s: "dlist_remove_first (k_node k, k_queue k q) = Inr (RqNode t, s)"
    "dl_post (k_node k) (RqNode ` set (Q q)) (map RqNode bs) s" "unlinked (fst s) (RqNode t)"
    using remove_first_removes [OF rep] Q unfolding dl_removes_def by auto
  have "queues_on (relinked k q s) (Q(q := bs)) ts rs"
    by (rule relinked_ok [OF ok s(2)])
      (use Q s(3) queue_sub [OF ok, of _ q] queue_uniq [OF ok] in auto)
  moreover have "obj_of (RqNode t) (relinked k q s) = Inr t"
    using s(2) queue_obj [OF ok t] by (auto simp: dl_post_def obj_of_def split: prod.splits)
  moreover have "queue_remove_first q k = Inr (RqNode t, relinked k q s)"
    using s(1) unfolding queue_remove_first_def by (simp add: relinked_def split: prod.split)
  ultimately show ?thesis by blast
qed

lemma insert_before_ok:
  assumes ok: "queues_on k Q ts rs" and t: "t \<in> set ts" "\<not> queued Q t" and Q: "Q q = as @ b # bs"
  shows "\<exists>s. on_queue q (dlist_insert_before (RqNode t) (RqNode b)) k = Inr (relinked k q s)
    \<and> queues_on (relinked k q s) (Q(q := as @ t # b # bs)) ts rs"
proof -
  have rep: "dlist_rep (k_node k) (k_queue k q) (map RqNode as @ RqNode b # map RqNode bs)"
    using queue_rep [OF ok, of q] Q by simp
  have no: "t \<notin> set (Q q)" for q using t by (auto simp: queued_def)
  have "dl_yields (dlist_insert_before (RqNode t) (RqNode b) (k_node k, k_queue k q)) (k_node k)
      (insert (RqNode t) (set (map RqNode as @ RqNode b # map RqNode bs)))
      (map RqNode as @ RqNode t # RqNode b # map RqNode bs)"
    using queue_length [OF ok t(1) no, of q] no [of q] Q
    by (intro insert_before_yields rep not_queued [OF ok] t) auto
  then obtain s where s: "dlist_insert_before (RqNode t) (RqNode b) (k_node k, k_queue k q) = Inr s"
    "dl_post (k_node k) (RqNode ` insert t (set (Q q))) (map RqNode (as @ t # b # bs)) s"
    using Q unfolding dl_yields_def by (auto simp: image_Un insert_commute)
  have "queues_on (relinked k q s) (Q(q := as @ t # b # bs)) ts rs"
    by (rule relinked_ok [OF ok s(2)])
      (use t(1) no Q queue_sub [OF ok, of _ q] queue_uniq [OF ok] in auto)
  then show ?thesis using on_queue_relinked [where f="dlist_insert_before (RqNode t) (RqNode b)", OF s(1)] by blast
qed

lemma insert_first_ok:
  assumes ok: "queues_on k Q ts rs" and t: "t \<in> set ts" "\<not> queued Q t" and Q: "Q q = []"
  shows "\<exists>s. on_queue q (dlist_insert_first (RqNode t)) k = Inr (relinked k q s)
    \<and> queues_on (relinked k q s) (Q(q := [t])) ts rs"
proof -
  have rep: "dlist_rep (k_node k) (k_queue k q) []" using queue_rep [OF ok, of q] Q by simp
  have no: "t \<notin> set (Q q)" for q using t by (auto simp: queued_def)
  have "dl_yields (dlist_insert_first (RqNode t) (k_node k, k_queue k q)) (k_node k)
      (insert (RqNode t) (set [])) [RqNode t]"
    by (intro insert_first_yields rep not_queued [OF ok] t) auto
  then obtain s where s: "dlist_insert_first (RqNode t) (k_node k, k_queue k q) = Inr s"
    "dl_post (k_node k) (RqNode ` {t}) (map RqNode [t]) s"
    unfolding dl_yields_def by auto
  have "queues_on (relinked k q s) (Q(q := [t])) ts rs"
    by (rule relinked_ok [OF ok s(2)]) (use t(1) no Q in auto)
  then show ?thesis using on_queue_relinked [where f="dlist_insert_first (RqNode t)", OF s(1)] by blast
qed

lemma queue_first:
  assumes "queues_on k Q ts rs"
  shows "dl_first (k_queue k q) = map_option RqNode (head_or (Q q) None)"
proof -
  have "dl_first (k_queue k q) = head_or (map RqNode (Q q)) None"
    using assms by (simp add: queues_on_def dlist_rep_def)
  then show ?thesis by (cases "Q q") auto
qed

lemma queue_next:
  assumes "queues_on k Q ts rs" "Q q = as @ t # bs"
  shows "nd_next (k_node k (RqNode t)) = map_option RqNode (head_or bs None)"
proof -
  have "dlist_rep (k_node k) (k_queue k q) (map RqNode as @ RqNode t # map RqNode bs)"
    using queue_rep [OF assms(1), of q] assms(2) by simp
  then show ?thesis by (cases bs) (auto simp: dlist_rep_def)
qed

end
