(* ===== verification/Sched_Invariant.thy ===== *)
theory Sched_Invariant
  imports Sched_Queues
begin

text \<open>
  The invariant of the scheduler and the step of the abstract scheduler that \<^verbatim>\<open>systick_exception\<close>
  implements. The abstract scheduler is a function on the queues as lists: wake the first sleeping
  thread if it has expired, put the running thread at the back of the queue of its class, take the
  first thread of the first non-empty queue in the order real-time, application, background, or
  else the idle thread.
\<close>

section \<open>The abstract scheduler\<close>

fun home :: "sched_class \<Rightarrow> queue option" where
  "home REAL_TIME = Some Rt_rq"
| "home APPLICATION = Some App_rq"
| "home BACKGROUND = Some Background_rq"
| "home IDLE = None"

definition put_ready :: "(u32 \<Rightarrow> thread) \<Rightarrow> u32 \<Rightarrow> queues \<Rightarrow> queues" where
  "put_ready th t Q = (case home (class_of (th t)) of Some q \<Rightarrow> Q(q := Q q @ [t]) | None \<Rightarrow> Q)"

definition spec_wake :: "(u32 \<Rightarrow> thread) \<Rightarrow> u64 \<Rightarrow> queues \<Rightarrow> queues" where
  "spec_wake th now Q = (case Q Sleep_q of
       [] \<Rightarrow> Q
     | t # rest \<Rightarrow> if tick_to_wake (th t) < now then put_ready th t (Q(Sleep_q := rest)) else Q)"

definition spec_yield :: "(u32 \<Rightarrow> thread) \<Rightarrow> u32 \<Rightarrow> queues \<Rightarrow> queues" where
  "spec_yield th c Q = (if tick_to_wake (th c) = 0 then put_ready th c Q else Q)"

definition spec_pick :: "u32 \<Rightarrow> queues \<Rightarrow> u32 \<times> queues" where
  "spec_pick i Q = (case Q Rt_rq of t # r \<Rightarrow> (t, Q(Rt_rq := r)) | [] \<Rightarrow>
     case Q App_rq of t # r \<Rightarrow> (t, Q(App_rq := r)) | [] \<Rightarrow>
     case Q Background_rq of t # r \<Rightarrow> (t, Q(Background_rq := r)) | [] \<Rightarrow> (i, Q))"

definition spec_tick :: "(u32 \<Rightarrow> thread) \<Rightarrow> u64 \<Rightarrow> u32 \<Rightarrow> u32 \<Rightarrow> queues \<Rightarrow> u32 \<times> queues" where
  "spec_tick th now i c Q = spec_pick i (spec_yield th c (spec_wake th now Q))"

section \<open>The invariant\<close>

fun thread_fits :: "queue \<Rightarrow> thread \<Rightarrow> bool" where
  "thread_fits Rt_rq x \<longleftrightarrow> class_of x = REAL_TIME \<and> rq_list x = Some Rt_rq \<and> tick_to_wake x = 0"
| "thread_fits App_rq x \<longleftrightarrow> class_of x = APPLICATION \<and> rq_list x = None \<and> tick_to_wake x = 0"
| "thread_fits Background_rq x \<longleftrightarrow> class_of x = BACKGROUND \<and> rq_list x = None \<and> tick_to_wake x = 0"
| "thread_fits Sleep_q x \<longleftrightarrow> class_of x \<noteq> IDLE \<and> rq_list x = Some Sleep_q \<and> tick_to_wake x \<noteq> 0"
| "thread_fits Blocked_q x \<longleftrightarrow> class_of x = REAL_TIME \<and> rq_list x = Some Blocked_q"

definition unqueued_fits :: "thread \<Rightarrow> bool" where
  "unqueued_fits x \<longleftrightarrow> rq_list x = None \<and> tick_to_wake x = 0"

definition sleep_sorted :: "kernel \<Rightarrow> queues \<Rightarrow> bool" where
  "sleep_sorted k Q \<longleftrightarrow> sorted (map (\<lambda>t. tick_to_wake (k_thread k t)) (Q Sleep_q))"

text \<open>The cached tick never misses the first sleeping thread.\<close>

definition wake_ok :: "kernel \<Rightarrow> queues \<Rightarrow> bool" where
  "wake_ok k Q \<longleftrightarrow> (case Q Sleep_q of [] \<Rightarrow> True
     | t # _ \<Rightarrow> k_wake k \<noteq> 0 \<and> k_wake k \<le> tick_to_wake (k_thread k t))"

text \<open>\<open>H\<close> is the set of threads in no queue; it contains the idle thread \<open>i\<close>.\<close>

definition core_ok :: "kernel \<Rightarrow> queues \<Rightarrow> u32 list \<Rightarrow> u32 \<Rightarrow> u32 set \<Rightarrow> bool" where
  "core_ok k Q ts i H \<longleftrightarrow>
     queues_ok k Q ts
     \<and> (\<forall>q. \<forall>t\<in>set (Q q). thread_fits q (k_thread k t))
     \<and> sleep_sorted k Q \<and> wake_ok k Q
     \<and> k_idle k = Some i \<and> i \<in> H \<and> H \<subseteq> set ts
     \<and> (\<forall>t\<in>set ts. class_of (k_thread k t) = IDLE \<longleftrightarrow> t = i)
     \<and> (\<forall>t\<in>set ts. t \<in> H \<longleftrightarrow> \<not> queued Q t)
     \<and> (\<forall>t\<in>H. unqueued_fits (k_thread k t))"

lemma core_okD:
  assumes "core_ok k Q ts i H"
  shows core_queues: "queues_ok k Q ts"
    and core_fits: "\<And>q t. t \<in> set (Q q) \<Longrightarrow> thread_fits q (k_thread k t)"
    and core_sorted: "sleep_sorted k Q"
    and core_wake: "wake_ok k Q"
    and core_idle: "k_idle k = Some i" "i \<in> H"
    and core_sub: "\<And>t. t \<in> H \<Longrightarrow> t \<in> set ts"
    and core_class: "\<And>t. t \<in> set ts \<Longrightarrow> class_of (k_thread k t) = IDLE \<longleftrightarrow> t = i"
    and core_free: "\<And>t. t \<in> H \<Longrightarrow> \<not> queued Q t"
    and core_all: "\<And>t. t \<in> set ts \<Longrightarrow> t \<notin> H \<Longrightarrow> queued Q t"
    and core_unqueued: "\<And>t. t \<in> H \<Longrightarrow> unqueued_fits (k_thread k t)"
  using assms unfolding core_ok_def by (simp, simp, simp, simp, simp, simp, blast, simp, blast, blast, blast)

text \<open>
  The invariant between two ticks: \<open>c\<close> is the current thread. It is in no queue, unless it has
  called \<^verbatim>\<open>thread_sleep\<close> and waits for the reschedule it pended; then its delay is at least a tick.
\<close>

definition sched_ok :: "kernel \<Rightarrow> queues \<Rightarrow> u32 list \<Rightarrow> u32 \<Rightarrow> u32 \<Rightarrow> bool" where
  "sched_ok k Q ts i c \<longleftrightarrow>
     curr_thread k = Some c \<and> c \<in> set ts
     \<and> (if c \<in> set (Q Sleep_q)
        then core_ok k Q ts i {i} \<and> unat (k_tick k) + SYSTICK_RVR \<le> unat (tick_to_wake (k_thread k c))
        else core_ok k Q ts i {i, c})"

section \<open>What the steps leave alone\<close>

text \<open>The fields of a thread that no scheduling step changes.\<close>

definition fixed_part :: "thread \<Rightarrow> sched_class \<times> u8 \<times> u32 \<times> u32 \<times> u32 \<times> u32" where
  "fixed_part x = (class_of x, exit_pending x, tid x, code_addr x, stack_base x, stack_pointer x)"

definition same_core :: "kernel \<Rightarrow> kernel \<Rightarrow> bool" where
  "same_core k k' \<longleftrightarrow> k_mm k' = k_mm k \<and> k_threads k' = k_threads k \<and> k_idle k' = k_idle k
     \<and> curr_thread k' = curr_thread k \<and> scheduler_status k' = scheduler_status k \<and> k_tick k' = k_tick k
     \<and> k_tid k' = k_tid k \<and> (\<forall>t. fixed_part (k_thread k' t) = fixed_part (k_thread k t))"

lemma same_core_refl [simp]: "same_core k k"
  by (simp add: same_core_def)

lemma same_core_trans: "same_core k k1 \<Longrightarrow> same_core k1 k2 \<Longrightarrow> same_core k k2"
  by (simp add: same_core_def)

lemma same_core_class: "same_core k k' \<Longrightarrow> class_of (k_thread k' t) = class_of (k_thread k t)"
  by (auto simp: same_core_def fixed_part_def)

lemma same_core_exit: "same_core k k' \<Longrightarrow> exit_pending (k_thread k' t) = exit_pending (k_thread k t)"
  by (auto simp: same_core_def fixed_part_def)

lemma queued_upd_append: "queued (Q(q := Q q @ [t])) x \<longleftrightarrow> x = t \<or> queued Q x"
  by (auto simp: queued_def)

lemma queued_upd_tail: "distinct (t # r) \<Longrightarrow> (\<And>q'. t \<in> set (Q q') \<Longrightarrow> q' = q) \<Longrightarrow> Q q = t # r \<Longrightarrow>
    queued (Q(q := r)) x \<longleftrightarrow> x \<noteq> t \<and> queued Q x"
  unfolding queued_def by (metis distinct.simps(2) fun_upd_apply set_ConsD list.set_intros(1,2))

section \<open>Putting a thread into the queue of its class\<close>

lemma class_enqueue_ok:
  assumes ok: "core_ok k Q ts i H" and t: "t \<in> H" "t \<noteq> i"
  shows "\<exists>k'. class_enqueue (class_of (k_thread k t)) t k = Inr k' \<and> same_core k k'
    \<and> core_ok k' (put_ready (k_thread k) t Q) ts i (H - {t}) \<and> nd_next (k_node k' (RqNode t)) = None
    \<and> k_wake k' = k_wake k \<and> (\<forall>x. tick_to_wake (k_thread k' x) = tick_to_wake (k_thread k x))"
proof -
  note d = core_okD [OF ok]
  have ts: "t \<in> set ts" and no: "\<not> queued Q t" using t d by auto
  have cl: "class_of (k_thread k t) \<noteq> IDLE" using d(8) [OF ts] t(2) by simp
  then obtain q where q: "home (class_of (k_thread k t)) = Some q" by (cases "class_of (k_thread k t)") auto
  obtain s where s: "on_queue q (dlist_insert_last (RqNode t)) k = Inr (relinked k q s)"
    "queues_ok (relinked k q s) (Q(q := Q q @ [t])) ts" "nd_next (fst s (RqNode t)) = None"
    using enqueue_ok [OF d(1) ts no, of q] by blast
  have qs: "q \<noteq> Sleep_q" "q \<noteq> Blocked_q" using q by (cases "class_of (k_thread k t)"; auto)+
  have all: "(x \<in> H - {t}) = (\<not> queued (Q(q := Q q @ [t])) x)" if "x \<in> set ts" for x
    using that d(9,10) by (auto simp: queued_upd_append)
  define k' where "k' = (if q = Rt_rq then upd_thread t (\<lambda>x. x\<lparr>rq_list := Some Rt_rq\<rparr>) (relinked k q s) else relinked k q s)"
  have r: "class_enqueue (class_of (k_thread k t)) t k = Inr k'"
    using q s(1) by (cases "class_of (k_thread k t)")
      (auto simp: k'_def rt_enqueue_def app_enqueue_def background_enqueue_def)
  have Q: "queues_ok k' (Q(q := Q q @ [t])) ts"
    using s(2) queues_on_cong [of k' "relinked k q s"] by (auto simp: k'_def)
  have fit: "thread_fits q' (k_thread k' x)" if "x \<in> set ((Q(q := Q q @ [t])) q')" for q' x
  proof (cases "x = t")
    case True
    then have "q' = q" using that no by (auto simp: queued_def split: if_splits)
    then show ?thesis using True q d(11) [OF t(1)]
      by (cases "class_of (k_thread k t)") (auto simp: k'_def unqueued_fits_def)
  next
    case False
    then have "x \<in> set (Q q')" using that by (auto split: if_splits)
    then show ?thesis using d(2) [of x q'] False by (auto simp: k'_def)
  qed
  have th: "tick_to_wake (k_thread k' x) = tick_to_wake (k_thread k x)" for x by (simp add: k'_def)
  have same: "same_core k k'" by (auto simp: k'_def same_core_def fixed_part_def)
  have "core_ok k' (Q(q := Q q @ [t])) ts i (H - {t})"
    unfolding core_ok_def
  proof (intro conjI allI ballI)
    show "sleep_sorted k' (Q(q := Q q @ [t]))" using d(3) qs th by (simp add: sleep_sorted_def)
    show "wake_ok k' (Q(q := Q q @ [t]))" using d(4) qs th
      by (auto simp: wake_ok_def k'_def split: list.splits)
    show "k_idle k' = Some i" using d(5) by (simp add: k'_def)
    show "unqueued_fits (k_thread k' x)" if "x \<in> H - {t}" for x
      using that d(11) by (auto simp: k'_def)
    show "(class_of (k_thread k' x) = IDLE) = (x = i)" if "x \<in> set ts" for x
      using d(8) [OF that] same_core_class [OF same] by simp
  qed (use Q fit d(6,7) t all in auto)
  moreover have "put_ready (k_thread k) t Q = Q(q := Q q @ [t])" using q by (simp add: put_ready_def)
  moreover have "nd_next (k_node k' (RqNode t)) = None" using s(3) by (simp add: k'_def)
  ultimately show ?thesis using r same th by (auto simp: k'_def)
qed

section \<open>Waking sleeping threads\<close>

lemma enqueue_clear_commute:
  "rbind (class_enqueue C t k) (\<lambda>k. Inr (upd_thread t (\<lambda>x. x\<lparr>tick_to_wake := 0\<rparr>) k))
    = class_enqueue C t (upd_thread t (\<lambda>x. x\<lparr>tick_to_wake := 0\<rparr>) k)"
proof -
  have comm: "rbind (on_queue q f k) (\<lambda>k. Inr (upd_thread t g k)) = on_queue q f (upd_thread t g k)" for q f g
    by (cases "f (k_node k, k_queue k q)") (auto simp: on_queue_def upd_thread_def)
  have idle: "upd_thread t g (k\<lparr>k_idle := x\<rparr>) = (upd_thread t g k)\<lparr>k_idle := x\<rparr>" for g x
    by (simp add: upd_thread_def)
  show ?thesis
  proof (cases C)
    case REAL_TIME
    have swap: "upd_thread t (\<lambda>x. x\<lparr>tick_to_wake := 0\<rparr>) (upd_thread t (\<lambda>x. x\<lparr>rq_list := r\<rparr>) k)
        = upd_thread t (\<lambda>x. x\<lparr>rq_list := r\<rparr>) (upd_thread t (\<lambda>x. x\<lparr>tick_to_wake := 0\<rparr>) k)" for k r
      by (cases "k_thread k t") (simp add: upd_thread_def)
    show ?thesis
      unfolding REAL_TIME class_enqueue.simps rt_enqueue_def rbind_assoc rbind.simps swap comm [symmetric] ..
  qed (simp_all add: app_enqueue_def background_enqueue_def idle_enqueue_def comm idle)
qed

lemma wake_thread_ok:
  assumes ok: "core_ok k Q ts i H" and Q: "Q Sleep_q = t # rest"
  shows "\<exists>k'. wake_thread (RqNode t) t k = Inr k' \<and> same_core k k'
    \<and> core_ok k' (put_ready (k_thread k) t (Q(Sleep_q := rest))) ts i H \<and> nd_next (k_node k' (RqNode t)) = None
    \<and> k_wake k' = k_wake k \<and> (\<forall>x. x \<noteq> t \<longrightarrow> tick_to_wake (k_thread k' x) = tick_to_wake (k_thread k x))"
proof -
  note d = core_okD [OF ok]
  have tq: "t \<in> set (Q Sleep_q)" using Q by simp
  have ts: "t \<in> set ts" using queue_sub [OF d(1) tq] .
  have only: "q = Sleep_q" if "t \<in> set (Q q)" for q using queue_uniq [OF d(1) tq that] by simp
  have di: "distinct (t # rest)" using queue_distinct(1) [OF d(1), of Sleep_q] Q by simp
  have tH: "t \<notin> H" "t \<noteq> i" using tq d(6,9) by (auto simp: queued_def)
  obtain s where s: "queue_remove (RqNode t) Sleep_q k = Inr (relinked k Sleep_q s)"
    "queues_ok (relinked k Sleep_q s) (Q(Sleep_q := rest)) ts"
    using remove_ok [OF d(1) tq] Q by auto
  have fitt: "thread_fits Sleep_q (k_thread k t)" using d(2) [OF tq] .
  text \<open>The state with the thread out of its queue and its delay cleared satisfies the invariant.\<close>
  let ?k2 = "upd_thread t (\<lambda>x. x\<lparr>rq_list := None\<rparr>) (relinked k Sleep_q s)"
  let ?k3 = "upd_thread t (\<lambda>x. x\<lparr>tick_to_wake := 0\<rparr>) ?k2"
  have qd: "queued (Q(Sleep_q := rest)) x \<longleftrightarrow> x \<noteq> t \<and> queued Q x" for x
    using queued_upd_tail [OF di, of Q Sleep_q] only Q by simp
  have mid: "core_ok ?k3 (Q(Sleep_q := rest)) ts i (insert t H)"
    unfolding core_ok_def
  proof (intro conjI allI ballI)
    show "queues_ok ?k3 (Q(Sleep_q := rest)) ts" using s(2) by (subst queues_on_cong [of _ "relinked k Sleep_q s"]) simp_all
    show "thread_fits q (k_thread ?k3 x)" if "x \<in> set ((Q(Sleep_q := rest)) q)" for q x
    proof -
      have "x \<noteq> t" "x \<in> set (Q q)" using that di only Q by (auto split: if_splits)
      then show ?thesis using d(2) by simp
    qed
    show "sleep_sorted ?k3 (Q(Sleep_q := rest))"
    proof -
      have "map (\<lambda>x. tick_to_wake (k_thread ?k3 x)) rest = map (\<lambda>x. tick_to_wake (k_thread k x)) rest"
        using di by auto
      then show ?thesis using d(3) Q by (simp add: sleep_sorted_def del: map_eq_conv upd_thread_simps)
    qed
    show "wake_ok ?k3 (Q(Sleep_q := rest))"
      using d(3,4) di Q by (auto simp: wake_ok_def sleep_sorted_def split: list.splits intro: order_trans)
    show "(class_of (k_thread ?k3 x) = IDLE) = (x = i)" if "x \<in> set ts" for x using d(8) [OF that] by auto
    show "(x \<in> insert t H) = (\<not> queued (Q(Sleep_q := rest)) x)" if "x \<in> set ts" for x
      using d(9,10) that by (auto simp: qd)
    show "unqueued_fits (k_thread ?k3 x)" if "x \<in> insert t H" for x
      using that tH d(11) by (auto simp: unqueued_fits_def)
  qed (use d(5-7) ts in auto)
  have same3: "same_core k ?k3" by (auto simp: same_core_def fixed_part_def)
  have cls: "class_of (k_thread ?k3 t) = class_of (k_thread k t)" by simp
  obtain k4 where k4: "class_enqueue (class_of (k_thread k t)) t ?k3 = Inr k4" "same_core ?k3 k4"
    "core_ok k4 (put_ready (k_thread ?k3) t (Q(Sleep_q := rest))) ts i (insert t H - {t})"
    "nd_next (k_node k4 (RqNode t)) = None" "k_wake k4 = k_wake ?k3"
    "\<forall>x. tick_to_wake (k_thread k4 x) = tick_to_wake (k_thread ?k3 x)"
    using class_enqueue_ok [OF mid, of t] tH(2) cls by auto
  text \<open>The code clears the delay after enqueueing; the order does not matter.\<close>
  have commute: "rbind (class_enqueue (class_of (k_thread k t)) t ?k2)
      (\<lambda>k. Inr (upd_thread t (\<lambda>x. x\<lparr>tick_to_wake := 0\<rparr>) k)) = class_enqueue (class_of (k_thread k t)) t ?k3"
    by (rule enqueue_clear_commute)
  have "wake_thread (RqNode t) t k = Inr k4"
    using s(1) k4(1) commute by (simp add: wake_thread_def)
  moreover have "put_ready (k_thread ?k3) t (Q(Sleep_q := rest)) = put_ready (k_thread k) t (Q(Sleep_q := rest))"
    by (simp add: put_ready_def)
  ultimately show ?thesis
    using k4 tH same_core_trans [OF same3 k4(2)] by auto
qed

lemma core_ok_cong:
  assumes "core_ok k Q ts i H"
    and "k_node k' = k_node k" "k_queue k' = k_queue k" "k_threads k' = k_threads k" "k_idle k' = k_idle k"
    and "wake_ok k' Q" "\<And>t. class_of (k_thread k' t) = class_of (k_thread k t)"
    and "\<And>t. rq_list (k_thread k' t) = rq_list (k_thread k t)"
    and "\<And>t. tick_to_wake (k_thread k' t) = tick_to_wake (k_thread k t)"
  shows "core_ok k' Q ts i H"
proof -
  have "thread_fits q (k_thread k' t) = thread_fits q (k_thread k t)" for q t
    using assms(7-9) by (cases q) simp_all
  moreover have "unqueued_fits (k_thread k' t) = unqueued_fits (k_thread k t)" for t
    using assms(7-9) by (simp add: unqueued_fits_def)
  ultimately show ?thesis
    using assms(1-6,7,9) queues_on_cong [OF assms(2-4)] by (simp add: core_ok_def sleep_sorted_def)
qed

definition first_wake :: "kernel \<Rightarrow> queues \<Rightarrow> u64" where
  "first_wake k Q = (case Q Sleep_q of [] \<Rightarrow> 0 | t # _ \<Rightarrow> tick_to_wake (k_thread k t))"

lemma update_tick_ok:
  assumes ok: "core_ok k Q ts i H"
  shows "update_tick_to_wake k = Inr (k\<lparr>k_wake := first_wake k Q\<rparr>)"
    and "core_ok (k\<lparr>k_wake := first_wake k Q\<rparr>) Q ts i H"
proof -
  note d = core_okD [OF ok]
  have obj: "obj_of (RqNode t) k = Inr t" if "t \<in> set (Q Sleep_q)" for t
    using queue_obj [OF d(1) queue_sub [OF d(1) that]] by (simp add: obj_of_def)
  show "update_tick_to_wake k = Inr (k\<lparr>k_wake := first_wake k Q\<rparr>)"
    using queue_first [OF d(1), of Sleep_q] obj
    by (cases "Q Sleep_q") (auto simp: update_tick_to_wake_def first_wake_def)
  have "wake_ok (k\<lparr>k_wake := first_wake k Q\<rparr>) Q"
    using d(2) [of _ Sleep_q] by (auto simp: wake_ok_def first_wake_def split: list.splits)
  then show "core_ok (k\<lparr>k_wake := first_wake k Q\<rparr>) Q ts i H"
    by (intro core_ok_cong [OF ok]) simp_all
qed

lemma expired_from_ok:
  assumes ok: "core_ok k Q ts i H"
  shows "\<exists>k'. expired_from (dl_first (k_queue k Sleep_q)) k = Some (Inr k') \<and> same_core k k'
    \<and> core_ok k' (spec_wake (k_thread k) (k_tick k) Q) ts i H
    \<and> (\<forall>x. \<not> tick_to_wake (k_thread k x) < k_tick k \<longrightarrow> tick_to_wake (k_thread k' x) = tick_to_wake (k_thread k x))"
proof (cases "Q Sleep_q")
  case Nil
  then show ?thesis
    using ok queue_first [OF core_queues [OF ok], of Sleep_q]
    by (auto simp: expired_from.simps spec_wake_def intro!: exI [of _ k])
next
  case (Cons t rest)
  note d = core_okD [OF ok]
  have first: "dl_first (k_queue k Sleep_q) = Some (RqNode t)"
    using queue_first [OF d(1), of Sleep_q] Cons by simp
  have obj: "nd_obj (k_node k (RqNode t)) = Some t"
    using queue_obj [OF d(1) queue_sub [OF d(1), of t Sleep_q]] Cons by simp
  show ?thesis
  proof (cases "tick_to_wake (k_thread k t) < k_tick k")
    case False
    then show ?thesis using ok first obj Cons
      by (auto simp: expired_from.simps spec_wake_def intro!: exI [of _ k])
  next
    case True
    obtain k' where k': "wake_thread (RqNode t) t k = Inr k'" "same_core k k'"
      "core_ok k' (put_ready (k_thread k) t (Q(Sleep_q := rest))) ts i H" "nd_next (k_node k' (RqNode t)) = None"
      "\<forall>x. x \<noteq> t \<longrightarrow> tick_to_wake (k_thread k' x) = tick_to_wake (k_thread k x)"
      using wake_thread_ok [OF ok Cons] by blast
    have "expired_from (Some (RqNode t)) k = Some (Inr k')"
      using obj True k'(1,4) expired_from.simps [of None k'] by (subst expired_from.simps) simp
    then show ?thesis using first k' Cons True by (auto simp: spec_wake_def)
  qed
qed

lemma process_expired_ok:
  assumes ok: "core_ok k Q ts i H"
  shows "\<exists>k'. process_expired_delays k = Inr k' \<and> same_core k k'
    \<and> core_ok k' (spec_wake (k_thread k) (k_tick k) Q) ts i H
    \<and> (\<forall>x. \<not> tick_to_wake (k_thread k x) < k_tick k \<longrightarrow> tick_to_wake (k_thread k' x) = tick_to_wake (k_thread k x))"
proof (cases "k_wake k \<le> k_tick k \<and> k_wake k \<noteq> 0")
  case True
  let ?Q = "spec_wake (k_thread k) (k_tick k) Q"
  obtain k1 where k1: "expired_from (dl_first (k_queue k Sleep_q)) k = Some (Inr k1)" "same_core k k1"
    "core_ok k1 ?Q ts i H"
    "\<forall>x. \<not> tick_to_wake (k_thread k x) < k_tick k \<longrightarrow> tick_to_wake (k_thread k1 x) = tick_to_wake (k_thread k x)"
    using expired_from_ok [OF ok] by blast
  have "same_core k (k1\<lparr>k_wake := first_wake k1 ?Q\<rparr>)" using k1(2) by (simp add: same_core_def)
  then show ?thesis
    using True k1 update_tick_ok [OF k1(3)] by (simp add: process_expired_delays_def)
next
  case False
  have "spec_wake (k_thread k) (k_tick k) Q = Q"
    using False core_wake [OF ok] by (auto simp: spec_wake_def wake_ok_def split: list.splits)
  then show ?thesis using ok by (simp only: process_expired_delays_def if_not_P [OF False]) auto
qed

section \<open>Picking the next thread\<close>

lemma class_pick_ok:
  assumes ok: "core_ok k Q ts i H" and C: "home C = Some q"
  shows "case Q q of [] \<Rightarrow> class_pick_thread C k = Inr (None, k)
    | t # r \<Rightarrow> \<exists>k'. class_pick_thread C k = Inr (Some t, k') \<and> same_core k k'
        \<and> core_ok k' (Q(q := r)) ts i (insert t H)
        \<and> (\<forall>x. tick_to_wake (k_thread k' x) = tick_to_wake (k_thread k x))"
proof (cases "Q q")
  case Nil
  then have "dl_first (k_queue k q) = None" using queue_first [OF core_queues [OF ok], of q] by simp
  then have "class_pick_thread C k = Inr (None, k)"
    using C by (cases C) (auto simp: rt_pick_thread_def app_pick_thread_def background_pick_thread_def)
  then show ?thesis using Nil by simp
next
  case (Cons t r)
  note d = core_okD [OF ok]
  have tq: "t \<in> set (Q q)" using Cons by simp
  have ts: "t \<in> set ts" using queue_sub [OF d(1) tq] .
  have only: "q' = q" if "t \<in> set (Q q')" for q' using queue_uniq [OF d(1) tq that] by simp
  have di: "distinct (t # r)" using queue_distinct(1) [OF d(1), of q] Cons by simp
  have tH: "t \<notin> H" "t \<noteq> i" using tq d(6,9) by (auto simp: queued_def)
  have qs: "q \<noteq> Sleep_q" "q \<noteq> Blocked_q" using C by (cases C; auto)+
  have first: "dl_first (k_queue k q) \<noteq> None" using queue_first [OF d(1), of q] Cons by simp
  obtain s where s: "queue_remove_first q k = Inr (RqNode t, relinked k q s)"
    "queues_ok (relinked k q s) (Q(q := r)) ts" "obj_of (RqNode t) (relinked k q s) = Inr t"
    using remove_first_ok [OF d(1) Cons] by blast
  define k' where "k' = (if q = Rt_rq then upd_thread t (\<lambda>x. x\<lparr>rq_list := None\<rparr>) (relinked k q s) else relinked k q s)"
  have res: "class_pick_thread C k = Inr (Some t, k')"
    using C s(1,3) first by (cases C)
      (auto simp: k'_def rt_pick_thread_def app_pick_thread_def background_pick_thread_def)
  have same: "same_core k k'" by (auto simp: k'_def same_core_def fixed_part_def)
  have th: "tick_to_wake (k_thread k' x) = tick_to_wake (k_thread k x)" for x by (simp add: k'_def)
  have other: "k_thread k' x = k_thread k x" if "x \<noteq> t" for x using that by (simp add: k'_def)
  have qd: "queued (Q(q := r)) x \<longleftrightarrow> x \<noteq> t \<and> queued Q x" for x
    using queued_upd_tail [OF di, of Q q] only Cons by simp
  have "core_ok k' (Q(q := r)) ts i (insert t H)"
    unfolding core_ok_def
  proof (intro conjI allI ballI)
    show "queues_ok k' (Q(q := r)) ts"
      using s(2) queues_on_cong [of k' "relinked k q s"] by (auto simp: k'_def)
    show "thread_fits q' (k_thread k' x)" if "x \<in> set ((Q(q := r)) q')" for q' x
    proof -
      have "x \<noteq> t" "x \<in> set (Q q')" using that di only Cons by (auto split: if_splits)
      then show ?thesis using d(2) other by simp
    qed
    show "sleep_sorted k' (Q(q := r))" using d(3) qs th by (simp add: sleep_sorted_def)
    show "wake_ok k' (Q(q := r))" using d(4) qs th by (auto simp: wake_ok_def k'_def split: list.splits)
    show "k_idle k' = Some i" using d(5) by (simp add: k'_def)
    show "(class_of (k_thread k' x) = IDLE) = (x = i)" if "x \<in> set ts" for x
      using d(8) [OF that] same_core_class [OF same] by simp
    show "(x \<in> insert t H) = (\<not> queued (Q(q := r)) x)" if "x \<in> set ts" for x
      using d(9,10) that by (auto simp: qd)
    show "unqueued_fits (k_thread k' x)" if "x \<in> insert t H" for x
    proof (cases "x = t")
      case True
      then show ?thesis using d(2) [OF tq] C by (cases C) (auto simp: k'_def unqueued_fits_def)
    next
      case False
      then show ?thesis using that d(11) other by simp
    qed
  qed (use d(6,7) ts in auto)
  then show ?thesis using res same th Cons by auto
qed

lemma core_scheduler_ok:
  assumes ok: "core_ok k Q ts i {i}" and pick: "spec_pick i Q = (n, Q')"
  shows "\<exists>k'. core_scheduler k = Inr (n, k') \<and> same_core k k' \<and> core_ok k' Q' ts i {i, n}
    \<and> (\<forall>x. tick_to_wake (k_thread k' x) = tick_to_wake (k_thread k x))"
  using class_pick_ok [OF ok, of REAL_TIME] class_pick_ok [OF ok, of APPLICATION]
    class_pick_ok [OF ok, of BACKGROUND] core_idle(1) [OF ok] ok pick
  by (auto simp: core_scheduler_def idle_pick_thread_def spec_pick_def insert_commute split: list.splits)

section \<open>The system tick\<close>

lemma runtime_from_ok:
  assumes "dseg (k_node k) p (map ThreadNode xs) None" "distinct xs"
    and "\<forall>t\<in>set xs. nd_obj (k_node k (ThreadNode t)) = Some t"
  shows "runtime_from (head_or (map ThreadNode xs) None) k = Some (Inr (k\<lparr>k_thread :=
    \<lambda>t. if t \<in> set xs then (k_thread k t)\<lparr>runtime_curr := runtime_new (k_thread k t), runtime_new := 0\<rparr>
        else k_thread k t\<rparr>))"
  using assms
proof (induction xs arbitrary: p k)
  case Nil
  then show ?case by (simp add: runtime_from.simps)
next
  case (Cons t xs)
  let ?f = "\<lambda>x. x\<lparr>runtime_curr := runtime_new x, runtime_new := 0\<rparr>"
  let ?k = "upd_thread t ?f k"
  have "runtime_from (head_or (map ThreadNode xs) None) ?k = Some (Inr (?k\<lparr>k_thread :=
      \<lambda>x. if x \<in> set xs then ?f (k_thread ?k x) else k_thread ?k x\<rparr>))"
    using Cons.prems by (intro Cons.IH [of _ "Some (ThreadNode t)"]) auto
  moreover have "runtime_from (head_or (map ThreadNode (t # xs)) None) k
      = runtime_from (head_or (map ThreadNode xs) None) ?k"
    using Cons.prems by (subst runtime_from.simps) simp
  moreover have "?k\<lparr>k_thread := \<lambda>x. if x \<in> set xs then ?f (k_thread ?k x) else k_thread ?k x\<rparr>
      = k\<lparr>k_thread := \<lambda>x. if x \<in> set (t # xs) then ?f (k_thread k x) else k_thread k x\<rparr>"
    using Cons.prems(2) by (auto simp: upd_thread_def fun_eq_iff intro!: arg_cong [where f="\<lambda>x. k\<lparr>k_thread := x\<rparr>"])
  ultimately show ?case by simp
qed

text \<open>The new runtime window: what \<^verbatim>\<open>runtime_new\<close> has accumulated becomes \<^verbatim>\<open>runtime_curr\<close>.\<close>

definition new_window :: "thread \<Rightarrow> thread" where
  "new_window x = x\<lparr>runtime_curr := runtime_new x, runtime_new := 0\<rparr>"

lemma calculate_runtime_ok:
  assumes "queues_ok k Q ts"
  shows "calculate_runtime k = Inr (k\<lparr>k_thread := \<lambda>t. if t \<in> set ts then new_window (k_thread k t) else k_thread k t\<rparr>)"
proof -
  have rep: "dlist_rep (k_node k) (k_threads k) (map ThreadNode ts)" using threads_rep [OF assms] .
  have "runtime_from (head_or (map ThreadNode ts) None) k = Some (Inr (k\<lparr>k_thread :=
      \<lambda>t. if t \<in> set ts then new_window (k_thread k t) else k_thread k t\<rparr>))"
    unfolding new_window_def using rep queue_distinct(2) [OF assms] thread_obj [OF assms]
    by (intro runtime_from_ok [of k None]) (auto simp: dlist_rep_def)
  then show ?thesis using rep by (simp add: calculate_runtime_def dlist_rep_def)
qed

lemma put_ready_cong: "class_of (th' t) = class_of (th t) \<Longrightarrow> put_ready th' t Q = put_ready th t Q"
  by (simp add: put_ready_def)

lemma spec_wake_cong:
  "(\<And>t. class_of (th' t) = class_of (th t)) \<Longrightarrow> (\<And>t. tick_to_wake (th' t) = tick_to_wake (th t)) \<Longrightarrow>
   spec_wake th' now Q = spec_wake th now Q"
  by (auto simp: spec_wake_def put_ready_def split: list.split)

text \<open>The first part of the handler: the accounting of the time that has passed.\<close>

definition account :: "u32 \<Rightarrow> kernel \<Rightarrow> kernel res" where
  "account cvr k =
     (let k1 = emit Cpsid_f k;
          (curr_runtime, k2) = get_curr_thread_runtime cvr k1;
          k3 = k2\<lparr>k_tick := k_tick k2 + curr_runtime, stats_tick := stats_tick k2 + curr_runtime\<rparr>
      in rbind (deref (curr_thread k3)) (\<lambda>c0.
        let k4 = upd_thread c0 (\<lambda>t. t\<lparr>runtime_new := runtime_new t + curr_runtime\<rparr>) k3
        in if of_nat (SYSTICK_RVR * 1000) \<le> stats_tick k4
           then calculate_runtime (emit (Gpio_toggle 2 8) (k4\<lparr>stats_tick := 0\<rparr>)) else Inr k4))"

text \<open>The rest: the current thread goes back, a thread that exits is removed, the next one is picked.\<close>

definition switch_to_next :: "kernel \<Rightarrow> kernel res" where
  "switch_to_next k6 =
     rbind (deref (curr_thread k6)) (\<lambda>c.
     rbind
       (if tick_to_wake (k_thread k6 c) = 0 then class_enqueue (class_of (k_thread k6 c)) c k6
        else Inr k6)
       (\<lambda>k7. rbind
         (if exit_pending (k_thread k7 c) \<noteq> 0 then scheduler_remove_thread k7 else Inr k7)
         (\<lambda>k8. rbind (core_scheduler k8) (\<lambda>(th, k9).
           Inr (emit Pendsv_set_pending (emit Cpsie_f (emit (Systick_set_cvr (of_nat SYSTICK_RVR))
             (k9\<lparr>next_thread := Some th\<rparr>))))))))"

lemma systick_parts:
  assumes "scheduler_status k \<noteq> 0"
  shows "systick_exception cvr k = rbind (account cvr k) (\<lambda>k5. rbind (process_expired_delays k5) switch_to_next)"
  using assms
  by (simp add: systick_exception_def account_def switch_to_next_def [abs_def] rbind_assoc Let_def split: prod.split)

definition passed :: "u32 \<Rightarrow> kernel \<Rightarrow> u64" where
  "passed cvr k = (if reschedule_pending k \<noteq> 0 then ucast (of_nat SYSTICK_RVR - cvr :: u32) else of_nat SYSTICK_RVR)"

lemma unat_ucast64 [simp]: "unat (ucast (x :: u32) :: u64) = unat x"
  by (simp add: unsigned_ucast_eq take_bit_nat_eq_self unat_u32_less [THEN order.strict_trans])

lemma passed_le: "cvr \<le> of_nat SYSTICK_RVR \<Longrightarrow> unat (passed cvr k) \<le> SYSTICK_RVR"
  by (auto simp: passed_def SYSTICK_RVR_def unat_sub word_le_nat_alt)

lemma passed_emit [simp]: "passed cvr (emit e k) = passed cvr k"
  by (simp add: passed_def)

lemma get_runtime_eq: "get_curr_thread_runtime cvr k = (passed cvr k, k\<lparr>reschedule_pending := 0\<rparr>)"
  by (cases k) (simp add: get_curr_thread_runtime_def passed_def)

lemma account_ok:
  assumes ok: "core_ok k Q ts i H" and c: "curr_thread k = Some c"
  shows "\<exists>k'. account cvr k = Inr k' \<and> core_ok k' Q ts i H \<and> curr_thread k' = Some c
    \<and> k_tick k' = k_tick k + passed cvr k \<and> scheduler_status k' = scheduler_status k
    \<and> k_mm k' = k_mm k \<and> k_tid k' = k_tid k
    \<and> (\<forall>t. fixed_part (k_thread k' t) = fixed_part (k_thread k t)
        \<and> tick_to_wake (k_thread k' t) = tick_to_wake (k_thread k t))"
proof -
  define k4 where "k4 = upd_thread c (\<lambda>t. t\<lparr>runtime_new := runtime_new t + passed cvr k\<rparr>)
    ((emit Cpsid_f k)\<lparr>reschedule_pending := 0, k_tick := k_tick k + passed cvr k,
      stats_tick := stats_tick k + passed cvr k\<rparr>)"
  have k4: "account cvr k = (if of_nat (SYSTICK_RVR * 1000) \<le> stats_tick k4
      then calculate_runtime (emit (Gpio_toggle 2 8) (k4\<lparr>stats_tick := 0\<rparr>)) else Inr k4)"
    using c by (simp add: account_def get_runtime_eq Let_def k4_def)
  have th: "k_thread k4 = (k_thread k)(c := (k_thread k c)\<lparr>runtime_new := runtime_new (k_thread k c) + passed cvr k\<rparr>)"
    and eq: "k_node k4 = k_node k" "k_queue k4 = k_queue k" "k_threads k4 = k_threads k" "k_idle k4 = k_idle k"
      "k_wake k4 = k_wake k" "curr_thread k4 = curr_thread k" "k_tick k4 = k_tick k + passed cvr k"
      "scheduler_status k4 = scheduler_status k" "k_mm k4 = k_mm k" "k_tid k4 = k_tid k"
    by (simp_all add: k4_def)
  have ok4: "core_ok k4 Q ts i H"
    using core_wake [OF ok] th eq by (intro core_ok_cong [OF ok]) (auto simp: wake_ok_def split: list.splits)
  let ?k4 = "emit (Gpio_toggle 2 8) (k4\<lparr>stats_tick := 0\<rparr>)"
  let ?k5 = "?k4\<lparr>k_thread := \<lambda>t. if t \<in> set ts then new_window (k_thread ?k4 t) else k_thread ?k4 t\<rparr>"
  have "queues_ok ?k4 Q ts" using core_queues [OF ok4] queues_on_cong [of ?k4 k4] by simp
  then have calc: "calculate_runtime ?k4 = Inr ?k5" by (rule calculate_runtime_ok)
  have ok5: "core_ok ?k5 Q ts i H"
    using core_wake [OF ok4]
    by (intro core_ok_cong [OF ok4]) (auto simp: wake_ok_def new_window_def split: list.splits)
  show ?thesis
  proof (cases "of_nat (SYSTICK_RVR * 1000) \<le> stats_tick k4")
    case True
    then show ?thesis using k4 calc ok5 eq c th by (auto simp: fixed_part_def new_window_def)
  next
    case False
    then show ?thesis using k4 ok4 eq c th by (auto simp: fixed_part_def)
  qed
qed

lemma yield_ok:
  assumes ok: "core_ok k Q ts i (if tick_to_wake (k_thread k c) = 0 then {i, c} else {i})" and c: "c \<in> set ts"
  shows "\<exists>k'. (if tick_to_wake (k_thread k c) = 0 then class_enqueue (class_of (k_thread k c)) c k else Inr k) = Inr k'
    \<and> same_core k k' \<and> core_ok k' (spec_yield (k_thread k) c Q) ts i {i}
    \<and> (\<forall>x. tick_to_wake (k_thread k' x) = tick_to_wake (k_thread k x))"
proof (cases "tick_to_wake (k_thread k c) = 0")
  case True
  show ?thesis
  proof (cases "c = i")
    case idle: True
    then have "class_of (k_thread k c) = IDLE" using core_class [OF ok] c by simp
    moreover have "k\<lparr>k_idle := Some c\<rparr> = k" using core_idle(1) [OF ok] idle by (cases k) simp
    ultimately show ?thesis using True ok idle by (simp add: idle_enqueue_def spec_yield_def put_ready_def)
  next
    case False
    then have "{i, c} - {c} = {i}" by auto
    then show ?thesis using True False class_enqueue_ok [of k Q ts i "{i, c}" c] ok
      by (auto simp: spec_yield_def)
  qed
next
  case False
  then show ?thesis using ok by (simp add: spec_yield_def)
qed

lemma pick_and_switch:
  assumes ok: "core_ok k Q ts i {i}" and pick: "spec_pick i Q = (n, Q')"
  shows "\<exists>k'. rbind (core_scheduler k) (\<lambda>(th, k9). Inr (emit Pendsv_set_pending (emit Cpsie_f
      (emit (Systick_set_cvr (of_nat SYSTICK_RVR)) (k9\<lparr>next_thread := Some th\<rparr>))))) = Inr k'
    \<and> next_thread k' = Some n \<and> sched_ok (context_switch k') Q' ts i n \<and> same_core k k'"
proof -
  obtain k9 where k9: "core_scheduler k = Inr (n, k9)" "same_core k k9" "core_ok k9 Q' ts i {i, n}"
    using core_scheduler_ok [OF ok pick] by blast
  let ?k' = "emit Pendsv_set_pending (emit Cpsie_f (emit (Systick_set_cvr (of_nat SYSTICK_RVR)) (k9\<lparr>next_thread := Some n\<rparr>)))"
  have "core_ok (context_switch ?k') Q' ts i {i, n}"
    using core_wake [OF k9(3)]
    by (intro core_ok_cong [OF k9(3)]) (auto simp: context_switch_def wake_ok_def split: list.splits)
  moreover have "n \<in> set ts" "n \<notin> set (Q' Sleep_q)"
    using core_sub [OF k9(3), of n] core_free [OF k9(3), of n] by (auto simp: queued_def)
  moreover have "same_core k ?k'" using k9(2) by (simp add: same_core_def)
  ultimately show ?thesis using k9(1) by (auto simp: sched_ok_def context_switch_def intro!: exI [of _ ?k'])
qed

lemma switch_to_next_ok:
  assumes ok: "core_ok k Q ts i (if tick_to_wake (k_thread k c) = 0 then {i, c} else {i})"
    and c: "curr_thread k = Some c" "c \<in> set ts"
    and stays: "exit_pending (k_thread k c) = 0"
    and pick: "spec_pick i (spec_yield (k_thread k) c Q) = (n, Q')"
  shows "\<exists>k'. switch_to_next k = Inr k' \<and> next_thread k' = Some n \<and> sched_ok (context_switch k') Q' ts i n
    \<and> same_core k k'"
proof -
  obtain k7 where k7: "(if tick_to_wake (k_thread k c) = 0 then class_enqueue (class_of (k_thread k c)) c k
      else Inr k) = Inr k7" "same_core k k7" "core_ok k7 (spec_yield (k_thread k) c Q) ts i {i}"
    using yield_ok [OF ok c(2)] by blast
  have exit: "exit_pending (k_thread k7 c) = 0" using stays same_core_exit [OF k7(2)] by simp
  obtain k' where k': "rbind (core_scheduler k7) (\<lambda>(th, k9). Inr (emit Pendsv_set_pending (emit Cpsie_f
      (emit (Systick_set_cvr (of_nat SYSTICK_RVR)) (k9\<lparr>next_thread := Some th\<rparr>))))) = Inr k'"
    "next_thread k' = Some n" "sched_ok (context_switch k') Q' ts i n" "same_core k7 k'"
    using pick_and_switch [OF k7(3) pick] by blast
  have "switch_to_next k = Inr k'" using c(1) k7(1) exit k'(1) unfolding switch_to_next_def by simp
  then show ?thesis using k' same_core_trans [OF k7(2) k'(4)] by blast
qed

text \<open>What holds when the handler has done its accounting and woken the expired thread.\<close>

lemma before_switch:
  assumes ok: "sched_ok k Q ts i c" and on: "scheduler_status k \<noteq> 0" and cvr: "cvr \<le> of_nat SYSTICK_RVR"
    and time: "unat (k_tick k) + SYSTICK_RVR < 2 ^ 64"
  shows "\<exists>k6. systick_exception cvr k = switch_to_next k6
    \<and> core_ok k6 (spec_wake (k_thread k) (k_tick k + passed cvr k) Q) ts i
        (if tick_to_wake (k_thread k6 c) = 0 then {i, c} else {i})
    \<and> curr_thread k6 = Some c \<and> c \<in> set ts \<and> tick_to_wake (k_thread k6 c) = tick_to_wake (k_thread k c)
    \<and> k_tick k6 = k_tick k + passed cvr k \<and> scheduler_status k6 = scheduler_status k
    \<and> k_mm k6 = k_mm k \<and> (\<forall>t. fixed_part (k_thread k6 t) = fixed_part (k_thread k t))"
proof -
  have c: "curr_thread k = Some c" "c \<in> set ts" using ok by (simp_all add: sched_ok_def)
  let ?now = "k_tick k + passed cvr k"
  have now: "unat ?now \<le> unat (k_tick k) + SYSTICK_RVR"
    using passed_le [OF cvr, of k] time by (subst unat_add_lem [THEN iffD1]) auto
  define H where "H = (if tick_to_wake (k_thread k c) = 0 then {i, c} else {i})"
  have core: "core_ok k Q ts i H" and late: "tick_to_wake (k_thread k c) = 0 \<or> \<not> tick_to_wake (k_thread k c) < ?now"
  proof -
    show "core_ok k Q ts i H"
    proof (cases "c \<in> set (Q Sleep_q)")
      case True
      then have a: "core_ok k Q ts i {i}" using ok by (simp add: sched_ok_def)
      then show ?thesis using core_fits [OF a True] by (simp add: H_def)
    next
      case False
      then have a: "core_ok k Q ts i {i, c}" using ok by (simp add: sched_ok_def)
      then show ?thesis using core_unqueued [OF a, of c] by (simp add: H_def unqueued_fits_def)
    qed
    show "tick_to_wake (k_thread k c) = 0 \<or> \<not> tick_to_wake (k_thread k c) < ?now"
    proof (cases "c \<in> set (Q Sleep_q)")
      case True
      then have "unat ?now \<le> unat (tick_to_wake (k_thread k c))" using ok now by (simp add: sched_ok_def)
      then show ?thesis by (simp add: word_less_nat_alt)
    next
      case False
      then have a: "core_ok k Q ts i {i, c}" using ok by (simp add: sched_ok_def)
      then show ?thesis using core_unqueued [OF a, of c] by (simp add: unqueued_fits_def)
    qed
  qed
  obtain k5 where k5: "account cvr k = Inr k5" "core_ok k5 Q ts i H" "curr_thread k5 = Some c"
    "k_tick k5 = ?now" "scheduler_status k5 = scheduler_status k" "k_mm k5 = k_mm k"
    "\<And>t. fixed_part (k_thread k5 t) = fixed_part (k_thread k t)"
    "\<And>t. tick_to_wake (k_thread k5 t) = tick_to_wake (k_thread k t)"
    using account_ok [OF core c(1), of cvr] by blast
  obtain k6 where k6: "process_expired_delays k5 = Inr k6" "same_core k5 k6"
    "core_ok k6 (spec_wake (k_thread k5) ?now Q) ts i H"
    "\<And>x. \<not> tick_to_wake (k_thread k5 x) < ?now \<longrightarrow> tick_to_wake (k_thread k6 x) = tick_to_wake (k_thread k5 x)"
    using process_expired_ok [OF k5(2)] k5(4) by metis
  have cls5: "class_of (k_thread k5 t) = class_of (k_thread k t)" for t using k5(7) [of t] by (simp add: fixed_part_def)
  have cls6: "class_of (k_thread k6 t) = class_of (k_thread k t)" for t
    using same_core_class [OF k6(2)] cls5 by simp
  have wake: "spec_wake (k_thread k5) ?now Q = spec_wake (k_thread k) ?now Q"
    using cls5 k5(8) by (rule spec_wake_cong)
  have tick6: "tick_to_wake (k_thread k6 c) = tick_to_wake (k_thread k c)"
  proof (cases "tick_to_wake (k_thread k c) = 0")
    case True
    then have "c \<in> H" by (simp add: H_def)
    then show ?thesis using core_unqueued [OF k6(3)] True by (simp add: unqueued_fits_def)
  next
    case False
    then show ?thesis using late k6(4) [of c] k5(8) by simp
  qed
  have "systick_exception cvr k = switch_to_next k6" using systick_parts [OF on] k5(1) k6(1) by simp
  moreover have "core_ok k6 (spec_wake (k_thread k) ?now Q) ts i (if tick_to_wake (k_thread k6 c) = 0 then {i, c} else {i})"
    using k6(3) wake tick6 by (simp add: H_def)
  ultimately show ?thesis using k6(2) k5 c tick6 by (auto simp: same_core_def)
qed

lemma fixed_part_eq:
  assumes "fixed_part x = fixed_part y"
  shows "class_of x = class_of y" "exit_pending x = exit_pending y" "tid x = tid y" "code_addr x = code_addr y"
  using assms by (simp_all add: fixed_part_def)

lemma systick_ok:
  assumes ok: "sched_ok k Q ts i c" and on: "scheduler_status k \<noteq> 0" and cvr: "cvr \<le> of_nat SYSTICK_RVR"
    and time: "unat (k_tick k) + SYSTICK_RVR < 2 ^ 64" and stays: "exit_pending (k_thread k c) = 0"
    and spec: "spec_tick (k_thread k) (k_tick k + passed cvr k) i c Q = (n, Q')"
  shows "\<exists>k'. systick_exception cvr k = Inr k' \<and> next_thread k' = Some n \<and> sched_ok (context_switch k') Q' ts i n
    \<and> k_tick k' = k_tick k + passed cvr k \<and> scheduler_status k' = scheduler_status k
    \<and> k_mm k' = k_mm k \<and> (\<forall>t. fixed_part (k_thread k' t) = fixed_part (k_thread k t))"
proof -
  let ?Q = "spec_wake (k_thread k) (k_tick k + passed cvr k) Q"
  obtain k6 where k6: "systick_exception cvr k = switch_to_next k6"
    "core_ok k6 ?Q ts i (if tick_to_wake (k_thread k6 c) = 0 then {i, c} else {i})"
    "curr_thread k6 = Some c" "c \<in> set ts" "tick_to_wake (k_thread k6 c) = tick_to_wake (k_thread k c)"
    "k_tick k6 = k_tick k + passed cvr k" "scheduler_status k6 = scheduler_status k" "k_mm k6 = k_mm k"
    "\<forall>t. fixed_part (k_thread k6 t) = fixed_part (k_thread k t)"
    using before_switch [OF ok on cvr time] by blast
  have fx: "class_of (k_thread k6 c) = class_of (k_thread k c)" "exit_pending (k_thread k6 c) = 0"
    using fixed_part_eq [OF k6(9) [rule_format, of c]] stays by simp_all
  have "spec_yield (k_thread k6) c ?Q = spec_yield (k_thread k) c ?Q"
    using put_ready_cong [of "k_thread k6" c "k_thread k"] fx(1) k6(5) by (simp add: spec_yield_def)
  then obtain k' where k': "switch_to_next k6 = Inr k'" "next_thread k' = Some n"
    "sched_ok (context_switch k') Q' ts i n" "same_core k6 k'"
    using switch_to_next_ok [OF k6(2,3,4) fx(2)] spec unfolding spec_tick_def by metis
  then show ?thesis using k6 by (auto simp: same_core_def)
qed

end
