(* ===== verification/Thread.thy ===== *)
theory Thread
  imports Scheduler
begin

text \<open>
  Threads (\<^verbatim>\<open>kernel/thread.c\<close>), the start of the scheduler (\<^verbatim>\<open>scheduler_start\<close>) and the supervisor
  calls (\<^verbatim>\<open>kernel/syscall.c\<close>). A new thread is a page allocation that holds its control block and
  its stack; the initial stack frame and the fields of the control block that it can reach are written
  into the byte memory, the control block itself is typed. The address of
  \<^verbatim>\<open>thread_exit\<close> is a parameter, as is the size of the control block (120 bytes under the ARM
  procedure call standard: \<open>thread_size\<close>).
\<close>

section \<open>The memory of the kernel\<close>

definition kmem :: "kernel \<Rightarrow> mem" where
  "kmem k = mm_mem (k_mm k)"

definition set_kmem :: "mem \<Rightarrow> kernel \<Rightarrow> kernel" where
  "set_kmem m k = k\<lparr>k_mm := (k_mm k)\<lparr>mm_mem := m\<rparr>\<rparr>"

section \<open>Creating threads\<close>

record thread_info =
  ti_name :: "u8 list"
  ti_stack_size :: u32
  ti_thread :: u32
  ti_arg :: u32
  ti_class :: sched_class
  ti_code_addr :: u32

definition thread_size :: u32 where
  "thread_size = 120"

text \<open>Writes \<open>v\<close> and moves the pointer down, for each word but the last.\<close>

fun push_words :: "u32 list \<Rightarrow> u32 \<Rightarrow> mem \<Rightarrow> u32 \<times> mem" where
  "push_words [] sp m = (sp, m)"
| "push_words [v] sp m = (sp, store32 m sp v)"
| "push_words (v # w # vs) sp m = push_words (w # vs) (sp - 4) (store32 m sp v)"

definition initial_frame :: "u32 \<Rightarrow> u32 \<Rightarrow> u32 \<Rightarrow> u32 list" where
  "initial_frame exit_addr thread arg =
     [0x1000000, thread, exit_addr, 0xCAFECAFE, 0xCAFECAFE, 0xCAFECAFE, 0xCAFECAFE, arg,
      0xCAFECAFE, 0xCAFECAFE, 0xCAFECAFE, 0xCAFECAFE, 0xCAFECAFE, 0xCAFECAFE, 0xCAFECAFE, 0xCAFECAFE]"

definition stack_setup :: "u32 \<Rightarrow> u32 \<Rightarrow> u32 \<Rightarrow> u32 \<Rightarrow> mem \<Rightarrow> u32 \<times> mem" where
  "stack_setup exit_addr sp thread arg m = push_words (initial_frame exit_addr thread arg) (sp - 4) m"

definition thread_pages :: "u32 \<Rightarrow> u32" where
  "thread_pages stack_size =
     (let sz = thread_size + stack_size * 4
      in sz div 512 + (if sz mod 512 \<noteq> 0 then 1 else 0))"

text \<open>\<^verbatim>\<open>string_len\<close> of the name array, which is zero terminated.\<close>

definition name_length :: "u8 list \<Rightarrow> u8" where
  "name_length cs = of_nat (length (takeWhile (\<lambda>c. c \<noteq> 0) cs))"

definition init_node :: "u32 \<Rightarrow> (node_ptr, u32) dlist_node" where
  "init_node th = \<lparr>nd_prev = None, nd_next = None, nd_obj = Some th\<rparr>"

text \<open>
  The stack starts behind the control block. The frame of a stack of fewer than 16 words reaches into
  the block, whose fields from the offset 40 on are written after it: the name and its length here, the
  others once the thread is queued. \<open>tcb_name\<close> and \<open>tcb_fields\<close> are these stores: the name at the offset 40,
  its length at 72, three times of 64 bits from 80, the number at 104, the exit flag at 108 and the
  code address at 112. Later accesses to the fields go to the typed control block.
\<close>

fun write_bytes :: "u32 \<Rightarrow> u8 list \<Rightarrow> mem \<Rightarrow> mem" where
  "write_bytes p [] m = m"
| "write_bytes p (b # bs) m = write_bytes (p + 1) bs (m(p := b))"

definition tcb_name :: "u32 \<Rightarrow> u8 list \<Rightarrow> mem \<Rightarrow> mem" where
  "tcb_name th name m = (write_bytes (th + 40) (take 32 name) m)(th + 72 := name_length name)"

definition zero_words :: "u32 \<Rightarrow> u32 list \<Rightarrow> mem \<Rightarrow> mem" where
  "zero_words th offs m = foldl (\<lambda>m off. store32 m (th + off) 0) m offs"

definition tcb_fields :: "u32 \<Rightarrow> u32 \<Rightarrow> u32 \<Rightarrow> mem \<Rightarrow> mem" where
  "tcb_fields th tid' code m =
     store32 ((store32 (zero_words th [80, 84, 88, 92, 96, 100] m) (th + 104) tid')(th + 108 := 0)) (th + 112) code"

definition new_thread :: "u32 \<Rightarrow> thread_info \<Rightarrow> kernel \<Rightarrow> (u32 \<times> kernel) res" where
  "new_thread exit_addr info k0 =
     (let k1 = suspend_scheduler k0
      in rbind (pmalloc (thread_pages (ti_stack_size info)) 3 (k_mm k1)) (\<lambda>(th, mm).
        let base = th + thread_size;
            (sp, m) = stack_setup exit_addr (base + ti_stack_size info * 4 - 4) (ti_thread info)
              (ti_arg info) (mm_mem mm);
            k2 = k1\<lparr>k_mm := mm\<lparr>mm_mem := tcb_name th (ti_name info) m\<rparr>,
                    k_node := (k_node k1)(RqNode th := init_node th, ThreadNode th := init_node th)\<rparr>;
            k3 = upd_thread th (\<lambda>t. t\<lparr>stack_base := base, stack_pointer := sp, class_of := ti_class info,
                    rq_list := None, name_len := name_length (ti_name info),
                    thread_name := take 32 (ti_name info)\<rparr>) k2
        in rbind (class_enqueue (class_of (k_thread k3 th)) th k3) (\<lambda>k4.
           rbind (dlist_insert_first (ThreadNode th) (k_node k4, k_threads k4)) (\<lambda>(h, l).
             let k5 = k4\<lparr>k_node := h, k_threads := l\<rparr>;
                 k6 = upd_thread th (\<lambda>t. t\<lparr>tick_to_wake := 0, runtime_curr := 0, runtime_new := 0,
                        tid := k_tid k5, exit_pending := 0, code_addr := ti_code_addr info\<rparr>)
                      (set_kmem (tcb_fields th (k_tid k5) (ti_code_addr info) (kmem k5))
                        (k5\<lparr>k_tid := k_tid k5 + 1\<rparr>))
             in Inr (tid (k_thread k6 th), resume_scheduler k6)))))"

section \<open>Operations on threads\<close>

text \<open>\<^verbatim>\<open>thread_exit\<close> then loops until the scheduler removes the thread.\<close>

definition thread_exit :: "kernel \<Rightarrow> kernel res" where
  "thread_exit k = rbind (deref (curr_thread k)) (\<lambda>c.
     Inr (upd_thread c (\<lambda>t. t\<lparr>exit_pending := 1\<rparr>) (emit (Print ''Exiting thread'') k)))"

definition thread_sleep :: "u64 \<Rightarrow> kernel \<Rightarrow> kernel res" where
  "thread_sleep ms k = rbind (deref (curr_thread k)) (\<lambda>c.
     rbind (scheduler_enqueue_delay c
       (upd_thread c (\<lambda>t. t\<lparr>tick_to_wake := get_kernel_tick k + ms * of_nat SYSTICK_RVR\<rparr>) k))
       (\<lambda>k1. Inr (reschedule k1)))"

definition thread_block :: "u32 \<Rightarrow> kernel \<Rightarrow> kernel res" where
  "thread_block tid' k = rbind (get_thread tid' k) (\<lambda>th. scheduler_block_thread th k)"

definition thread_unblock :: "u32 \<Rightarrow> kernel \<Rightarrow> kernel res" where
  "thread_unblock tid' k = rbind (get_thread tid' k) (\<lambda>th. scheduler_unblock_thread th k)"

definition kill_thread :: "u32 \<Rightarrow> kernel \<Rightarrow> kernel res" where
  "kill_thread tid' k =
     (let k1 = suspend_scheduler k
      in rbind (get_thread tid' k1) (\<lambda>th.
        Inr (resume_scheduler
          (case th of
             Some t \<Rightarrow> emit (Print ''Killing'') (upd_thread t (\<lambda>t. t\<lparr>exit_pending := 1\<rparr>) k1)
           | None \<Rightarrow> emit (Print ''Thread does not exist'') k1))))"

section \<open>Starting the scheduler\<close>

definition idle_info :: "u32 \<Rightarrow> thread_info" where
  "idle_info idle_thread = \<lparr>ti_name = [73, 100, 108, 101] @ replicate 28 0, ti_stack_size = 100,
     ti_thread = idle_thread, ti_arg = 0, ti_class = IDLE, ti_code_addr = 0\<rparr>"

definition scheduler_start :: "u32 \<Rightarrow> u32 \<Rightarrow> kernel \<Rightarrow> kernel res" where
  "scheduler_start exit_addr idle_thread k0 =
     (let k1 = emit (Set_priority ''svc'' 5) (emit (Set_priority ''pendsv'' 7)
            (emit (Set_priority ''systick'' 6) k0));
          k2 = k1\<lparr>scheduler_status := 1, k_wake := 0\<rparr>
      in rbind (new_thread exit_addr (idle_info idle_thread) k2) (\<lambda>(idle_tid, k3).
         rbind (get_thread idle_tid k3) (\<lambda>idle.
         rbind (core_scheduler (k3\<lparr>k_idle := idle\<rparr>)) (\<lambda>(th, k5).
           let k6 = k5\<lparr>next_thread := Some th, curr_thread := Some th\<rparr>
           in if k_idle k6 = None then Inl (Panic ''Idle not present'')
              else Inr (emit Scheduler_run (emit (Systick_enable 1)
                     (emit (Systick_set_rvr (of_nat SYSTICK_RVR)) (emit Cpsid_f k6))))))))"

section \<open>Supervisor calls\<close>

text \<open>
  The handler reads the call number from the instruction before the stacked program counter and
  its arguments from the stacked registers. \<open>thr_status\<close> is the transmitter status register.
\<close>

definition stack_word :: "u32 \<Rightarrow> nat \<Rightarrow> kernel \<Rightarrow> u32" where
  "stack_word sp i k = load32 (kmem k) (sp + of_nat (4 * i))"

definition read_print_buffer :: "u32 \<Rightarrow> u32 \<Rightarrow> kernel \<Rightarrow> u32 \<times> kernel" where
  "read_print_buffer data size' k =
     (let (n, rb, m) = ringbuffer_read_mult data size' (k_rb k, kmem k)
      in (n, set_kmem m (k\<lparr>k_rb := rb\<rparr>)))"

definition svc_handler_ext :: "u8 \<Rightarrow> u32 \<Rightarrow> kernel \<Rightarrow> kernel res" where
  "svc_handler_ext thr_status sp k =
     (let svc = kmem k (stack_word sp 6 k - 2); r0 = stack_word sp 0 k; r1 = stack_word sp 1 k
      in if svc = 1 then thread_sleep (ucast r0) k
         else if svc = 2 then Inr (emit (Gpio_toggle r0 (ucast r1)) k)
         else if svc = 3 then Inl (Panic ''Warning'')
         else if svc = 4 then Inl (Panic ''Warning'')
         else if svc = 5 then Inr (emit (Usart_write (ucast r0)) k)
         else if svc = 6 then Inr (set_kmem (store32 (kmem k) sp (ucast thr_status)) k)
         else if svc = 7 then
           (let (n, k1) = read_print_buffer r0 r1 k
            in Inr (set_kmem (store32 (kmem k1) sp n) k1))
         else Inr k)"

end
