(* ===== verification/Sched_Run.thy ===== *)
theory Sched_Run
  imports Sched_Invariant Thread
begin

text \<open>
  Sleeping, blocking and waking of threads, and the runs of the scheduler: any sequence of system
  ticks and calls by the running thread keeps the invariant of \<open>Sched_Invariant\<close>.
\<close>

section \<open>Going to sleep\<close>

text \<open>The place of a thread in the sleep queue: behind the threads that wake no later.\<close>

definition no_later :: "(u32 \<Rightarrow> thread) \<Rightarrow> u32 \<Rightarrow> u32 \<Rightarrow> bool" where
  "no_later th t x \<longleftrightarrow> tick_to_wake (th x) \<le> tick_to_wake (th t)"

definition sleep_insert :: "(u32 \<Rightarrow> thread) \<Rightarrow> u32 \<Rightarrow> u32 list \<Rightarrow> u32 list" where
  "sleep_insert th t xs = takeWhile (no_later th t) xs @ t # dropWhile (no_later th t) xs"

lemma delay_scan_ok:
  assumes "queues_ok k Q ts" "Q Sleep_q = as @ bs"
  shows "delay_scan t (map_option RqNode (head_or bs None)) k
    = Some (Inr (map_option RqNode (head_or (dropWhile (no_later (k_thread k) t) bs) None)))"
  using assms(2)
proof (induction bs arbitrary: as)
  case Nil
  then show ?case by (simp add: delay_scan.simps)
next
  case (Cons b bs)
  have "nd_obj (k_node k (RqNode b)) = Some b"
    using queue_obj [OF assms(1) queue_sub [OF assms(1), of b Sleep_q]] Cons.prems by simp
  moreover have "nd_next (k_node k (RqNode b)) = map_option RqNode (head_or bs None)"
    using queue_next [OF assms(1) Cons.prems] .
  moreover have "delay_scan t (map_option RqNode (head_or bs None)) k
      = Some (Inr (map_option RqNode (head_or (dropWhile (no_later (k_thread k) t) bs) None)))"
    using Cons.prems by (intro Cons.IH [of "as @ [b]"]) simp
  moreover have "no_later (k_thread k) t b \<longleftrightarrow> \<not> tick_to_wake (k_thread k t) < tick_to_wake (k_thread k b)"
    by (simp add: no_later_def not_less)
  ultimately show ?case by (simp add: delay_scan.simps [of t "Some (RqNode b)"])
qed

lemma insert_sleeping_ok:
  assumes ok: "queues_ok k Q ts" and t: "t \<in> set ts" "\<not> queued Q t"
  shows "\<exists>s. (case dl_first (k_queue k Sleep_q) of
        None \<Rightarrow> on_queue Sleep_q (dlist_insert_first (RqNode t)) k
      | Some first \<Rightarrow> rbind (rbind (returns (delay_scan t (Some first) k)) (\<lambda>r. r)) (\<lambda>pos.
            case pos of
              Some n \<Rightarrow> on_queue Sleep_q (dlist_insert_before (RqNode t) n) k
            | None \<Rightarrow> on_queue Sleep_q (dlist_insert_last (RqNode t)) k)) = Inr (relinked k Sleep_q s)
    \<and> queues_ok (relinked k Sleep_q s) (Q(Sleep_q := sleep_insert (k_thread k) t (Q Sleep_q))) ts"
proof (cases "Q Sleep_q")
  case Nil
  then show ?thesis
    using insert_first_ok [OF ok t Nil] queue_first [OF ok, of Sleep_q] by (auto simp: sleep_insert_def)
next
  case (Cons f fs)
  let ?P = "no_later (k_thread k) t" and ?xs = "Q Sleep_q"
  have first: "dl_first (k_queue k Sleep_q) = Some (RqNode f)"
    using queue_first [OF ok, of Sleep_q] Cons by simp
  have scan: "delay_scan t (Some (RqNode f)) k = Some (Inr (map_option RqNode (head_or (dropWhile ?P ?xs) None)))"
    using delay_scan_ok [OF ok, of "[]" ?xs t] Cons by simp
  show ?thesis
  proof (cases "dropWhile ?P ?xs")
    case Nil
    then have "sleep_insert (k_thread k) t ?xs = ?xs @ [t]"
      by (metis append_Nil2 sleep_insert_def takeWhile_dropWhile_id)
    then show ?thesis using enqueue_ok [OF ok t, of Sleep_q] first scan Nil by auto
  next
    case (Cons b bs)
    have "?xs = takeWhile ?P ?xs @ b # bs" using Cons by (metis takeWhile_dropWhile_id)
    from insert_before_ok [OF ok t this] show ?thesis
      using first scan Cons by (auto simp: sleep_insert_def)
  qed
qed

lemma sleep_insert_set [simp]: "set (sleep_insert th t xs) = insert t (set xs)"
  by (auto simp: sleep_insert_def dest: set_takeWhileD set_dropWhileD)
    (metis Un_iff set_append takeWhile_dropWhile_id)

lemma sleep_insert_sorted:
  assumes "sorted (map (\<lambda>x. tick_to_wake (th x)) xs)"
  shows "sorted (map (\<lambda>x. tick_to_wake (th x)) (sleep_insert th t xs))"
  using assms
proof (induction xs)
  case (Cons x xs)
  have "set (sleep_insert th t xs) = insert t (set xs)" by simp
  then show ?case using Cons by (auto simp: sleep_insert_def no_later_def intro: order_trans)
qed (simp add: sleep_insert_def)

definition sleep_until :: "u32 \<Rightarrow> u64 \<Rightarrow> (u32 \<Rightarrow> thread) \<Rightarrow> u32 \<Rightarrow> thread" where
  "sleep_until c w th = th(c := (th c)\<lparr>tick_to_wake := w\<rparr>)"

text \<open>A thread in no queue goes to sleep until tick \<open>w\<close>.\<close>

lemma enqueue_delay_ok:
  assumes ok: "core_ok k Q ts i H" and t: "t \<in> H" "t \<noteq> i" and w: "w \<noteq> 0"
  defines "th \<equiv> sleep_until t w (k_thread k)"
  defines "Q' \<equiv> Q(Sleep_q := sleep_insert th t (Q Sleep_q))"
  shows "\<exists>k'. scheduler_enqueue_delay t (upd_thread t (\<lambda>x. x\<lparr>tick_to_wake := w\<rparr>) k) = Inr k'
    \<and> core_ok k' Q' ts i (H - {t}) \<and> k_wake k' = first_wake k' Q' \<and> same_core k k'
    \<and> (\<forall>x. tick_to_wake (k_thread k' x) = tick_to_wake (th x))
    \<and> reschedule_pending k' = reschedule_pending k"
proof -
  note d = core_okD [OF ok]
  have ts: "t \<in> set ts" and no: "\<not> queued Q t" using t d by auto
  let ?k1 = "upd_thread t (\<lambda>x. x\<lparr>tick_to_wake := w\<rparr>) k"
  have th1: "k_thread ?k1 = th" by (simp add: th_def sleep_until_def)
  have Q1: "queues_ok ?k1 Q ts" using d(1) by (subst queues_on_cong [of _ k]) simp_all
  obtain s where s: "scheduler_enqueue_delay t ?k1
      = update_tick_to_wake (upd_thread t (\<lambda>x. x\<lparr>rq_list := Some Sleep_q\<rparr>) (relinked ?k1 Sleep_q s))"
    "queues_ok (relinked ?k1 Sleep_q s) Q' ts"
    using insert_sleeping_ok [OF Q1 ts no] unfolding th1 Q'_def scheduler_enqueue_delay_def by auto
  let ?k3 = "upd_thread t (\<lambda>x. x\<lparr>rq_list := Some Sleep_q\<rparr>) (relinked ?k1 Sleep_q s)"
  have cl: "class_of (k_thread k t) \<noteq> IDLE" using d(8) [OF ts] t(2) by simp
  have qd: "queued Q' x \<longleftrightarrow> x = t \<or> queued Q x" for x unfolding queued_def Q'_def by (metis (no_types, opaque_lifting) fun_upd_apply sleep_insert_set insert_iff)
  have tick: "tick_to_wake (k_thread ?k3 x) = tick_to_wake (th x)" for x by (simp add: th_def sleep_until_def)
  have other: "k_thread ?k3 x = k_thread k x" if "x \<noteq> t" for x using that by simp
  have tn: "t \<notin> set (Q q)" for q using no by (simp add: queued_def)
  have same: "same_core k ?k3" by (auto simp: same_core_def fixed_part_def)
  have "core_ok (?k3\<lparr>k_wake := first_wake ?k3 Q'\<rparr>) Q' ts i (H - {t})"
    unfolding core_ok_def
  proof (intro conjI allI ballI)
    show "queues_ok (?k3\<lparr>k_wake := first_wake ?k3 Q'\<rparr>) Q' ts"
      using s(2) by (subst queues_on_cong [of _ "relinked ?k1 Sleep_q s"]) simp_all
    show fits: "thread_fits q (k_thread (?k3\<lparr>k_wake := first_wake ?k3 Q'\<rparr>) x)" if "x \<in> set (Q' q)" for q x
    proof (cases "x = t")
      case True
      then have "q = Sleep_q" using that tn by (auto simp: Q'_def split: if_splits)
      then show ?thesis using True cl w by simp
    next
      case False
      then have "x \<in> set (Q q)" using that by (auto simp: Q'_def split: if_splits)
      then show ?thesis using d(2) [of x q] False by simp
    qed
    have "map (\<lambda>x. tick_to_wake (th x)) (Q Sleep_q) = map (\<lambda>x. tick_to_wake (k_thread k x)) (Q Sleep_q)"
      using tn by (auto simp: th_def sleep_until_def)
    then have "sorted (map (\<lambda>x. tick_to_wake (th x)) (Q' Sleep_q))"
      using d(3) sleep_insert_sorted [of th "Q Sleep_q" t] by (simp add: sleep_sorted_def Q'_def del: map_eq_conv)
    then show "sleep_sorted (?k3\<lparr>k_wake := first_wake ?k3 Q'\<rparr>) Q'"
      using tick by (simp add: sleep_sorted_def del: upd_thread_simps)
    show "wake_ok (?k3\<lparr>k_wake := first_wake ?k3 Q'\<rparr>) Q'"
      using fits [of _ Sleep_q] by (auto simp: wake_ok_def first_wake_def split: list.splits)
    show "(class_of (k_thread (?k3\<lparr>k_wake := first_wake ?k3 Q'\<rparr>) x) = IDLE) = (x = i)" if "x \<in> set ts" for x
      using d(8) [OF that] same_core_class [OF same, of x] by simp
    show "(x \<in> H - {t}) = (\<not> queued Q' x)" if "x \<in> set ts" for x
      using d(9,10) that by (auto simp: qd)
    show "unqueued_fits (k_thread (?k3\<lparr>k_wake := first_wake ?k3 Q'\<rparr>) x)" if "x \<in> H - {t}" for x
      using that d(11) other by simp
  qed (use d(5-7) t in auto)
  moreover have "update_tick_to_wake ?k3 = Inr (?k3\<lparr>k_wake := first_wake ?k3 Q'\<rparr>)"
  proof -
    have q3: "queues_ok ?k3 Q' ts" using s(2) by (subst queues_on_cong [of _ "relinked ?k1 Sleep_q s"]) simp_all
    have "obj_of (RqNode x) ?k3 = Inr x" if "x \<in> set (Q' Sleep_q)" for x
      using queue_obj [OF q3 queue_sub [OF q3 that]] by (simp add: obj_of_def)
    then show ?thesis
      using queue_first [OF q3, of Sleep_q]
      by (cases "Q' Sleep_q") (auto simp: update_tick_to_wake_def first_wake_def)
  qed
  moreover define k4 where "k4 = ?k3\<lparr>k_wake := first_wake ?k3 Q'\<rparr>"
  ultimately have "core_ok k4 Q' ts i (H - {t})" and "update_tick_to_wake ?k3 = Inr k4" by simp_all
  moreover have "same_core k k4" using same by (simp add: k4_def same_core_def)
  moreover have "k_wake k4 = first_wake k4 Q'" by (simp add: k4_def first_wake_def split: list.split)
  moreover have "\<forall>x. tick_to_wake (k_thread k4 x) = tick_to_wake (th x)" using tick by (simp add: k4_def)
  moreover have "reschedule_pending k4 = reschedule_pending k" by (simp add: k4_def)
  ultimately show ?thesis using s(1) by metis
qed

lemma sched_ok_core:
  assumes "sched_ok k Q ts i c" "c \<notin> set (Q Sleep_q)"
  shows "core_ok k Q ts i {i, c}" "curr_thread k = Some c" "c \<in> set ts" "tick_to_wake (k_thread k c) = 0"
  using assms core_unqueued [of k Q ts i "{i, c}" c] by (auto simp: sched_ok_def unqueued_fits_def)

lemma thread_sleep_ok:
  assumes ok: "sched_ok k Q ts i c" and c: "c \<notin> set (Q Sleep_q)" "c \<noteq> i"
    and ms: "0 < ms" "unat (k_tick k) + unat ms * SYSTICK_RVR < 2 ^ 64"
  defines "th \<equiv> sleep_until c (k_tick k + ms * of_nat SYSTICK_RVR) (k_thread k)"
  defines "Q' \<equiv> Q(Sleep_q := sleep_insert th c (Q Sleep_q))"
  shows "\<exists>k'. thread_sleep ms k = Inr k' \<and> sched_ok k' Q' ts i c \<and> k_wake k' = first_wake k' Q'
    \<and> reschedule_pending k' = 1 \<and> same_core k k' \<and> (\<forall>x. tick_to_wake (k_thread k' x) = tick_to_wake (th x))"
proof -
  note core = sched_ok_core [OF ok c(1)]
  let ?w = "k_tick k + ms * of_nat SYSTICK_RVR"
  have "unat (ms * of_nat SYSTICK_RVR) = unat ms * SYSTICK_RVR"
    using ms(2) by (subst unat_mult_lem [THEN iffD1]) (auto simp: SYSTICK_RVR_def)
  then have w: "unat ?w = unat (k_tick k) + unat ms * SYSTICK_RVR"
    using ms(2) by (subst unat_add_lem [THEN iffD1]) auto
  have pos: "0 < unat ms" using ms(1) by (simp add: word_less_nat_alt)
  have nz: "?w \<noteq> 0"
  proof
    assume "?w = 0"
    then have "unat ms * SYSTICK_RVR = 0" using w by simp
    then show False using pos by (simp add: SYSTICK_RVR_def)
  qed
  obtain k1 where k1: "scheduler_enqueue_delay c (upd_thread c (\<lambda>x. x\<lparr>tick_to_wake := ?w\<rparr>) k) = Inr k1"
    "core_ok k1 Q' ts i ({i, c} - {c})" "k_wake k1 = first_wake k1 Q'" "same_core k k1"
    "\<forall>x. tick_to_wake (k_thread k1 x) = tick_to_wake (th x)"
    using enqueue_delay_ok [OF core(1) insertI2 [OF singletonI] c(2) nz, folded th_def, folded Q'_def] by blast
  have "{i, c} - {c} = {i}" using c(2) by auto
  then have a: "core_ok k1 Q' ts i {i}" using k1(2) by simp
  have "wake_ok (reschedule k1) Q'" using core_wake [OF a] by (cases "Q' Sleep_q") (simp_all add: wake_ok_def reschedule_def)
  then have "core_ok (reschedule k1) Q' ts i {i}"
    by (rule core_ok_cong [OF a, rotated 4]) (simp_all add: reschedule_def)
  moreover have "thread_sleep ms k = Inr (reschedule k1)"
    using core(2) k1(1) by (simp add: thread_sleep_def get_kernel_tick_def)
  moreover have "c \<in> set (Q' Sleep_q)" by (simp add: Q'_def)
  moreover have "unat (k_tick k) + SYSTICK_RVR \<le> unat (tick_to_wake (k_thread k1 c))"
    using k1(5) w pos by (simp add: th_def sleep_until_def)
  moreover have "k_tick k1 = k_tick k" "curr_thread k1 = Some c" using k1(4) core(2) by (auto simp: same_core_def)
  ultimately have "sched_ok (reschedule k1) Q' ts i c"
    using core(3) by (simp add: sched_ok_def reschedule_def)
  moreover have "first_wake (reschedule k1) Q' = first_wake k1 Q'"
    by (cases "Q' Sleep_q") (simp_all add: first_wake_def reschedule_def)
  ultimately show ?thesis
    using \<open>thread_sleep ms k = Inr (reschedule k1)\<close> k1 by (auto simp: reschedule_def same_core_def)
qed

section \<open>Finding, blocking and unblocking a thread\<close>

lemma get_thread_from_ok:
  assumes "dseg (k_node k) p (map ThreadNode xs) None"
    and "\<forall>t\<in>set xs. nd_obj (k_node k (ThreadNode t)) = Some t"
  shows "get_thread_from k n (head_or (map ThreadNode xs) None)
    = Some (Inr (find (\<lambda>t. tid (k_thread k t) = n) xs))"
  using assms
  by (induction xs arbitrary: p) (auto simp: get_thread_from.simps)

lemma get_thread_ok:
  assumes "queues_ok k Q ts"
  shows "get_thread n k = Inr (find (\<lambda>t. tid (k_thread k t) = n) ts)"
  using get_thread_from_ok [of k None ts n] threads_rep [OF assms] thread_obj [OF assms]
  by (simp add: get_thread_def dlist_rep_def)

text \<open>The outcome of a queue operation depends on the nodes and the queues only.\<close>

lemma relinked_inj: "relinked k q s = relinked k q s' \<Longrightarrow> s = s'"
  by (metis fun_upd_same prod_eqI relinked_simps(15,16))

lemma on_queue_elsewhere:
  assumes "on_queue q f k = Inr (relinked k q s)" "k_node k2 = k_node k" "k_queue k2 = k_queue k"
  shows "on_queue q f k2 = Inr (relinked k2 q s)"
proof -
  have alt: "on_queue q f k = rbind (f (k_node k, k_queue k q)) (\<lambda>s. Inr (relinked k q s))" for k
    by (cases "f (k_node k, k_queue k q)") (auto simp: on_queue_def relinked_def split: prod.split)
  show ?thesis
    using assms relinked_inj [of k q _ s] unfolding alt by (auto simp: res_simps)
qed

text \<open>A thread moves from one queue into another.\<close>

lemma move_ok:
  assumes ok: "queues_ok k Q ts" and t: "t \<in> set (Q q)" and q': "q' \<noteq> q"
  shows "\<exists>k1 s. queue_remove (RqNode t) q k = Inr k1 \<and> k_thread k1 = k_thread k
    \<and> on_queue q' (dlist_insert_last (RqNode t)) k1 = Inr (relinked k1 q' s) \<and> k1 = relinked k q (k_node k1, k_queue k1 q)
    \<and> queues_ok (relinked k1 q' s) (Q(q := remove1 t (Q q), q' := Q q' @ [t])) ts"
proof -
  obtain s where s: "queue_remove (RqNode t) q k = Inr (relinked k q s)"
    "queues_ok (relinked k q s) (Q(q := remove1 t (Q q))) ts" using remove_ok [OF ok t] by blast
  have ts: "t \<in> set ts" using queue_sub [OF ok t] .
  have no: "\<not> queued (Q(q := remove1 t (Q q))) t"
    using queue_uniq [OF ok t] queue_distinct(1) [OF ok, of q]
    unfolding queued_def by (metis fun_upd_apply set_remove1_eq DiffE singletonI)
  obtain s' where s': "on_queue q' (dlist_insert_last (RqNode t)) (relinked k q s) = Inr (relinked (relinked k q s) q' s')"
    "queues_ok (relinked (relinked k q s) q' s') (Q(q := remove1 t (Q q), q' := Q q' @ [t])) ts"
    using enqueue_ok [OF s(2) ts no, of q'] q' by auto
  moreover have "relinked k q s = relinked k q (k_node (relinked k q s), k_queue (relinked k q s) q)" by simp
  ultimately show ?thesis using s(1) relinked_simps(1) by blast
qed

text \<open>The invariant with a thread in another queue, for a thread that fits there.\<close>

lemma core_ok_move:
  assumes ok: "core_ok k Q ts i H" and t: "t \<in> set (Q q)" and q': "q' \<noteq> q" "q' \<noteq> Sleep_q"
  defines "Q' \<equiv> Q(q := remove1 t (Q q), q' := Q q' @ [t])"
  assumes k': "queues_ok k' Q' ts" "thread_fits q' (k_thread k' t)" "\<And>x. x \<noteq> t \<Longrightarrow> k_thread k' x = k_thread k x"
    "k_idle k' = k_idle k" "k_wake k' = k_wake k" "class_of (k_thread k' t) = class_of (k_thread k t)"
  shows "core_ok k' Q' ts i H"
proof -
  note d = core_okD [OF ok]
  have only: "q'' = q" if "t \<in> set (Q q'')" for q'' using queue_uniq [OF d(1) t that] by simp
  have di: "distinct (Q q)" using queue_distinct(1) [OF d(1)] .
  have tH: "t \<notin> H" using t d(9) by (auto simp: queued_def)
  have other: "x \<in> set (Q q'') \<and> x \<noteq> t \<or> x = t \<and> q'' = q'" if "x \<in> set (Q' q'')" for x q''
    using that only di q'(1) by (auto simp: Q'_def split: if_splits)
  have qd: "queued Q' x \<longleftrightarrow> queued Q x" for x
  proof
    assume "queued Q' x"
    then show "queued Q x" using other t unfolding queued_def by metis
  next
    assume "queued Q x"
    then obtain q'' where x: "x \<in> set (Q q'')" by (auto simp: queued_def)
    show "queued Q' x"
    proof (cases "x = t")
      case True
      then show ?thesis unfolding queued_def Q'_def by (intro exI [of _ q']) simp
    next
      case False
      then show ?thesis using x di q'(1) unfolding queued_def Q'_def by (intro exI [of _ q'']) auto
    qed
  qed
  have sl: "Q' Sleep_q = (if q = Sleep_q then remove1 t (Q Sleep_q) else Q Sleep_q)"
    using q' by (auto simp: Q'_def)
  have tsl: "x \<noteq> t" if "x \<in> set (Q' Sleep_q)" for x using other [OF that] q'(2) by auto
  have sorted: "sorted (map (\<lambda>x. tick_to_wake (k_thread k x)) (Q' Sleep_q))"
    using d(3) by (auto simp: sl sleep_sorted_def intro: sorted_map_remove1)
  have map: "map (\<lambda>x. tick_to_wake (k_thread k' x)) (Q' Sleep_q) = map (\<lambda>x. tick_to_wake (k_thread k x)) (Q' Sleep_q)"
    using tsl k'(3) by auto
  show ?thesis
    unfolding core_ok_def
  proof (intro conjI allI ballI)
    show "queues_ok k' Q' ts" by (rule k'(1))
    show "thread_fits q'' (k_thread k' x)" if "x \<in> set (Q' q'')" for q'' x
      using other [OF that] d(2) k'(2,3) by auto
    show "sleep_sorted k' Q'" using sorted map by (simp add: sleep_sorted_def del: map_eq_conv)
    show "wake_ok k' Q'"
    proof (cases "Q' Sleep_q")
      case Nil then show ?thesis by (simp add: wake_ok_def)
    next
      case (Cons y ys)
      then have "y \<in> set (Q Sleep_q)" using sl by (metis list.set_intros(1) set_remove1_subset subsetD)
      then have "k_wake k \<noteq> 0 \<and> k_wake k \<le> tick_to_wake (k_thread k y)"
        using d(3,4) by (cases "Q Sleep_q") (auto simp: wake_ok_def sleep_sorted_def intro: order_trans)
      moreover have "k_thread k' y = k_thread k y" using tsl Cons k'(3) by simp
      ultimately show ?thesis using Cons k'(5) by (simp add: wake_ok_def)
    qed
    show "(class_of (k_thread k' x) = IDLE) = (x = i)" if "x \<in> set ts" for x
      using d(8) [OF that] k'(3,6) by (cases "x = t") auto
    show "(x \<in> H) = (\<not> queued Q' x)" if "x \<in> set ts" for x using d(9,10) that by (auto simp: qd)
    show "unqueued_fits (k_thread k' x)" if "x \<in> H" for x using that d(11) tH k'(3) by metis
  qed (use d(5-7) k'(4) in auto)
qed

definition spec_block :: "(u32 \<Rightarrow> thread) \<Rightarrow> u32 \<Rightarrow> queues \<Rightarrow> queues" where
  "spec_block th t Q = (case rq_list (th t) of
       Some q \<Rightarrow> if q = Blocked_q then Q else Q(q := remove1 t (Q q), Blocked_q := Q Blocked_q @ [t])
     | None \<Rightarrow> Q)"

definition spec_unblock :: "(u32 \<Rightarrow> thread) \<Rightarrow> u32 \<Rightarrow> queues \<Rightarrow> queues" where
  "spec_unblock th t Q = (if rq_list (th t) = Some Blocked_q
     then Q(Blocked_q := remove1 t (Q Blocked_q), Rt_rq := Q Rt_rq @ [t]) else Q)"

lemma fits_home:
  assumes "core_ok k Q ts i H" "t \<in> set ts" "t \<notin> H" "class_of (k_thread k t) = REAL_TIME"
  obtains q where "t \<in> set (Q q)" "rq_list (k_thread k t) = Some q" "q \<in> {Rt_rq, Sleep_q, Blocked_q}"
proof -
  obtain q where q: "t \<in> set (Q q)" using core_all [OF assms(1-3)] by (auto simp: queued_def)
  then have "thread_fits q (k_thread k t)" using core_fits [OF assms(1)] by blast
  then show thesis using that q assms(4) by (cases q) auto
qed

lemma rt_block_ok:
  assumes ok: "core_ok k Q ts i H" and t: "t \<in> set ts" "t \<notin> H" "class_of (k_thread k t) = REAL_TIME"
  shows "\<exists>k'. rt_block t k = Inr k' \<and> core_ok k' (spec_block (k_thread k) t Q) ts i H \<and> same_core k k'
    \<and> (\<forall>x. tick_to_wake (k_thread k' x) = tick_to_wake (k_thread k x))"
proof -
  obtain q where q: "t \<in> set (Q q)" "rq_list (k_thread k t) = Some q" using fits_home [OF ok t] by metis
  show ?thesis
  proof (cases "q = Blocked_q")
    case True
    then show ?thesis using q ok by (simp add: rt_block_def spec_block_def)
  next
    case False
    let ?Q = "Q(q := remove1 t (Q q), Blocked_q := Q Blocked_q @ [t])"
    obtain k1 s where k1: "queue_remove (RqNode t) q k = Inr k1" "k1 = relinked k q (k_node k1, k_queue k1 q)"
      "on_queue Blocked_q (dlist_insert_last (RqNode t)) k1 = Inr (relinked k1 Blocked_q s)"
      "queues_ok (relinked k1 Blocked_q s) ?Q ts"
      using move_ok [OF core_queues [OF ok] q(1), of Blocked_q] False by metis
    let ?k' = "upd_thread t (\<lambda>x. x\<lparr>rq_list := Some Blocked_q\<rparr>) (relinked k1 Blocked_q s)"
    have th: "k_thread k1 = k_thread k" "k_idle k1 = k_idle k" "k_wake k1 = k_wake k"
      by (subst k1(2), simp)+
    have "same_core k k1" by (subst k1(2)) (simp add: same_core_def)
    then have same: "same_core k ?k'" by (auto simp: same_core_def fixed_part_def)
    have "core_ok ?k' ?Q ts i H"
      using k1(4) t(3) th False
      by (intro core_ok_move [OF ok q(1)]) (auto simp: queues_on_cong [of ?k' "relinked k1 Blocked_q s"])
    then show ?thesis
      using q(2) False k1(1,3) same th by (simp add: rt_block_def spec_block_def)
  qed
qed

lemma rt_unblock_ok:
  assumes ok: "core_ok k Q ts i H" and t: "t \<in> set ts" "t \<notin> H" "class_of (k_thread k t) = REAL_TIME"
  shows "\<exists>k'. rt_unblock t k = Inr k' \<and> core_ok k' (spec_unblock (k_thread k) t Q) ts i H \<and> same_core k k'
    \<and> (\<forall>x. x \<noteq> t \<longrightarrow> tick_to_wake (k_thread k' x) = tick_to_wake (k_thread k x))"
proof -
  obtain q where q: "t \<in> set (Q q)" "rq_list (k_thread k t) = Some q" using fits_home [OF ok t] by metis
  show ?thesis
  proof (cases "q = Blocked_q")
    case False
    then show ?thesis using q ok by (simp add: rt_unblock_def spec_unblock_def)
  next
    case True
    let ?Q = "Q(Blocked_q := remove1 t (Q Blocked_q), Rt_rq := Q Rt_rq @ [t])"
    have tb: "t \<in> set (Q Blocked_q)" and ne: "Rt_rq \<noteq> Blocked_q" using q(1) True by simp_all
    obtain k1 s where k1: "queue_remove (RqNode t) Blocked_q k = Inr k1"
      "k1 = relinked k Blocked_q (k_node k1, k_queue k1 Blocked_q)"
      "on_queue Rt_rq (dlist_insert_last (RqNode t)) k1 = Inr (relinked k1 Rt_rq s)"
      "queues_ok (relinked k1 Rt_rq s) ?Q ts"
      using move_ok [OF core_queues [OF ok] tb ne] by metis
    let ?k2 = "upd_thread t (\<lambda>x. x\<lparr>tick_to_wake := 0\<rparr>) k1"
    let ?k' = "upd_thread t (\<lambda>x. x\<lparr>rq_list := Some Rt_rq\<rparr>) (relinked ?k2 Rt_rq s)"
    have th: "k_thread k1 = k_thread k" "k_idle k1 = k_idle k" "k_wake k1 = k_wake k"
      by (subst k1(2), simp)+
    have enq: "on_queue Rt_rq (dlist_insert_last (RqNode t)) ?k2 = Inr (relinked ?k2 Rt_rq s)"
      by (rule on_queue_elsewhere [OF k1(3)]) simp_all
    have "same_core k k1" by (subst k1(2)) (simp add: same_core_def)
    then have same: "same_core k ?k'" by (auto simp: same_core_def fixed_part_def)
    have "core_ok ?k' ?Q ts i H"
      using k1(4) t(3) th q(1) True
      by (intro core_ok_move [OF ok]) (auto simp: queues_on_cong [of ?k' "relinked k1 Rt_rq s"])
    then show ?thesis
      using q(2) True k1(1) enq same th by (simp add: rt_unblock_def spec_unblock_def)
  qed
qed

end
