(* ===== verification/Thread_Create.thy ===== *)
theory Thread_Create
  imports Sched_Run
begin

text \<open>
  Creating threads: the stack frame \<^verbatim>\<open>stack_setup\<close> writes, the memory \<^verbatim>\<open>new_thread\<close> takes from the
  allocator, and the place of the new thread in the queues of the kernel.
\<close>

section \<open>The initial stack frame\<close>

lemma words_apart:
  assumes "0 < j" "j < 2 ^ 29"
  shows "word_at (sp :: u32) \<inter> word_at (sp - W (4 * j)) = {}"
proof -
  have "W (4 * j + a) \<noteq> W b" if "a < 4" "b < 4" for a b :: nat
  proof -
    have "4 * j + a < 2 ^ 32" "b < 2 ^ 32" using assms that by simp_all
    then have "W (4 * j + a) = W b \<longleftrightarrow> 4 * j + a = b" by (rule W_eq_iff)
    then show ?thesis using assms that by linarith
  qed
  then have ne: "sp + W a \<noteq> sp - W (4 * j) + W b" if "a < 4" "b < 4" for a b :: nat
  proof -
    have "W (4 * j + a) = W b" if "sp + W a = sp - W (4 * j) + W b"
    proof -
      have "W (4 * j + a) = (sp + W a) - sp + W (4 * j)" by simp
      also have "\<dots> = W b" unfolding that by (simp del: of_nat_mult)
      finally show ?thesis .
    qed
    then show ?thesis using \<open>\<And>b a. a < 4 \<Longrightarrow> b < 4 \<Longrightarrow> W (4 * j + a) \<noteq> W b\<close> \<open>a < 4\<close> \<open>b < 4\<close> by blast
  qed
  have at: "x \<in> word_at y \<longleftrightarrow> (\<exists>a<4. x = y + W a)" for x y :: u32
  proof -
    have "a < 4 \<longleftrightarrow> a \<in> {0, 1, 2, 3}" for a :: nat by auto
    then have "(\<exists>a<4. x = y + W a) \<longleftrightarrow> (\<exists>a\<in>{0, 1, 2, 3}. x = y + W a)" by metis
    then show ?thesis by (simp add: word_at_def)
  qed
  show ?thesis using ne by (auto simp: at)
qed

lemma push_words_ok:
  assumes "length vs = Suc n" "n < 2 ^ 28"
  shows "fst (push_words vs sp m) = sp - W (4 * n)
    \<and> (\<forall>i\<le>n. load32 (snd (push_words vs sp m)) (sp - W (4 * i)) = vs ! i)
    \<and> (\<forall>x. (\<forall>i\<le>n. x \<notin> word_at (sp - W (4 * i))) \<longrightarrow> snd (push_words vs sp m) x = m x)"
  using assms
proof (induction vs arbitrary: n sp m)
  case Nil
  then show ?case by simp
next
  case (Cons v vs)
  show ?case
  proof (cases n)
    case 0
    then show ?thesis using Cons.prems by (cases vs) auto
  next
    case (Suc n')
    then obtain w ws where vs: "vs = w # ws" using Cons.prems by (cases vs) auto
    let ?m = "store32 m sp v" and ?sp = "sp - 4"
    have shift: "?sp - W (4 * i) = sp - W (4 * Suc i)" for i by (simp add: algebra_simps)
    have IH: "fst (push_words vs ?sp ?m) = sp - W (4 * Suc n')"
      "\<forall>i\<le>n'. load32 (snd (push_words vs ?sp ?m)) (sp - W (4 * Suc i)) = vs ! i"
      "\<forall>x. (\<forall>i\<le>n'. x \<notin> word_at (sp - W (4 * Suc i))) \<longrightarrow> snd (push_words vs ?sp ?m) x = ?m x"
      using Cons.IH [of n' ?sp ?m] Cons.prems Suc unfolding shift by auto
    have step: "push_words (v # vs) sp m = push_words vs ?sp ?m" by (simp add: vs)
    have "snd (push_words vs ?sp ?m) x = ?m x" if "x \<in> word_at sp" for x
    proof -
      have "x \<notin> word_at (sp - W (4 * Suc i))" if "i \<le> n'" for i
        using words_apart [of "Suc i" sp] \<open>x \<in> word_at sp\<close> that Cons.prems(2) Suc by fastforce
      then show ?thesis using IH(3) by blast
    qed
    then have first: "load32 (snd (push_words vs ?sp ?m)) sp = v"
      using load32_cong [of sp "snd (push_words vs ?sp ?m)" ?m] by simp
    have "load32 (snd (push_words vs ?sp ?m)) (sp - W (4 * i)) = (v # vs) ! i" if "i \<le> n" for i
      using first IH(2) that Suc by (cases i) auto
    moreover have "snd (push_words vs ?sp ?m) x = m x" if "\<forall>i\<le>n. x \<notin> word_at (sp - W (4 * i))" for x
    proof -
      have "x \<notin> word_at (sp - W (4 * Suc i))" if "i \<le> n'" for i
        using \<open>\<forall>i\<le>n. x \<notin> word_at (sp - W (4 * i))\<close> that Suc by auto
      moreover have "x \<notin> word_at sp" using that [rule_format, of 0] by simp
      ultimately show ?thesis using IH(3) by simp
    qed
    ultimately show ?thesis using IH(1) Suc unfolding step by auto
  qed
qed

text \<open>The words of the frame as the context switch pops them, from the stack pointer upwards.\<close>

lemma frame_length: "length (initial_frame e t a) = 16"
  by (simp add: initial_frame_def)

section \<open>The frame stays inside its allocation\<close>

lemma reach_byte:
  assumes "mm_reachable (st\<lparr>mm_mem := m\<rparr>, M)" "(p, n) \<in> set M" "k < n"
  shows "mm_reachable (st\<lparr>mm_mem := (m(p + k := v))\<rparr>, M)"
  using stepped [OF assms(1) do_write [OF assms(2,3), of "st\<lparr>mm_mem := m\<rparr>" v]] by simp

lemma reach_store:
  assumes "mm_reachable (st\<lparr>mm_mem := m\<rparr>, M)" "(p, n) \<in> set M" "unat k + 3 < unat n"
  shows "mm_reachable (st\<lparr>mm_mem := store32 m (p + k) v\<rparr>, M)"
proof -
  have "k + W j < n" if "j \<le> 3" for j
  proof -
    have "unat (k + W j) = unat k + j"
      using that assms(3) unat_u32_less [of n] by (subst unat_add_lem [THEN iffD1]) auto
    then show ?thesis using that assms(3) by (simp add: word_less_nat_alt)
  qed
  from this [of 0] this [of 1] this [of 2] this [of 3]
  have k: "k < n" "k + 1 < n" "k + 2 < n" "k + 3 < n" by simp_all
  have "mm_reachable (st\<lparr>mm_mem := (m(p + k := ucast v, p + (k + 1) := ucast (drop_bit 8 v),
     p + (k + 2) := ucast (drop_bit 16 v), p + (k + 3) := ucast (drop_bit 24 v)))\<rparr>, M)"
    by (intro reach_byte [OF _ assms(2)] k assms(1))
  then show ?thesis by (simp add: store32_def add.assoc)
qed

lemma reach_push:
  assumes "mm_reachable (st\<lparr>mm_mem := m\<rparr>, M)" "(p, n) \<in> set M" "length vs = Suc l"
    "4 * l \<le> unat k" "unat k + 3 < unat n"
  shows "mm_reachable (st\<lparr>mm_mem := snd (push_words vs (p + k) m)\<rparr>, M)"
  using assms
proof (induction vs "p + k" m arbitrary: k l rule: push_words.induct)
  case (2 v m)
  then show ?case using reach_store [where st=st and m=m and M=M and p=p and n=n and k=k and v=v] by simp
next
  case (3 v w vs m)
  obtain l' where l: "l = Suc l'" using "3.prems"(3) by (cases l) auto
  have k: "unat (k - 4) = unat k - 4" using "3.prems"(4) l by (simp add: unat_sub word_le_nat_alt)
  have "mm_reachable (st\<lparr>mm_mem := snd (push_words (w # vs) (p + (k - 4)) (store32 m (p + k) v))\<rparr>, M)"
    using "3.prems" l k
    by (intro "3.hyps" [of "k - 4" l'] reach_store [where st=st and m=m and M=M and p=p and n=n and k=k and v=v]) auto
  then show ?case by (simp add: add_diff_eq)
qed simp

lemma held_distinct:
  assumes "mm_reachable (st, M)"
  shows "distinct (map fst M)"
  using reachable_ok [OF assms] by (auto simp: held_ok_def)

section \<open>A new thread\<close>

definition threads_held :: "kernel \<Rightarrow> u32 list \<Rightarrow> held \<Rightarrow> bool" where
  "threads_held k ts M \<longleftrightarrow> mm_reachable (k_mm k, M) \<and> set ts \<subseteq> fst ` set M \<and> 0 \<notin> set ts"

definition thread_bytes :: "u32 \<Rightarrow> nat" where
  "thread_bytes stack_size = 512 * ((120 + 4 * unat stack_size + 511) div 512)"

lemma round_up: "n div 512 + (if n mod 512 \<noteq> 0 then 1 else 0) = (n + 511) div (512 :: nat)"
proof -
  have "(n + 511) div 512 = n div 512 + (n mod 512 + 511) div 512" by (simp add: div_add1_eq [of n 511])
  moreover have "(n mod 512 + 511) div 512 = (if n mod 512 \<noteq> 0 then 1 else 0)"
    using mod_less_divisor [of 512 n] by (auto simp: le_div_geq simp del: mod_less_divisor)
  ultimately show ?thesis by simp
qed

lemma round_up_le: "n \<le> 512 * ((n + 511) div 512)" for n :: nat
  using div_mult_mod_eq [of "n + 511" 512] mod_less_divisor [of 512 "n + 511"] by linarith

lemma thread_pages_size:
  assumes "unat ss < 2 ^ 28"
  shows "unat (thread_pages ss * 512) = thread_bytes ss" "120 + 4 * unat ss \<le> thread_bytes ss"
    "thread_bytes ss < 2 ^ 31"
proof -
  let ?n = "120 + 4 * unat ss"
  have sz: "unat (thread_size + ss * 4) = ?n"
  proof -
    have "unat (ss * 4) = unat ss * 4" using assms by (subst unat_mult_lem [THEN iffD1]) auto
    then show ?thesis using assms by (subst unat_add_lem [THEN iffD1]) (auto simp: thread_size_def)
  qed
  have up: "?n div 512 + (if ?n mod 512 \<noteq> 0 then 1 else 0) = (?n + 511) div 512" by (rule round_up)
  have small: "(?n + 511) div 512 < 2 ^ 22" using assms by simp
  let ?w = "thread_size + ss * 4"
  have div: "unat (?w div 512) = ?n div 512" using sz by (simp add: unat_div)
  have "unat (?w mod 512) = ?n mod 512" using sz by (simp add: unat_mod)
  then have zero: "?w mod 512 = 0 \<longleftrightarrow> ?n mod 512 = 0" by (metis unat_0_iff)
  have "unat (?w div 512 + 1) = ?n div 512 + 1"
    using div small by (subst unat_add_lem [THEN iffD1]) auto
  then have "unat (thread_pages ss) = (?n + 511) div 512"
    using div zero up unfolding thread_pages_def Let_def by (cases "?w mod 512 = 0") simp_all
  then show "unat (thread_pages ss * 512) = thread_bytes ss"
    using small by (subst unat_mult_lem [THEN iffD1]) (auto simp: thread_bytes_def)
  show "?n \<le> thread_bytes ss" unfolding thread_bytes_def by (rule round_up_le)
  show "thread_bytes ss < 2 ^ 31" using small by (simp add: thread_bytes_def)
qed

definition new_tcb :: "u32 \<Rightarrow> u32 \<Rightarrow> thread_info \<Rightarrow> thread" where
  "new_tcb n th info = \<lparr>stack_pointer = th + 52 + 4 * ti_stack_size info, stack_base = th + 120,
     rq_list = (if ti_class info = REAL_TIME then Some Rt_rq else None), class_of = ti_class info,
     thread_name = take 32 (ti_name info), name_len = name_length (ti_name info), tick_to_wake = 0,
     runtime_curr = 0, runtime_new = 0, tid = n, exit_pending = 0, code_addr = ti_code_addr info\<rparr>"

definition put_new :: "sched_class \<Rightarrow> u32 \<Rightarrow> queues \<Rightarrow> queues" where
  "put_new C t Q = (case home C of Some q \<Rightarrow> Q(q := Q q @ [t]) | None \<Rightarrow> Q)"

lemma add_nodes_ok:
  assumes ok: "queues_ok k Q ts" and th: "th \<notin> set ts" "th \<noteq> 0" "0 \<notin> set ts"
    and k': "k_node k' = (k_node k)(RqNode th := init_node th, ThreadNode th := init_node th)"
      "k_queue k' = k_queue k" "k_threads k' = k_threads k"
  shows "queues_on k' Q (th # ts) ts"
proof -
  have no: "th \<notin> set (Q q)" for q using queue_sub [OF ok, of th q] th(1) by blast
  have "dlist_rep (k_node k') (k_queue k' q) (map RqNode (Q q))" for q
    unfolding k'(2) using no [of q] by (intro dlist_rep_frame [OF queue_rep [OF ok]]) (auto simp: k'(1))
  moreover have "dlist_rep (k_node k') (k_threads k') (map ThreadNode ts)"
    unfolding k'(3) using th(1) by (intro dlist_rep_frame [OF threads_rep [OF ok]]) (auto simp: k'(1))
  moreover have "Suc (length ts) < 2 ^ 32"
  proof -
    have "card (insert 0 (set (th # ts))) \<le> card (UNIV :: u32 set)" by (intro card_mono) auto
    then show ?thesis using th threads_distinct [OF ok] by (simp add: distinct_card card_word)
  qed
  moreover have "unlinked (k_node k') (RqNode t)" if "t \<in> set (th # ts)" "\<not> queued Q t" for t
    using that not_queued [OF ok, of t] by (auto simp: k'(1) unlinked_def init_node_def)
  moreover have "nd_obj (k_node k' (RqNode t)) = Some t \<and> nd_obj (k_node k' (ThreadNode t)) = Some t"
    if "t \<in> set (th # ts)" for t
    using that queue_obj [OF ok, of t] thread_obj [OF ok, of t] by (auto simp: k'(1) init_node_def)
  ultimately show ?thesis
    using queue_sub [OF ok] queue_uniq [OF ok] threads_distinct [OF ok] th(1)
    unfolding queues_on_def by (simp add: subset_iff)
qed

lemma enqueue_new_ok:
  assumes ok: "queues_on k Q (th # ts) ts" and no: "\<not> queued Q th" and cl: "rq_list (k_thread k th) = None"
  shows "\<exists>k'. class_enqueue C th k = Inr k' \<and> queues_on k' (put_new C th Q) (th # ts) ts
    \<and> k_node k' (ThreadNode th) = k_node k (ThreadNode th)
    \<and> k_thread k' = (k_thread k)(th := (k_thread k th)\<lparr>rq_list := if C = REAL_TIME then Some Rt_rq else None\<rparr>)
    \<and> k_idle k' = (if C = IDLE then Some th else k_idle k)
    \<and> k_mm k' = k_mm k \<and> k_tid k' = k_tid k \<and> k_wake k' = k_wake k \<and> k_tick k' = k_tick k
    \<and> curr_thread k' = curr_thread k"
proof -
  have id: "(k_thread k)(th := (k_thread k th)\<lparr>rq_list := None\<rparr>) = k_thread k"
    using cl by (cases "k_thread k th") (simp add: fun_eq_iff)
  show ?thesis
  proof (cases "home C")
    case None
    then have "C = IDLE" by (cases C) auto
    then show ?thesis using ok id
      by (auto simp: idle_enqueue_def put_new_def queues_on_cong [of "k\<lparr>k_idle := Some th\<rparr>" k])
  next
    case (Some q)
    obtain s where s: "on_queue q (dlist_insert_last (RqNode th)) k = Inr (relinked k q s)"
      "queues_on (relinked k q s) (Q(q := Q q @ [th])) (th # ts) ts"
      "\<forall>x. fst s (ThreadNode x) = k_node k (ThreadNode x)"
      using enqueue_ok [OF ok _ no, of q] by auto
    let ?k = "if C = REAL_TIME then upd_thread th (\<lambda>x. x\<lparr>rq_list := Some Rt_rq\<rparr>) (relinked k q s) else relinked k q s"
    have "class_enqueue C th k = Inr ?k"
      using Some s(1) by (cases C) (auto simp: rt_enqueue_def app_enqueue_def background_enqueue_def)
    moreover have "queues_on ?k (put_new C th Q) (th # ts) ts"
      using s(2) Some queues_on_cong [of ?k "relinked k q s"] by (simp add: put_new_def)
    ultimately show ?thesis using s(3) Some id by (cases C) auto
  qed
qed

lemma register_ok:
  assumes ok: "queues_on k Q (th # ts) ts" and un: "unlinked (k_node k) (ThreadNode th)" and th: "th \<notin> set ts"
  shows "\<exists>h l. dlist_insert_first (ThreadNode th) (k_node k, k_threads k) = Inr (h, l)
    \<and> queues_ok (k\<lparr>k_node := h, k_threads := l\<rparr>) Q (th # ts)"
proof -
  have "dl_yields (dlist_insert_first (ThreadNode th) (k_node k, k_threads k)) (k_node k)
      (insert (ThreadNode th) (set (map ThreadNode ts))) (ThreadNode th # map ThreadNode ts)"
    using th threads_distinct [OF ok] by (intro insert_first_yields threads_rep [OF ok] un) auto
  then obtain h l where hl: "dlist_insert_first (ThreadNode th) (k_node k, k_threads k) = Inr (h, l)"
    "dl_post (k_node k) (insert (ThreadNode th) (set (map ThreadNode ts))) (map ThreadNode (th # ts)) (h, l)"
    by (auto simp: dl_yields_def)
  have rq: "h (RqNode t) = k_node k (RqNode t)" for t using hl(2) by (auto simp: dl_post_def)
  have "dlist_rep h (k_queue k q) (map RqNode (Q q))" for q
    by (rule dlist_rep_frame [OF queue_rep [OF ok]]) (auto simp: rq)
  then have "queues_ok (k\<lparr>k_node := h, k_threads := l\<rparr>) Q (th # ts)"
    using ok hl(2) rq unfolding queues_on_def by (simp add: dl_post_def unlinked_def)
  then show ?thesis using hl(1) by blast
qed

lemma suspend_simps [simp]:
  "k_mm (suspend_scheduler k) = k_mm k" "k_node (suspend_scheduler k) = k_node k"
  "k_queue (suspend_scheduler k) = k_queue k" "k_threads (suspend_scheduler k) = k_threads k"
  "k_thread (suspend_scheduler k) = k_thread k" "k_tid (suspend_scheduler k) = k_tid k"
  by (simp_all add: suspend_scheduler_def)

text \<open>The frame of a new thread, and the memory that holds it.\<close>

section \<open>The fields of the control block\<close>

lemma write_bytes_outside: "\<not> within p (length bs) x \<Longrightarrow> write_bytes p bs m x = m x"
  by (induction bs arbitrary: p m) (auto simp: within_Suc)

lemma within_mono: "within a n x \<Longrightarrow> n \<le> l \<Longrightarrow> within a l x"
  by (simp add: within_def)

lemma field_words:
  assumes "\<not> within (th + 40) 76 x"
  shows "x \<notin> word_at (th + 80)" "x \<notin> word_at (th + 84)" "x \<notin> word_at (th + 88)" "x \<notin> word_at (th + 92)"
    "x \<notin> word_at (th + 96)" "x \<notin> word_at (th + 100)" "x \<notin> word_at (th + 104)" "x \<noteq> th + 72" "x \<noteq> th + 108"
    "x \<notin> word_at (th + 112)"
  using assms by (auto simp: word_at_def within_def)

lemma tcb_name_outside:
  assumes "\<not> within (th + 40) 76 x"
  shows "tcb_name th name m x = m x"
proof -
  have "\<not> within (th + 40) (length (take 32 name)) x" using assms by (auto dest: within_mono [of _ _ _ 76])
  then show ?thesis using field_words [OF assms] by (simp add: tcb_name_def write_bytes_outside)
qed

lemma tcb_fields_outside: "\<not> within (th + 40) 76 x \<Longrightarrow> tcb_fields th n code m x = m x"
  using field_words [of th x] by (simp add: tcb_fields_def zero_words_def)

lemma tcb_fields_code: "load32 (tcb_fields th n code m) (th + 112) = code"
  by (simp add: tcb_fields_def)

lemma reach_write:
  assumes "mm_reachable (st\<lparr>mm_mem := m\<rparr>, M)" "(p, n) \<in> set M" "unat k + length bs \<le> unat n"
  shows "mm_reachable (st\<lparr>mm_mem := write_bytes (p + k) bs m\<rparr>, M)"
  using assms
proof (induction bs arbitrary: k m)
  case (Cons b bs)
  have k: "unat (k + 1) = unat k + 1"
    using Cons.prems(3) unat_u32_less [of n] by (subst unat_add_lem [THEN iffD1]) auto
  have "mm_reachable (st\<lparr>mm_mem := m(p + k := b)\<rparr>, M)"
    using Cons.prems(3) by (intro reach_byte [OF Cons.prems(1,2)]) (simp add: word_less_nat_alt)
  from Cons.IH [OF this Cons.prems(2), of "k + 1"] Cons.prems(3) k
  show ?case by (simp add: add.assoc del: fun_upd_apply)
qed simp

lemma reach_tcb:
  assumes m: "mm_reachable (st\<lparr>mm_mem := m\<rparr>, M)" and p: "(th, n) \<in> set M" and n: "120 \<le> unat n"
  shows "mm_reachable (st\<lparr>mm_mem := tcb_fields th t code (tcb_name th name m)\<rparr>, M)"
proof -
  have byte: "k < n" if "unat k < 120" for k using that n by (simp add: word_less_nat_alt)
  have word: "unat k + 3 < unat n" if "unat k \<le> 116" for k :: u32 using that n by simp
  have "mm_reachable (st\<lparr>mm_mem := write_bytes (th + 40) (take 32 name) m\<rparr>, M)"
    by (rule reach_write [OF m p]) (use n in simp)
  then have "mm_reachable (st\<lparr>mm_mem := tcb_name th name m\<rparr>, M)"
    unfolding tcb_name_def by (rule reach_byte [OF _ p]) (rule byte, simp)
  then show ?thesis
    unfolding tcb_fields_def zero_words_def foldl.simps
    by (intro reach_store [OF _ p] reach_byte [OF _ p] byte word) simp_all
qed

definition frame_at :: "mem \<Rightarrow> u32 \<Rightarrow> u32 list \<Rightarrow> bool" where
  "frame_at m sp vs \<longleftrightarrow> (\<forall>i<length vs. load32 m (sp + W (4 * i)) = vs ! i)"

lemma frame_above:
  assumes "frame_at m (th + 52 + 4 * ss) vs" "length vs \<le> 16" "16 \<le> unat ss" "unat ss < 2 ^ 28"
    and same: "\<And>x. \<not> within (th + 40) 76 x \<Longrightarrow> m' x = m x"
  shows "frame_at m' (th + 52 + 4 * ss) vs"
  unfolding frame_at_def
proof (intro allI impI)
  fix i assume i: "i < length vs"
  have "\<not> within (th + 40) 76 (th + 52 + 4 * ss + W (4 * i) + W j)" if "j < 4" for j
  proof -
    have "th + 52 + 4 * ss + W (4 * i) + W j - (th + 40) = W (12 + 4 * unat ss + 4 * i + j)" by simp
    moreover have "unat (W (12 + 4 * unat ss + 4 * i + j)) = 12 + 4 * unat ss + 4 * i + j"
      using assms(2,4) i that by (intro unat_W) simp
    ultimately show ?thesis using assms(3) by (simp only: within_def)
  qed
  from this [of 0] this [of 1] this [of 2] this [of 3]
  have "load32 m' (th + 52 + 4 * ss + W (4 * i)) = load32 m (th + 52 + 4 * ss + W (4 * i))"
    by (intro load32_cong same) (auto simp: word_at_def)
  then show "load32 m' (th + 52 + 4 * ss + W (4 * i)) = vs ! i" using assms(1) i by (simp add: frame_at_def)
qed

lemma stack_setup_ok:
  "fst (stack_setup e (th + thread_size + ss * 4 - 4) t a m) = th + 52 + 4 * ss
   \<and> frame_at (snd (stack_setup e (th + thread_size + ss * 4 - 4) t a m)) (th + 52 + 4 * ss) (rev (initial_frame e t a))"
proof -
  let ?f = "initial_frame e t a" and ?sp = "th + 112 + 4 * ss"
  have sp: "th + thread_size + ss * 4 - 4 - 4 = ?sp" by (simp add: thread_size_def algebra_simps)
  have top: "?sp - W (4 * 15) = th + 52 + 4 * ss" by simp
  have p: "fst (push_words ?f ?sp m) = th + 52 + 4 * ss"
    "load32 (snd (push_words ?f ?sp m)) (?sp - W (4 * j)) = ?f ! j" if "j \<le> 15" for j
    using push_words_ok [of ?f 15 ?sp m] that top by (simp_all add: frame_length del: of_nat_mult)
  have "load32 (snd (push_words ?f ?sp m)) (th + 52 + 4 * ss + W (4 * i)) = rev ?f ! i" if "i < 16" for i
  proof -
    have "W (4 * (15 - i)) + W (4 * i) = W 60"
      using that by (subst of_nat_add [symmetric]) (simp flip: distrib_left)
    then have a: "th + 52 + 4 * ss + W (4 * i) = ?sp - W (4 * (15 - i))" by (simp add: algebra_simps)
    show ?thesis unfolding a using p(2) [of "15 - i"] that by (simp add: rev_nth frame_length)
  qed
  then show ?thesis using p(1) [of 0] unfolding stack_setup_def frame_at_def sp by (simp add: frame_length)
qed

text \<open>The word of a short stack's frame that is the code address of the thread.\<close>

lemma damaged_word:
  assumes "unat ss < 16"
  shows "th + 52 + 4 * ss + W (4 * (15 - unat ss)) = th + 112"
proof -
  have "4 * W n + W (4 * (15 - n)) = 60" if "n < 16" for n
  proof -
    have "4 * W n + W (4 * (15 - n)) = W (4 * n + 4 * (15 - n))" by (simp only: of_nat_add of_nat_mult of_nat_numeral)
    also have "4 * n + 4 * (15 - n) = 60" using that by simp
    finally show ?thesis by simp
  qed
  from this [OF assms] have "4 * ss + W (4 * (15 - unat ss)) = 60" by (simp only: W_unat)
  then show ?thesis by (simp only: add.assoc) simp
qed

lemma new_thread_ok:
  assumes ok: "queues_ok k Q ts" and held: "threads_held k ts M" and ss: "unat (ti_stack_size info) < 2 ^ 28"
  shows "(\<exists>st. mm_alloc (thread_pages (ti_stack_size info) * 512) 3 (k_mm k) = Inr (0, st))
        \<and> new_thread e info k = Inl (Panic ''palloc failed'')
    \<or> (\<exists>th k'. new_thread e info k = Inr (k_tid k, k') \<and> th \<notin> set ts
        \<and> threads_held k' (th # ts) ((th, thread_pages (ti_stack_size info) * 512) # M)
        \<and> queues_ok k' (put_new (ti_class info) th Q) (th # ts)
        \<and> k_thread k' = (k_thread k)(th := new_tcb (k_tid k) th info)
        \<and> (16 \<le> unat (ti_stack_size info) \<longrightarrow>
             frame_at (kmem k') (stack_pointer (k_thread k' th)) (rev (initial_frame e (ti_thread info) (ti_arg info))))
        \<and> (unat (ti_stack_size info) < 16 \<longrightarrow>
             load32 (kmem k') (stack_pointer (k_thread k' th) + W (4 * (15 - unat (ti_stack_size info)))) = ti_code_addr info)
        \<and> k_idle k' = (if ti_class info = IDLE then Some th else k_idle k) \<and> scheduler_status k' = 1
        \<and> k_tid k' = k_tid k + 1 \<and> k_wake k' = k_wake k \<and> k_tick k' = k_tick k \<and> curr_thread k' = curr_thread k)"
proof -
  let ?ss = "ti_stack_size info"
  let ?n = "thread_pages ?ss * 512"
  let ?f = "initial_frame e (ti_thread info) (ti_arg info)"
  have reach: "mm_reachable (k_mm k, M)" and sub: "set ts \<subseteq> fst ` set M" "0 \<notin> set ts"
    using held by (simp_all add: threads_held_def)
  note size = thread_pages_size [OF ss]
  have fits: "mm_fits ?n" using size by (simp add: mm_fits_def)
  obtain th st where alloc: "mm_alloc ?n 3 (k_mm k) = Inr (th, st)"
    using client_returns [OF reach] fits by fastforce
  show ?thesis
  proof (cases "th = 0")
    case True
    then have "new_thread e info k = Inl (Panic ''palloc failed'')"
      using alloc by (simp add: new_thread_def pmalloc_def or_panic_def suspend_scheduler_def)
    then show ?thesis using alloc True by blast
  next
    case False
    have pm: "pmalloc (thread_pages ?ss) 3 (k_mm k) = Inr (th, st)"
      using alloc False by (simp add: pmalloc_def or_panic_def)
    have r1: "mm_reachable (st, (th, ?n) # M)"
      using stepped [OF reach do_alloc [OF alloc fits]] False by simp
    have new: "th \<notin> set ts" using held_distinct [OF r1] sub by auto
    define m0 where "m0 = snd (stack_setup e (th + thread_size + ?ss * 4 - 4) (ti_thread info) (ti_arg info) (mm_mem st))"
    define m where "m = tcb_name th (ti_name info) m0"
    define m' where "m' = tcb_fields th (k_tid k) (ti_code_addr info) m"
    have sp: "stack_setup e (th + thread_size + ?ss * 4 - 4) (ti_thread info) (ti_arg info) (mm_mem st) = (th + 52 + 4 * ?ss, m0)"
      and frame0: "frame_at m0 (th + 52 + 4 * ?ss) (rev ?f)"
      using stack_setup_ok [of e th ?ss "ti_thread info" "ti_arg info" "mm_mem st"] by (simp_all add: m0_def prod_eq_iff)
    have frame: "frame_at m' (th + 52 + 4 * ?ss) (rev ?f)" if "16 \<le> unat ?ss"
      by (rule frame_above [OF frame0 _ that ss]) (simp_all add: frame_length m'_def m_def tcb_fields_outside tcb_name_outside)
    have code: "load32 m' (th + 52 + 4 * ?ss + W (4 * (15 - unat ?ss))) = ti_code_addr info" if "unat ?ss < 16"
      unfolding damaged_word [OF that] m'_def by (rule tcb_fields_code)
    have "unat (112 + 4 * ?ss) = 112 + 4 * unat ?ss"
      using ss by (simp add: unat_word_ariths)
    then have "mm_reachable (st\<lparr>mm_mem := snd (push_words ?f (th + (112 + 4 * ?ss)) (mm_mem st))\<rparr>, (th, ?n) # M)"
      using size r1 frame_length by (intro reach_push [where l = 15 and n = ?n]) auto
    then have "mm_reachable (st\<lparr>mm_mem := m0\<rparr>, (th, ?n) # M)"
      by (simp add: m0_def stack_setup_def thread_size_def algebra_simps)
    then have r2: "mm_reachable (st\<lparr>mm_mem := m'\<rparr>, (th, ?n) # M)"
      unfolding m'_def m_def by (rule reach_tcb [where n = ?n]) (use size in simp_all)
    text \<open>The state with the control block filled in, before the thread is put into its queue.\<close>
    define k3 where "k3 = upd_thread th (\<lambda>t. t\<lparr>stack_base := th + thread_size, stack_pointer := th + 52 + 4 * ?ss,
        class_of := ti_class info, rq_list := None, name_len := name_length (ti_name info),
        thread_name := take 32 (ti_name info)\<rparr>)
      ((suspend_scheduler k)\<lparr>k_mm := st\<lparr>mm_mem := m\<rparr>,
        k_node := (k_node k)(RqNode th := init_node th, ThreadNode th := init_node th)\<rparr>)"
    have q3: "queues_on k3 Q (th # ts) ts"
      using sub(2) by (intro add_nodes_ok [OF ok new False]) (simp_all add: k3_def suspend_scheduler_def)
    have no: "\<not> queued Q th" using queue_sub [OF ok, of th] new by (auto simp: queued_def)
    have rq3: "rq_list (k_thread k3 th) = None" and cl3: "class_of (k_thread k3 th) = ti_class info"
      by (simp_all add: k3_def)
    obtain k4 where k4: "class_enqueue (ti_class info) th k3 = Inr k4"
      "queues_on k4 (put_new (ti_class info) th Q) (th # ts) ts"
      "k_node k4 (ThreadNode th) = k_node k3 (ThreadNode th)"
      "k_thread k4 = (k_thread k3)(th := (k_thread k3 th)\<lparr>rq_list := if ti_class info = REAL_TIME then Some Rt_rq else None\<rparr>)"
      "k_idle k4 = (if ti_class info = IDLE then Some th else k_idle k3)"
      "k_mm k4 = k_mm k3" "k_tid k4 = k_tid k3" "k_wake k4 = k_wake k3" "k_tick k4 = k_tick k3"
      "curr_thread k4 = curr_thread k3"
      using enqueue_new_ok [OF q3 no rq3, of "ti_class info"] by blast
    have "unlinked (k_node k4) (ThreadNode th)"
      unfolding unlinked_def k4(3) by (simp add: k3_def init_node_def)
    then obtain h l where hl: "dlist_insert_first (ThreadNode th) (k_node k4, k_threads k4) = Inr (h, l)"
      "queues_ok (k4\<lparr>k_node := h, k_threads := l\<rparr>) (put_new (ti_class info) th Q) (th # ts)"
      using register_ok [OF k4(2) _ new] by blast
    define k6 where "k6 = resume_scheduler (upd_thread th (\<lambda>t. t\<lparr>tick_to_wake := 0, runtime_curr := 0, runtime_new := 0,
        tid := k_tid k, exit_pending := 0, code_addr := ti_code_addr info\<rparr>)
      (set_kmem m' (k4\<lparr>k_node := h, k_threads := l, k_tid := k_tid k + 1\<rparr>)))"
    have t3: "k_tid k3 = k_tid k" "k_mm k4 = st\<lparr>mm_mem := m\<rparr>" using k4(6) by (simp_all add: k3_def suspend_scheduler_def)
    then have mem: "tcb_fields th (k_tid k) (ti_code_addr info) (kmem (k4\<lparr>k_node := h, k_threads := l\<rparr>)) = m'"
      by (simp add: kmem_def m'_def)
    have "new_thread e info k = Inr (k_tid k, k6)"
      using pm sp k4(1) hl(1) k4(7) cl3 t3(1) mem
      by (simp add: new_thread_def Let_def k6_def flip: k3_def m_def del: dlist_insert_first.simps upd_thread_simps)
        (simp add: upd_thread_def resume_scheduler_def set_kmem_def)
    moreover have "queues_ok k6 (put_new (ti_class info) th Q) (th # ts)"
      using hl(2) queues_on_cong [of k6 "k4\<lparr>k_node := h, k_threads := l\<rparr>"] by (simp add: k6_def resume_scheduler_def set_kmem_def)
    moreover have "k_thread k6 = (k_thread k)(th := new_tcb (k_tid k) th info)"
      by (cases "k_thread k th") (simp add: k6_def k4(4) k3_def resume_scheduler_def new_tcb_def thread_size_def suspend_scheduler_def set_kmem_def)
    moreover have "k_mm k6 = st\<lparr>mm_mem := m'\<rparr>" using t3(2) by (simp add: k6_def resume_scheduler_def set_kmem_def)
    ultimately show ?thesis
      using new frame code r2 sub False k4
      by (intro disjI2 exI [of _ th] exI [of _ k6])
        (auto simp: threads_held_def kmem_def new_tcb_def k6_def k3_def resume_scheduler_def suspend_scheduler_def set_kmem_def)
  qed
qed

end
