(* ===== verification/Sched_Exit.thy ===== *)
theory Sched_Exit
  imports Thread_Create
begin

text \<open>
  Exiting threads. A thread that sets \<^verbatim>\<open>exit_pending\<close> is put back into its queue by the next tick
  and then removed by \<^verbatim>\<open>scheduler_remove_thread\<close>, which finds the queue through \<^verbatim>\<open>rq_list\<close>. Only the
  real-time class and the sleep queue maintain that field: removing an application or background
  thread that is not asleep leaves it in its run queue.
\<close>

section \<open>Leaving the list of threads\<close>

lemma unregister_ok:
  assumes ok: "queues_ok k Q ts" and c: "c \<in> set ts"
  shows "\<exists>h l. dlist_remove (ThreadNode c) (k_node k, k_threads k) = Inr (ThreadNode c, h, l)
    \<and> queues_on (k\<lparr>k_node := h, k_threads := l\<rparr>) Q ts (remove1 c ts) \<and> unlinked h (ThreadNode c)
    \<and> (\<forall>t. h (RqNode t) = k_node k (RqNode t))"
proof -
  obtain as bs where ts: "ts = as @ c # bs" using c by (auto simp: in_set_conv_decomp)
  have rep: "dlist_rep (k_node k) (k_threads k) (map ThreadNode as @ ThreadNode c # map ThreadNode bs)"
    using threads_rep [OF ok] ts by simp
  have r: "remove1 c ts = as @ bs" using threads_distinct(1) [OF ok] by (simp add: ts remove1_append)
  obtain h l where hl: "dlist_remove (ThreadNode c) (k_node k, k_threads k) = Inr (ThreadNode c, h, l)"
    "dl_post (k_node k) (ThreadNode ` set ts) (map ThreadNode (as @ bs)) (h, l)" "unlinked h (ThreadNode c)"
    using remove_removes [OF rep] ts unfolding dl_removes_def by (auto simp: image_Un)
  have rq: "h (RqNode t) = k_node k (RqNode t)" for t using hl(2) by (auto simp: dl_post_def)
  have "dlist_rep h (k_queue k q) (map RqNode (Q q))" for q
    by (rule dlist_rep_frame [OF queue_rep [OF ok]]) (auto simp: rq)
  then have "queues_on (k\<lparr>k_node := h, k_threads := l\<rparr>) Q ts (as @ bs)"
    using ok hl(2) rq unfolding queues_on_def by (simp add: dl_post_def unlinked_def)
  then show ?thesis using hl rq r by auto
qed

lemma shrink_ok:
  assumes ok: "queues_on k Q ts (remove1 c ts)" and c: "\<not> queued Q c"
  shows "queues_ok k Q (remove1 c ts)"
proof -
  have d: "distinct ts" "length ts < 2 ^ 32" using threads_distinct [OF ok] .
  have "length (remove1 c ts) < 2 ^ 32" using d(2) length_remove1 [of c ts] by (simp split: if_splits)
  moreover have "set (Q q) \<subseteq> set (remove1 c ts)" for q
    using queue_sub [OF ok, of _ q] c d(1) by (auto simp: queued_def)
  ultimately show ?thesis
    using ok d unfolding queues_on_def by (simp add: set_remove1_eq)
qed

section \<open>Giving the memory back\<close>

lemma free_held:
  assumes "mm_reachable (k_mm k, M)" "(p, n) \<in> set M"
  shows "\<exists>st. lift_mm (mm_free p) k = Inr (k\<lparr>k_mm := st\<rparr>) \<and> mm_reachable (st, remove1 (p, n) M)"
proof -
  obtain st where st: "mm_free p (k_mm k) = Inr st" using client_returns [OF assms(1)] assms(2) by fastforce
  have "mm_reachable (st, remove1 (p, n) M)" using stepped [OF assms(1) do_free [OF assms(2) st]] .
  then show ?thesis using st by (auto simp: lift_mm_def)
qed

text \<open>What a thread owns: its control block and, if it has one, the image it was loaded from.\<close>

definition owns :: "kernel \<Rightarrow> u32 list \<Rightarrow> held \<Rightarrow> u32 \<Rightarrow> bool" where
  "owns k ts M c \<longleftrightarrow> code_addr (k_thread k c) = 0
     \<or> code_addr (k_thread k c) \<in> fst ` set M \<and> code_addr (k_thread k c) \<notin> set ts"

lemma free_thread_ok:
  assumes held: "threads_held k ts M" and c: "c \<in> set ts" and own: "owns k ts M c"
    and d: "distinct ts"
  shows "\<exists>st M'. rbind (if code_addr (k_thread k c) \<noteq> 0 then lift_mm (mm_free (code_addr (k_thread k c))) k else Inr k)
      (\<lambda>k3. rbind (lift_mm (mm_free c) k3) (\<lambda>k4. Inr (k4\<lparr>curr_thread := None\<rparr>)))
        = Inr (k\<lparr>k_mm := st, curr_thread := None\<rparr>)
    \<and> threads_held (k\<lparr>k_mm := st, curr_thread := None\<rparr>) (remove1 c ts) M' \<and> c \<notin> fst ` set M'"
proof -
  have reach: "mm_reachable (k_mm k, M)" and sub: "set ts \<subseteq> fst ` set M" "0 \<notin> set ts"
    using held by (simp_all add: threads_held_def)
  text \<open>First the image, if any.\<close>
  obtain st1 M1 where s1: "(if code_addr (k_thread k c) \<noteq> 0 then lift_mm (mm_free (code_addr (k_thread k c))) k else Inr k)
      = Inr (k\<lparr>k_mm := st1\<rparr>)" "mm_reachable (st1, M1)" "set ts \<subseteq> fst ` set M1"
  proof (cases "code_addr (k_thread k c) = 0")
    case True
    moreover have "k = k\<lparr>k_mm := k_mm k\<rparr>" by simp
    ultimately show thesis using that [of "k_mm k" M] reach sub by simp
  next
    case False
    let ?p = "code_addr (k_thread k c)"
    obtain n where n: "(?p, n) \<in> set M" "?p \<notin> set ts" using own False by (auto simp: owns_def)
    obtain st where st: "lift_mm (mm_free ?p) k = Inr (k\<lparr>k_mm := st\<rparr>)" "mm_reachable (st, remove1 (?p, n) M)"
      using free_held [OF reach n(1)] by blast
    have "set ts \<subseteq> fst ` set (remove1 (?p, n) M)"
    proof
      fix t assume t: "t \<in> set ts"
      then obtain m where "(t, m) \<in> set M" using sub by auto
      moreover have "t \<noteq> ?p" using t n(2) by auto
      ultimately have "(t, m) \<in> set (remove1 (?p, n) M)" by (simp add: in_set_remove1)
      then show "t \<in> fst ` set (remove1 (?p, n) M)" by force
    qed
    then show thesis using that [of st "remove1 (?p, n) M"] st False by simp
  qed
  obtain n where n: "(c, n) \<in> set M1" using s1(3) c by auto
  obtain st where st: "lift_mm (mm_free c) (k\<lparr>k_mm := st1\<rparr>) = Inr (k\<lparr>k_mm := st\<rparr>)"
    "mm_reachable (st, remove1 (c, n) M1)" using free_held [of "k\<lparr>k_mm := st1\<rparr>" M1 c n] s1(2) n by auto
  have dm: "distinct (map fst M1)" using held_distinct [OF s1(2)] .
  have gone: "c \<notin> fst ` set (remove1 (c, n) M1)"
  proof
    assume "c \<in> fst ` set (remove1 (c, n) M1)"
    then obtain m where m: "(c, m) \<in> set (remove1 (c, n) M1)" by auto
    then have "(c, m) \<in> set M1" using notin_set_remove1 by metis
    then have "m = n" using eq_key_imp_eq_value [OF dm _ n] by blast
    then show False using m dm by (simp add: distinct_map)
  qed
  have "t \<in> fst ` set (remove1 (c, n) M1)" if "t \<in> set (remove1 c ts)" for t
  proof -
    have t: "t \<in> set ts" "t \<noteq> c" using that d by auto
    then obtain m where "(t, m) \<in> set M1" using s1(3) by auto
    then have "(t, m) \<in> set (remove1 (c, n) M1)" using t by (simp add: in_set_remove1)
    then show ?thesis by force
  qed
  then have "threads_held (k\<lparr>k_mm := st, curr_thread := None\<rparr>) (remove1 c ts) (remove1 (c, n) M1)"
    using st(2) sub(2) d by (auto simp: threads_held_def)
  then show ?thesis using s1(1) st(1) gone by (intro exI [of _ st] exI [of _ "remove1 (c, n) M1"]) simp
qed

section \<open>Removing the current thread\<close>

lemma remove_thread_ok:
  assumes ok: "core_ok k Q ts i H" and held: "threads_held k ts M" and own: "owns k ts M c"
    and c: "curr_thread k = Some c" "c \<in> set (Q q)" "q \<in> {Rt_rq, Sleep_q, Blocked_q}"
  shows "\<exists>k' M'. scheduler_remove_thread k = Inr k' \<and> core_ok k' (Q(q := remove1 c (Q q))) (remove1 c ts) i H
    \<and> threads_held k' (remove1 c ts) M' \<and> c \<notin> fst ` set M' \<and> k_thread k' = k_thread k
    \<and> k_tick k' = k_tick k \<and> scheduler_status k' = scheduler_status k"
proof -
  note d = core_okD [OF ok]
  let ?Q = "Q(q := remove1 c (Q q))" and ?ts = "remove1 c ts"
  have cts: "c \<in> set ts" using queue_sub [OF d(1) c(2)] .
  have only: "q' = q" if "c \<in> set (Q q')" for q' using queue_uniq [OF d(1) c(2) that] by simp
  have dq: "distinct (Q q)" "distinct ts" using queue_distinct(1) [OF d(1)] threads_distinct [OF d(1)] by simp_all
  have rq: "rq_list (k_thread k c) = Some q" using d(2) [OF c(2)] c(3) by auto
  obtain h l where hl: "dlist_remove (ThreadNode c) (k_node k, k_threads k) = Inr (ThreadNode c, h, l)"
    "queues_on (k\<lparr>k_node := h, k_threads := l\<rparr>) Q ts ?ts" "unlinked h (ThreadNode c)"
    using unregister_ok [OF d(1) cts] by blast
  let ?k1 = "k\<lparr>k_node := h, k_threads := l\<rparr>"
  obtain s where s: "queue_remove (RqNode c) q ?k1 = Inr (relinked ?k1 q s)"
    "queues_on (relinked ?k1 q s) ?Q ts ?ts" "\<forall>x. fst s (ThreadNode x) = h (ThreadNode x)"
    using remove_ok [OF hl(2) c(2)] by auto
  have no: "\<not> queued ?Q c" using only dq(1) by (auto simp: queued_def)
  have q2: "queues_ok (relinked ?k1 q s) ?Q ?ts" by (rule shrink_ok [OF s(2) no])
  have "unlinked (fst s) (RqNode c)" using not_queued [OF s(2) cts no] by simp
  then have lone: "\<not> thread_in_list c (relinked ?k1 q s)"
    using hl(3) s(3) by (simp add: thread_in_list_def unlinked_def)
  let ?k2 = "relinked ?k1 q s"
  have held2: "threads_held ?k2 ts M" "owns ?k2 ts M c"
    using held own by (simp_all add: threads_held_def owns_def)
  obtain st M' where st: "rbind (if code_addr (k_thread ?k2 c) \<noteq> 0 then lift_mm (mm_free (code_addr (k_thread ?k2 c))) ?k2
      else Inr ?k2) (\<lambda>k3. rbind (lift_mm (mm_free c) k3) (\<lambda>k4. Inr (k4\<lparr>curr_thread := None\<rparr>)))
        = Inr (?k2\<lparr>k_mm := st, curr_thread := None\<rparr>)"
    "threads_held (?k2\<lparr>k_mm := st, curr_thread := None\<rparr>) ?ts M'" "c \<notin> fst ` set M'"
    using free_thread_ok [OF held2(1) cts held2(2) dq(2)] by blast
  let ?k' = "?k2\<lparr>k_mm := st, curr_thread := None\<rparr>"
  have res: "scheduler_remove_thread k = Inr ?k'"
    using c(1) hl(1) rq s(1) lone st(1) by (simp add: scheduler_remove_thread_def Let_def)
  have qd: "queued ?Q x \<longleftrightarrow> x \<noteq> c \<and> queued Q x" for x
    using only dq(1) unfolding queued_def by (metis (no_types, lifting) Diff_iff fun_upd_apply set_remove1_eq singletonD singletonI)
  have cH: "c \<notin> H" "c \<noteq> i" using c(2) d(6,9) by (auto simp: queued_def)
  have sleep: "set (?Q Sleep_q) \<subseteq> set (Q Sleep_q)" using set_remove1_subset [of c "Q q"] by auto
  have "core_ok ?k' ?Q ?ts i H"
    unfolding core_ok_def
  proof (intro conjI allI ballI)
    show "queues_ok ?k' ?Q ?ts" using q2 queues_on_cong [of ?k' ?k2] by simp
    show "thread_fits q' (k_thread ?k' x)" if "x \<in> set (?Q q')" for q' x
      using that d(2) [of x q'] notin_set_remove1 [of x "Q q'" c] by (cases "q' = q") auto
    show "sleep_sorted ?k' ?Q" using d(3) by (auto simp: sleep_sorted_def intro: sorted_map_remove1)
    show "wake_ok ?k' ?Q"
    proof (cases "?Q Sleep_q")
      case Nil then show ?thesis by (simp add: wake_ok_def)
    next
      case (Cons y ys)
      then have "y \<in> set (Q Sleep_q)" using sleep by auto
      then have "k_wake k \<noteq> 0 \<and> k_wake k \<le> tick_to_wake (k_thread k y)"
        using d(3,4) by (cases "Q Sleep_q") (auto simp: wake_ok_def sleep_sorted_def intro: order_trans)
      then show ?thesis using Cons by (simp add: wake_ok_def)
    qed
    show "H \<subseteq> set ?ts" using d(7) cH dq(2) by auto
    show "(class_of (k_thread ?k' x) = IDLE) = (x = i)" if "x \<in> set ?ts" for x
      using d(8) [of x] that dq(2) by simp
    show "(x \<in> H) = (\<not> queued ?Q x)" if "x \<in> set ?ts" for x using d(9,10) that dq(2) by (auto simp: qd)
  qed (use d(5,6,11) in auto)
  then show ?thesis using res st(2,3) by (intro exI [of _ ?k'] exI [of _ M']) simp
qed

section \<open>The tick that removes a thread\<close>

definition without :: "u32 \<Rightarrow> queues \<Rightarrow> queues" where
  "without c Q = (\<lambda>q. remove1 c (Q q))"

lemma without_eq: "(\<And>q'. c \<in> set (Q q') \<Longrightarrow> q' = q) \<Longrightarrow> without c Q = Q(q := remove1 c (Q q))"
  unfolding without_def fun_eq_iff by (metis fun_upd_apply remove1_idem)

lemma exit_tick_ok:
  assumes ok: "sched_ok k Q ts i c" and on: "scheduler_status k \<noteq> 0" and cvr: "cvr \<le> of_nat SYSTICK_RVR"
    and time: "unat (k_tick k) + SYSTICK_RVR < 2 ^ 64" and exits: "exit_pending (k_thread k c) \<noteq> 0"
    and listed: "class_of (k_thread k c) = REAL_TIME \<or> tick_to_wake (k_thread k c) \<noteq> 0"
    and held: "threads_held k ts M" and own: "owns k ts M c"
    and spec: "spec_pick i (without c (spec_yield (k_thread k) c
      (spec_wake (k_thread k) (k_tick k + passed cvr k) Q))) = (n, Q')"
  shows "\<exists>k' M'. systick_exception cvr k = Inr k' \<and> next_thread k' = Some n
    \<and> sched_ok (context_switch k') Q' (remove1 c ts) i n
    \<and> threads_held (context_switch k') (remove1 c ts) M' \<and> c \<notin> fst ` set M'
    \<and> k_tick k' = k_tick k + passed cvr k \<and> scheduler_status k' = scheduler_status k
    \<and> (\<forall>t. fixed_part (k_thread k' t) = fixed_part (k_thread k t))"
proof -
  let ?Q = "spec_wake (k_thread k) (k_tick k + passed cvr k) Q"
  let ?Q1 = "spec_yield (k_thread k) c ?Q"
  obtain k6 where k6: "systick_exception cvr k = switch_to_next k6"
    "core_ok k6 ?Q ts i (if tick_to_wake (k_thread k6 c) = 0 then {i, c} else {i})"
    "curr_thread k6 = Some c" "c \<in> set ts" "tick_to_wake (k_thread k6 c) = tick_to_wake (k_thread k c)"
    "k_tick k6 = k_tick k + passed cvr k" "scheduler_status k6 = scheduler_status k" "k_mm k6 = k_mm k"
    "\<forall>t. fixed_part (k_thread k6 t) = fixed_part (k_thread k t)"
    using before_switch [OF ok on cvr time] by blast
  note fx = fixed_part_eq [OF k6(9) [rule_format, of c]]
  have y: "spec_yield (k_thread k6) c ?Q = ?Q1"
    using put_ready_cong [of "k_thread k6" c "k_thread k"] fx(1) k6(5) by (simp add: spec_yield_def)
  obtain k7 where k7: "(if tick_to_wake (k_thread k6 c) = 0 then class_enqueue (class_of (k_thread k6 c)) c k6
      else Inr k6) = Inr k7" "same_core k6 k7" "core_ok k7 ?Q1 ts i {i}"
    "\<forall>x. tick_to_wake (k_thread k7 x) = tick_to_wake (k_thread k6 x)"
    using yield_ok [OF k6(2,4)] unfolding y by blast
  have fx7: "class_of (k_thread k7 c) = class_of (k_thread k c)" "exit_pending (k_thread k7 c) \<noteq> 0"
    "code_addr (k_thread k7 c) = code_addr (k_thread k c)"
    using k7(2) fx exits by (simp_all add: same_core_def fixed_part_def)
  have "c \<noteq> i"
  proof
    assume "c = i"
    then have "class_of (k_thread k7 c) = IDLE" "tick_to_wake (k_thread k7 c) = 0"
      using core_class [OF k7(3)] k6(4) core_unqueued [OF k7(3), of c] by (simp_all add: unqueued_fits_def)
    then show False using listed fx7(1) k7(4) k6(5) by simp
  qed
  then have "queued ?Q1 c" using core_all [OF k7(3) k6(4)] by simp
  then obtain q where q: "c \<in> set (?Q1 q)" by (auto simp: queued_def)
  have fit: "thread_fits q (k_thread k7 c)" by (rule core_fits [OF k7(3) q])
  have qs: "q \<in> {Rt_rq, Sleep_q, Blocked_q}"
    using fit listed fx7(1) k7(4) k6(5) by (cases q) auto
  have "curr_thread k7 = Some c" using k7(2) k6(3) by (simp add: same_core_def)
  moreover have "threads_held k7 ts M" "owns k7 ts M c"
    using held own k7(2) k6(8) fx7(3) by (simp_all add: threads_held_def owns_def same_core_def)
  ultimately obtain k8 M' where k8: "scheduler_remove_thread k7 = Inr k8"
    "core_ok k8 (?Q1(q := remove1 c (?Q1 q))) (remove1 c ts) i {i}"
    "threads_held k8 (remove1 c ts) M'" "c \<notin> fst ` set M'"
    "k_thread k8 = k_thread k7" "k_tick k8 = k_tick k7" "scheduler_status k8 = scheduler_status k7"
    using remove_thread_ok [OF k7(3) _ _ _ q qs] by blast
  have "?Q1(q := remove1 c (?Q1 q)) = without c ?Q1"
    using queue_uniq [OF core_queues [OF k7(3)] q] by (intro without_eq [symmetric]) simp
  then obtain k' where k': "rbind (core_scheduler k8) (\<lambda>(th, k9). Inr (emit Pendsv_set_pending (emit Cpsie_f
      (emit (Systick_set_cvr (of_nat SYSTICK_RVR)) (k9\<lparr>next_thread := Some th\<rparr>))))) = Inr k'"
    "next_thread k' = Some n" "sched_ok (context_switch k') Q' (remove1 c ts) i n" "same_core k8 k'"
    using pick_and_switch [OF k8(2)] spec by metis
  have "systick_exception cvr k = Inr k'"
    using k6(1,3) k7(1) fx7(2) k8(1) k'(1) unfolding switch_to_next_def by simp
  moreover have "threads_held (context_switch k') (remove1 c ts) M'"
    using k8(3) k'(4) by (simp add: threads_held_def context_switch_def same_core_def)
  ultimately show ?thesis using k' k8 k7(2) k6(6,7,9) by (auto simp: same_core_def)
qed

section \<open>A thread that exits in the application or background class\<close>

lemma yield_app:
  assumes ok: "core_ok k Q ts i {i, c}" and c: "tick_to_wake (k_thread k c) = 0" "c \<noteq> i"
    and q: "home (class_of (k_thread k c)) = Some q" "q \<in> {App_rq, Background_rq}"
  shows "\<exists>k'. class_enqueue (class_of (k_thread k c)) c k = Inr k' \<and> same_core k k'
    \<and> core_ok k' (Q(q := Q q @ [c])) ts i {i} \<and> rq_list (k_thread k' c) = None"
proof -
  have "{i, c} - {c} = {i}" using c(2) by auto
  then obtain k' where k': "class_enqueue (class_of (k_thread k c)) c k = Inr k'" "same_core k k'"
    "core_ok k' (Q(q := Q q @ [c])) ts i {i}"
    using class_enqueue_ok [OF ok _ c(2)] q(1) by (auto simp: put_ready_def)
  moreover have "rq_list (k_thread k' c) = None" using core_fits [OF k'(3), of c q] q(2) by auto
  ultimately show ?thesis by blast
qed

lemma exit_app_tick_ok:
  assumes ok: "sched_ok k Q ts i c" and on: "scheduler_status k \<noteq> 0" and cvr: "cvr \<le> of_nat SYSTICK_RVR"
    and time: "unat (k_tick k) + SYSTICK_RVR < 2 ^ 64" and exits: "exit_pending (k_thread k c) \<noteq> 0"
    and c: "tick_to_wake (k_thread k c) = 0"
    and q: "home (class_of (k_thread k c)) = Some q" "q \<in> {App_rq, Background_rq}"
    and others: "spec_wake (k_thread k) (k_tick k + passed cvr k) Q q \<noteq> []"
  shows "systick_exception cvr k = Inl (Panic ''Exiting thread exist in a list'')"
proof -
  let ?Q = "spec_wake (k_thread k) (k_tick k + passed cvr k) Q"
  obtain k6 where k6: "systick_exception cvr k = switch_to_next k6"
    "core_ok k6 ?Q ts i (if tick_to_wake (k_thread k6 c) = 0 then {i, c} else {i})"
    "curr_thread k6 = Some c" "c \<in> set ts" "tick_to_wake (k_thread k6 c) = 0"
    "\<forall>t. fixed_part (k_thread k6 t) = fixed_part (k_thread k t)"
    using before_switch [OF ok on cvr time] c by metis
  note fx = fixed_part_eq [OF k6(6) [rule_format, of c]]
  have core6: "core_ok k6 ?Q ts i {i, c}" using k6(2,5) by simp
  have "c \<noteq> i"
  proof
    assume "c = i"
    then have "class_of (k_thread k6 c) = IDLE" using core_class [OF core6 k6(4)] by simp
    then show False using q(1) fx(1) by simp
  qed
  then obtain k7 where k7: "class_enqueue (class_of (k_thread k6 c)) c k6 = Inr k7" "same_core k6 k7"
    "core_ok k7 (?Q(q := ?Q q @ [c])) ts i {i}" "rq_list (k_thread k7 c) = None"
    using yield_app [OF core6 k6(5)] q fx(1) by metis
  have curr: "curr_thread k7 = Some c" using k7(2) k6(3) by (simp add: same_core_def)
  have exit: "exit_pending (k_thread k7 c) \<noteq> 0" using same_core_exit [OF k7(2)] fx(2) exits by simp
  note q7 = core_queues [OF k7(3)]
  have "\<not> unlinked (k_node k7) (RqNode c)"
    using others by (intro linked_in_longer_list [OF queue_rep [OF q7, of q]]) auto
  moreover obtain h l where hl: "dlist_remove (ThreadNode c) (k_node k7, k_threads k7) = Inr (ThreadNode c, h, l)"
    "\<forall>t. h (RqNode t) = k_node k7 (RqNode t)"
    using unregister_ok [OF q7 k6(4)] by blast
  ultimately have "thread_in_list c (k7\<lparr>k_node := h, k_threads := l\<rparr>)"
    by (auto simp: thread_in_list_def unlinked_def)
  then have "scheduler_remove_thread k7 = Inl (Panic ''Exiting thread exist in a list'')"
    using curr hl(1) k7(4) by (simp add: scheduler_remove_thread_def Let_def)
  then show ?thesis using k6(1,3,5) k7(1) exit by (simp add: switch_to_next_def)
qed

lemma exit_app_alone_ok:
  assumes ok: "sched_ok k Q ts i c" and on: "scheduler_status k \<noteq> 0" and cvr: "cvr \<le> of_nat SYSTICK_RVR"
    and time: "unat (k_tick k) + SYSTICK_RVR < 2 ^ 64" and exits: "exit_pending (k_thread k c) \<noteq> 0"
    and c: "tick_to_wake (k_thread k c) = 0" and cl: "class_of (k_thread k c) = APPLICATION"
    and held: "threads_held k ts M" and own: "owns k ts M c"
    and alone: "spec_wake (k_thread k) (k_tick k + passed cvr k) Q App_rq = []"
      "spec_wake (k_thread k) (k_tick k + passed cvr k) Q Rt_rq = []"
  shows "\<exists>k' M'. systick_exception cvr k = Inr k' \<and> next_thread k' = Some c
    \<and> mm_reachable (k_mm k', M') \<and> c \<notin> fst ` set M'"
proof -
  let ?Q = "spec_wake (k_thread k) (k_tick k + passed cvr k) Q" and ?ts = "remove1 c ts"
  obtain k6 where k6: "systick_exception cvr k = switch_to_next k6"
    "core_ok k6 ?Q ts i (if tick_to_wake (k_thread k6 c) = 0 then {i, c} else {i})"
    "curr_thread k6 = Some c" "c \<in> set ts" "tick_to_wake (k_thread k6 c) = 0" "k_mm k6 = k_mm k"
    "\<forall>t. fixed_part (k_thread k6 t) = fixed_part (k_thread k t)"
    using before_switch [OF ok on cvr time] c by metis
  note fx = fixed_part_eq [OF k6(7) [rule_format, of c]]
  have core6: "core_ok k6 ?Q ts i {i, c}" using k6(2,5) by simp
  have "c \<noteq> i" using core_class [OF core6 k6(4)] cl fx(1) by auto
  then obtain k7 where k7: "class_enqueue (class_of (k_thread k6 c)) c k6 = Inr k7" "same_core k6 k7"
    "core_ok k7 (?Q(App_rq := [c])) ts i {i}" "rq_list (k_thread k7 c) = None"
    using yield_app [OF core6 k6(5), of App_rq] cl fx(1) alone(1) by auto
  have curr: "curr_thread k7 = Some c" using k7(2) k6(3) by (simp add: same_core_def)
  have exit: "exit_pending (k_thread k7 c) \<noteq> 0" using same_core_exit [OF k7(2)] fx(2) exits by simp
  note q7 = core_queues [OF k7(3)]
  have un: "unlinked (k_node k7) (RqNode c)"
    using queue_rep [OF q7, of App_rq] by (simp add: dlist_rep_def unlinked_def)
  obtain h l where hl: "dlist_remove (ThreadNode c) (k_node k7, k_threads k7) = Inr (ThreadNode c, h, l)"
    "queues_on (k7\<lparr>k_node := h, k_threads := l\<rparr>) (?Q(App_rq := [c])) ts ?ts" "unlinked h (ThreadNode c)"
    "\<forall>t. h (RqNode t) = k_node k7 (RqNode t)"
    using unregister_ok [OF q7 k6(4)] by blast
  let ?k7 = "k7\<lparr>k_node := h, k_threads := l\<rparr>"
  have lone: "\<not> thread_in_list c ?k7" using un hl(3,4) by (simp add: thread_in_list_def unlinked_def)
  have "threads_held ?k7 ts M" "owns ?k7 ts M c"
    using held own k7(2) k6(6) fx(4) by (simp_all add: threads_held_def owns_def same_core_def fixed_part_def)
  then obtain st M' where st: "rbind (if code_addr (k_thread ?k7 c) \<noteq> 0 then lift_mm (mm_free (code_addr (k_thread ?k7 c))) ?k7
      else Inr ?k7) (\<lambda>k3. rbind (lift_mm (mm_free c) k3) (\<lambda>k4. Inr (k4\<lparr>curr_thread := None\<rparr>)))
        = Inr (?k7\<lparr>k_mm := st, curr_thread := None\<rparr>)"
    "threads_held (?k7\<lparr>k_mm := st, curr_thread := None\<rparr>) ?ts M'" "c \<notin> fst ` set M'"
    using free_thread_ok [of ?k7 ts M c] k6(4) threads_distinct(1) [OF q7] by blast
  let ?k8 = "?k7\<lparr>k_mm := st, curr_thread := None\<rparr>"
  have rem: "scheduler_remove_thread k7 = Inr ?k8"
    using curr hl(1) k7(4) lone st(1) by (simp add: scheduler_remove_thread_def Let_def)
  have q8: "queues_on ?k8 (?Q(App_rq := [c])) ts ?ts" using hl(2) queues_on_cong [of ?k8 ?k7] by simp
  have rt: "dl_first (k_queue ?k8 Rt_rq) = None" using queue_first [OF q8, of Rt_rq] alone(2) by simp
  have app: "dl_first (k_queue ?k8 App_rq) = Some (RqNode c)" using queue_first [OF q8, of App_rq] by simp
  obtain s where s: "queue_remove_first App_rq ?k8 = Inr (RqNode c, relinked ?k8 App_rq s)"
    "obj_of (RqNode c) (relinked ?k8 App_rq s) = Inr c"
    using remove_first_ok [OF q8, of App_rq c "[]"] by auto
  have "core_scheduler ?k8 = Inr (c, relinked ?k8 App_rq s)"
    using rt app s by (simp add: core_scheduler_def rt_pick_thread_def app_pick_thread_def)
  then show ?thesis
    using k6(1,3,5) k7(1) exit rem st(2,3) by (auto simp: switch_to_next_def threads_held_def)
qed

end
