(* ===== verification/Kernel_Run.thy ===== *)
theory Kernel_Run
  imports Sched_Exit
begin

text \<open>
  The kernel from boot: threads are created, the scheduler is started, and from then on system
  ticks interleave with the calls of the running threads. Every state of such a run satisfies the
  invariant of the scheduler. The ticks of a run are those in which no application, background or idle
  thread exits (\<open>may_exit\<close>); such a tick may panic (\<open>Sched_Exit\<close>).
\<close>

section \<open>Boot\<close>

definition boot_kernel :: "mm_state \<Rightarrow> (u32 \<Rightarrow> thread) \<Rightarrow> (node_ptr, u32) nheap \<Rightarrow> ringbuffer \<Rightarrow> kernel" where
  "boot_kernel mm th nodes rb =
     \<lparr>k_mm = mm, k_thread = th, k_node = nodes, k_queue = (\<lambda>_. dlist_init), k_threads = dlist_init,
      k_idle = None, k_wake = 0, curr_thread = None, next_thread = None, scheduler_status = 0, k_tick = 0,
      stats_tick = 0, reschedule_pending = 0, k_tid = 1, k_rb = rb, k_hw = []\<rparr>"

text \<open>Before the scheduler starts every thread is in the run queue of its class.\<close>

definition boot_ok :: "kernel \<Rightarrow> queues \<Rightarrow> u32 list \<Rightarrow> held \<Rightarrow> bool" where
  "boot_ok k Q ts M \<longleftrightarrow> queues_ok k Q ts \<and> (\<forall>q. \<forall>t\<in>set (Q q). thread_fits q (k_thread k t))
     \<and> Q Sleep_q = [] \<and> (\<forall>t\<in>set ts. queued Q t \<and> class_of (k_thread k t) \<noteq> IDLE \<and> code_addr (k_thread k t) = 0)
     \<and> threads_held k ts M"

lemma boot_kernel_ok:
  assumes "mm_reachable (mm, [])"
  shows "boot_ok (boot_kernel mm th nodes rb) (\<lambda>_. []) [] []"
proof -
  have "\<not> queued (\<lambda>_. []) t" for t by (simp add: queued_def)
  then show ?thesis
    using assms dlist_init_rep
    by (auto simp: boot_ok_def queues_on_def boot_kernel_def threads_held_def dlist_init_rep)
qed

lemma new_tcb_fits:
  assumes "home (ti_class info) = Some q"
  shows "thread_fits q (new_tcb n th info)"
  using assms by (cases "ti_class info") (auto simp: new_tcb_def)

lemma put_new_mem:
  assumes "home C = Some q"
  shows "x \<in> set (put_new C t Q q') \<longleftrightarrow> x \<in> set (Q q') \<or> x = t \<and> q' = q"
  using assms by (auto simp: put_new_def)

lemma put_new_queued: "home C = Some q \<Longrightarrow> queued (put_new C t Q) x \<longleftrightarrow> x = t \<or> queued Q x"
  unfolding queued_def using put_new_mem by metis

lemma home_not_idle: "C \<noteq> IDLE \<Longrightarrow> \<exists>q. home C = Some q \<and> q \<noteq> Sleep_q"
  by (cases C) auto

lemma boot_create_ok:
  assumes ok: "boot_ok k Q ts M" and info: "unat (ti_stack_size info) < 2 ^ 28" "ti_class info \<noteq> IDLE" "ti_code_addr info = 0"
    and new: "new_thread e info k = Inr (n, k')"
  shows "\<exists>Q' ts' M'. boot_ok k' Q' ts' M'"
proof -
  have q: "queues_ok k Q ts" and held: "threads_held k ts M" using ok by (simp_all add: boot_ok_def)
  obtain th where th: "th \<notin> set ts" "threads_held k' (th # ts) ((th, thread_pages (ti_stack_size info) * 512) # M)"
    "queues_ok k' (put_new (ti_class info) th Q) (th # ts)"
    "k_thread k' = (k_thread k)(th := new_tcb (k_tid k) th info)"
    using new_thread_ok [OF q held info(1), of e] new by auto
  obtain qh where qh: "home (ti_class info) = Some qh" "qh \<noteq> Sleep_q" using home_not_idle [OF info(2)] by blast
  have "thread_fits q' (k_thread k' x)" if "x \<in> set (put_new (ti_class info) th Q q')" for q' x
  proof (cases "x = th")
    case True
    then have "q' = qh" using that put_new_mem [OF qh(1), of x th Q q'] queue_sub [OF q, of th q'] th(1) by blast
    then show ?thesis using True th(4) new_tcb_fits [OF qh(1)] by simp
  next
    case False
    then show ?thesis using that put_new_mem [OF qh(1)] th(4) ok by (auto simp: boot_ok_def)
  qed
  moreover have "put_new (ti_class info) th Q Sleep_q = []" using ok qh by (simp add: put_new_def boot_ok_def)
  ultimately have "boot_ok k' (put_new (ti_class info) th Q) (th # ts) ((th, thread_pages (ti_stack_size info) * 512) # M)"
    using th ok put_new_queued [OF qh(1)] info(2,3) by (auto simp: boot_ok_def new_tcb_def)
  then show ?thesis by blast
qed

section \<open>The running kernel\<close>

definition running_ok :: "kernel \<Rightarrow> queues \<Rightarrow> u32 list \<Rightarrow> u32 \<Rightarrow> u32 \<Rightarrow> held \<Rightarrow> bool" where
  "running_ok k Q ts i c M \<longleftrightarrow> sched_ok k Q ts i c \<and> threads_held k ts M \<and> scheduler_status k \<noteq> 0
     \<and> (\<forall>t\<in>set ts. code_addr (k_thread k t) = 0)"

text \<open>The state \<^verbatim>\<open>scheduler_start\<close> creates the idle thread in.\<close>

definition start_state :: "kernel \<Rightarrow> kernel" where
  "start_state k = (emit (Set_priority ''svc'' 5) (emit (Set_priority ''pendsv'' 7) (emit (Set_priority ''systick'' 6) k)))
      \<lparr>scheduler_status := 1, k_wake := 0\<rparr>"

lemma start_state_thread [simp]: "k_thread (start_state k) = k_thread k"
  by (simp add: start_state_def)

lemma start_state_ok:
  assumes "boot_ok k Q ts M"
  shows "queues_ok (start_state k) Q ts" "threads_held (start_state k) ts M"
  using assms queues_on_cong [of "start_state k" k] by (simp_all add: boot_ok_def threads_held_def start_state_def)

lemma start_returns:
  assumes ok: "boot_ok k Q ts M" and new: "new_thread e (idle_info idle) (start_state k) = Inr (n, k3)"
  shows "\<exists>k' Q' ts' i c M'. scheduler_start e idle k = Inr k' \<and> running_ok k' Q' ts' i c M'
    \<and> k_tick k' = k_tick k3 \<and> (\<forall>t. exit_pending (k_thread k' t) = exit_pending (k_thread k3 t))"
proof -
  let ?k1 = "start_state k"
  let ?i = "idle_info idle"
  note q = start_state_ok(1) [OF ok] and held = start_state_ok(2) [OF ok]
  have ss: "unat (ti_stack_size ?i) < 2 ^ 28" by (simp add: idle_info_def)
  obtain th where th: "th \<notin> set ts" "threads_held k3 (th # ts) ((th, thread_pages (ti_stack_size ?i) * 512) # M)"
    "queues_ok k3 (put_new (ti_class ?i) th Q) (th # ts)"
    "k_thread k3 = (k_thread ?k1)(th := new_tcb (k_tid ?k1) th ?i)" "n = k_tid ?k1"
    "scheduler_status k3 = 1" "k_wake k3 = k_wake ?k1"
    using new_thread_ok [OF q held ss, of e] new by auto
  have cl: "ti_class ?i = IDLE" by (simp add: idle_info_def)
  have Q3: "queues_ok k3 Q (th # ts)" using th(3) by (simp add: cl put_new_def)
  have find: "get_thread n k3 = Inr (Some th)" using get_thread_ok [OF Q3, of n] th(4,5) by (simp add: new_tcb_def)
  let ?k4 = "k3\<lparr>k_idle := Some th\<rparr>"
  have nq: "\<not> queued Q th" using queue_sub [OF q, of th] th(1) by (auto simp: queued_def)
  have old: "k_thread k3 t = k_thread k t" if "t \<in> set ts" for t using that th(1,4) by (auto simp: start_state_def)
  have core: "core_ok ?k4 Q (th # ts) th {th}"
    unfolding core_ok_def
  proof (intro conjI allI ballI)
    show "queues_ok ?k4 Q (th # ts)" using Q3 queues_on_cong [of ?k4 k3] by simp
    show "thread_fits q' (k_thread ?k4 x)" if "x \<in> set (Q q')" for q' x
      using that ok old queue_sub [OF q that] by (simp add: boot_ok_def)
    show "sleep_sorted ?k4 Q" "wake_ok ?k4 Q" using ok by (simp_all add: boot_ok_def sleep_sorted_def wake_ok_def)
    show "(class_of (k_thread ?k4 x) = IDLE) = (x = th)" if "x \<in> set (th # ts)" for x
      using that th(1,4) ok cl by (auto simp: boot_ok_def new_tcb_def)
    show "(x \<in> {th}) = (\<not> queued Q x)" if "x \<in> set (th # ts)" for x
      using that th(1) nq ok by (auto simp: boot_ok_def)
    show "unqueued_fits (k_thread ?k4 x)" if "x \<in> {th}" for x
      using that th(4) by (simp add: unqueued_fits_def new_tcb_def idle_info_def)
  qed simp_all
  obtain c Q' where pick: "spec_pick th Q = (c, Q')" by fastforce
  obtain k5 where k5: "core_scheduler ?k4 = Inr (c, k5)" "same_core ?k4 k5" "core_ok k5 Q' (th # ts) th {th, c}"
    using core_scheduler_ok [OF core pick] by blast
  let ?k6 = "k5\<lparr>next_thread := Some c, curr_thread := Some c\<rparr>"
  let ?k7 = "emit Scheduler_run (emit (Systick_enable 1) (emit (Systick_set_rvr (of_nat SYSTICK_RVR)) (emit Cpsid_f ?k6)))"
  define k' where "k' = ?k7"
  have "k_idle k5 = Some th" using k5(2) by (simp add: same_core_def)
  then have start: "scheduler_start e idle k = Inr k'"
    using new find k5(1) unfolding start_state_def by (simp add: scheduler_start_def Let_def k'_def)
  note k' = k'_def
  have "core_ok k' Q' (th # ts) th {th, c}"
    using core_wake [OF k5(3)] unfolding k'
    by (intro core_ok_cong [OF k5(3)]) (auto simp: wake_ok_def split: list.splits)
  moreover have "c \<in> set (th # ts)" "c \<notin> set (Q' Sleep_q)"
    using core_sub [OF k5(3), of c] core_free [OF k5(3), of c] by (auto simp: queued_def)
  ultimately have "sched_ok k' Q' (th # ts) th c" by (simp add: sched_ok_def k')
  moreover have "threads_held k' (th # ts) ((th, thread_pages (ti_stack_size ?i) * 512) # M)"
    using th(2) k5(2) by (simp add: threads_held_def k' same_core_def)
  moreover have "code_addr (k_thread k' t) = 0" if "t \<in> set (th # ts)" for t
  proof -
    have "code_addr (k_thread k' t) = code_addr (k_thread k3 t)"
      using k5(2) by (simp add: k' same_core_def fixed_part_def)
    then show ?thesis using that old ok th(4) by (auto simp: boot_ok_def new_tcb_def idle_info_def)
  qed
  moreover have "scheduler_status k' \<noteq> 0" using k5(2) th(6) by (simp add: k' same_core_def)
  ultimately have "running_ok k' Q' (th # ts) th c ((th, thread_pages (ti_stack_size ?i) * 512) # M)"
    unfolding running_ok_def by blast
  moreover have "k_tick k' = k_tick k3" using k5(2) by (simp add: k' same_core_def)
  moreover have "exit_pending (k_thread k' t) = exit_pending (k_thread k3 t)" for t
    using k5(2) by (simp add: k' same_core_def fixed_part_def)
  ultimately show ?thesis using start by blast
qed

lemma start_ok:
  assumes ok: "boot_ok k Q ts M" and start: "scheduler_start e idle k = Inr k'"
  shows "\<exists>Q' ts' i c M'. running_ok k' Q' ts' i c M'"
proof -
  obtain n k3 where "new_thread e (idle_info idle) (start_state k) = Inr (n, k3)"
    using start by (auto simp: scheduler_start_def res_simps start_state_def Let_def)
  then show ?thesis using start_returns [OF ok] start by fastforce
qed

section \<open>Each step keeps the invariant\<close>

lemma running_cong:
  assumes ok: "running_ok k Q ts i c M"
    and eq: "k_node k' = k_node k" "k_queue k' = k_queue k" "k_threads k' = k_threads k" "k_idle k' = k_idle k"
      "k_wake k' = k_wake k" "curr_thread k' = curr_thread k" "k_tick k' = k_tick k"
      "scheduler_status k' \<noteq> 0"
    and th: "\<And>t. class_of (k_thread k' t) = class_of (k_thread k t)"
      "\<And>t. rq_list (k_thread k' t) = rq_list (k_thread k t)"
      "\<And>t. tick_to_wake (k_thread k' t) = tick_to_wake (k_thread k t)"
      "\<And>t. code_addr (k_thread k' t) = code_addr (k_thread k t)"
    and held: "threads_held k' ts M'"
  shows "running_ok k' Q ts i c M'"
proof -
  have "core_ok k' Q ts i H" if "core_ok k Q ts i H" for H
    using core_wake [OF that] eq th
    by (intro core_ok_cong [OF that]) (simp_all add: wake_ok_def split: list.splits)
  then show ?thesis using ok eq th held by (auto simp: running_ok_def sched_ok_def)
qed

lemma sched_ok_H:
  assumes "sched_ok k Q ts i c"
  obtains H where "core_ok k Q ts i H" "H \<subseteq> {i, c}" "curr_thread k = Some c" "c \<in> set ts"
  using assms by (auto simp: sched_ok_def split: if_splits)

lemma sched_ok_map:
  assumes ok: "sched_ok k Q ts i c" and same: "same_core k k'" and tick: "tick_to_wake (k_thread k' c) = tick_to_wake (k_thread k c)"
    and core: "\<And>H. core_ok k Q ts i H \<Longrightarrow> core_ok k' Q' ts' i H" and c: "c \<in> set ts'"
    and sleep: "c \<in> set (Q' Sleep_q) \<longleftrightarrow> c \<in> set (Q Sleep_q)"
  shows "sched_ok k' Q' ts' i c"
  using ok same tick core c sleep by (auto simp: sched_ok_def same_core_def split: if_splits)

lemma tick_keeps:
  assumes ok: "running_ok k Q ts i c M" and cvr: "cvr \<le> of_nat SYSTICK_RVR"
    and time: "unat (k_tick k) + SYSTICK_RVR < 2 ^ 64"
    and clean: "exit_pending (k_thread k c) = 0 \<or> class_of (k_thread k c) = REAL_TIME \<or> tick_to_wake (k_thread k c) \<noteq> 0"
  shows "\<exists>k' Q' ts' n M'. systick_exception cvr k = Inr k' \<and> running_ok (context_switch k') Q' ts' i n M'"
proof -
  have sched: "sched_ok k Q ts i c" and held: "threads_held k ts M" and on: "scheduler_status k \<noteq> 0"
    and code: "\<forall>t\<in>set ts. code_addr (k_thread k t) = 0" using ok by (simp_all add: running_ok_def)
  show ?thesis
  proof (cases "exit_pending (k_thread k c) = 0")
    case True
    obtain n Q' where spec: "spec_tick (k_thread k) (k_tick k + passed cvr k) i c Q = (n, Q')" by fastforce
    obtain k' where k': "systick_exception cvr k = Inr k'" "sched_ok (context_switch k') Q' ts i n"
      "scheduler_status k' = scheduler_status k" "k_mm k' = k_mm k"
      "\<forall>t. fixed_part (k_thread k' t) = fixed_part (k_thread k t)"
      using systick_ok [OF sched on cvr time True spec] by blast
    have "running_ok (context_switch k') Q' ts i n M"
      using k' held on code fixed_part_eq(4) [OF k'(5) [rule_format]]
      by (simp add: running_ok_def threads_held_def context_switch_def)
    then show ?thesis using k'(1) by blast
  next
    case False
    then have listed: "class_of (k_thread k c) = REAL_TIME \<or> tick_to_wake (k_thread k c) \<noteq> 0" using clean by simp
    have "c \<in> set ts" using sched by (simp add: sched_ok_def)
    then have own: "owns k ts M c" using code by (simp add: owns_def)
    obtain n Q' where spec: "spec_pick i (without c (spec_yield (k_thread k) c
      (spec_wake (k_thread k) (k_tick k + passed cvr k) Q))) = (n, Q')" by fastforce
    obtain k' M' where k': "systick_exception cvr k = Inr k'" "sched_ok (context_switch k') Q' (remove1 c ts) i n"
      "threads_held (context_switch k') (remove1 c ts) M'" "scheduler_status k' = scheduler_status k"
      "\<forall>t. fixed_part (k_thread k' t) = fixed_part (k_thread k t)"
      using exit_tick_ok [OF sched on cvr time False listed held own spec] by blast
    have "code_addr (k_thread k' t) = 0" if "t \<in> set (remove1 c ts)" for t
      using fixed_part_eq(4) [OF k'(5) [rule_format, of t]] code that notin_set_remove1 [of t ts c] by auto
    then have "running_ok (context_switch k') Q' (remove1 c ts) i n M'"
      using k' on by (simp add: running_ok_def context_switch_def)
    then show ?thesis using k'(1) by blast
  qed
qed

lemma sleep_keeps:
  assumes ok: "running_ok k Q ts i c M" and c: "tick_to_wake (k_thread k c) = 0" "class_of (k_thread k c) \<noteq> IDLE"
    and ms: "0 < ms" "unat (k_tick k) + unat ms * SYSTICK_RVR < 2 ^ 64"
  shows "\<exists>k' Q'. thread_sleep ms k = Inr k' \<and> running_ok k' Q' ts i c M"
proof -
  have sched: "sched_ok k Q ts i c" using ok by (simp add: running_ok_def)
  obtain H where H: "core_ok k Q ts i H" "c \<in> set ts" using sched_ok_H [OF sched] by metis
  have ns: "c \<notin> set (Q Sleep_q)" using core_fits [OF H(1), of c Sleep_q] c(1) by auto
  have ni: "c \<noteq> i" using core_class [OF H(1,2)] c(2) by auto
  obtain k' where k': "thread_sleep ms k = Inr k'" "same_core k k'"
    "\<exists>Q'. sched_ok k' Q' ts i c"
    using thread_sleep_ok [OF sched ns ni ms] by blast
  have "code_addr (k_thread k' t) = code_addr (k_thread k t)" for t
    using k'(2) by (simp add: same_core_def fixed_part_def)
  then show ?thesis using k' ok by (auto simp: running_ok_def threads_held_def same_core_def)
qed

text \<open>Blocking and unblocking: what each call does in every case.\<close>

lemma thread_block_ok:
  assumes ok: "sched_ok k Q ts i c"
  shows "case find (\<lambda>t. tid (k_thread k t) = n) ts of
      None \<Rightarrow> thread_block n k = Inl NullDeref
    | Some t \<Rightarrow>
        if t = c then thread_block n k = Inl (Panic ''ERROR'')
        else if class_of (k_thread k t) \<noteq> REAL_TIME then thread_block n k = Inl NullDeref
        else \<exists>k'. thread_block n k = Inr k' \<and> sched_ok k' (spec_block (k_thread k) t Q) ts i c \<and> same_core k k'"
proof -
  obtain H where H: "core_ok k Q ts i H" "H \<subseteq> {i, c}" "curr_thread k = Some c" "c \<in> set ts"
    using sched_ok_H [OF ok] by metis
  have get: "get_thread n k = Inr (find (\<lambda>t. tid (k_thread k t) = n) ts)"
    by (rule get_thread_ok [OF core_queues [OF H(1)]])
  show ?thesis
  proof (cases "find (\<lambda>t. tid (k_thread k t) = n) ts")
    case None
    then show ?thesis using get H(3) by (simp add: thread_block_def scheduler_block_thread_def)
  next
    case (Some t)
    then have t: "t \<in> set ts" by (metis find_Some_iff nth_mem)
    show ?thesis
    proof (cases "t \<noteq> c \<and> class_of (k_thread k t) = REAL_TIME")
      case False
      have "class_block C t k = Inl NullDeref" if "C \<noteq> REAL_TIME" for C using that by (cases C) auto
      then show ?thesis using False Some get H(3)
        by (auto simp: thread_block_def scheduler_block_thread_def reschedule_def Let_def)
    next
      case True
      then have tH: "t \<notin> H" using H(2) core_class [OF H(1) t] by auto
      obtain k' where k': "rt_block t k = Inr k'" "core_ok k' (spec_block (k_thread k) t Q) ts i H" "same_core k k'"
        "\<forall>x. tick_to_wake (k_thread k' x) = tick_to_wake (k_thread k x)"
        using rt_block_ok [OF H(1) t tH] True by blast
      have "c \<in> set (spec_block (k_thread k) t Q Sleep_q) \<longleftrightarrow> c \<in> set (Q Sleep_q)"
        using True by (auto simp: spec_block_def dest: notin_set_remove1 split: option.split)
      moreover have "core_ok k' (spec_block (k_thread k) t Q) ts i H'" if "core_ok k Q ts i H'" for H'
        using rt_block_ok [OF that t] k'(1) core_class [OF that t] True core_free [OF that, of t] core_free [OF H(1)]
          core_all [OF H(1) t tH] by auto
      ultimately have "sched_ok k' (spec_block (k_thread k) t Q) ts i c"
        using k' H(4) by (intro sched_ok_map [OF ok k'(3)]) auto
      then show ?thesis using True Some get H(3) k' by (auto simp: thread_block_def scheduler_block_thread_def)
    qed
  qed
qed

lemma thread_unblock_ok:
  assumes ok: "sched_ok k Q ts i c"
  shows "case find (\<lambda>t. tid (k_thread k t) = n) ts of
      None \<Rightarrow> thread_unblock n k = Inl NullDeref
    | Some t \<Rightarrow>
        if t = c then thread_unblock n k = Inl (Panic ''ERROR'')
        else if class_of (k_thread k t) \<noteq> REAL_TIME then thread_unblock n k = Inl NullDeref
        else \<exists>k'. thread_unblock n k = Inr k' \<and> sched_ok k' (spec_unblock (k_thread k) t Q) ts i c \<and> same_core k k'"
proof -
  obtain H where H: "core_ok k Q ts i H" "H \<subseteq> {i, c}" "curr_thread k = Some c" "c \<in> set ts"
    using sched_ok_H [OF ok] by metis
  have get: "get_thread n k = Inr (find (\<lambda>t. tid (k_thread k t) = n) ts)"
    by (rule get_thread_ok [OF core_queues [OF H(1)]])
  show ?thesis
  proof (cases "find (\<lambda>t. tid (k_thread k t) = n) ts")
    case None
    then show ?thesis using get H(3) by (simp add: thread_unblock_def scheduler_unblock_thread_def)
  next
    case (Some t)
    then have t: "t \<in> set ts" by (metis find_Some_iff nth_mem)
    show ?thesis
    proof (cases "t \<noteq> c \<and> class_of (k_thread k t) = REAL_TIME")
      case False
      have "class_unblock C t k = Inl NullDeref" if "C \<noteq> REAL_TIME" for C using that by (cases C) auto
      then show ?thesis using False Some get H(3)
        by (auto simp: thread_unblock_def scheduler_unblock_thread_def reschedule_def Let_def)
    next
      case True
      then have tH: "t \<notin> H" using H(2) core_class [OF H(1) t] by auto
      obtain k' where k': "rt_unblock t k = Inr k'" "core_ok k' (spec_unblock (k_thread k) t Q) ts i H" "same_core k k'"
        "\<forall>x. x \<noteq> t \<longrightarrow> tick_to_wake (k_thread k' x) = tick_to_wake (k_thread k x)"
        using rt_unblock_ok [OF H(1) t tH] True by blast
      have "c \<in> set (spec_unblock (k_thread k) t Q Sleep_q) \<longleftrightarrow> c \<in> set (Q Sleep_q)"
        by (auto simp: spec_unblock_def)
      moreover have "core_ok k' (spec_unblock (k_thread k) t Q) ts i H'" if "core_ok k Q ts i H'" for H'
        using rt_unblock_ok [OF that t] k'(1) core_class [OF that t] True core_free [OF that, of t] core_free [OF H(1)]
          core_all [OF H(1) t tH] by auto
      ultimately have "sched_ok k' (spec_unblock (k_thread k) t Q) ts i c"
        using k' H(4) True by (intro sched_ok_map [OF ok k'(3)]) auto
      then show ?thesis using True Some get H(3) k' by (auto simp: thread_unblock_def scheduler_unblock_thread_def)
    qed
  qed
qed

lemma core_create:
  assumes ok: "core_ok k Q ts i H" and th: "th \<notin> set ts" and C: "home (ti_class info) = Some qh" "qh \<noteq> Sleep_q"
    and k': "queues_ok k' (put_new (ti_class info) th Q) (th # ts)"
      "k_thread k' = (k_thread k)(th := new_tcb n th info)" "k_idle k' = k_idle k" "k_wake k' = k_wake k"
  shows "core_ok k' (put_new (ti_class info) th Q) (th # ts) i H"
proof -
  note d = core_okD [OF ok]
  have old: "k_thread k' t = k_thread k t" if "t \<in> set ts" for t using that th k'(2) by auto
  have oldq: "k_thread k' t = k_thread k t" if "t \<in> set (Q q)" for t q
    using old queue_sub [OF d(1) that] by simp
  have sl: "put_new (ti_class info) th Q Sleep_q = Q Sleep_q" using C by (simp add: put_new_def)
  show ?thesis
    unfolding core_ok_def
  proof (intro conjI allI ballI)
    show "queues_ok k' (put_new (ti_class info) th Q) (th # ts)" by (rule k'(1))
    show "thread_fits q (k_thread k' x)" if "x \<in> set (put_new (ti_class info) th Q q)" for q x
    proof (cases "x \<in> set (Q q)")
      case True
      then show ?thesis using d(2) oldq by simp
    next
      case False
      then have "x = th \<and> q = qh" using that put_new_mem [OF C(1), of x th Q q] by simp
      then show ?thesis using k'(2) new_tcb_fits [OF C(1)] by simp
    qed
    have "map (\<lambda>t. tick_to_wake (k_thread k' t)) (Q Sleep_q) = map (\<lambda>t. tick_to_wake (k_thread k t)) (Q Sleep_q)"
      using oldq by simp
    then show "sleep_sorted k' (put_new (ti_class info) th Q)"
      using d(3) by (simp add: sleep_sorted_def sl del: map_eq_conv)
    show "wake_ok k' (put_new (ti_class info) th Q)"
      using d(4) oldq [of _ Sleep_q] by (auto simp: wake_ok_def sl k'(4) split: list.splits)
    show "k_idle k' = Some i" using d(5) k'(3) by simp
    show "H \<subseteq> set (th # ts)" using d(7) by auto
    show "(class_of (k_thread k' x) = IDLE) = (x = i)" if "x \<in> set (th # ts)" for x
      using that d(6-8) th old C(1) by (auto simp: k'(2) new_tcb_def)
    show "(x \<in> H) = (\<not> queued (put_new (ti_class info) th Q) x)" if "x \<in> set (th # ts)" for x
      using that d(7,9,10) th put_new_queued [OF C(1)] by auto
    show "unqueued_fits (k_thread k' x)" if "x \<in> H" for x using that d(7,11) old by simp
  qed (use d(6) in simp)
qed

lemma create_keeps:
  assumes ok: "running_ok k Q ts i c M" and info: "unat (ti_stack_size info) < 2 ^ 28" "ti_class info \<noteq> IDLE" "ti_code_addr info = 0"
    and new: "new_thread e info k = Inr (n, k')"
  shows "\<exists>Q' ts' M'. running_ok k' Q' ts' i c M'"
proof -
  have sched: "sched_ok k Q ts i c" and held: "threads_held k ts M" using ok by (simp_all add: running_ok_def)
  obtain H where H: "core_ok k Q ts i H" "c \<in> set ts" "curr_thread k = Some c" using sched_ok_H [OF sched] by metis
  obtain th where th: "th \<notin> set ts" "threads_held k' (th # ts) ((th, thread_pages (ti_stack_size info) * 512) # M)"
    "queues_ok k' (put_new (ti_class info) th Q) (th # ts)"
    "k_thread k' = (k_thread k)(th := new_tcb (k_tid k) th info)"
    "k_idle k' = k_idle k" "scheduler_status k' = 1" "k_wake k' = k_wake k" "k_tick k' = k_tick k"
    "curr_thread k' = curr_thread k"
    using new_thread_ok [OF core_queues [OF H(1)] held info(1), of e] new info(2) by auto
  obtain qh where qh: "home (ti_class info) = Some qh" "qh \<noteq> Sleep_q" using home_not_idle [OF info(2)] by blast
  let ?Q = "put_new (ti_class info) th Q"
  have core: "core_ok k' ?Q (th # ts) i H'" if "core_ok k Q ts i H'" for H'
    by (rule core_create [OF that th(1) qh th(3,4,5,7)])
  have "?Q Sleep_q = Q Sleep_q" using qh by (simp add: put_new_def)
  moreover have "k_thread k' c = k_thread k c" using th(1,4) H(2) by auto
  ultimately have "sched_ok k' ?Q (th # ts) i c"
    using sched core th(8,9) by (auto simp: sched_ok_def split: if_splits)
  moreover have "\<forall>t\<in>set (th # ts). code_addr (k_thread k' t) = 0"
    using ok th(4) info(3) by (auto simp: running_ok_def new_tcb_def)
  ultimately have "running_ok k' ?Q (th # ts) i c ((th, thread_pages (ti_stack_size info) * 512) # M)"
    using th(2,6) by (simp add: running_ok_def)
  then show ?thesis by blast
qed

lemma exit_keeps:
  assumes ok: "running_ok k Q ts i c M" and exit: "thread_exit k = Inr k'"
  shows "running_ok k' Q ts i c M"
  using exit ok by (intro running_cong [OF ok]) (auto simp: thread_exit_def res_simps threads_held_def running_ok_def)

lemma kill_keeps:
  assumes ok: "running_ok k Q ts i c M" and kill: "kill_thread n k = Inr k'"
  shows "running_ok k' Q ts i c M"
proof -
  have held: "threads_held k ts M" using ok by (simp add: running_ok_def)
  obtain th where th: "k' = resume_scheduler (case th of
      Some t \<Rightarrow> emit (Print ''Killing'') (upd_thread t (\<lambda>t. t\<lparr>exit_pending := 1\<rparr>) (suspend_scheduler k))
    | None \<Rightarrow> emit (Print ''Thread does not exist'') (suspend_scheduler k))"
    using kill unfolding kill_thread_def Let_def by (auto simp only: rbind_Inr_iff sum.inject)
  show ?thesis
    unfolding th using held
    by (intro running_cong [OF ok]; cases th)
      (simp_all add: resume_scheduler_def suspend_scheduler_def threads_held_def)
qed

section \<open>Runs\<close>

text \<open>
  \<open>e\<close> is the address of \<^verbatim>\<open>thread_exit\<close> and \<open>idle\<close> that of the idle thread. An allocation by kernel code
  is a step of its own. A thread that exits must be in the real-time class or asleep; what happens
  otherwise is the subject of \<open>Sched_Exit\<close>. Time stays below \<open>2 ^ 64\<close> cycles, some two thousand years.
\<close>

inductive booting :: "u32 \<Rightarrow> kernel \<Rightarrow> bool" for e where
  boot: "mm_reachable (mm, []) \<Longrightarrow> booting e (boot_kernel mm th nodes rb)"
| boot_create: "booting e k \<Longrightarrow> new_thread e info k = Inr (n, k') \<Longrightarrow> unat (ti_stack_size info) < 2 ^ 28 \<Longrightarrow>
    ti_class info \<noteq> IDLE \<Longrightarrow> ti_code_addr info = 0 \<Longrightarrow> booting e k'"

definition may_exit :: "kernel \<Rightarrow> bool" where
  "may_exit k \<longleftrightarrow> (\<forall>c. curr_thread k = Some c \<longrightarrow> exit_pending (k_thread k c) = 0
     \<or> class_of (k_thread k c) = REAL_TIME \<or> tick_to_wake (k_thread k c) \<noteq> 0)"

definition may_sleep :: "u64 \<Rightarrow> kernel \<Rightarrow> bool" where
  "may_sleep ms k \<longleftrightarrow> 0 < ms \<and> unat (k_tick k) + unat ms * SYSTICK_RVR < 2 ^ 64
     \<and> (\<forall>c. curr_thread k = Some c \<longrightarrow> tick_to_wake (k_thread k c) = 0 \<and> class_of (k_thread k c) \<noteq> IDLE)"

inductive running :: "u32 \<Rightarrow> kernel \<Rightarrow> bool" for e where
  started: "booting e k \<Longrightarrow> scheduler_start e idle k = Inr k' \<Longrightarrow> running e k'"
| ticked: "running e k \<Longrightarrow> cvr \<le> of_nat SYSTICK_RVR \<Longrightarrow> unat (k_tick k) + SYSTICK_RVR < 2 ^ 64 \<Longrightarrow> may_exit k \<Longrightarrow>
    systick_exception cvr k = Inr k' \<Longrightarrow> running e (context_switch k')"
| slept: "running e k \<Longrightarrow> may_sleep ms k \<Longrightarrow> thread_sleep ms k = Inr k' \<Longrightarrow> running e k'"
| blocked: "running e k \<Longrightarrow> thread_block n k = Inr k' \<Longrightarrow> running e k'"
| unblocked: "running e k \<Longrightarrow> thread_unblock n k = Inr k' \<Longrightarrow> running e k'"
| created: "running e k \<Longrightarrow> new_thread e info k = Inr (n, k') \<Longrightarrow> unat (ti_stack_size info) < 2 ^ 28 \<Longrightarrow>
    ti_class info \<noteq> IDLE \<Longrightarrow> ti_code_addr info = 0 \<Longrightarrow> running e k'"
| exited: "running e k \<Longrightarrow> thread_exit k = Inr k' \<Longrightarrow> running e k'"
| killed: "running e k \<Longrightarrow> kill_thread n k = Inr k' \<Longrightarrow> running e k'"
| allocated: "running e k \<Longrightarrow> mm_alloc n j (k_mm k) = Inr (p, mm) \<Longrightarrow> mm_fits n \<Longrightarrow> j < 5 \<Longrightarrow>
    running e (k\<lparr>k_mm := mm\<rparr>)"

lemma booting_ok: "booting e k \<Longrightarrow> \<exists>Q ts M. boot_ok k Q ts M"
proof (induction rule: booting.induct)
  case (boot mm th nodes rb)
  then show ?case using boot_kernel_ok by blast
next
  case (boot_create k info n k')
  then show ?case using boot_create_ok by blast
qed

lemma find_member: "find P xs = Some x \<Longrightarrow> x \<in> set xs"
  by (metis find_Some_iff nth_mem)

lemma same_core_running:
  assumes "running_ok k Q ts i c M" "same_core k k'" "sched_ok k' Q' ts i c"
  shows "running_ok k' Q' ts i c M"
proof -
  have "code_addr (k_thread k' t) = code_addr (k_thread k t)" for t
    using assms(2) by (simp add: same_core_def fixed_part_def)
  then show ?thesis using assms by (simp add: running_ok_def threads_held_def same_core_def)
qed

lemma running_invariant: "running e k \<Longrightarrow> \<exists>Q ts i c M. running_ok k Q ts i c M"
proof (induction rule: running.induct)
  case (started k idle k')
  then show ?case using booting_ok start_ok by blast
next
  case (ticked k cvr k')
  then obtain Q ts i c M where ok: "running_ok k Q ts i c M" by blast
  then have "curr_thread k = Some c" by (simp add: running_ok_def sched_ok_def)
  then show ?case using tick_keeps [OF ok ticked.hyps(2,3)] ticked.hyps(4,5) by (fastforce simp: may_exit_def)
next
  case (slept k ms k')
  then obtain Q ts i c M where ok: "running_ok k Q ts i c M" by blast
  then have "curr_thread k = Some c" by (simp add: running_ok_def sched_ok_def)
  then show ?case using sleep_keeps [OF ok] slept.hyps(2,3) by (fastforce simp: may_sleep_def)
next
  case (blocked k n k')
  then obtain Q ts i c M where ok: "running_ok k Q ts i c M" by blast
  then have "\<exists>Q'. sched_ok k' Q' ts i c \<and> same_core k k'"
    using thread_block_ok [of k Q ts i c n] blocked.hyps(2) by (auto simp: running_ok_def split: option.splits if_splits)
  then show ?case using same_core_running [OF ok] by blast
next
  case (unblocked k n k')
  then obtain Q ts i c M where ok: "running_ok k Q ts i c M" by blast
  then have "\<exists>Q'. sched_ok k' Q' ts i c \<and> same_core k k'"
    using thread_unblock_ok [of k Q ts i c n] unblocked.hyps(2) by (auto simp: running_ok_def split: option.splits if_splits)
  then show ?case using same_core_running [OF ok] by blast
next
  case (created k info n k')
  then show ?case using create_keeps by blast
next
  case (exited k k')
  then show ?case using exit_keeps by blast
next
  case (killed k n k')
  then show ?case using kill_keeps by blast
next
  case (allocated k n j p mm)
  then obtain Q ts i c M where ok: "running_ok k Q ts i c M" by blast
  have "mm_reachable (mm, if p = 0 then M else (p, n) # M)"
    using ok stepped [OF _ do_alloc [OF allocated.hyps(2-4)]] by (simp add: running_ok_def threads_held_def)
  then have "threads_held (k\<lparr>k_mm := mm\<rparr>) ts (if p = 0 then M else (p, n) # M)"
    using ok by (auto simp: running_ok_def threads_held_def)
  then have "running_ok (k\<lparr>k_mm := mm\<rparr>) Q ts i c (if p = 0 then M else (p, n) # M)"
    using ok by (intro running_cong [OF ok]) (simp_all add: running_ok_def)
  then show ?case by blast
qed

end
