(* ===== verification/Sched_Claims.thy ===== *)
theory Sched_Claims
  imports Kernel_Run
begin

text \<open>
  The properties of the scheduler and of thread management, each with an instance on a small
  concrete kernel: a current thread, the idle thread, and optionally a ready background thread.
\<close>

section \<open>A concrete kernel\<close>

definition demo_c :: u32 where "demo_c = 0x20400178"
definition demo_i :: u32 where "demo_i = 0x20400108"
definition demo_d :: u32 where "demo_d = 0x20400300"

lemmas demo_addrs = demo_c_def demo_i_def demo_d_def

definition demo_thread :: "sched_class \<Rightarrow> u8 \<Rightarrow> u32 \<Rightarrow> thread" where
  "demo_thread C ex n = \<lparr>stack_pointer = 0, stack_base = 0, rq_list = None, class_of = C, thread_name = [],
     name_len = 0, tick_to_wake = 0, runtime_curr = 0, runtime_new = 0, tid = n, exit_pending = ex, code_addr = 0\<rparr>"

definition demo_nodes :: "bool \<Rightarrow> (node_ptr, u32) nheap" where
  "demo_nodes third p = (case p of
       RqNode t \<Rightarrow> \<lparr>nd_prev = None, nd_next = None, nd_obj = Some t\<rparr>
     | ThreadNode t \<Rightarrow>
         if t = demo_c then \<lparr>nd_prev = None, nd_next = Some (ThreadNode demo_i), nd_obj = Some t\<rparr>
         else if t = demo_i then \<lparr>nd_prev = Some (ThreadNode demo_c),
           nd_next = if third then Some (ThreadNode demo_d) else None, nd_obj = Some t\<rparr>
         else \<lparr>nd_prev = Some (ThreadNode demo_i), nd_next = None, nd_obj = Some t\<rparr>)"

definition demo_kernel :: "mm_state \<Rightarrow> sched_class \<Rightarrow> u8 \<Rightarrow> bool \<Rightarrow> kernel" where
  "demo_kernel mm C ex third =
     \<lparr>k_mm = mm, k_thread = (\<lambda>t. if t = demo_c then demo_thread C ex 2 else if t = demo_i then demo_thread IDLE 0 1
        else demo_thread BACKGROUND 0 3),
      k_node = demo_nodes third,
      k_queue = (\<lambda>q. if third \<and> q = Background_rq
        then \<lparr>dl_first = Some (RqNode demo_d), dl_last = Some (RqNode demo_d), dl_size = 1\<rparr> else dlist_init),
      k_threads = \<lparr>dl_first = Some (ThreadNode demo_c),
        dl_last = Some (ThreadNode (if third then demo_d else demo_i)), dl_size = if third then 3 else 2\<rparr>,
      k_idle = Some demo_i, k_wake = 0, curr_thread = Some demo_c, next_thread = None, scheduler_status = 1,
      k_tick = 1000, stats_tick = 0, reschedule_pending = 0, k_tid = 4,
      k_rb = \<lparr>buffer_start = 0, buffer_end = 0, read_ptr = 0, write_ptr = 0\<rparr>, k_hw = []\<rparr>"

definition demo_mm :: mm_state where
  "demo_mm = \<lparr>mm_mem = (\<lambda>_. 0), mm_regions = physical_memories (\<lambda>_. 0)\<rparr>"

definition demo_queues :: "bool \<Rightarrow> queues" where
  "demo_queues third q = (if third \<and> q = Background_rq then [demo_d] else [])"

definition demo_threads :: "bool \<Rightarrow> u32 list" where
  "demo_threads third = demo_c # demo_i # (if third then [demo_d] else [])"

lemma demo_queued: "queued (demo_queues third) t \<longleftrightarrow> third \<and> t = demo_d"
  by (auto simp: queued_def demo_queues_def)

lemma demo_queues_ok: "queues_ok (demo_kernel mm C ex third) (demo_queues third) (demo_threads third)"
proof -
  have "dlist_rep (demo_nodes third) (k_queue (demo_kernel mm C ex third) q) (map RqNode (demo_queues third q))" for q
    by (auto simp: dlist_rep_def demo_kernel_def demo_queues_def demo_nodes_def dlist_init_def)
  moreover have "dlist_rep (demo_nodes third) (k_threads (demo_kernel mm C ex third)) (map ThreadNode (demo_threads third))"
    by (simp add: dlist_rep_def demo_kernel_def demo_threads_def demo_nodes_def demo_addrs)
  moreover have "set (demo_queues third q) \<subseteq> set (demo_threads third)" for q
    by (auto simp: demo_queues_def demo_threads_def)
  moreover have "q = q'" if "t \<in> set (demo_queues third q)" "t \<in> set (demo_queues third q')" for q q' t
    using that by (auto simp: demo_queues_def split: if_splits)
  moreover have "nd_obj (demo_nodes third (RqNode t)) = Some t \<and> nd_obj (demo_nodes third (ThreadNode t)) = Some t
      \<and> unlinked (demo_nodes third) (RqNode t)" for t
    by (simp add: demo_nodes_def unlinked_def)
  moreover have "distinct (demo_threads third)" "length (demo_threads third) < 2 ^ 32"
    by (simp_all add: demo_threads_def demo_addrs)
  moreover have "k_node (demo_kernel mm C ex third) = demo_nodes third" by (simp add: demo_kernel_def)
  ultimately show ?thesis unfolding queues_on_def by metis
qed

lemma demo_sched_ok:
  assumes "C \<noteq> IDLE"
  shows "sched_ok (demo_kernel mm C ex third) (demo_queues third) (demo_threads third) demo_i demo_c"
proof -
  have q: "t \<in> set (demo_queues third q) \<longleftrightarrow> third \<and> q = Background_rq \<and> t = demo_d" for t q
    by (auto simp: demo_queues_def)
  have "core_ok (demo_kernel mm C ex third) (demo_queues third) (demo_threads third) demo_i {demo_i, demo_c}"
    unfolding core_ok_def demo_queued
    using assms demo_queues_ok
    by (auto simp: q demo_kernel_def demo_threads_def demo_thread_def demo_addrs sleep_sorted_def
      wake_ok_def unqueued_fits_def demo_queues_def)
  then show ?thesis by (simp add: sched_ok_def q demo_kernel_def demo_threads_def)
qed

lemma demo_held:
  assumes "mm_reachable (mm, [(0x20400178, 50), (0x20400108, 100)])"
  shows "threads_held (demo_kernel mm C ex False) (demo_threads False) [(0x20400178, 50), (0x20400108, 100)]"
  using assms by (simp add: threads_held_def demo_kernel_def demo_threads_def demo_addrs)

lemma demo_simps:
  "scheduler_status (demo_kernel mm C ex third) = 1" "k_tick (demo_kernel mm C ex third) = 1000"
  "exit_pending (k_thread (demo_kernel mm C ex third) demo_c) = ex"
  "class_of (k_thread (demo_kernel mm C ex third) demo_c) = C"
  "tick_to_wake (k_thread (demo_kernel mm C ex third) demo_c) = 0"
  "passed cvr (demo_kernel mm C ex third) = 300000"
  "owns (demo_kernel mm C ex third) ts M demo_c"
  "curr_thread (demo_kernel mm C ex third) = Some demo_c"
  by (simp_all add: demo_kernel_def demo_thread_def passed_def SYSTICK_RVR_def owns_def demo_addrs)

lemma demo_wake: "spec_wake th now (demo_queues third) = demo_queues third"
  by (simp add: spec_wake_def demo_queues_def)

section \<open>The tick\<close>

text \<open>
  \<^bold>\<open>The system tick implements the abstract scheduler (C13).\<close> In a state that satisfies the invariant,
  \<^verbatim>\<open>systick_exception\<close> returns, and the next thread and the queues are those of \<^const>\<open>spec_tick\<close> on the
  queues as lists: the first sleeper is woken if it has expired, the running thread goes to the back
  of the queue of its class, and the first thread of the highest non-empty class runs next, or the
  idle thread. The invariant holds again after the context switch.
\<close>

theorem systick_implements_spec:
  assumes "sched_ok k Q ts i c" "scheduler_status k \<noteq> 0" "cvr \<le> of_nat SYSTICK_RVR"
    "unat (k_tick k) + SYSTICK_RVR < 2 ^ 64" "exit_pending (k_thread k c) = 0"
    "spec_tick (k_thread k) (k_tick k + passed cvr k) i c Q = (n, Q')"
  shows "\<exists>k'. systick_exception cvr k = Inr k' \<and> next_thread k' = Some n \<and> sched_ok (context_switch k') Q' ts i n
    \<and> k_tick k' = k_tick k + passed cvr k"
  using systick_ok [OF assms] by blast

theorem systick_implements_spec_witness:
  "\<exists>k'. systick_exception 0 (demo_kernel demo_mm APPLICATION 0 True) = Inr k' \<and> next_thread k' = Some demo_c
    \<and> k_tick k' = 301000"
proof -
  let ?k = "demo_kernel demo_mm APPLICATION 0 True"
  have "spec_tick (k_thread ?k) (k_tick ?k + passed 0 ?k) demo_i demo_c (demo_queues True)
      = (demo_c, (demo_queues True)(App_rq := []))"
    by (simp add: spec_tick_def demo_wake spec_yield_def demo_simps put_ready_def spec_pick_def demo_queues_def)
  then show ?thesis
    using systick_implements_spec [OF demo_sched_ok, of APPLICATION demo_mm 0 True 0]
    by (simp add: demo_simps SYSTICK_RVR_def) blast
qed

text \<open>
  Waking. A tick wakes at most the first sleeping thread, however many have expired, and
  none before its time: the loop of \<^verbatim>\<open>process_expired_delays\<close> follows the \<^verbatim>\<open>next\<close> pointer of a node
  that has just been put at the end of another queue, so it stops after the first.
\<close>

lemma one_woken_per_tick:
  assumes "sched_ok k Q ts i c" "scheduler_status k \<noteq> 0" "cvr \<le> of_nat SYSTICK_RVR"
    "unat (k_tick k) + SYSTICK_RVR < 2 ^ 64" "exit_pending (k_thread k c) = 0"
  shows "\<exists>k' Q' n. systick_exception cvr k = Inr k' \<and> sched_ok (context_switch k') Q' ts i n
    \<and> Q' Sleep_q = (case Q Sleep_q of [] \<Rightarrow> []
        | t # r \<Rightarrow> if tick_to_wake (k_thread k t) < k_tick k' then r else t # r)"
proof -
  obtain n Q' where spec: "spec_tick (k_thread k) (k_tick k + passed cvr k) i c Q = (n, Q')" by fastforce
  have put: "put_ready th t R Sleep_q = R Sleep_q" for th t R
    by (cases "class_of (th t)") (auto simp: put_ready_def)
  have yield: "spec_yield th t R Sleep_q = R Sleep_q" for th t R by (simp add: spec_yield_def put)
  have pick: "R' Sleep_q = R Sleep_q" if "spec_pick i R = (m, R')" for R R' m
    using that by (auto simp: spec_pick_def split: list.splits)
  have "Q' Sleep_q = spec_wake (k_thread k) (k_tick k + passed cvr k) Q Sleep_q"
    using pick [OF spec [unfolded spec_tick_def]] yield by metis
  then have sleepers: "Q' Sleep_q = (case Q Sleep_q of [] \<Rightarrow> []
      | t # r \<Rightarrow> if tick_to_wake (k_thread k t) < k_tick k + passed cvr k then r else t # r)"
    by (simp add: spec_wake_def put split: list.split)
  obtain k' where "systick_exception cvr k = Inr k'" "sched_ok (context_switch k') Q' ts i n"
    "k_tick k' = k_tick k + passed cvr k"
    using systick_ok [OF assms spec] by blast
  with sleepers show ?thesis by (intro exI [of _ k'] exI [of _ Q'] exI [of _ n]) (simp only: simp_thms)
qed

section \<open>Runs from boot\<close>





section \<open>Fairness\<close>

fun ticks :: "nat \<Rightarrow> kernel \<Rightarrow> kernel res" where
  "ticks 0 k = Inr k"
| "ticks (Suc m) k = rbind (systick_exception 0 k) (\<lambda>k'. ticks m (context_switch k'))"

text \<open>Only application threads are ready, nobody sleeps and nobody exits.\<close>

definition only_apps :: "kernel \<Rightarrow> queues \<Rightarrow> u32 list \<Rightarrow> u32 \<Rightarrow> bool" where
  "only_apps k Q ts c \<longleftrightarrow> Q Rt_rq = [] \<and> Q Sleep_q = [] \<and> scheduler_status k \<noteq> 0
     \<and> class_of (k_thread k c) = APPLICATION \<and> (\<forall>t\<in>set ts. exit_pending (k_thread k t) = 0)"

lemma one_app_tick:
  assumes ok: "sched_ok k Q ts i c" and apps: "only_apps k Q ts c" and time: "unat (k_tick k) + SYSTICK_RVR < 2 ^ 64"
  shows "\<exists>k' Q' n. systick_exception 0 k = Inr k' \<and> sched_ok (context_switch k') Q' ts i n
    \<and> only_apps (context_switch k') Q' ts n \<and> n # Q' App_rq = Q App_rq @ [c]
    \<and> unat (k_tick (context_switch k')) \<le> unat (k_tick k) + SYSTICK_RVR"
proof -
  have c: "c \<notin> set (Q Sleep_q)" "c \<in> set ts" using apps ok by (simp_all add: only_apps_def sched_ok_def)
  note core = sched_ok_core [OF ok c(1)]
  let ?now = "k_tick k + passed 0 k"
  obtain n r where nr: "Q App_rq @ [c] = n # r" by (cases "Q App_rq") auto
  have spec: "spec_tick (k_thread k) ?now i c Q = (n, Q(App_rq := r))"
    using apps core(4) nr
    by (simp add: spec_tick_def spec_wake_def spec_yield_def put_ready_def spec_pick_def only_apps_def)
  have on: "scheduler_status k \<noteq> 0" and exit: "exit_pending (k_thread k c) = 0"
    using apps c(2) by (simp_all add: only_apps_def)
  obtain k' where k': "systick_exception 0 k = Inr k'" "sched_ok (context_switch k') (Q(App_rq := r)) ts i n"
    "k_tick k' = ?now" "scheduler_status k' = scheduler_status k"
    "\<forall>t. fixed_part (k_thread k' t) = fixed_part (k_thread k t)"
    using systick_ok [OF ok on _ time exit spec] by auto
  note fx = fixed_part_eq [OF k'(5) [rule_format]]
  have "n = c \<or> n \<in> set (Q App_rq)" using nr by (metis Un_iff empty_iff list.set(1) list.set_intros(1) set_ConsD set_append)
  then have "class_of (k_thread k n) = APPLICATION"
    using apps core_fits [OF core(1), of n App_rq] by (auto simp: only_apps_def)
  then have "only_apps (context_switch k') (Q(App_rq := r)) ts n"
    using apps k'(4) fx(1,2) by (simp add: only_apps_def context_switch_def)
  moreover have "unat (k_tick (context_switch k')) \<le> unat (k_tick k) + SYSTICK_RVR"
    using passed_le [of 0 k] time k'(3) unat_word_ariths(1) [of "k_tick k" "passed 0 k"]
    by (simp add: context_switch_def)
  ultimately show ?thesis using k'(1,2) nr by (intro exI [of _ k'] exI [of _ "Q(App_rq := r)"] exI [of _ n]) simp
qed

text \<open>
  \<^bold>\<open>Round robin (C14).\<close> While only application threads are ready, \<open>m\<close> ticks return and leave the
  thread running that is \<open>m\<close> places behind the current one, counted around the run queue: every
  ready thread runs once in as many ticks as there are threads.
\<close>

theorem round_robin:
  assumes "sched_ok k Q ts i c" "only_apps k Q ts c" "unat (k_tick k) + m * SYSTICK_RVR < 2 ^ 64"
  shows "\<exists>k'. ticks m k = Inr k'
    \<and> curr_thread k' = Some ((c # Q App_rq) ! (m mod Suc (length (Q App_rq))))"
  using assms
proof (induction m arbitrary: k Q c)
  case 0
  then show ?case by (simp add: sched_ok_def)
next
  case (Suc m)
  have time: "unat (k_tick k) + SYSTICK_RVR < 2 ^ 64" using Suc.prems(3) by simp
  obtain k1 Q1 n where k1: "systick_exception 0 k = Inr k1" "sched_ok (context_switch k1) Q1 ts i n"
    "only_apps (context_switch k1) Q1 ts n" "n # Q1 App_rq = Q App_rq @ [c]"
    "unat (k_tick (context_switch k1)) \<le> unat (k_tick k) + SYSTICK_RVR"
    using one_app_tick [OF Suc.prems(1,2) time] by blast
  obtain k' where k': "ticks m (context_switch k1) = Inr k'"
    "curr_thread k' = Some ((n # Q1 App_rq) ! (m mod Suc (length (Q1 App_rq))))"
    using Suc.IH [OF k1(2,3)] k1(5) Suc.prems(3) by fastforce
  have len: "Suc (length (Q1 App_rq)) = Suc (length (Q App_rq))" using arg_cong [OF k1(4), of length] by simp
  let ?L = "c # Q App_rq"
  have "(n # Q1 App_rq) ! (m mod length ?L) = rotate1 ?L ! (m mod length ?L)" by (simp add: k1(4))
  also have "\<dots> = ?L ! (Suc (m mod length ?L) mod length ?L)" by (rule nth_rotate1) simp
  also have "\<dots> = ?L ! (Suc m mod length ?L)" by (simp add: mod_Suc_eq)
  finally show ?case using k' k1(1) len by simp
qed

theorem round_robin_witness:
  "\<exists>k'. ticks 7 (demo_kernel demo_mm APPLICATION 0 True) = Inr k' \<and> curr_thread k' = Some demo_c"
proof -
  have "only_apps (demo_kernel demo_mm APPLICATION 0 True) (demo_queues True) (demo_threads True) demo_c"
    by (simp add: only_apps_def demo_queues_def demo_kernel_def demo_thread_def demo_threads_def demo_addrs)
  then show ?thesis
    using round_robin [OF demo_sched_ok, of APPLICATION demo_mm 0 True 7]
    by (simp add: demo_simps SYSTICK_RVR_def demo_queues_def)
qed

section \<open>Sleeping\<close>

text \<open>
  \<^bold>\<open>Going to sleep (C15).\<close> \<^verbatim>\<open>thread_sleep\<close> of at least a millisecond returns, puts the running thread at
  its place in the sleep queue, which stays sorted by wake time, sets the cached wake time to that of
  the first sleeper, and pends a reschedule.
\<close>

theorem thread_sleep_correct:
  assumes "sched_ok k Q ts i c" "c \<notin> set (Q Sleep_q)" "c \<noteq> i" "0 < ms"
    "unat (k_tick k) + unat ms * SYSTICK_RVR < 2 ^ 64"
  shows "\<exists>k' Q'. thread_sleep ms k = Inr k' \<and> sched_ok k' Q' ts i c \<and> reschedule_pending k' = 1
    \<and> Q' = Q(Sleep_q := sleep_insert (sleep_until c (k_tick k + ms * of_nat SYSTICK_RVR) (k_thread k)) c (Q Sleep_q))
    \<and> sleep_sorted k' Q' \<and> k_wake k' = first_wake k' Q'"
proof -
  obtain k' Q' where k': "thread_sleep ms k = Inr k'" "sched_ok k' Q' ts i c" "k_wake k' = first_wake k' Q'"
    "reschedule_pending k' = 1"
    "Q' = Q(Sleep_q := sleep_insert (sleep_until c (k_tick k + ms * of_nat SYSTICK_RVR) (k_thread k)) c (Q Sleep_q))"
    using thread_sleep_ok [OF assms] by blast
  have "sleep_sorted k' Q'" using k'(2) core_sorted by (metis sched_ok_def)
  then show ?thesis using k' by blast
qed

theorem thread_sleep_correct_witness:
  "\<exists>k'. thread_sleep 5 (demo_kernel demo_mm APPLICATION 0 True) = Inr k'
    \<and> sched_ok k' ((demo_queues True)(Sleep_q := [demo_c])) (demo_threads True) demo_i demo_c"
proof -
  have q: "demo_queues True Sleep_q = []" by (simp add: demo_queues_def)
  then have "demo_c \<notin> set (demo_queues True Sleep_q)" "demo_c \<noteq> demo_i" by (simp_all add: demo_addrs)
  from thread_sleep_correct [OF demo_sched_ok this, of APPLICATION 5 demo_mm 0] show ?thesis
    by (auto simp: demo_simps SYSTICK_RVR_def q sleep_insert_def)
qed

lemma enqueue_queued_panics:
  assumes ok: "core_ok k Q ts i H" and q: "home C = Some q" "t \<in> set (Q q)"
  shows "class_enqueue C t k = Inl (Panic ''List error'')"
proof -
  have "dlist_insert_last (RqNode t) (k_node k, k_queue k q) = Inl (Panic ''List error'')"
    using q(2) by (intro insert_member_panics(1) [OF queue_rep [OF core_queues [OF ok], of q]]) simp
  then have "on_queue q (dlist_insert_last (RqNode t)) k = Inl (Panic ''List error'')"
    unfolding on_queue_def by simp
  then show ?thesis
    using q(1) by (cases C) (auto simp: rt_enqueue_def app_enqueue_def background_enqueue_def
      simp del: dlist_insert_last.simps)
qed

text \<open>
  Sleeping for no time. If nobody else sleeps, \<^verbatim>\<open>thread_sleep(0)\<close> returns, and the next tick
  panics: the thread has already expired, is woken and put into its run queue, and is then put there
  a second time because its delay has been cleared.
\<close>

lemma sleep_zero_panics:
  assumes ok: "sched_ok k Q ts i c" and c: "c \<noteq> i" and Q: "Q Sleep_q = []"
    and k: "scheduler_status k \<noteq> 0" "k_tick k \<noteq> 0" "unat (k_tick k) + SYSTICK_RVR < 2 ^ 64" "cvr < of_nat SYSTICK_RVR"
  shows "\<exists>k'. thread_sleep 0 k = Inr k' \<and> systick_exception cvr k' = Inl (Panic ''List error'')"
proof -
  have ns: "c \<notin> set (Q Sleep_q)" by (simp add: Q)
  note core = sched_ok_core [OF ok ns]
  let ?th = "sleep_until c (k_tick k) (k_thread k)"
  let ?Q = "Q(Sleep_q := [c])"
  have ins: "sleep_insert ?th c (Q Sleep_q) = [c]" by (simp add: sleep_insert_def Q)
  obtain k1 where k1: "scheduler_enqueue_delay c (upd_thread c (\<lambda>x. x\<lparr>tick_to_wake := k_tick k\<rparr>) k) = Inr k1"
    "core_ok k1 ?Q ts i ({i, c} - {c})" "same_core k k1" "\<forall>x. tick_to_wake (k_thread k1 x) = tick_to_wake (?th x)"
    using enqueue_delay_ok [OF core(1) insertI2 [OF singletonI] c k(2)] unfolding ins by blast
  let ?k1 = "reschedule k1"
  have sl: "thread_sleep 0 k = Inr ?k1" using core(2) k1(1) by (simp add: thread_sleep_def get_kernel_tick_def)
  have "{i, c} - {c} = {i}" using c by auto
  then have a: "core_ok k1 ?Q ts i {i}" using k1(2) by simp
  have "wake_ok ?k1 ?Q" using core_wake [OF a] by (simp add: wake_ok_def reschedule_def)
  then have ok1: "core_ok ?k1 ?Q ts i {i}" by (rule core_ok_cong [OF a, rotated 4]) (simp_all add: reschedule_def)
  have st: "curr_thread ?k1 = Some c" "scheduler_status ?k1 \<noteq> 0" "k_tick ?k1 = k_tick k" "reschedule_pending ?k1 \<noteq> 0"
    using k1(3) core(2) k(1) by (simp_all add: same_core_def reschedule_def)
  obtain k5 where k5: "account cvr ?k1 = Inr k5" "core_ok k5 ?Q ts i {i}" "curr_thread k5 = Some c"
    "k_tick k5 = k_tick k + passed cvr ?k1"
    "\<forall>t. fixed_part (k_thread k5 t) = fixed_part (k_thread ?k1 t) \<and> tick_to_wake (k_thread k5 t) = tick_to_wake (k_thread ?k1 t)"
    using account_ok [OF ok1 st(1), of cvr] st(3) by metis
  have pos: "0 < unat (passed cvr ?k1)" "unat (passed cvr ?k1) \<le> SYSTICK_RVR"
    using st(4) k(4) by (auto simp: passed_def SYSTICK_RVR_def unat_sub word_less_nat_alt word_le_nat_alt)
  then have "unat (k_tick k + passed cvr ?k1) = unat (k_tick k) + unat (passed cvr ?k1)"
    using k(3) by (subst unat_add_lem [THEN iffD1]) auto
  then have late: "k_tick k < k_tick k5" using pos k5(4) by (simp add: word_less_nat_alt)
  have tc: "tick_to_wake (k_thread k5 c) = k_tick k" using k5(5) k1(4) by (simp add: reschedule_def sleep_until_def)
  have cts: "c \<in> set ts" using core(3) .
  have cl: "class_of (k_thread k5 c) \<noteq> IDLE" using core_class [OF k5(2) cts] c by simp
  then obtain q where q: "home (class_of (k_thread k5 c)) = Some q" using home_not_idle by blast
  have woken: "spec_wake (k_thread k5) (k_tick k5) ?Q = (?Q(Sleep_q := []))(q := (?Q(Sleep_q := [])) q @ [c])"
    using late tc q by (simp add: spec_wake_def put_ready_def)
  obtain k6 where k6: "process_expired_delays k5 = Inr k6" "same_core k5 k6"
    "core_ok k6 (spec_wake (k_thread k5) (k_tick k5) ?Q) ts i {i}"
    using process_expired_ok [OF k5(2)] by blast
  have q6: "home (class_of (k_thread k6 c)) = Some q" using q same_core_class [OF k6(2)] by simp
  have mem: "c \<in> set (spec_wake (k_thread k5) (k_tick k5) ?Q q)" unfolding woken by simp
  have "tick_to_wake (k_thread k6 c) = 0"
    using core_fits [OF k6(3) mem] q6 by (cases "class_of (k_thread k6 c)") auto
  moreover have "curr_thread k6 = Some c" using k6(2) k5(3) by (simp add: same_core_def)
  ultimately have "switch_to_next k6 = Inl (Panic ''List error'')"
    using enqueue_queued_panics [OF k6(3) q6 mem] by (simp add: switch_to_next_def)
  then have "systick_exception cvr ?k1 = Inl (Panic ''List error'')"
    using systick_parts [OF st(2)] k5(1) k6(1) by simp
  then show ?thesis using sl by blast
qed

section \<open>Exiting\<close>

text \<open>
  \<^bold>\<open>Removal of a real-time or sleeping thread (C17).\<close> The tick after such a thread has set
  \<^verbatim>\<open>exit_pending\<close> returns; the thread is gone from the list of threads and from every queue, its memory
  has been given back, the invariant holds for the rest, and the abstract scheduler picks the next.
\<close>

theorem exit_removes_thread:
  assumes "sched_ok k Q ts i c" "scheduler_status k \<noteq> 0" "cvr \<le> of_nat SYSTICK_RVR"
    "unat (k_tick k) + SYSTICK_RVR < 2 ^ 64" "exit_pending (k_thread k c) \<noteq> 0"
    "class_of (k_thread k c) = REAL_TIME \<or> tick_to_wake (k_thread k c) \<noteq> 0"
    "threads_held k ts M" "owns k ts M c"
  shows "\<exists>k' M' n Q'. systick_exception cvr k = Inr k' \<and> next_thread k' = Some n
    \<and> sched_ok (context_switch k') Q' (remove1 c ts) i n
    \<and> threads_held (context_switch k') (remove1 c ts) M' \<and> c \<notin> fst ` set M'"
proof -
  obtain n Q' where "spec_pick i (without c (spec_yield (k_thread k) c
      (spec_wake (k_thread k) (k_tick k + passed cvr k) Q))) = (n, Q')" by fastforce
  from exit_tick_ok [OF assms this] show ?thesis by blast
qed

theorem exit_removes_thread_witness:
  "\<exists>mm k' Q' n. systick_exception 0 (demo_kernel mm REAL_TIME 1 False) = Inr k'
    \<and> sched_ok (context_switch k') Q' [demo_i] demo_i n"
proof -
  obtain mm where mm: "mm_reachable (mm, [(0x20400178, 50), (0x20400108, 100)])" using demo_run by blast
  have "remove1 demo_c (demo_threads False) = [demo_i]" by (simp add: demo_threads_def)
  moreover have "\<exists>k' M' n Q'. systick_exception 0 (demo_kernel mm REAL_TIME 1 False) = Inr k' \<and> next_thread k' = Some n
      \<and> sched_ok (context_switch k') Q' (remove1 demo_c (demo_threads False)) demo_i n
      \<and> threads_held (context_switch k') (remove1 demo_c (demo_threads False)) M' \<and> demo_c \<notin> fst ` set M'"
    by (rule exit_removes_thread [OF demo_sched_ok _ _ _ _ _ demo_held [OF mm] demo_simps(7)])
      (simp_all add: demo_simps SYSTICK_RVR_def)
  ultimately show ?thesis by auto
qed

text \<open>
  \<^bold>\<open>Exit of an application thread among others (C18).\<close> An application or background thread that exits
  while other threads of its class are ready makes the next tick panic: it is put into its run queue,
  but \<^verbatim>\<open>rq_list\<close> does not name that queue, so the removal does not take it out again.
\<close>

theorem exit_app_panics:
  assumes "sched_ok k Q ts i c" "scheduler_status k \<noteq> 0" "cvr \<le> of_nat SYSTICK_RVR"
    "unat (k_tick k) + SYSTICK_RVR < 2 ^ 64" "exit_pending (k_thread k c) \<noteq> 0"
    "tick_to_wake (k_thread k c) = 0" "home (class_of (k_thread k c)) = Some q" "q \<in> {App_rq, Background_rq}"
    "spec_wake (k_thread k) (k_tick k + passed cvr k) Q q \<noteq> []"
  shows "systick_exception cvr k = Inl (Panic ''Exiting thread exist in a list'')"
  by (rule exit_app_tick_ok [OF assms])

theorem exit_app_panics_witness:
  "systick_exception 0 (demo_kernel demo_mm BACKGROUND 1 True) = Inl (Panic ''Exiting thread exist in a list'')"
  by (rule exit_app_panics [OF demo_sched_ok, where q = Background_rq])
    (simp_all add: demo_simps SYSTICK_RVR_def demo_wake demo_queues_def)

text \<open>
  \<^bold>\<open>Exit of the only application thread (C19).\<close> If no other application and no real-time thread is ready,
  the removal succeeds, the memory of the thread is freed, and the freed thread, still in its run
  queue, is the next thread to run.
\<close>

theorem exit_app_zombie:
  assumes "sched_ok k Q ts i c" "scheduler_status k \<noteq> 0" "cvr \<le> of_nat SYSTICK_RVR"
    "unat (k_tick k) + SYSTICK_RVR < 2 ^ 64" "exit_pending (k_thread k c) \<noteq> 0"
    "tick_to_wake (k_thread k c) = 0" "class_of (k_thread k c) = APPLICATION"
    "threads_held k ts M" "owns k ts M c"
    "spec_wake (k_thread k) (k_tick k + passed cvr k) Q App_rq = []"
    "spec_wake (k_thread k) (k_tick k + passed cvr k) Q Rt_rq = []"
  shows "\<exists>k' M'. systick_exception cvr k = Inr k' \<and> next_thread k' = Some c
    \<and> mm_reachable (k_mm k', M') \<and> c \<notin> fst ` set M'"
  by (rule exit_app_alone_ok [OF assms])

theorem exit_app_zombie_witness:
  "\<exists>mm k'. systick_exception 0 (demo_kernel mm APPLICATION 1 False) = Inr k' \<and> next_thread k' = Some demo_c"
proof -
  obtain mm where mm: "mm_reachable (mm, [(0x20400178, 50), (0x20400108, 100)])" using demo_run by blast
  have "\<exists>k' M'. systick_exception 0 (demo_kernel mm APPLICATION 1 False) = Inr k' \<and> next_thread k' = Some demo_c
      \<and> mm_reachable (k_mm k', M') \<and> demo_c \<notin> fst ` set M'"
    by (rule exit_app_zombie [OF demo_sched_ok _ _ _ _ _ _ demo_held [OF mm] demo_simps(7)])
      (simp_all add: demo_simps SYSTICK_RVR_def demo_wake demo_queues_def)
  then show ?thesis by blast
qed

section \<open>Creating and blocking threads\<close>

text \<open>
  \<^bold>\<open>Creating a thread (C16).\<close> \<^verbatim>\<open>new_thread\<close> panics only if the memory bank has no room. Otherwise the
  new control block is memory that no other thread holds, the thread is in the list of threads and at the
  back of the queue of its class, and the queues still satisfy their invariant. For a stack of at least 16
  words the initial stack frame lies complete at the stack pointer inside that memory. A smaller stack is not
  refused: its frame reaches into the control block, whose fields are written afterwards, and the frame is
  damaged; the word \<open>15 - n\<close> of the frame of a stack of \<open>n\<close> words is the code address of the thread.
\<close>

theorem new_thread_correct:
  assumes "queues_ok k Q ts" "threads_held k ts M" "unat (ti_stack_size info) < 2 ^ 28"
  shows "(\<exists>st. mm_alloc (thread_pages (ti_stack_size info) * 512) 3 (k_mm k) = Inr (0, st))
        \<and> new_thread e info k = Inl (Panic ''palloc failed'')
    \<or> (\<exists>th k'. new_thread e info k = Inr (k_tid k, k') \<and> th \<notin> set ts
        \<and> threads_held k' (th # ts) ((th, thread_pages (ti_stack_size info) * 512) # M)
        \<and> queues_ok k' (put_new (ti_class info) th Q) (th # ts)
        \<and> k_thread k' = (k_thread k)(th := new_tcb (k_tid k) th info)
        \<and> (16 \<le> unat (ti_stack_size info) \<longrightarrow>
             frame_at (kmem k') (stack_pointer (k_thread k' th)) (rev (initial_frame e (ti_thread info) (ti_arg info))))
        \<and> (unat (ti_stack_size info) < 16 \<longrightarrow>
             load32 (kmem k') (stack_pointer (k_thread k' th) + of_nat (4 * (15 - unat (ti_stack_size info)))) = ti_code_addr info))"
  using new_thread_ok [OF assms] by blast

theorem new_thread_correct_witness:
  "\<exists>mm. new_thread 0 (idle_info 0) (demo_kernel mm REAL_TIME 0 False) = Inl (Panic ''palloc failed'')
    \<or> (\<exists>k'. new_thread 0 (idle_info 0) (demo_kernel mm REAL_TIME 0 False) = Inr (4, k'))"
proof -
  obtain mm where mm: "mm_reachable (mm, [(0x20400178, 50), (0x20400108, 100)])" using demo_run by blast
  have "k_tid (demo_kernel mm REAL_TIME 0 False) = 4" "unat (ti_stack_size (idle_info 0)) < 2 ^ 28"
    by (simp_all add: demo_kernel_def idle_info_def)
  then show ?thesis
    using new_thread_correct [where info = "idle_info 0" and e = 0,
        OF demo_queues_ok demo_held [OF mm, where C = REAL_TIME and ex = 0]] by metis
qed

text \<open>
  \<^bold>\<open>Blocking a thread (C20).\<close> What \<^verbatim>\<open>thread_block\<close> does in every case: an unknown thread number and a
  thread that is not in the real-time class end in a null pointer, the current thread panics (so that
  no thread can block itself), any other real-time thread moves to the queue of blocked threads.
\<close>

theorem thread_block_cases:
  assumes "sched_ok k Q ts i c"
  shows "case find (\<lambda>t. tid (k_thread k t) = n) ts of
      None \<Rightarrow> thread_block n k = Inl NullDeref
    | Some t \<Rightarrow>
        if t = c then thread_block n k = Inl (Panic ''ERROR'')
        else if class_of (k_thread k t) \<noteq> REAL_TIME then thread_block n k = Inl NullDeref
        else \<exists>k'. thread_block n k = Inr k' \<and> sched_ok k' (spec_block (k_thread k) t Q) ts i c \<and> same_core k k'"
  by (rule thread_block_ok [OF assms])

theorem thread_block_cases_witness:
  "thread_block 2 (demo_kernel demo_mm REAL_TIME 0 True) = Inl (Panic ''ERROR'')"
  using thread_block_cases [where n = 2, OF demo_sched_ok [where C = REAL_TIME and mm = demo_mm and ex = 0 and third = True]]
  by (simp add: demo_kernel_def demo_threads_def demo_thread_def demo_addrs)

end
