(* ===== verification/Io_Monad.thy ===== *)
theory Io_Monad
  imports Kernel_Prelude
begin

text \<open>
  Stateful code that may not return: an operation takes the state to a result and a new state, or
  to an error. \<open>io_bind\<close> sequences, \<open>repeat_io\<close> is a \<^verbatim>\<open>while\<close> loop whose body either goes on with a
  new loop variable (\<open>Inl\<close>) or ends the loop with a value (\<open>Inr\<close>); a loop that never ends is the
  error \<^const>\<open>Diverge\<close>. \<open>for_io\<close> is a counted loop. The rules at the end carry an invariant through
  a loop and bound its iterations by a measure.

  \<open>bus\<close> is the interface of a peripheral: reading a register may change the device (a status
  register clears, a data register advances its queue), and so may writing one. The device itself
  is hardware, so the drivers take the bus as an argument.
\<close>

section \<open>Operations on a state\<close>

type_synonym ('s, 'a) io = "'s \<Rightarrow> ('a \<times> 's) res"

definition io_return :: "'a \<Rightarrow> ('s, 'a) io" where
  "io_return x s = Inr (x, s)"

definition io_bind :: "('s, 'a) io \<Rightarrow> ('a \<Rightarrow> ('s, 'b) io) \<Rightarrow> ('s, 'b) io" where
  "io_bind m f s = rbind (m s) (\<lambda>(x, s'). f x s')"

definition io_fail :: "error \<Rightarrow> ('s, 'a) io" where
  "io_fail e s = Inl e"

abbreviation io_panic :: "string \<Rightarrow> ('s, 'a) io" where
  "io_panic reason \<equiv> io_fail (Panic reason)"

definition io_gets :: "('s \<Rightarrow> 'a) \<Rightarrow> ('s, 'a) io" where
  "io_gets f s = Inr (f s, s)"

definition io_update :: "('s \<Rightarrow> 's) \<Rightarrow> ('s, unit) io" where
  "io_update f s = Inr ((), f s)"

definition io_res :: "'a res \<Rightarrow> ('s, 'a) io" where
  "io_res r s = rbind r (\<lambda>x. Inr (x, s))"

text \<open>Sequencing with an operation whose value is not used, as in a C statement list.\<close>

definition io_then :: "('s, unit) io \<Rightarrow> ('s, 'b) io \<Rightarrow> ('s, 'b) io" where
  "io_then m k = io_bind m (\<lambda>_. k)"

text \<open>An operation on a part of the state, given the part's selector and update.\<close>

definition io_zoom :: "('s \<Rightarrow> 't) \<Rightarrow> (('t \<Rightarrow> 't) \<Rightarrow> 's \<Rightarrow> 's) \<Rightarrow> ('t, 'a) io \<Rightarrow> ('s, 'a) io" where
  "io_zoom sel upd m s = rbind (m (sel s)) (\<lambda>(x, t). Inr (x, upd (\<lambda>_. t) s))"

named_theorems io_simps \<open>running an operation on a state\<close>

lemma io_return_run [io_simps]: "io_return x s = Inr (x, s)"
  by (simp add: io_return_def)

lemma io_bind_run [io_simps]: "io_bind m f s = rbind (m s) (\<lambda>(x, s'). f x s')"
  by (simp add: io_bind_def)

lemma io_then_run [io_simps]: "io_then m k s = rbind (m s) (\<lambda>(x, s'). k s')"
  by (simp add: io_then_def io_bind_def)

lemma io_fail_run [io_simps]: "io_fail e s = Inl e"
  by (simp add: io_fail_def)

lemma io_gets_run [io_simps]: "io_gets f s = Inr (f s, s)"
  by (simp add: io_gets_def)

lemma io_update_run [io_simps]: "io_update f s = Inr ((), f s)"
  by (simp add: io_update_def)

lemma io_res_run [io_simps]: "io_res r s = rbind r (\<lambda>x. Inr (x, s))"
  by (simp add: io_res_def)

lemma io_zoom_run [io_simps]: "io_zoom sel upd m s = rbind (m (sel s)) (\<lambda>(x, t). Inr (x, upd (\<lambda>_. t) s))"
  by (simp add: io_zoom_def)

lemma io_bind_assoc: "io_bind (io_bind m f) g = io_bind m (\<lambda>x. io_bind (f x) g)"
  by (simp add: fun_eq_iff io_bind_def rbind_assoc case_prod_unfold)

lemma io_bind_cases:
  assumes "io_bind m f s = Inr (y, t)"
  obtains x s' where "m s = Inr (x, s')" "f x s' = Inr (y, t)"
  using assms by (auto simp: io_bind_def rbind_Inr_iff)

section \<open>Loops\<close>

partial_function (option) repeat_from :: "('c \<Rightarrow> ('s, 'c + 'r) io) \<Rightarrow> 'c \<Rightarrow> 's \<Rightarrow> ('r \<times> 's) res option" where
  "repeat_from body c s = (case body c s of
       Inl e \<Rightarrow> Some (Inl e)
     | Inr (Inl c', s') \<Rightarrow> repeat_from body c' s'
     | Inr (Inr r, s') \<Rightarrow> Some (Inr (r, s')))"

definition repeat_io :: "('c \<Rightarrow> ('s, 'c + 'r) io) \<Rightarrow> 'c \<Rightarrow> ('s, 'r) io" where
  "repeat_io body c s = (case repeat_from body c s of None \<Rightarrow> Inl Diverge | Some r \<Rightarrow> r)"

abbreviation again :: "'c \<Rightarrow> ('s, 'c + 'r) io" where
  "again c \<equiv> io_return (Inl c)"

abbreviation leave :: "'r \<Rightarrow> ('s, 'c + 'r) io" where
  "leave r \<equiv> io_return (Inr r)"

lemma repeat_io_unfold:
  "repeat_io body c s = (case body c s of
       Inl e \<Rightarrow> Inl e
     | Inr (Inl c', s') \<Rightarrow> repeat_io body c' s'
     | Inr (Inr r, s') \<Rightarrow> Inr (r, s'))"
  unfolding repeat_io_def by (subst repeat_from.simps) (auto split: sum.splits)

lemma repeat_io_again [io_simps]: "body c s = Inr (Inl c', s') \<Longrightarrow> repeat_io body c s = repeat_io body c' s'"
  by (subst repeat_io_unfold) simp

lemma repeat_io_leave [io_simps]: "body c s = Inr (Inr r, s') \<Longrightarrow> repeat_io body c s = Inr (r, s')"
  by (subst repeat_io_unfold) simp

lemma repeat_io_error [io_simps]: "body c s = Inl e \<Longrightarrow> repeat_io body c s = Inl e"
  by (subst repeat_io_unfold) simp

text \<open>
  Total correctness: an invariant that every iteration keeps while a measure decreases, and that
  gives the postcondition where the loop ends. An iteration may also fail with an error the
  postcondition \<open>E\<close> allows.
\<close>

lemma repeat_io_total:
  fixes f :: "'c \<Rightarrow> 's \<Rightarrow> nat"
  assumes "I c s"
    and step: "\<And>c s. I c s \<Longrightarrow> case body c s of
        Inl e \<Rightarrow> E e
      | Inr (Inl c', s') \<Rightarrow> I c' s' \<and> f c' s' < f c s
      | Inr (Inr r, s') \<Rightarrow> Q r s'"
  shows "case repeat_io body c s of Inl e \<Rightarrow> E e | Inr (r, s') \<Rightarrow> Q r s'"
  using assms(1)
proof (induction "f c s" arbitrary: c s rule: less_induct)
  case less
  show ?case
  proof (cases "body c s")
    case (Inr p)
    obtain v s' where p: "p = (v, s')" by (cases p)
    show ?thesis
    proof (cases v)
      case (Inl c')
      then have "I c' s'" "f c' s' < f c s" using step [OF less.prems] Inr p by auto
      then show ?thesis using less.hyps [of c' s'] repeat_io_again [of body c s c' s'] Inr Inl p by simp
    next
      case r: (Inr r)
      then show ?thesis using step [OF less.prems] Inr p repeat_io_leave [of body c s r s'] by simp
    qed
  qed (use step [OF less.prems] repeat_io_error [of body c s] in simp)
qed

text \<open>A loop that keeps an invariant under which it goes on never ends.\<close>

lemma repeat_from_stuck:
  fixes body :: "'c \<Rightarrow> ('s, 'c + 'r) io"
  assumes "I c s" and step: "\<And>c s. I c s \<Longrightarrow> \<exists>c' s'. body c s = Inr (Inl c', s') \<and> I c' s'"
  shows "repeat_from body c s = None"
proof -
  have "\<not> (b = body \<and> I c s)" if "repeat_from b c s = Some r" for b c s r
  proof (rule repeat_from.raw_induct [OF _ that, where P = "\<lambda>b c s r. \<not> (b = body \<and> I c s)"])
    fix g :: "('c \<Rightarrow> ('s, 'c + 'r) io) \<Rightarrow> 'c \<Rightarrow> 's \<Rightarrow> ('r \<times> 's) res option" and b c s y
    assume IH: "\<And>b c s y. g b c s = Some y \<Longrightarrow> \<not> (b = body \<and> I c s)"
      and eq: "(case b c s of Inl e \<Rightarrow> Some (Inl e) | Inr (Inl c', s') \<Rightarrow> g b c' s'
          | Inr (Inr r, s') \<Rightarrow> Some (Inr (r, s'))) = Some y"
    show "\<not> (b = body \<and> I c s)"
    proof
      assume b: "b = body \<and> I c s"
      then obtain c' s' where "body c s = Inr (Inl c', s')" "I c' s'" using step by blast
      then show False using IH [of b c' s' y] eq b by simp
    qed
  qed
  then show ?thesis using assms(1) by (cases "repeat_from body c s") blast+
qed

lemma repeat_io_stuck:
  assumes "I c s" "\<And>c s. I c s \<Longrightarrow> \<exists>c' s'. body c s = Inr (Inl c', s') \<and> I c' s'"
  shows "repeat_io body c s = Inl Diverge"
  using repeat_from_stuck [of I, OF assms] by (simp add: repeat_io_def)

text \<open>The counted loop: the body threads an accumulator over a list of loop counters.\<close>

fun for_io :: "('i \<Rightarrow> 'a \<Rightarrow> ('s, 'a) io) \<Rightarrow> 'i list \<Rightarrow> 'a \<Rightarrow> ('s, 'a) io" where
  "for_io body [] acc = io_return acc"
| "for_io body (i # is) acc = io_bind (body i acc) (for_io body is)"

lemma for_io_append: "for_io body (xs @ ys) acc = io_bind (for_io body xs acc) (for_io body ys)"
  by (induction xs arbitrary: acc) (simp_all add: io_bind_assoc io_bind_def io_return_def fun_eq_iff)

section \<open>Total correctness\<close>

text \<open>
  \<open>achieves m Q s\<close>: started in \<open>s\<close>, the operation returns, and its value and the new state satisfy \<open>Q\<close>.
  The rules compute it through a sequence; a loop needs an invariant and a measure.
\<close>

definition achieves :: "('s, 'a) io \<Rightarrow> ('a \<Rightarrow> 's \<Rightarrow> bool) \<Rightarrow> 's \<Rightarrow> bool" where
  "achieves m Q s \<longleftrightarrow> (\<exists>x t. m s = Inr (x, t) \<and> Q x t)"

named_theorems achieves_simps \<open>total correctness of the operations\<close>

lemma achieves_return [achieves_simps]: "achieves (io_return x) Q s \<longleftrightarrow> Q x s"
  by (simp add: achieves_def io_return_def)

lemma achieves_bind [achieves_simps]: "achieves (io_bind m f) Q s \<longleftrightarrow> achieves m (\<lambda>x. achieves (f x) Q) s"
  by (auto simp: achieves_def io_bind_def rbind_Inr_iff)

lemma achieves_then [achieves_simps]: "achieves (io_then m k) Q s \<longleftrightarrow> achieves m (\<lambda>_. achieves k Q) s"
  by (simp add: io_then_def achieves_bind)

lemma achieves_gets [achieves_simps]: "achieves (io_gets f) Q s \<longleftrightarrow> Q (f s) s"
  by (simp add: achieves_def io_gets_def)

lemma achieves_update [achieves_simps]: "achieves (io_update f) Q s \<longleftrightarrow> Q () (f s)"
  by (simp add: achieves_def io_update_def)

lemma achieves_fail [achieves_simps]: "\<not> achieves (io_fail e) Q s"
  by (simp add: achieves_def io_fail_def)

lemma achieves_res [achieves_simps]: "achieves (io_res r) Q s \<longleftrightarrow> (\<exists>x. r = Inr x \<and> Q x s)"
  by (auto simp: achieves_def io_res_def rbind_Inr_iff)

lemma achieves_zoom [achieves_simps]:
  "achieves (io_zoom sel upd m) Q s \<longleftrightarrow> achieves m (\<lambda>x t. Q x (upd (\<lambda>_. t) s)) (sel s)"
  by (auto simp: achieves_def io_zoom_def rbind_Inr_iff)

lemma achieves_mono: "achieves m P s \<Longrightarrow> (\<And>x t. P x t \<Longrightarrow> Q x t) \<Longrightarrow> achieves m Q s"
  by (auto simp: achieves_def)

lemma achieves_bindI:
  assumes "achieves m P s" "\<And>x t. P x t \<Longrightarrow> achieves (f x) Q t"
  shows "achieves (io_bind m f) Q s"
  unfolding achieves_bind by (rule achieves_mono [OF assms])

lemma achieves_repeat:
  fixes f :: "'c \<Rightarrow> 's \<Rightarrow> nat"
  assumes "I c s"
    and "\<And>c s. I c s \<Longrightarrow> achieves (body c)
      (\<lambda>v t. case v of Inl c' \<Rightarrow> I c' t \<and> f c' t < f c s | Inr r \<Rightarrow> Q r t) s"
  shows "achieves (repeat_io body c) Q s"
proof -
  have "case repeat_io body c s of Inl e \<Rightarrow> False | Inr (r, s') \<Rightarrow> Q r s'"
  proof (rule repeat_io_total [where I = I and E = "\<lambda>_. False" and f = f and Q = Q])
    show "case body c s of Inl e \<Rightarrow> False | Inr (Inl c', s') \<Rightarrow> I c' s' \<and> f c' s' < f c s
        | Inr (Inr r, s') \<Rightarrow> Q r s'" if inv: "I c s" for c s
    proof -
      obtain v t where "body c s = Inr (v, t)" "case v of Inl c' \<Rightarrow> I c' t \<and> f c' t < f c s | Inr r \<Rightarrow> Q r t"
        using assms(2) [OF inv] unfolding achieves_def by blast
      then show ?thesis by (cases v) simp_all
    qed
  qed (rule assms(1))
  then show ?thesis by (auto simp: achieves_def split: sum.splits)
qed

lemma achieves_for:
  assumes "I 0 acc s"
    and "\<And>k acc s. k < length is \<Longrightarrow> I k acc s \<Longrightarrow> achieves (body (is ! k) acc) (I (Suc k)) s"
  shows "achieves (for_io body is acc) (I (length is)) s"
proof -
  have "achieves (for_io body (drop k is) acc) (I (length is)) s" if "I k acc s" "k \<le> length is" for k acc s
    using that
  proof (induction "length is - k" arbitrary: k acc s)
    case 0
    then show ?case by (simp add: achieves_simps)
  next
    case (Suc d)
    then have k: "k < length is" by simp
    have "achieves (body (is ! k) acc) (\<lambda>x. achieves (for_io body (drop (Suc k) is) x) (I (length is))) s"
      by (rule achieves_mono [OF assms(2) [OF k Suc.prems(1)]], rule Suc.hyps(1)) (use Suc.hyps(2) k in simp_all)
    then show ?case using k by (simp add: achieves_simps flip: Cons_nth_drop_Suc)
  qed
  from this [of 0 acc s] assms(1) show ?thesis by simp
qed

text \<open>
  \<open>settles m Q s\<close>: the operation does not loop for ever; where it returns, \<open>Q\<close> holds. It may panic.
\<close>

definition settles :: "('s, 'a) io \<Rightarrow> ('a \<Rightarrow> 's \<Rightarrow> bool) \<Rightarrow> 's \<Rightarrow> bool" where
  "settles m Q s \<longleftrightarrow> (case m s of Inl e \<Rightarrow> e \<noteq> Diverge | Inr (x, t) \<Rightarrow> Q x t)"

named_theorems settles_simps \<open>operations that do not loop for ever\<close>

lemma settles_return [settles_simps]: "settles (io_return x) Q s \<longleftrightarrow> Q x s"
  by (simp add: settles_def io_return_def)

lemma settles_bind [settles_simps]: "settles (io_bind m f) Q s \<longleftrightarrow> settles m (\<lambda>x. settles (f x) Q) s"
  by (auto simp: settles_def io_bind_def split: sum.splits)

lemma settles_then [settles_simps]: "settles (io_then m k) Q s \<longleftrightarrow> settles m (\<lambda>_. settles k Q) s"
  by (simp add: io_then_def settles_bind)

lemma settles_gets [settles_simps]: "settles (io_gets f) Q s \<longleftrightarrow> Q (f s) s"
  by (simp add: settles_def io_gets_def)

lemma settles_update [settles_simps]: "settles (io_update f) Q s \<longleftrightarrow> Q () (f s)"
  by (simp add: settles_def io_update_def)

lemma settles_res: "r \<noteq> Inl Diverge \<Longrightarrow> (\<And>x. r = Inr x \<Longrightarrow> Q x s) \<Longrightarrow> settles (io_res r) Q s"
  by (cases r) (auto simp: settles_def io_res_def)

lemma settles_zoom [settles_simps]:
  "settles (io_zoom sel upd m) Q s \<longleftrightarrow> settles m (\<lambda>x t. Q x (upd (\<lambda>_. t) s)) (sel s)"
  by (auto simp: settles_def io_zoom_def split: sum.splits)

lemma settles_mono: "settles m P s \<Longrightarrow> (\<And>x t. P x t \<Longrightarrow> Q x t) \<Longrightarrow> settles m Q s"
  by (auto simp: settles_def split: sum.splits)

lemma settles_any: "m s \<noteq> Inl Diverge \<Longrightarrow> (\<And>x t. Q x t) \<Longrightarrow> settles m Q s"
  by (auto simp: settles_def split: sum.splits)

lemma settles_repeat:
  fixes f :: "'c \<Rightarrow> 's \<Rightarrow> nat"
  assumes "I c s"
    and "\<And>c s. I c s \<Longrightarrow> settles (body c)
      (\<lambda>v t. case v of Inl c' \<Rightarrow> I c' t \<and> f c' t < f c s | Inr r \<Rightarrow> Q r t) s"
  shows "settles (repeat_io body c) Q s"
  unfolding settles_def
proof (rule repeat_io_total [where I = I and E = "\<lambda>e. e \<noteq> Diverge" and f = f and Q = Q])
  show "case body c s of Inl e \<Rightarrow> e \<noteq> Diverge | Inr (Inl c', s') \<Rightarrow> I c' s' \<and> f c' s' < f c s
      | Inr (Inr r, s') \<Rightarrow> Q r s'" if inv: "I c s" for c s
    using assms(2) [OF inv] by (auto simp: settles_def split: sum.splits)
qed (rule assms(1))

section \<open>Registers\<close>

record ('r, 'h) bus =
  bus_read :: "'r \<Rightarrow> 'h \<Rightarrow> u32 \<times> 'h"
  bus_write :: "'r \<Rightarrow> u32 \<Rightarrow> 'h \<Rightarrow> 'h"

definition reg_get :: "('r, 'h) bus \<Rightarrow> 'r \<Rightarrow> ('h, u32) io" where
  "reg_get b r h = Inr (bus_read b r h)"

definition reg_set :: "('r, 'h) bus \<Rightarrow> 'r \<Rightarrow> u32 \<Rightarrow> ('h, unit) io" where
  "reg_set b r v h = Inr ((), bus_write b r v h)"

text \<open>A compound assignment to a volatile register reads it once and writes it once.\<close>

definition reg_or :: "('r, 'h) bus \<Rightarrow> 'r \<Rightarrow> u32 \<Rightarrow> ('h, unit) io" where
  "reg_or b r v = io_bind (reg_get b r) (\<lambda>x. reg_set b r (x OR v))"

definition reg_and :: "('r, 'h) bus \<Rightarrow> 'r \<Rightarrow> u32 \<Rightarrow> ('h, unit) io" where
  "reg_and b r v = io_bind (reg_get b r) (\<lambda>x. reg_set b r (x AND v))"

text \<open>\<^verbatim>\<open>while (!(REG & bits));\<close>, and the value that ended the wait.\<close>

definition reg_wait :: "('r, 'h) bus \<Rightarrow> 'r \<Rightarrow> (u32 \<Rightarrow> bool) \<Rightarrow> ('h, u32) io" where
  "reg_wait b r ready = repeat_io (\<lambda>_. io_bind (reg_get b r) (\<lambda>v. if ready v then leave v else again ())) ()"

lemma reg_get_run [io_simps]: "reg_get b r h = Inr (bus_read b r h)"
  by (simp add: reg_get_def)

lemma reg_set_run [io_simps]: "reg_set b r v h = Inr ((), bus_write b r v h)"
  by (simp add: reg_set_def)

lemma achieves_reg_get [achieves_simps]: "achieves (reg_get b r) Q h \<longleftrightarrow> (case bus_read b r h of (v, h') \<Rightarrow> Q v h')"
  by (simp add: achieves_def reg_get_def split: prod.split)

lemma achieves_reg_set [achieves_simps]: "achieves (reg_set b r v) Q h \<longleftrightarrow> Q () (bus_write b r v h)"
  by (simp add: achieves_def reg_set_def)

section \<open>Arrays\<close>

definition array_get :: "'a list \<Rightarrow> nat \<Rightarrow> 'a res" where
  "array_get xs i = (if i < length xs then Inr (xs ! i) else Inl OutOfBounds)"

definition array_set :: "'a list \<Rightarrow> nat \<Rightarrow> 'a \<Rightarrow> 'a list res" where
  "array_set xs i v = (if i < length xs then Inr (xs[i := v]) else Inl OutOfBounds)"

lemma array_get_in [simp]: "i < length xs \<Longrightarrow> array_get xs i = Inr (xs ! i)"
  by (simp add: array_get_def)

lemma array_set_in [simp]: "i < length xs \<Longrightarrow> array_set xs i v = Inr (xs[i := v])"
  by (simp add: array_set_def)

text \<open>A byte buffer accessed as little-endian words.\<close>

definition store_word :: "u8 list \<Rightarrow> nat \<Rightarrow> u32 \<Rightarrow> u8 list res" where
  "store_word buf off w =
     rbind (array_set buf off (ucast w)) (\<lambda>buf.
     rbind (array_set buf (off + 1) (ucast (drop_bit 8 w))) (\<lambda>buf.
     rbind (array_set buf (off + 2) (ucast (drop_bit 16 w))) (\<lambda>buf.
       array_set buf (off + 3) (ucast (drop_bit 24 w)))))"

definition load_word :: "u8 list \<Rightarrow> nat \<Rightarrow> u32 res" where
  "load_word buf off =
     rbind (array_get buf off) (\<lambda>b0. rbind (array_get buf (off + 1)) (\<lambda>b1.
     rbind (array_get buf (off + 2)) (\<lambda>b2. rbind (array_get buf (off + 3)) (\<lambda>b3. Inr (le32 b0 b1 b2 b3)))))"

end
