(* ===== verification/Disk_Io.thy ===== *)
theory Disk_Io
  imports Io_Monad
begin

text \<open>
  \<^verbatim>\<open>disk/disk_io.c\<close>: the dispatch of the file system's disk operations on the physical disk. The SD
  card operations it calls are an interface \<open>sd_ops\<close>; \<open>Sd_Protocol\<close> gives the one the kernel uses. A
  read takes the old contents of the caller's buffer and returns the new ones, a write takes the
  buffer.
\<close>

datatype disk = DISK_SD_CARD

record 'd sd_ops =
  op_is_connected :: "('d, u8) io"
  op_init :: "('d, unit) io"
  op_read :: "u32 \<Rightarrow> u32 \<Rightarrow> u8 list \<Rightarrow> ('d, u8 \<times> u8 list) io"
  op_write :: "u32 \<Rightarrow> u32 \<Rightarrow> u8 list \<Rightarrow> ('d, u8) io"

definition disk_get_status :: "'d sd_ops \<Rightarrow> disk \<Rightarrow> ('d, u8) io" where
  "disk_get_status ops disk = (case disk of DISK_SD_CARD \<Rightarrow> op_is_connected ops)"

definition disk_initialize :: "'d sd_ops \<Rightarrow> disk \<Rightarrow> ('d, u8) io" where
  "disk_initialize ops disk = (case disk of DISK_SD_CARD \<Rightarrow> io_then (op_init ops) (io_return 1))"

definition disk_read :: "'d sd_ops \<Rightarrow> disk \<Rightarrow> u8 list \<Rightarrow> u32 \<Rightarrow> u32 \<Rightarrow> ('d, u8 \<times> u8 list) io" where
  "disk_read ops disk buffer lba count = (case disk of DISK_SD_CARD \<Rightarrow> op_read ops lba count buffer)"

definition disk_write :: "'d sd_ops \<Rightarrow> disk \<Rightarrow> u8 list \<Rightarrow> u32 \<Rightarrow> u32 \<Rightarrow> ('d, u8) io" where
  "disk_write ops disk buffer lba count = (case disk of DISK_SD_CARD \<Rightarrow> op_write ops lba count buffer)"

text \<open>
  What the file system relies on: in a state in which the disk is \<open>live\<close>, a read of one sector of the
  medium returns 1 with the sector's contents, and the disk stays live. The medium is a function
  from sector numbers to contents; nothing is promised about sectors outside \<open>lbas\<close>.
\<close>

definition reads_sectors :: "'d sd_ops \<Rightarrow> ('d \<Rightarrow> bool) \<Rightarrow> (u32 \<Rightarrow> u8 list) \<Rightarrow> u32 set \<Rightarrow> bool" where
  "reads_sectors ops live content lbas \<longleftrightarrow>
     (\<forall>d lba buf. live d \<longrightarrow> lba \<in> lbas \<longrightarrow> length buf = 512 \<longrightarrow>
        achieves (op_read ops lba 1 buf) (\<lambda>(st, b) d'. st = 1 \<and> b = content lba \<and> live d') d)
     \<and> (\<forall>lba \<in> lbas. length (content lba) = 512)"

locale block_device =
  fixes ops :: "'d sd_ops" and live :: "'d \<Rightarrow> bool" and content :: "u32 \<Rightarrow> u8 list" and lbas :: "u32 set"
  assumes reads: "reads_sectors ops live content lbas"

end
