(* ===== verification/Fat_Layout.thy ===== *)
theory Fat_Layout
  imports Disk_Io Mem_Core "HOL-Library.Signed_Division"
begin

text \<open>
  The data of \<^verbatim>\<open>disk/fat32.c\<close> and \<^verbatim>\<open>disk/fat32.h\<close>: volumes, directory and file objects, the byte offsets
  of the on-disk structures, and the routines on byte buffers: little-endian loads and stores, the
  comparison and checksum loops, the recognition of a FAT32 partition.

  A buffer is a list of bytes; a pointer into it is the list and an offset, and an access outside
  the list is the error \<^const>\<open>OutOfBounds\<close>. A \<^verbatim>\<open>char\<close> is an unsigned byte, as on this compiler's
  target. A division by zero has the value 0, which is both what the core's divide instruction
  computes (the kernel never sets the bit that traps it) and the library's convention for words.
\<close>

section \<open>Status codes and objects\<close>

datatype fstatus = FSTATUS_OK | FSTATUS_ERROR | FSTATUS_NO_VOLUME | FSTATUS_PATH_ERR | FSTATUS_EOF

record volume =
  vol_next :: u32
  label :: "u8 list"
  letter :: u8
  sector_size :: u16
  cluster_size :: u8
  total_size :: u32
  fat_lba :: u32
  fsinfo_lba :: u32
  data_lba :: u32
  root_lba :: u32
  vol_buffer :: "u8 list"
  buffer_lba :: u32
  vol_disk :: disk
  buffer_dirty :: u32

record dir =
  dir_sector :: u32
  dir_cluster :: u32
  dir_rw :: u32
  dir_start :: u32
  dir_size :: u32
  dir_vol :: u32

record fat_file =
  file_sector :: u32
  file_cluster :: u32
  file_rw :: u32
  file_size :: u32
  file_start :: u32
  glob_offset :: u32
  file_vol :: u32

record info =
  info_name :: "u8 list"
  name_length :: u8
  attribute :: u8
  c_time_tenth :: u8
  c_time :: u16
  c_date :: u16
  a_date :: u16
  w_time :: u16
  w_date :: u16
  info_size :: u32

record partition =
  par_lba :: u32
  par_size :: u32
  par_status :: u8
  par_type :: u8

section \<open>On-disk offsets\<close>

abbreviation (input) "MBR_PARTITION \<equiv> 446 :: nat"
abbreviation (input) "MBR_PARTITION_SIZE \<equiv> 16 :: nat"
abbreviation (input) "MBR_BOOT_SIG \<equiv> 510 :: nat"
abbreviation (input) "PAR_STATUS \<equiv> 0 :: nat"
abbreviation (input) "PAR_TYPE \<equiv> 4 :: nat"
abbreviation (input) "PAR_LBA \<equiv> 8 :: nat"
abbreviation (input) "PAR_SIZE \<equiv> 12 :: nat"
abbreviation (input) "BPB_SECTOR_SIZE \<equiv> 11 :: nat"
abbreviation (input) "BPB_CLUSTER_SIZE \<equiv> 13 :: nat"
abbreviation (input) "BPB_RSVD_CNT \<equiv> 14 :: nat"
abbreviation (input) "BPB_NUM_FATS \<equiv> 16 :: nat"
abbreviation (input) "BPB_ROOT_ENT_CNT \<equiv> 17 :: nat"
abbreviation (input) "BPB_TOT_SECT_16 \<equiv> 19 :: nat"
abbreviation (input) "BPB_FAT_SIZE_16 \<equiv> 22 :: nat"
abbreviation (input) "BPB_TOT_SECT_32 \<equiv> 32 :: nat"
abbreviation (input) "BPB_16_FSTYPE \<equiv> 54 :: nat"
abbreviation (input) "BPB_32_FAT_SIZE \<equiv> 36 :: nat"
abbreviation (input) "BPB_32_ROOT_CLUST \<equiv> 44 :: nat"
abbreviation (input) "BPB_32_FSINFO \<equiv> 48 :: nat"
abbreviation (input) "BPB_32_FSTYPE \<equiv> 82 :: nat"
abbreviation (input) "SFN_ATTR \<equiv> 11 :: nat"
abbreviation (input) "SFN_CTIME_TH \<equiv> 13 :: nat"
abbreviation (input) "SFN_CTIME \<equiv> 14 :: nat"
abbreviation (input) "SFN_CDATE \<equiv> 16 :: nat"
abbreviation (input) "SFN_ADATE \<equiv> 18 :: nat"
abbreviation (input) "SFN_CLUSTH \<equiv> 20 :: nat"
abbreviation (input) "SFN_WTIME \<equiv> 22 :: nat"
abbreviation (input) "SFN_WDATE \<equiv> 24 :: nat"
abbreviation (input) "SFN_CLUSTL \<equiv> 26 :: nat"
abbreviation (input) "SFN_FILE_SIZE \<equiv> 28 :: nat"
abbreviation (input) "LFN_SEQ \<equiv> 0 :: nat"
abbreviation (input) "LFN_CRC \<equiv> 13 :: nat"
abbreviation (input) "INFO_CLUST_CNT \<equiv> 488 :: nat"
abbreviation (input) "INFO_NEXT_FREE \<equiv> 492 :: nat"
abbreviation (input) "LFN_SEQ_MSK \<equiv> 0x1F :: u8"
abbreviation (input) "ATTR_VOL_LABEL \<equiv> 0x08 :: u8"
abbreviation (input) "ATTR_DIR \<equiv> 0x10 :: u8"
abbreviation (input) "ATTR_LFN \<equiv> 0x0F :: u8"

definition lfn_lut :: "nat list" where
  "lfn_lut = [1, 3, 5, 7, 9, 14, 16, 18, 20, 22, 24, 28, 30]"

section \<open>Bytes\<close>

definition fat_load16 :: "u8 list \<Rightarrow> nat \<Rightarrow> u16 res" where
  "fat_load16 src off =
     rbind (array_get src off) (\<lambda>b0. rbind (array_get src (off + 1)) (\<lambda>b1.
       Inr (ucast b0 OR push_bit 8 (ucast b1))))"

definition fat_load32 :: "u8 list \<Rightarrow> nat \<Rightarrow> u32 res" where
  "fat_load32 src off =
     rbind (array_get src off) (\<lambda>b0. rbind (array_get src (off + 1)) (\<lambda>b1.
     rbind (array_get src (off + 2)) (\<lambda>b2. rbind (array_get src (off + 3)) (\<lambda>b3.
       Inr (le32 b0 b1 b2 b3)))))"

definition fat_store16 :: "u8 list \<Rightarrow> nat \<Rightarrow> u16 \<Rightarrow> u8 list res" where
  "fat_store16 dest off v =
     rbind (array_set dest off (ucast v)) (\<lambda>d. array_set d (off + 1) (ucast (drop_bit 8 v)))"

definition fat_store32 :: "u8 list \<Rightarrow> nat \<Rightarrow> u32 \<Rightarrow> u8 list res" where
  "fat_store32 dest off v =
     rbind (array_set dest off (ucast v)) (\<lambda>d.
     rbind (array_set d (off + 1) (ucast (drop_bit 8 v))) (\<lambda>d.
     rbind (array_set d (off + 2) (ucast (drop_bit 16 v))) (\<lambda>d.
       array_set d (off + 3) (ucast (drop_bit 24 v)))))"

text \<open>The copy and comparison loops run \<^verbatim>\<open>count\<close> times; a count of zero returns at once.\<close>

fun fat_memcpy :: "u8 list \<Rightarrow> nat \<Rightarrow> u8 list \<Rightarrow> nat \<Rightarrow> nat \<Rightarrow> u8 list res" where
  "fat_memcpy src s dest d 0 = Inr dest"
| "fat_memcpy src s dest d (Suc count) =
     rbind (array_get src s) (\<lambda>b. rbind (array_set dest d b) (\<lambda>dest'.
       fat_memcpy src (s + 1) dest' (d + 1) count))"

fun fat_memcmp :: "u8 list \<Rightarrow> nat \<Rightarrow> u8 list \<Rightarrow> nat \<Rightarrow> nat \<Rightarrow> u8 res" where
  "fat_memcmp src1 i src2 j 0 = Inr 1"
| "fat_memcmp src1 i src2 j (Suc count) =
     rbind (array_get src1 i) (\<lambda>a. rbind (array_get src2 j) (\<lambda>b.
       if a \<noteq> b then Inr 0 else fat_memcmp src1 (i + 1) src2 (j + 1) count))"

text \<open>The checksum of the 11 bytes of a short name: rotate right and add.\<close>

fun sfn_crc_loop :: "nat \<Rightarrow> u8 list \<Rightarrow> nat \<Rightarrow> u8 \<Rightarrow> u8 res" where
  "sfn_crc_loop 0 sfn off crc = Inr crc"
| "sfn_crc_loop (Suc n) sfn off crc =
     rbind (array_get sfn off) (\<lambda>b. sfn_crc_loop n sfn (off + 1) (push_bit 7 (crc AND 1) + drop_bit 1 crc + b))"

definition fat_get_sfn_crc :: "u8 list \<Rightarrow> nat \<Rightarrow> u8 res" where
  "fat_get_sfn_crc sfn off = sfn_crc_loop 11 sfn off 0"

section \<open>Name comparison\<close>

text \<open>
  A directory name is compared without case with the 8 characters of a short entry. The loop is a
  \<^verbatim>\<open>do ... while (--size)\<close> on a byte: a size of zero runs it 256 times.
\<close>

definition to_upper :: "u8 \<Rightarrow> u8" where
  "to_upper c = (if 0x61 \<le> c \<and> c \<le> 0x7A then c - 32 else c)"

fun sfn_cmp_loop :: "nat \<Rightarrow> u8 list \<Rightarrow> nat \<Rightarrow> u8 list \<Rightarrow> nat \<Rightarrow> u8 res" where
  "sfn_cmp_loop 0 sfn i name j = Inr 1"
| "sfn_cmp_loop (Suc n) sfn i name j =
     rbind (array_get name j) (\<lambda>c. rbind (array_get sfn i) (\<lambda>s.
       if to_upper c \<noteq> s then Inr 0 else sfn_cmp_loop n sfn (i + 1) name (j + 1)))"

definition fat_dir_sfn_cmp :: "u8 list \<Rightarrow> nat \<Rightarrow> u8 list \<Rightarrow> nat \<Rightarrow> u8 \<Rightarrow> u8 res" where
  "fat_dir_sfn_cmp sfn i name j size0 =
     (let size' = if size0 > 8 then 8 else size0
      in sfn_cmp_loop (if size' = 0 then 256 else unat size') sfn i name j)"

text \<open>
  The fragment of a long name an entry holds starts at \<^verbatim>\<open>13 * (seq - 1)\<close>, truncated to a byte.
\<close>

definition lfn_name_off :: "u8 \<Rightarrow> u8" where
  "lfn_name_off seq = 13 * ((seq AND LFN_SEQ_MSK) - 1)"

fun lfn_cmp_loop :: "nat list \<Rightarrow> nat \<Rightarrow> u8 list \<Rightarrow> nat \<Rightarrow> u8 list \<Rightarrow> nat \<Rightarrow> u32 \<Rightarrow> u8 res" where
  "lfn_cmp_loop [] k lfn i name j size' = Inr 1"
| "lfn_cmp_loop (l # ls) k lfn i name j size' =
     rbind (array_get lfn (i + l)) (\<lambda>c.
       if c = 0x00 \<or> c = 0xFF then Inr 1
       else if of_nat k \<ge> size' then Inr 0
       else rbind (array_get name (j + k)) (\<lambda>n.
         if c \<noteq> n then Inr 0 else lfn_cmp_loop ls (k + 1) lfn i name j size'))"

definition fat_dir_lfn_cmp :: "u8 list \<Rightarrow> nat \<Rightarrow> u8 list \<Rightarrow> nat \<Rightarrow> u32 \<Rightarrow> u8 res" where
  "fat_dir_lfn_cmp lfn i name j size' =
     rbind (array_get lfn (i + LFN_SEQ)) (\<lambda>seq.
       lfn_cmp_loop lfn_lut (unat (lfn_name_off seq)) lfn i name j size')"

section \<open>Recognition of a FAT32 partition\<close>

definition FAT_STRING :: "u8 list" where
  "FAT_STRING = [0x46, 0x41, 0x54]"

text \<open>
  The sector counts are computed as in the code: the rounding of the root directory divides by the
  sector size minus one, in signed arithmetic.
\<close>

definition fat_root_sectors :: "u16 \<Rightarrow> u16 \<Rightarrow> u32" where
  "fat_root_sectors root_ent ssize =
     word_of_int ((uint root_ent * 32 + (uint ssize - 1)) sdiv (uint ssize - 1))"

definition fat_data_sectors :: "u8 list \<Rightarrow> u32 res" where
  "fat_data_sectors bpb =
     rbind (fat_load16 bpb BPB_ROOT_ENT_CNT) (\<lambda>root_ent.
     rbind (fat_load16 bpb BPB_SECTOR_SIZE) (\<lambda>ssize.
     rbind (fat_load16 bpb BPB_FAT_SIZE_16) (\<lambda>fat16.
     rbind (fat_load32 bpb BPB_32_FAT_SIZE) (\<lambda>fat32.
     rbind (fat_load16 bpb BPB_TOT_SECT_16) (\<lambda>tot16.
     rbind (fat_load32 bpb BPB_TOT_SECT_32) (\<lambda>tot32.
     rbind (fat_load16 bpb BPB_RSVD_CNT) (\<lambda>rsvd.
     rbind (array_get bpb BPB_NUM_FATS) (\<lambda>num.
       let fat_size = if fat16 \<noteq> 0 then ucast fat16 else fat32;
           tot_sect = if tot16 \<noteq> 0 then ucast tot16 else tot32
       in Inr (tot_sect - (ucast rsvd + ucast num * fat_size + fat_root_sectors root_ent ssize))))))))))"

definition fat_search :: "u8 list \<Rightarrow> u8 res" where
  "fat_search bpb =
     rbind (fat_load16 bpb 510) (\<lambda>sig.
     if sig \<noteq> 0xAA55 then Inr 0 else
     rbind (fat_memcmp bpb BPB_32_FSTYPE FAT_STRING 0 3) (\<lambda>is32.
     rbind (if is32 = 0 then fat_memcmp bpb BPB_16_FSTYPE FAT_STRING 0 3 else Inr 1) (\<lambda>isfat.
     if isfat = 0 then Inr 0 else
     rbind (fat_data_sectors bpb) (\<lambda>data_sectors.
     rbind (array_get bpb BPB_CLUSTER_SIZE) (\<lambda>csize.
       let data_clusters = data_sectors div ucast csize
       in Inr (if data_clusters < 65525 then 0 else 1))))))"

section \<open>Clusters and sectors\<close>

definition fat_sect_to_clust :: "volume \<Rightarrow> u32 \<Rightarrow> u32" where
  "fat_sect_to_clust v sect = (sect - data_lba v) div ucast (cluster_size v) + 2"

definition fat_clust_to_sect :: "volume \<Rightarrow> u32 \<Rightarrow> u32" where
  "fat_clust_to_sect v clust = (clust - 2) * ucast (cluster_size v) + data_lba v"

text \<open>The end-of-chain test that three loops repeat.\<close>

definition is_eoc :: "u32 \<Rightarrow> bool" where
  "is_eoc entry = (let eoc_value = entry AND 0xFFFFFFF in eoc_value \<ge> 0xFFFFFF8 \<and> eoc_value \<le> 0xFFFFFFF)"

end
