(* ===== verification/Fat_Volume.thy ===== *)
theory Fat_Volume
  imports Fat_Layout
begin

text \<open>
  The sector cache of a volume, the allocation table behind it and the walk over clusters
  (\<^verbatim>\<open>fat_read\<close>, \<^verbatim>\<open>fat_flush\<close>, \<^verbatim>\<open>fat_table_get\<close>, \<^verbatim>\<open>fat_table_set\<close>, \<^verbatim>\<open>fat_get_cluster\<close>, \<^verbatim>\<open>fat_dir_get_next\<close>,
  \<^verbatim>\<open>fat_file_addr_resolve\<close> of \<^verbatim>\<open>disk/fat32.c\<close>). These functions work on one volume, the object their
  volume pointer points to, and on the disk. Messages to the console are not modelled.
\<close>

section \<open>One volume and its disk\<close>

record 'd mounted =
  vol :: volume
  drive :: 'd

abbreviation upd_vol :: "(volume \<Rightarrow> volume) \<Rightarrow> ('d mounted, unit) io" where
  "upd_vol f \<equiv> io_update (\<lambda>s. s\<lparr>vol := f (vol s)\<rparr>)"

definition buffer_get :: "nat \<Rightarrow> ('d mounted, u8) io" where
  "buffer_get off = io_bind (io_gets (vol_buffer \<circ> vol)) (\<lambda>b. io_res (array_get b off))"

definition buffer_load16 :: "nat \<Rightarrow> ('d mounted, u16) io" where
  "buffer_load16 off = io_bind (io_gets (vol_buffer \<circ> vol)) (\<lambda>b. io_res (fat_load16 b off))"

definition buffer_load32 :: "nat \<Rightarrow> ('d mounted, u32) io" where
  "buffer_load32 off = io_bind (io_gets (vol_buffer \<circ> vol)) (\<lambda>b. io_res (fat_load32 b off))"

definition buffer_set :: "nat \<Rightarrow> u8 \<Rightarrow> ('d mounted, unit) io" where
  "buffer_set off c = io_bind (io_gets (vol_buffer \<circ> vol)) (\<lambda>b. io_bind (io_res (array_set b off c))
     (\<lambda>b'. upd_vol (\<lambda>v. v\<lparr>vol_buffer := b'\<rparr>)))"

definition buffer_store32 :: "nat \<Rightarrow> u32 \<Rightarrow> ('d mounted, unit) io" where
  "buffer_store32 off x = io_bind (io_gets (vol_buffer \<circ> vol)) (\<lambda>b. io_bind (io_res (fat_store32 b off x))
     (\<lambda>b'. upd_vol (\<lambda>v. v\<lparr>vol_buffer := b'\<rparr>)))"

definition on_drive :: "('d, 'a) io \<Rightarrow> ('d mounted, 'a) io" where
  "on_drive = io_zoom drive drive_update"

section \<open>The sector cache\<close>

definition fat_flush :: "'d sd_ops \<Rightarrow> ('d mounted, u8) io" where
  "fat_flush ops =
     io_bind (io_gets vol) (\<lambda>v.
     if buffer_dirty v \<noteq> 0 then
       io_bind (on_drive (disk_write ops (vol_disk v) (vol_buffer v) (buffer_lba v) 1)) (\<lambda>st.
       if st = 0 then io_return 0
       else io_then (upd_vol (\<lambda>v. v\<lparr>buffer_dirty := 0\<rparr>)) (io_return 1))
     else io_return 1)"

definition fat_read :: "'d sd_ops \<Rightarrow> u32 \<Rightarrow> ('d mounted, u8) io" where
  "fat_read ops lba =
     io_bind (io_gets vol) (\<lambda>v.
     if buffer_lba v \<noteq> lba then
       io_bind (fat_flush ops) (\<lambda>flushed.
       if flushed = 0 then io_return 0
       else
         io_bind (on_drive (disk_read ops (vol_disk v) (vol_buffer v) lba 1)) (\<lambda>(st, b).
         io_then (upd_vol (\<lambda>v. v\<lparr>vol_buffer := b\<rparr>))
           (if st = 0 then io_return 0
            else io_then (upd_vol (\<lambda>v. v\<lparr>buffer_lba := lba\<rparr>)) (io_return 1))))
     else io_return 1)"

section \<open>The allocation table\<close>

text \<open>\<open>None\<close> stands for the return value 0, with the entry not written.\<close>

definition fat_table_get :: "'d sd_ops \<Rightarrow> u32 \<Rightarrow> ('d mounted, u32 option) io" where
  "fat_table_get ops cluster =
     io_bind (io_gets (fat_lba \<circ> vol)) (\<lambda>base.
     io_bind (fat_read ops (base + cluster div 128)) (\<lambda>st.
     if st = 0 then io_return None
     else io_bind (buffer_load32 (unat (cluster mod 128 * 4))) (\<lambda>entry. io_return (Some entry))))"

definition fat_table_set :: "'d sd_ops \<Rightarrow> u32 \<Rightarrow> u32 \<Rightarrow> ('d mounted, u8) io" where
  "fat_table_set ops cluster fat_entry =
     io_bind (io_gets (fat_lba \<circ> vol)) (\<lambda>base.
     io_bind (fat_read ops (base + cluster div 128)) (\<lambda>st.
     if st = 0 then io_return 0
     else io_then (buffer_store32 (unat (4 * (cluster mod 128))) fat_entry)
       (io_then (upd_vol (\<lambda>v. v\<lparr>buffer_dirty := 1\<rparr>))
       (io_bind (fat_flush ops) (\<lambda>_. io_return 1)))))"

text \<open>
  The search for a free cluster: from the hint of the FSinfo sector, the first entry whose masked
  bits are zero is taken and marked, the second becomes the new hint. The loop state is the sector,
  the offset in it and the cluster taken, if one is.
\<close>

definition free_cluster_step ::
    "'d sd_ops \<Rightarrow> u32 \<times> u32 \<times> u32 option \<Rightarrow>
     ('d mounted, (u32 \<times> u32 \<times> u32 option) + (u32 \<times> u32 \<times> u32 option) option) io" where
  "free_cluster_step ops = (\<lambda>(sector, rw, taken).
     io_bind (fat_read ops sector) (\<lambda>st.
     if st = 0 then leave None
     else
       io_bind (buffer_load32 (unat rw)) (\<lambda>entry.
       io_bind (io_gets vol) (\<lambda>v.
       let advance = \<lambda>taken. (let rw' = rw + 4 in
             if rw' \<ge> ucast (sector_size v) then again (sector + 1, 0, taken) else again (sector, rw', taken))
       in if entry AND 0x7F = 0 then
            (if taken \<noteq> None then leave (Some (sector, rw, taken))
             else io_then (buffer_store32 (unat rw) 0xFFFFFFF)
               (io_then (upd_vol (\<lambda>v. v\<lparr>buffer_dirty := 1\<rparr>))
                  (advance (Some (128 * (sector - fat_lba v) + rw div 4)))))
          else advance taken))))"

definition fat_get_cluster :: "'d sd_ops \<Rightarrow> ('d mounted, u32 option) io" where
  "fat_get_cluster ops =
     io_bind (io_gets vol) (\<lambda>v.
     io_bind (fat_read ops (fsinfo_lba v)) (\<lambda>st.
     if st = 0 then io_return None
     else
       io_bind (buffer_load32 INFO_NEXT_FREE) (\<lambda>next_free.
       io_bind (buffer_load32 INFO_CLUST_CNT) (\<lambda>tot_free.
       io_bind (repeat_io (free_cluster_step ops) (fat_lba v + next_free div 128, next_free mod 128 * 4, None)) (\<lambda>found.
       case found of None \<Rightarrow> io_return None
       | Some (sector, rw, taken) \<Rightarrow>
           io_bind (fat_read ops (fsinfo_lba v)) (\<lambda>st.
           if st = 0 then io_return None
           else
             io_then (buffer_store32 INFO_NEXT_FREE (128 * (sector - fat_lba v) + rw div 4))
             (io_then (buffer_store32 INFO_CLUST_CNT (tot_free - 1))
             (io_then (upd_vol (\<lambda>v. v\<lparr>buffer_dirty := 1\<rparr>))
             (io_bind (fat_flush ops) (\<lambda>_. io_return taken))))))))))"

section \<open>Walking a cluster chain\<close>

text \<open>
  The step from one 32-byte entry to the next. The returned flag is the return value of the
  function; the object is changed even when it is 0.
\<close>

definition fat_dir_get_next :: "'d sd_ops \<Rightarrow> dir \<Rightarrow> ('d mounted, u8 \<times> dir) io" where
  "fat_dir_get_next ops dir0 =
     io_bind (io_gets vol) (\<lambda>v.
     let dir1 = dir0\<lparr>dir_rw := dir_rw dir0 + 32\<rparr>
     in if dir_rw dir1 \<ge> ucast (sector_size v) then
          (let dir2 = dir1\<lparr>dir_rw := dir_rw dir1 - ucast (sector_size v), dir_sector := dir_sector dir1 + 1\<rparr>
           in if dir_sector dir2 \<ge> fat_clust_to_sect v (dir_cluster dir2) + ucast (cluster_size v) then
                io_bind (fat_table_get ops (dir_cluster dir2)) (\<lambda>entry.
                case entry of None \<Rightarrow> io_return (0, dir2)
                | Some new_cluster \<Rightarrow>
                    if is_eoc new_cluster then io_return (0, dir2)
                    else io_return (1, dir2\<lparr>dir_cluster := new_cluster, dir_sector := fat_clust_to_sect v new_cluster\<rparr>))
              else io_return (1, dir2))
        else io_return (1, dir1))"

definition fat_file_addr_resolve :: "'d sd_ops \<Rightarrow> fat_file \<Rightarrow> ('d mounted, u8 \<times> fat_file) io" where
  "fat_file_addr_resolve ops file0 =
     io_bind (io_gets vol) (\<lambda>v.
     if file_rw file0 \<ge> ucast (sector_size v) then
       (let file2 = file0\<lparr>file_rw := file_rw file0 - ucast (sector_size v), file_sector := file_sector file0 + 1\<rparr>
        in if file_sector file2 \<ge> fat_clust_to_sect v (file_cluster file2) + ucast (cluster_size v) then
             io_bind (fat_table_get ops (file_cluster file2)) (\<lambda>entry.
             case entry of None \<Rightarrow> io_return (0, file2)
             | Some new_cluster \<Rightarrow>
                 if is_eoc new_cluster then io_return (0, file2)
                 else io_return (1, file2\<lparr>file_cluster := new_cluster, file_sector := fat_clust_to_sect v new_cluster\<rparr>))
           else io_return (1, file2))
     else io_return (1, file0))"

end
