(* ===== verification/Fat_Dir.thy ===== *)
theory Fat_Dir
  imports Fat_Volume
begin

text \<open>
  Searching and reading directories (\<^verbatim>\<open>fat_dir_search\<close>, \<^verbatim>\<open>fat_dir_read\<close>, \<^verbatim>\<open>fat_get_vol_label\<close>,
  \<^verbatim>\<open>volume_set_label\<close>, \<^verbatim>\<open>fat_dir_rename\<close>) and reading files (\<^verbatim>\<open>fat_file_read\<close>, \<^verbatim>\<open>fat_file_jump\<close>) of
  \<^verbatim>\<open>disk/fat32.c\<close>. Each \<^verbatim>\<open>while (1)\<close> loop is \<^const>\<open>repeat_io\<close> of the step defined before it. A name or a
  path is the array of characters the caller passed, with its terminator.
\<close>

section \<open>Searching a directory\<close>

text \<open>A match found: the object becomes the directory or file the entry names.\<close>

definition dir_enter :: "dir \<Rightarrow> nat \<Rightarrow> ('d mounted, dir) io" where
  "dir_enter dir off =
     io_bind (buffer_load16 (off + SFN_CLUSTH)) (\<lambda>hi.
     io_bind (buffer_load16 (off + SFN_CLUSTL)) (\<lambda>lo.
     io_bind (buffer_load32 (off + SFN_FILE_SIZE)) (\<lambda>sz.
     io_bind (io_gets vol) (\<lambda>v.
       let cluster = push_bit 16 (ucast hi) OR ucast lo; sector = fat_clust_to_sect v cluster
       in io_return (dir\<lparr>dir_cluster := cluster, dir_sector := sector, dir_start := sector,
            dir_size := sz, dir_rw := 0\<rparr>)))))"

text \<open>
  One entry: \<open>Some (Inl d)\<close> is a match, \<open>Some (Inr (crc, match))\<close> the state for the next entry and
  \<open>None\<close> the end of the directory.
\<close>

definition dir_match_entry ::
    "u8 list \<Rightarrow> nat \<Rightarrow> u32 \<Rightarrow> dir \<Rightarrow> u8 \<Rightarrow> u8 \<Rightarrow> ('d mounted, (dir + u8 \<times> u8) option) io" where
  "dir_match_entry name j size' dir lfn_crc lfn_match =
     (let off = unat (dir_rw dir) in
     io_bind (io_gets (vol_buffer \<circ> vol)) (\<lambda>buffer.
     io_bind (buffer_get off) (\<lambda>sfn_tmp.
     if sfn_tmp = 0x00 then io_return None
     else if sfn_tmp = 0x05 \<or> sfn_tmp = 0xE5 then io_return (Some (Inr (lfn_crc, lfn_match)))
     else
       io_bind (buffer_get (off + SFN_ATTR)) (\<lambda>attr.
       if attr AND ATTR_LFN = ATTR_LFN then
         io_bind (io_res (fat_dir_lfn_cmp buffer off name j size')) (\<lambda>same.
         io_bind (buffer_get (off + LFN_CRC)) (\<lambda>crc.
           io_return (Some (Inr (crc, if same = 0 then 0 else lfn_match)))))
       else
         io_bind (if lfn_crc \<noteq> 0 \<and> lfn_match \<noteq> 0
                  then io_bind (io_res (fat_get_sfn_crc buffer off)) (\<lambda>crc. io_return (lfn_crc = crc))
                  else io_bind (io_res (fat_dir_sfn_cmp buffer off name j (ucast size'))) (\<lambda>same. io_return (same \<noteq> 0)))
           (\<lambda>match. if match then io_bind (dir_enter dir off) (\<lambda>d. io_return (Some (Inl d)))
              else io_return (Some (Inr (0, 1))))))))"

definition dir_search_step ::
    "'d sd_ops \<Rightarrow> u8 list \<Rightarrow> nat \<Rightarrow> u32 \<Rightarrow> dir \<times> u8 \<times> u8 \<Rightarrow> ('d mounted, (dir \<times> u8 \<times> u8) + u8 \<times> dir) io" where
  "dir_search_step ops name j size' = (\<lambda>(dir, lfn_crc, lfn_match).
     io_bind (fat_read ops (dir_sector dir)) (\<lambda>st.
     if st = 0 then leave (0, dir)
     else
       io_bind (dir_match_entry name j size' dir lfn_crc lfn_match) (\<lambda>found.
       case found of None \<Rightarrow> leave (0, dir)
       | Some (Inl d) \<Rightarrow> leave (1, d)
       | Some (Inr (crc, match)) \<Rightarrow>
           io_bind (fat_dir_get_next ops dir) (\<lambda>(ok, d).
             if ok = 0 then leave (0, d) else again (d, crc, match)))))"

definition dir_rewind :: "volume \<Rightarrow> dir \<Rightarrow> dir" where
  "dir_rewind v dir =
     (if dir_start dir \<noteq> dir_sector dir
      then dir\<lparr>dir_sector := dir_start dir, dir_cluster := fat_sect_to_clust v (dir_start dir), dir_rw := 0\<rparr>
      else dir)"

definition fat_dir_search :: "'d sd_ops \<Rightarrow> u8 list \<Rightarrow> nat \<Rightarrow> u32 \<Rightarrow> dir \<Rightarrow> ('d mounted, u8 \<times> dir) io" where
  "fat_dir_search ops name j size' dir =
     io_bind (io_gets vol) (\<lambda>v. repeat_io (dir_search_step ops name j size') (dir_rewind v dir, 0, 1))"

section \<open>Following a path\<close>

text \<open>\<^verbatim>\<open>while (*path && (*path != '/')) path++;\<close>\<close>

fun skip_to_slash :: "nat \<Rightarrow> u8 list \<Rightarrow> nat \<Rightarrow> nat res" where
  "skip_to_slash 0 path p = Inl OutOfBounds"
| "skip_to_slash (Suc n) path p =
     rbind (array_get path p) (\<lambda>c. if c \<noteq> 0 \<and> c \<noteq> 0x2F then skip_to_slash n path (p + 1) else Inr p)"

text \<open>The length of a fragment, a byte; \<open>None\<close> when it holds a dot and so is a file name.\<close>

fun frag_size :: "nat \<Rightarrow> u8 list \<Rightarrow> nat \<Rightarrow> u8 \<Rightarrow> u8 option res" where
  "frag_size 0 path p sz = Inl OutOfBounds"
| "frag_size (Suc n) path p sz =
     rbind (array_get path p) (\<lambda>c.
       if c \<noteq> 0 \<and> c \<noteq> 0x2F then (if c = 0x2E then Inr None else frag_size n path (p + 1) (sz + 1))
       else Inr (Some sz))"

text \<open>
  One round of the loop over the fragments, from position \<open>p\<close>: \<open>Inr (st, d)\<close> returns from the
  function. Each scan is bounded by the length of the array, beyond which it would have failed.
\<close>

definition path_step ::
    "'d sd_ops \<Rightarrow> u8 list \<Rightarrow> nat \<times> dir \<Rightarrow> ('d mounted, (nat \<times> dir) + fstatus \<times> dir) io" where
  "path_step ops path = (\<lambda>(p, dir).
     io_bind (io_res (skip_to_slash (Suc (length path)) path p)) (\<lambda>p.
     io_bind (io_res (array_get path p)) (\<lambda>c.
     if c = 0 then leave (FSTATUS_OK, dir)
     else
       io_bind (io_res (array_get path (p + 1))) (\<lambda>c.
       if c = 0 then leave (FSTATUS_OK, dir)
       else
         io_bind (io_res (frag_size (Suc (length path)) path (p + 1) 0)) (\<lambda>sz.
         case sz of None \<Rightarrow> leave (FSTATUS_OK, dir)
         | Some size' \<Rightarrow>
             io_bind (fat_dir_search ops path (p + 1) (ucast size') dir) (\<lambda>(ok, d).
             if ok = 0 then leave (FSTATUS_OK, d) else again (p + 1, d)))))))"

text \<open>
  The part of \<^verbatim>\<open>fat_follow_path\<close> after the volume is known (\<open>vp\<close> is its address): the object is set to
  the root directory, then the fragments are followed. The code computes the cluster of the root with
  the conversion for the other direction.
\<close>

definition root_dir :: "volume \<Rightarrow> u32 \<Rightarrow> dir \<Rightarrow> dir" where
  "root_dir v vp dir = dir\<lparr>dir_vol := vp, dir_start := root_lba v, dir_sector := root_lba v,
     dir_cluster := fat_clust_to_sect v (root_lba v), dir_rw := 0\<rparr>"

definition follow_from_root :: "'d sd_ops \<Rightarrow> u8 list \<Rightarrow> u32 \<Rightarrow> dir \<Rightarrow> ('d mounted, fstatus \<times> dir) io" where
  "follow_from_root ops path vp dir0 =
     io_bind (io_gets vol) (\<lambda>v.
     let dir = root_dir v vp dir0 in
     io_bind (io_res (array_get path 1)) (\<lambda>colon.
     if colon \<noteq> 0x3A then io_return (FSTATUS_PATH_ERR, dir)
     else io_bind (io_res (array_get path 2)) (\<lambda>slash.
       if slash \<noteq> 0x2F then io_return (FSTATUS_PATH_ERR, dir)
       else repeat_io (path_step ops path) (2, dir))))"

section \<open>The volume label\<close>

text \<open>
  Both label functions walk the root directory to the first entry with the label attribute that is
  not part of a long name. They return 1 there, which is the value of \<^const>\<open>FSTATUS_ERROR\<close>.
\<close>

definition label_entry :: "'d sd_ops \<Rightarrow> ('d mounted, 'r) io \<Rightarrow> (nat \<Rightarrow> ('d mounted, 'r) io) \<Rightarrow> ('d mounted, 'r) io
    \<Rightarrow> dir \<Rightarrow> ('d mounted, dir + 'r) io" where
  "label_entry ops failed found ended dir =
     io_bind (fat_read ops (dir_sector dir)) (\<lambda>st.
     if st = 0 then io_bind failed leave
     else
       io_bind (buffer_get (unat (dir_rw dir) + SFN_ATTR)) (\<lambda>attr.
       if attr AND ATTR_VOL_LABEL \<noteq> 0 \<and> attr AND ATTR_LFN \<noteq> ATTR_LFN
       then io_bind (found (unat (dir_rw dir))) leave
       else io_bind (fat_dir_get_next ops dir) (\<lambda>(ok, d). if ok = 0 then io_bind ended leave else again d)))"

definition root_of :: "volume \<Rightarrow> dir" where
  "root_of v = \<lparr>dir_sector = root_lba v, dir_cluster = fat_sect_to_clust v (root_lba v), dir_rw = 0,
     dir_start = 0, dir_size = 0, dir_vol = 0\<rparr>"

text \<open>The bytes copied to the caller, if any, beside the status.\<close>

definition fat_get_vol_label :: "'d sd_ops \<Rightarrow> ('d mounted, fstatus \<times> u8 list) io" where
  "fat_get_vol_label ops =
     io_bind (io_gets vol) (\<lambda>v.
       repeat_io (label_entry ops (io_return (FSTATUS_ERROR, []))
         (\<lambda>off. for_io (\<lambda>i (st, l). io_bind (buffer_get (off + i)) (\<lambda>c. io_return (st, l @ [c]))) [0..<11]
           (FSTATUS_ERROR, []))
         (io_return (FSTATUS_ERROR, []))) (root_of v))"

definition volume_get_label :: "'d sd_ops \<Rightarrow> ('d mounted, fstatus \<times> u8 list) io" where
  "volume_get_label ops = fat_get_vol_label ops"

definition volume_set_label :: "'d sd_ops \<Rightarrow> u8 list \<Rightarrow> u8 \<Rightarrow> ('d mounted, fstatus) io" where
  "volume_set_label ops name len =
     io_bind (io_gets vol) (\<lambda>v.
       repeat_io (label_entry ops (io_return FSTATUS_ERROR)
         (\<lambda>off. io_then (for_io (\<lambda>i _.
               io_then (if i \<ge> unat len then buffer_set (off + i) 0x20
                        else io_bind (io_res (array_get name i)) (buffer_set (off + i)))
                 (upd_vol (\<lambda>v. v\<lparr>buffer_dirty := 1\<rparr>))) [0..<11] ())
           (io_bind (fat_flush ops) (\<lambda>_. io_return FSTATUS_ERROR)))
         (io_return FSTATUS_OK)) (root_of v))"

section \<open>Reading directory entries\<close>

text \<open>The 13 characters of a long-name entry; each one that is present is counted.\<close>

definition lfn_read_char :: "nat \<Rightarrow> nat \<Rightarrow> nat \<Rightarrow> u8 list \<times> u8 \<Rightarrow> ('d mounted, u8 list \<times> u8) io" where
  "lfn_read_char off name_off i = (\<lambda>(name, len).
     io_bind (buffer_get (off + lfn_lut ! i)) (\<lambda>c.
     if c \<noteq> 0x00 \<and> c \<noteq> 0xFF
     then io_bind (io_res (array_set name (name_off + i) c)) (\<lambda>name'. io_return (name', len + 1))
     else io_return (name, len)))"

definition sfn_read_char :: "nat \<Rightarrow> nat \<Rightarrow> u8 list \<times> u8 \<Rightarrow> ('d mounted, u8 list \<times> u8) io" where
  "sfn_read_char off i = (\<lambda>(name, len).
     io_bind (buffer_get (off + i)) (\<lambda>c.
     io_bind (io_res (array_set name i c)) (\<lambda>name'. io_return (name', len + 1))))"

definition read_entry_info :: "nat \<Rightarrow> info \<Rightarrow> u8 \<Rightarrow> ('d mounted, info) io" where
  "read_entry_info off info len =
     io_bind (buffer_get (off + SFN_ATTR)) (\<lambda>attr.
     io_bind (buffer_get (off + SFN_CTIME_TH)) (\<lambda>th.
     io_bind (buffer_load16 (off + SFN_CTIME)) (\<lambda>ct.
     io_bind (buffer_load16 (off + SFN_CDATE)) (\<lambda>cd.
     io_bind (buffer_load16 (off + SFN_WTIME)) (\<lambda>wt.
     io_bind (buffer_load16 (off + SFN_WDATE)) (\<lambda>wd.
     io_bind (buffer_load16 (off + SFN_ADATE)) (\<lambda>ad.
     io_bind (buffer_load32 (off + SFN_FILE_SIZE)) (\<lambda>sz.
       io_return (info\<lparr>attribute := attr, c_time_tenth := th, c_time := ct, c_date := cd, w_time := wt,
         w_date := wd, a_date := ad, info_size := sz, name_length := len\<rparr>)))))))))"

definition dir_read_step ::
    "'d sd_ops \<Rightarrow> dir \<times> info \<times> u8 \<times> u8 \<Rightarrow> ('d mounted, (dir \<times> info \<times> u8 \<times> u8) + fstatus \<times> dir \<times> info) io" where
  "dir_read_step ops = (\<lambda>(dir, info, lfn_crc, len).
     io_bind (fat_read ops (dir_sector dir)) (\<lambda>st.
     if st = 0 then leave (FSTATUS_ERROR, dir, info)
     else
       (let off = unat (dir_rw dir); skip = (\<lambda>info lfn_crc len.
          io_bind (fat_dir_get_next ops dir) (\<lambda>(_, d). again (d, info, lfn_crc, len)))
       in io_bind (buffer_get off) (\<lambda>sfn_check.
       if sfn_check = 0x00 then leave (FSTATUS_EOF, dir, info)
       else if sfn_check = 0xE5 \<or> sfn_check = 0x05 then skip info lfn_crc len
       else
         io_bind (buffer_get (off + SFN_ATTR)) (\<lambda>attr.
         if attr AND ATTR_LFN = ATTR_LFN then
           io_bind (for_io (lfn_read_char off (unat (lfn_name_off sfn_check))) [0..<13] (info_name info, len)) (\<lambda>(name, len).
           io_bind (buffer_get (off + LFN_CRC)) (\<lambda>crc. skip (info\<lparr>info_name := name\<rparr>) crc len))
         else
           io_bind (io_gets (vol_buffer \<circ> vol)) (\<lambda>buffer.
           io_bind (if lfn_crc \<noteq> 0 then io_res (fat_get_sfn_crc buffer off) else io_return lfn_crc) (\<lambda>crc.
           if lfn_crc \<noteq> crc then leave (FSTATUS_ERROR, dir, info)
           else
             io_bind (if lfn_crc \<noteq> 0 then io_return (info_name info, len)
                      else for_io (sfn_read_char off) [0..<11] (info_name info, len)) (\<lambda>(name, len).
             io_bind (read_entry_info off (info\<lparr>info_name := name\<rparr>) len) (\<lambda>info.
             io_bind (fat_dir_get_next ops dir) (\<lambda>(_, d). leave (FSTATUS_OK, d, info)))))))))))"

definition fat_dir_read :: "'d sd_ops \<Rightarrow> dir \<Rightarrow> info \<Rightarrow> ('d mounted, fstatus \<times> dir \<times> info) io" where
  "fat_dir_read ops dir info = repeat_io (dir_read_step ops) (dir, info, 0, 0)"

section \<open>Reading files\<close>

text \<open>
  The read loop counts \<^verbatim>\<open>count\<close> down to zero. Its state is the file object, the number of bytes left
  and the bytes read so far, whose number is the caller's \<^verbatim>\<open>status\<close>.
\<close>

definition file_read_step ::
    "'d sd_ops \<Rightarrow> u16 \<Rightarrow> u32 \<Rightarrow> fat_file \<times> u32 \<times> u8 list \<Rightarrow>
     ('d mounted, (fat_file \<times> u32 \<times> u8 list) + fstatus \<times> fat_file \<times> u8 list) io" where
  "file_read_step ops ssize fsize = (\<lambda>(file0, count, read).
     if count = 0 then leave (FSTATUS_OK, file0, read)
     else
       io_bind (if file_rw file0 \<ge> ucast ssize then
                  io_bind (fat_file_addr_resolve ops file0) (\<lambda>(_, f).
                  io_bind (fat_read ops (file_sector f)) (\<lambda>st. io_return (st, f)))
                else io_return (1, file0)) (\<lambda>(st, f).
       if st = 0 then leave (FSTATUS_ERROR, f, read)
       else
         io_bind (buffer_get (unat (file_rw f))) (\<lambda>c.
         let f' = f\<lparr>file_rw := file_rw f + 1, glob_offset := glob_offset f + 1\<rparr>; read' = read @ [c]
         in if glob_offset f' \<ge> fsize then leave (FSTATUS_OK, f', read')
            else again (f', count - 1, read'))))"

definition fat_file_read :: "'d sd_ops \<Rightarrow> fat_file \<Rightarrow> u32 \<Rightarrow> ('d mounted, fstatus \<times> fat_file \<times> u8 list) io" where
  "fat_file_read ops file0 count =
     io_bind (io_gets vol) (\<lambda>v.
     io_bind (fat_read ops (file_sector file0)) (\<lambda>st.
     if st = 0 then io_return (FSTATUS_ERROR, file0, [])
     else repeat_io (file_read_step ops (sector_size v) (file_size file0)) (file0, count, [])))"

definition file_jump_step :: "'d sd_ops \<Rightarrow> fat_file \<times> u32 \<Rightarrow> ('d mounted, (fat_file \<times> u32) + fstatus \<times> fat_file \<times> bool) io" where
  "file_jump_step ops = (\<lambda>(file0, cluster_offset).
     if cluster_offset = 0 then leave (FSTATUS_OK, file0, True)
     else
       io_bind (fat_table_get ops (file_cluster file0)) (\<lambda>entry.
       case entry of None \<Rightarrow> leave (FSTATUS_ERROR, file0, False)
       | Some new_cluster \<Rightarrow>
           if is_eoc new_cluster then leave (FSTATUS_OK, file0, False)
           else again (file0\<lparr>file_cluster := new_cluster\<rparr>, cluster_offset - 1)))"

definition fat_file_jump :: "'d sd_ops \<Rightarrow> fat_file \<Rightarrow> u32 \<Rightarrow> ('d mounted, fstatus \<times> fat_file) io" where
  "fat_file_jump ops file0 offset =
     io_bind (io_gets vol) (\<lambda>v.
     let file1 = file0\<lparr>file_cluster := fat_sect_to_clust v (file_start file0)\<rparr>;
         sectors = offset div ucast (sector_size v);
         cluster_offset = sectors div ucast (cluster_size v);
         sector_offset = sectors mod ucast (cluster_size v)
     in io_bind (repeat_io (file_jump_step ops) (file1, cluster_offset)) (\<lambda>(st, f, reached).
        if reached then
          io_return (FSTATUS_OK, f\<lparr>file_sector := fat_clust_to_sect v (file_cluster f) + sector_offset,
            file_rw := offset mod ucast (sector_size v), glob_offset := offset\<rparr>)
        else io_return (st, f)))"

section \<open>Closing and renaming\<close>

definition fat_dir_close :: "'d sd_ops \<Rightarrow> ('d mounted, fstatus) io" where
  "fat_dir_close ops = io_bind (fat_flush ops) (\<lambda>st. io_return (if st = 0 then FSTATUS_ERROR else FSTATUS_OK))"

definition fat_file_close :: "'d sd_ops \<Rightarrow> ('d mounted, fstatus) io" where
  "fat_file_close ops = io_bind (fat_flush ops) (\<lambda>st. io_return (if st = 0 then FSTATUS_ERROR else FSTATUS_OK))"

text \<open>The entry counts \<^verbatim>\<open>fat_dir_rename\<close> computes are printed and not used: it writes nothing.\<close>

fun rename_length :: "nat list \<Rightarrow> u8 list \<Rightarrow> u8 \<Rightarrow> u8 res" where
  "rename_length [] name len = Inr len"
| "rename_length (i # is) name len =
     rbind (array_get name i) (\<lambda>c. if c = 0x2E \<and> i \<noteq> 0 then Inr len else rename_length is name (len + 1))"

definition fat_dir_rename :: "'d sd_ops \<Rightarrow> dir \<Rightarrow> u8 list \<Rightarrow> u8 \<Rightarrow> ('d mounted, fstatus) io" where
  "fat_dir_rename ops dir name len =
     io_bind (io_res (rename_length [0..<unat len] name 0)) (\<lambda>nlen.
     io_bind (fat_read ops (dir_sector dir)) (\<lambda>st.
     if st = 0 then io_return FSTATUS_ERROR
     else
       io_bind (buffer_get (unat (dir_rw dir) + SFN_ATTR)) (\<lambda>attr.
       io_bind (if attr AND ATTR_LFN = ATTR_LFN then io_bind (buffer_get (unat (dir_rw dir))) (\<lambda>_. io_return ())
                else io_return ()) (\<lambda>_. io_return FSTATUS_OK))))"

end
