(* ===== verification/Fat_Cache.thy ===== *)
theory Fat_Cache
  imports Fat_Dir
begin

text \<open>
  What the sector cache promises to the rest of the file system, for any disk that reads its sectors:
  after \<^verbatim>\<open>fat_read\<close> the buffer holds the sector asked for. From it, the value of an allocation table
  lookup and the steps over sectors and clusters.
\<close>

lemma buffer_get_achieves [achieves_simps]:
  "achieves (buffer_get off) Q s \<longleftrightarrow> off < length (vol_buffer (vol s)) \<and> Q (vol_buffer (vol s) ! off) s"
  by (auto simp: buffer_get_def achieves_simps array_get_def)

lemma fat_load32_eq:
  "off + 3 < length b \<Longrightarrow> fat_load32 b off = Inr (le32 (b ! off) (b ! (off + 1)) (b ! (off + 2)) (b ! (off + 3)))"
  by (simp add: fat_load32_def)

lemma fat_load16_eq:
  "off + 1 < length b \<Longrightarrow> fat_load16 b off = Inr (ucast (b ! off) OR push_bit 8 (ucast (b ! (off + 1))))"
  by (simp add: fat_load16_def)

text \<open>A state of the volume \<open>v\<close>: its fields are those of \<open>v\<close> except the cache's, which is clean and coherent.\<close>

definition cache_ok :: "('d \<Rightarrow> bool) \<Rightarrow> (u32 \<Rightarrow> u8 list) \<Rightarrow> u32 set \<Rightarrow> volume \<Rightarrow> 'd mounted \<Rightarrow> bool" where
  "cache_ok live content lbas v s \<longleftrightarrow>
     live (drive s) \<and> buffer_dirty v = 0 \<and> length (vol_buffer (vol s)) = 512
     \<and> (\<exists>buf l. vol s = v\<lparr>vol_buffer := buf, buffer_lba := l\<rparr>)
     \<and> (buffer_lba (vol s) \<in> lbas \<longrightarrow> vol_buffer (vol s) = content (buffer_lba (vol s)))"

lemma cache_ok_fields:
  assumes "cache_ok live content lbas v s"
  shows "sector_size (vol s) = sector_size v" "cluster_size (vol s) = cluster_size v" "fat_lba (vol s) = fat_lba v"
    "data_lba (vol s) = data_lba v" "root_lba (vol s) = root_lba v" "vol_disk (vol s) = vol_disk v"
    "buffer_dirty (vol s) = 0" "fat_clust_to_sect (vol s) = fat_clust_to_sect v"
    "fat_sect_to_clust (vol s) = fat_sect_to_clust v"
  using assms by (auto simp: cache_ok_def fat_clust_to_sect_def fat_sect_to_clust_def fun_eq_iff)

context block_device
begin

lemma op_read_achieves:
  assumes "live d" "lba \<in> lbas" "length buf = 512" "\<And>d'. live d' \<Longrightarrow> Q (1, content lba) d'"
  shows "achieves (op_read ops lba 1 buf) Q d"
  by (rule achieves_mono [where P = "\<lambda>(st, b) d'. st = 1 \<and> b = content lba \<and> live d'"])
    (use reads assms in \<open>auto simp: reads_sectors_def\<close>)

lemma content_length: "lba \<in> lbas \<Longrightarrow> length (content lba) = 512"
  using reads by (simp add: reads_sectors_def)

lemma fat_read_coherent:
  assumes ok: "cache_ok live content lbas v s" and lba: "lba \<in> lbas"
  shows "achieves (fat_read ops lba)
    (\<lambda>st t. st = 1 \<and> cache_ok live content lbas v t \<and> buffer_lba (vol t) = lba \<and> vol_buffer (vol t) = content lba) s"
proof (cases "buffer_lba (vol s) = lba")
  case True
  then show ?thesis using assms content_length [OF lba] by (simp add: fat_read_def achieves_simps cache_ok_def)
next
  case False
  obtain buf l where v: "vol s = v\<lparr>vol_buffer := buf, buffer_lba := l\<rparr>" and d: "buffer_dirty v = 0"
    and live: "live (drive s)" and len: "length buf = 512"
    using ok by (auto simp: cache_ok_def)
  have "achieves (op_read ops lba 1 buf) (\<lambda>(st, b) d'. st = 1 \<and> b = content lba \<and> live d') (drive s)"
    using reads live lba len by (auto simp: reads_sectors_def)
  then show ?thesis
    using False v d content_length [OF lba]
    by (auto simp: fat_read_def fat_flush_def achieves_simps on_drive_def disk_read_def cache_ok_def
        split: disk.split intro!: op_read_achieves lba live len) blast
qed

end

text \<open>The entry of a cluster in the allocation table on the medium, and the sector it is in.\<close>

definition table_sector :: "volume \<Rightarrow> u32 \<Rightarrow> u32" where
  "table_sector v c = fat_lba v + c div 128"

definition table_entry :: "(u32 \<Rightarrow> u8 list) \<Rightarrow> volume \<Rightarrow> u32 \<Rightarrow> u32" where
  "table_entry content v c = (let b = content (table_sector v c); i = 4 * (unat c mod 128)
     in le32 (b ! i) (b ! (i + 1)) (b ! (i + 2)) (b ! (i + 3)))"

lemma table_offset: "unat (c mod 128 * 4 :: u32) = 4 * (unat c mod 128)"
proof -
  have "unat (c mod 128) = unat c mod 128" by (simp add: unat_mod)
  moreover have "unat c mod 128 * 4 < 2 ^ 32" by simp
  ultimately show ?thesis by (simp add: unat_word_ariths)
qed

context block_device
begin

lemma fat_table_get_achieves:
  assumes "cache_ok live content lbas v s" "table_sector v c \<in> lbas"
  shows "achieves (fat_table_get ops c)
    (\<lambda>e t. e = Some (table_entry content v c) \<and> cache_ok live content lbas v t) s"
proof -
  have off: "4 * (unat c mod 128) + 3 < length (content (table_sector v c))"
    using content_length [OF assms(2)] by simp
  show ?thesis
    using fat_load32_eq [OF off] achieves_mono [OF fat_read_coherent [OF assms]]
    by (auto simp: fat_table_get_def achieves_simps cache_ok_fields [OF assms(1)] buffer_load32_def
        table_offset table_entry_def Let_def simp flip: table_sector_def)
qed

end

end
