(* ===== verification/Fat_Files.thy ===== *)
theory Fat_Files
  imports Fat_Cache
begin

text \<open>
  Files as sequences of bytes. A file is stored in the sectors of a chain of clusters; the position
  of a file object in it is what \<^verbatim>\<open>fat_file_read\<close> and \<^verbatim>\<open>fat_file_jump\<close> maintain. An object may stand
  behind the last byte of a sector, where the code leaves it until the next read.
\<close>

section \<open>The stored file\<close>

abbreviation csize :: "volume \<Rightarrow> nat" where
  "csize v \<equiv> unat (cluster_size v)"

definition stored_file :: "(u32 \<Rightarrow> u8 list) \<Rightarrow> u32 set \<Rightarrow> volume \<Rightarrow> u32 list \<Rightarrow> nat \<Rightarrow> bool" where
  "stored_file content lbas v cs size' \<longleftrightarrow>
     sector_size v = 512 \<and> cluster_size v \<noteq> 0 \<and> size' \<le> length cs * csize v * 512 \<and> size' < 2 ^ 32
     \<and> (\<forall>c \<in> set cs. unat (c - 2) * csize v + unat (data_lba v) + csize v < 2 ^ 32
          \<and> (\<forall>j < csize v. fat_clust_to_sect v c + of_nat j \<in> lbas))
     \<and> (\<forall>i < length cs - 1. table_sector v (cs ! i) \<in> lbas
          \<and> table_entry content v (cs ! i) = cs ! Suc i \<and> \<not> is_eoc (cs ! Suc i))"

definition file_byte :: "(u32 \<Rightarrow> u8 list) \<Rightarrow> volume \<Rightarrow> u32 list \<Rightarrow> nat \<Rightarrow> u8" where
  "file_byte content v cs g =
     content (fat_clust_to_sect v (cs ! (g div 512 div csize v)) + of_nat (g div 512 mod csize v)) ! (g mod 512)"

definition file_bytes :: "(u32 \<Rightarrow> u8 list) \<Rightarrow> volume \<Rightarrow> u32 list \<Rightarrow> nat \<Rightarrow> u8 list" where
  "file_bytes content v cs size' = map (file_byte content v cs) [0..<size']"

definition file_in :: "volume \<Rightarrow> u32 list \<Rightarrow> fat_file \<Rightarrow> nat \<Rightarrow> nat \<Rightarrow> nat \<Rightarrow> bool" where
  "file_in v cs f k j r \<longleftrightarrow> k < length cs \<and> j < csize v \<and> r \<le> 512 \<and> file_cluster f = cs ! k
     \<and> file_sector f = fat_clust_to_sect v (cs ! k) + of_nat j \<and> file_rw f = of_nat r
     \<and> glob_offset f = of_nat ((k * csize v + j) * 512 + r)"

definition file_at :: "volume \<Rightarrow> u32 list \<Rightarrow> fat_file \<Rightarrow> nat \<Rightarrow> bool" where
  "file_at v cs f g \<longleftrightarrow> (\<exists>k j r. file_in v cs f k j r \<and> g = (k * csize v + j) * 512 + r)"

declare unat_u8_u32 [simp]

lemma of_nat_eq_0_iff_u32: "n < 2 ^ 32 \<Longrightarrow> of_nat n = (0 :: u32) \<longleftrightarrow> n = 0"
  by (auto simp: word_of_nat_eq_0_iff dest: dvd_imp_le)

lemma unat_clust_to_sect:
  assumes "unat (c - 2) * csize v + unat (data_lba v) + csize v < 2 ^ 32"
  shows "unat (fat_clust_to_sect v c) = unat (c - 2) * csize v + unat (data_lba v)"
  using assms by (simp add: fat_clust_to_sect_def unat_word_ariths)

lemma unat_sector:
  assumes "unat (c - 2) * csize v + unat (data_lba v) + csize v < 2 ^ 32" "j \<le> csize v"
  shows "unat (fat_clust_to_sect v c + of_nat j) = unat (c - 2) * csize v + unat (data_lba v) + j"
proof -
  have "unat (of_nat j :: u32) = j" using assms by (simp add: unat_of_nat)
  then show ?thesis using assms by (simp add: unat_word_ariths unat_clust_to_sect)
qed

lemma last_sector_of_cluster:
  assumes "unat (c - 2) * csize v + unat (data_lba v) + csize v < 2 ^ 32" "j < csize v"
  shows "fat_clust_to_sect v c + of_nat j + 1 \<ge> fat_clust_to_sect v c + ucast (cluster_size v) \<longleftrightarrow> Suc j = csize v"
proof -
  have "fat_clust_to_sect v c + of_nat j + 1 = fat_clust_to_sect v c + of_nat (Suc j)" by simp
  moreover have "ucast (cluster_size v) = (of_nat (csize v) :: u32)" by simp
  ultimately show ?thesis
    using unat_sector [OF assms(1), of "Suc j"] unat_sector [OF assms(1), of "csize v"] assms(2)
    by (simp only: word_le_nat_alt) auto
qed

lemma file_byte_in:
  assumes "j < csize v" "r < 512"
  shows "file_byte content v cs ((k * csize v + j) * 512 + r) = content (fat_clust_to_sect v (cs ! k) + of_nat j) ! r"
proof -
  have "(a * 512 + r) div 512 = a" "(a * 512 + r) mod 512 = r" for a using assms(2) by simp_all
  moreover have "(k * csize v + j) div csize v = k" "(k * csize v + j) mod csize v = j" using assms(1) by simp_all
  ultimately show ?thesis by (simp only: file_byte_def)
qed

lemma position_unique:
  fixes r r' :: nat
  assumes "(k * c + j) * 512 + r < n * c * 512" "j < c"
  shows "k < n"
proof (rule ccontr)
  assume "\<not> k < n"
  then have "n * c \<le> k * c" by (intro mult_le_mono1) simp
  then have "n * c \<le> k * c + j" by (rule trans_le_add1)
  then have "n * c * 512 \<le> (k * c + j) * 512" by (rule mult_le_mono1)
  with assms show False by linarith
qed

context block_device
begin

lemma resolve_achieves:
  assumes ok: "cache_ok live content lbas v s" and stored: "stored_file content lbas v cs size'"
    and f: "file_in v cs f k j 512" and g: "(k * csize v + j) * 512 + 512 < size'"
  shows "achieves (fat_file_addr_resolve ops f) (\<lambda>(_, f') t. cache_ok live content lbas v t
    \<and> (\<exists>k' j'. file_in v cs f' k' j' 0 \<and> (k' * csize v + j') * 512 = (k * csize v + j) * 512 + 512)
    \<and> file_size f' = file_size f \<and> file_start f' = file_start f \<and> file_vol f' = file_vol f) s"
proof -
  have k: "k < length cs" and j: "j < csize v" and rw: "file_rw f = 512" and cl: "file_cluster f = cs ! k"
    and sect: "file_sector f = fat_clust_to_sect v (cs ! k) + of_nat j"
    and goff: "glob_offset f = of_nat ((k * csize v + j) * 512 + 512)"
    using f by (auto simp: file_in_def)
  have bound: "unat (cs ! k - 2) * csize v + unat (data_lba v) + csize v < 2 ^ 32"
    using stored k by (auto simp: stored_file_def)
  have ssize: "sector_size v = 512" using stored by (simp add: stored_file_def)
  note last = last_sector_of_cluster [OF bound j]
  note fields = cache_ok_fields [OF ok]
  show ?thesis
  proof (cases "Suc j = csize v")
    case False
    then have "file_in v cs (f\<lparr>file_rw := 0, file_sector := file_sector f + 1\<rparr>) k (Suc j) 0"
      using k j cl goff by (simp add: file_in_def sect algebra_simps)
    then show ?thesis
      using False ok rw cl last
      by (simp add: fat_file_addr_resolve_def achieves_simps fields ssize sect Let_def)
        (intro exI [of _ k] exI [of _ "Suc j"], simp add: algebra_simps)
  next
    case True
    have g': "(k * csize v + j) * 512 + 512 = Suc k * csize v * 512" using True [symmetric] by (simp add: algebra_simps)
    have "size' \<le> length cs * csize v * 512" using stored by (simp add: stored_file_def)
    then have "Suc k * csize v * 512 < length cs * csize v * 512" using g g' by simp
    then have k': "Suc k < length cs" by (metis mult_less_cancel2)
    then have tab: "table_sector v (cs ! k) \<in> lbas" "table_entry content v (cs ! k) = cs ! Suc k" "\<not> is_eoc (cs ! Suc k)"
      using stored by (auto simp: stored_file_def)
    have "file_in v cs (f\<lparr>file_rw := 0, file_cluster := cs ! Suc k, file_sector := fat_clust_to_sect v (cs ! Suc k)\<rparr>) (Suc k) 0 0"
      using k' j goff [unfolded g'] by (simp add: file_in_def del: of_nat_mult of_nat_add of_nat_Suc mult_Suc)
    then show ?thesis
      using True rw cl last tab g'
      by (simp add: fat_file_addr_resolve_def achieves_simps fields ssize sect Let_def)
        (rule achieves_mono [OF fat_table_get_achieves [OF ok tab(1)]],
          simp add: achieves_simps fields, intro exI [of _ "Suc k"] exI [of _ 0], simp)
  qed
qed

text \<open>The read loop's invariant: the buffer holds the sector of the position.\<close>

definition reading :: "volume \<Rightarrow> u32 list \<Rightarrow> nat \<Rightarrow> nat \<Rightarrow> nat \<Rightarrow> fat_file \<Rightarrow> fat_file \<times> u32 \<times> u8 list \<Rightarrow> 'd mounted \<Rightarrow> bool" where
  "reading v cs size' g count f0 = (\<lambda>(f, left, read) t. cache_ok live content lbas v t
     \<and> vol_buffer (vol t) = content (file_sector f) \<and> length read \<le> count \<and> left = of_nat (count - length read)
     \<and> g + length read < size' \<and> file_at v cs f (g + length read)
     \<and> read = map (file_byte content v cs) [g..<g + length read]
     \<and> file_size f = file_size f0 \<and> file_start f = file_start f0 \<and> file_vol f = file_vol f0)"

text \<open>Where the loop ends: all that was asked for has been read, or all there is.\<close>

definition read_done :: "volume \<Rightarrow> u32 list \<Rightarrow> nat \<Rightarrow> nat \<Rightarrow> nat \<Rightarrow> fat_file \<Rightarrow> fstatus \<times> fat_file \<times> u8 list \<Rightarrow> 'd mounted \<Rightarrow> bool" where
  "read_done v cs size' g count f0 = (\<lambda>(st, f, read) t. st = FSTATUS_OK \<and> cache_ok live content lbas v t
     \<and> read = map (file_byte content v cs) [g..<min (g + count) size'] \<and> file_at v cs f (g + length read)
     \<and> file_size f = file_size f0 \<and> file_start f = file_start f0 \<and> file_vol f = file_vol f0)"

lemma file_sector_in:
  assumes "stored_file content lbas v cs size'" "file_in v cs f k j r"
  shows "file_sector f \<in> lbas"
  using assms by (auto simp: stored_file_def file_in_def)

text \<open>Reading one byte from a position in a sector.\<close>

lemma read_byte:
  assumes stored: "stored_file content lbas v cs size'" and f: "file_in v cs f k j r" and r: "r < 512"
    and len: "length read < count" "count < 2 ^ 32" and g: "g + length read = (k * csize v + j) * 512 + r" "g + length read < size'"
    and read: "read = map (file_byte content v cs) [g..<g + length read]"
    and ok: "cache_ok live content lbas v t" and buf: "vol_buffer (vol t) = content (file_sector f)"
    and fields: "file_size f = of_nat size'" "file_size f = file_size f0" "file_start f = file_start f0" "file_vol f = file_vol f0"
  shows "achieves (io_bind (buffer_get (unat (file_rw f))) (\<lambda>c.
         let f' = f\<lparr>file_rw := file_rw f + 1, glob_offset := glob_offset f + 1\<rparr>; read' = read @ [c]
         in if glob_offset f' \<ge> of_nat size' then leave (FSTATUS_OK, f', read')
            else again (f', of_nat (count - length read) - 1, read')))
    (\<lambda>v' t'. case v' of
        Inl c \<Rightarrow> reading v cs size' g count f0 c t' \<and> count - length (snd (snd c)) < count - length read
      | Inr x \<Rightarrow> read_done v cs size' g count f0 x t') t"
proof -
  have rw: "unat (file_rw f) = r" using f r by (simp add: file_in_def unat_of_nat)
  have byte: "content (file_sector f) ! r = file_byte content v cs (g + length read)"
    using f r unfolding g(1) file_in_def by (auto simp: file_byte_in simp del: distrib_right_numeral)
  have blen: "r < length (content (file_sector f))"
    using content_length [OF file_sector_in [OF stored f]] r by simp
  let ?f = "f\<lparr>file_rw := file_rw f + 1, glob_offset := glob_offset f + 1\<rparr>"
  let ?read = "read @ [content (file_sector f) ! r]"
  have in': "file_in v cs ?f k j (Suc r)" using f r by (simp add: file_in_def algebra_simps)
  then have at': "file_at v cs ?f (g + length ?read)"
    unfolding file_at_def using g(1) by (intro exI [of _ k] exI [of _ j] exI [of _ "Suc r"]) simp
  have read': "?read = map (file_byte content v cs) [g..<g + length ?read]"
    by (subst (1) read) (simp add: byte)
  have "size' < 2 ^ 32" using stored by (simp add: stored_file_def)
  then have "glob_offset f = of_nat (g + length read)" "g + length ?read < 2 ^ 32 \<or> g + length ?read = size'"
    using f g by (auto simp: file_in_def)
  then have goff: "glob_offset f + 1 \<ge> of_nat size' \<longleftrightarrow> size' \<le> g + length ?read"
  proof -
    have "glob_offset f + 1 = of_nat (g + length ?read)" using \<open>glob_offset f = _\<close> by simp
    moreover have "unat (of_nat (g + length ?read) :: u32) = g + length ?read" "unat (of_nat size' :: u32) = size'"
      using g(2) \<open>size' < 2 ^ 32\<close> by (simp_all add: unat_of_nat del: of_nat_add of_nat_Suc)
    ultimately show ?thesis by (simp only: word_le_nat_alt)
  qed
  have left: "of_nat (count - length read) - 1 = (of_nat (count - length ?read) :: u32)"
    using len(1) by (simp add: of_nat_diff)
  have sect: "file_sector ?f = file_sector f" by simp
  show ?thesis
  proof (cases "size' \<le> g + length ?read")
    case True
    then have "min (g + count) size' = g + length ?read" using g(2) len(1) by simp
    then show ?thesis
      using True goff at' read' ok fields blen
      by (simp add: achieves_simps rw buf Let_def read_done_def del: upt_Suc)
  next
    case False
    have "reading v cs size' g count f0 (?f, of_nat (count - length ?read), ?read) t"
      using False at' read' ok fields buf len(1) by (simp add: reading_def)
    then show ?thesis
      using False goff blen len(1)
      by (simp add: achieves_simps rw buf Let_def diff_diff_eq add.commute [of 1] diff_less_mono2)
  qed
qed

lemma file_at_cases:
  assumes "file_at v cs f g"
  obtains k j r where "file_in v cs f k j r" "g = (k * csize v + j) * 512 + r" "r < 512"
  | k j where "file_in v cs f k j 512" "g = (k * csize v + j) * 512 + 512"
proof -
  obtain k j r where kjr: "file_in v cs f k j r" "g = (k * csize v + j) * 512 + r"
    using assms by (auto simp: file_at_def)
  then have "r \<le> 512" by (simp add: file_in_def)
  then show thesis using that kjr by (cases "r = 512") auto
qed

lemma refill:
  assumes "stored_file content lbas v cs size'" "cache_ok live content lbas v t" "file_in v cs f k j r"
    and "\<And>t'. cache_ok live content lbas v t' \<Longrightarrow> vol_buffer (vol t') = content (file_sector f) \<Longrightarrow> Q 1 t'"
  shows "achieves (fat_read ops (file_sector f)) Q t"
  by (rule achieves_mono [OF fat_read_coherent [OF assms(2) file_sector_in [OF assms(1,3)]]]) (use assms(4) in simp)

lemma file_read_step_achieves:
  assumes stored: "stored_file content lbas v cs size'" and count: "count < 2 ^ 32"
    and f0: "file_size f0 = of_nat size'" and inv: "reading v cs size' g count f0 (f, left, read) t"
  shows "achieves (file_read_step ops 512 (of_nat size') (f, left, read)) (\<lambda>v' t'. case v' of
        Inl c' \<Rightarrow> reading v cs size' g count f0 c' t' \<and> count - length (snd (snd c')) < count - length read
      | Inr x \<Rightarrow> read_done v cs size' g count f0 x t') t"
proof -
  have ok: "cache_ok live content lbas v t" and buf: "vol_buffer (vol t) = content (file_sector f)"
    and len: "length read \<le> count" and left: "left = of_nat (count - length read)" and g: "g + length read < size'"
    and at: "file_at v cs f (g + length read)"
    and read: "read = map (file_byte content v cs) [g..<g + length read]"
    and same: "file_size f = file_size f0" "file_start f = file_start f0" "file_vol f = file_vol f0"
    using inv by (simp_all add: reading_def)
  show ?thesis
  proof (cases "length read = count")
    case True
    then have "min (g + count) size' = g + length read" using g by simp
    then show ?thesis
      using True left ok read at same by (simp add: file_read_step_def achieves_simps read_done_def)
  next
    case False
    then have lt: "length read < count" using len by simp
    then have left0: "left \<noteq> 0"
      unfolding left using of_nat_eq_0_iff_u32 [of "count - length read"] count by simp
    from at show ?thesis
    proof (cases rule: file_at_cases)
      case (1 k j r)
      have rw: "\<not> file_rw f \<ge> ucast (512 :: u16)" using 1 by (simp add: file_in_def word_le_nat_alt unat_of_nat)
      show ?thesis
        using read_byte [OF stored 1(1,3) lt count 1(2) g read ok buf, of f0] same f0 left0 rw
        by (simp add: file_read_step_def left achieves_simps)
    next
      case (2 k j)
      have rw: "file_rw f \<ge> ucast (512 :: u16)" using 2 by (simp add: file_in_def)
      have "achieves (fat_file_addr_resolve ops f) (\<lambda>(_, f') t. cache_ok live content lbas v t
          \<and> (\<exists>k' j'. file_in v cs f' k' j' 0 \<and> (k' * csize v + j') * 512 = (k * csize v + j) * 512 + 512)
          \<and> file_size f' = file_size f \<and> file_start f' = file_start f \<and> file_vol f' = file_vol f) t"
        by (rule resolve_achieves [OF ok stored 2(1)]) (use 2(2) g in simp)
      then have refilled: "achieves (io_bind (fat_file_addr_resolve ops f) (\<lambda>(_, f).
            io_bind (fat_read ops (file_sector f)) (\<lambda>st. io_return (st, f))))
          (\<lambda>(st, f') t'. st = 1 \<and> cache_ok live content lbas v t' \<and> vol_buffer (vol t') = content (file_sector f')
            \<and> (\<exists>k' j'. file_in v cs f' k' j' 0 \<and> (k' * csize v + j') * 512 = (k * csize v + j) * 512 + 512)
            \<and> file_size f' = file_size f \<and> file_start f' = file_start f \<and> file_vol f' = file_vol f) t"
      proof (rule achieves_bindI, clarify)
        fix f' t' k' j'
        assume "cache_ok live content lbas v t'" and f': "file_in v cs f' k' j' 0"
          and "(k' * csize v + j') * 512 = (k * csize v + j) * 512 + 512"
            "file_size f' = file_size f" "file_start f' = file_start f" "file_vol f' = file_vol f"
        then show "achieves (io_bind (fat_read ops (file_sector f')) (\<lambda>st. io_return (st, f')))
          (\<lambda>(st, f') t'. st = 1 \<and> cache_ok live content lbas v t' \<and> vol_buffer (vol t') = content (file_sector f')
            \<and> (\<exists>k' j'. file_in v cs f' k' j' 0 \<and> (k' * csize v + j') * 512 = (k * csize v + j) * 512 + 512)
            \<and> file_size f' = file_size f \<and> file_start f' = file_start f \<and> file_vol f' = file_vol f) t'"
          unfolding achieves_bind by (intro refill [OF stored _ f']) (auto simp: achieves_return)
      qed
      show ?thesis
        unfolding file_read_step_def prod.case if_not_P [OF left0 [unfolded left]] if_P [OF rw] left
      proof (rule achieves_bindI [OF refilled], clarify)
        fix f' t' k' j'
        assume f': "cache_ok live content lbas v t'" "vol_buffer (vol t') = content (file_sector f')" "file_in v cs f' k' j' 0"
          and pos: "(k' * csize v + j') * 512 = (k * csize v + j) * 512 + 512"
          and same': "file_size f' = file_size f" "file_start f' = file_start f" "file_vol f' = file_vol f"
        have g': "g + length read = (k' * csize v + j') * 512 + 0" using pos 2(2) by simp
        show "achieves (if (1 :: u8) = 0 then leave (FSTATUS_ERROR, f', read) else
            io_bind (buffer_get (unat (file_rw f'))) (\<lambda>c.
             let f'' = f'\<lparr>file_rw := file_rw f' + 1, glob_offset := glob_offset f' + 1\<rparr>; read' = read @ [c]
             in if glob_offset f'' \<ge> of_nat size' then leave (FSTATUS_OK, f'', read')
                else again (f'', of_nat (count - length read) - 1, read')))
          (\<lambda>v' t'. case v' of
             Inl c' \<Rightarrow> reading v cs size' g count f0 c' t' \<and> count - length (snd (snd c')) < count - length read
           | Inr x \<Rightarrow> read_done v cs size' g count f0 x t') t'"
          using read_byte [OF stored f'(3) _ lt count g' g read f'(1,2), of f0] same same' f0 by simp
      qed
    qed
  qed
qed

lemma fat_file_read_achieves:
  assumes ok: "cache_ok live content lbas v s" and stored: "stored_file content lbas v cs size'"
    and at: "file_at v cs f g" and g: "g < size'" and f: "file_size f = of_nat size'"
  shows "achieves (fat_file_read ops f count) (read_done v cs size' g (unat count) f) s"
proof -
  obtain k j r where kjr: "file_in v cs f k j r" using at by (auto simp: file_at_def)
  have ssize: "sector_size (vol s) = 512"
    using stored by (simp add: cache_ok_fields [OF ok] stored_file_def)
  have "achieves (repeat_io (file_read_step ops 512 (of_nat size')) (f, count, []))
      (read_done v cs size' g (unat count) f) t"
    if "cache_ok live content lbas v t" "vol_buffer (vol t) = content (file_sector f)" for t
  proof (rule achieves_repeat [where I = "reading v cs size' g (unat count) f"
        and f = "\<lambda>(f, left, read) t. unat count - length read"])
    show "reading v cs size' g (unat count) f (f, count, []) t"
      using that g at by (simp add: reading_def)
  next
    fix c t assume inv: "reading v cs size' g (unat count) f c t"
    obtain f1 left read where c: "c = (f1, left, read)" by (cases c)
    show "achieves (file_read_step ops 512 (of_nat size') c) (\<lambda>v' t'. case v' of
        Inl c' \<Rightarrow> reading v cs size' g (unat count) f c' t'
          \<and> (case c' of (f, left, read) \<Rightarrow> \<lambda>t. unat count - length read) t'
            < (case c of (f, left, read) \<Rightarrow> \<lambda>t. unat count - length read) t
      | Inr x \<Rightarrow> read_done v cs size' g (unat count) f x t') t"
      using file_read_step_achieves [OF stored _ f inv [unfolded c]] unsigned_less [of count, where ?'a = nat]
      by (auto simp: c elim!: achieves_mono split: sum.splits)
  qed
  then show ?thesis
    unfolding fat_file_read_def
    by (simp add: achieves_simps) (rule refill [OF stored ok kjr], simp add: ssize f)
qed

section \<open>Seeking\<close>

text \<open>The jump follows the chain one cluster at a time from the first.\<close>

lemma file_jump_loop:
  assumes ok: "cache_ok live content lbas v s" and stored: "stored_file content lbas v cs size'"
    and n: "n < length cs" and f: "file_cluster f = cs ! 0" and small: "n < 2 ^ 32"
  shows "achieves (repeat_io (file_jump_step ops) (f, of_nat n))
    (\<lambda>(st, f', reached) t. st = FSTATUS_OK \<and> reached \<and> cache_ok live content lbas v t
      \<and> f' = f\<lparr>file_cluster := cs ! n\<rparr>) s"
proof -
  let ?I = "\<lambda>(f', left :: u32) t. cache_ok live content lbas v t
      \<and> (\<exists>i \<le> n. left = of_nat (n - i) \<and> f' = f\<lparr>file_cluster := cs ! i\<rparr>)"
  let ?m = "\<lambda>(f' :: fat_file, left :: u32) (t :: 'd mounted). unat left"
  let ?Q = "\<lambda>(st, f', reached) t. st = FSTATUS_OK \<and> reached \<and> cache_ok live content lbas v t
      \<and> f' = f\<lparr>file_cluster := cs ! n\<rparr>"
  have step: "achieves (file_jump_step ops (f\<lparr>file_cluster := cs ! i\<rparr>, of_nat (n - i)))
      (\<lambda>v' t'. case v' of Inl c' \<Rightarrow> ?I c' t' \<and> ?m c' t' < unat (of_nat (n - i) :: u32) | Inr x \<Rightarrow> ?Q x t') t"
    if i: "i \<le> n" and t: "cache_ok live content lbas v t" for i t
  proof (cases "i = n")
    case True
    then show ?thesis by (simp add: file_jump_step_def achieves_simps t)
  next
    case False
    then have lt: "i < n" using i by simp
    have "n - i = Suc (n - Suc i)" using lt by simp
    then have suc: "of_nat (n - i) = (of_nat (n - Suc i) + 1 :: u32)" by (simp del: of_nat_diff)
    have "unat (of_nat (n - i) :: u32) = n - i" "unat (of_nat (n - Suc i) :: u32) = n - Suc i"
      using small by (simp_all add: unat_of_nat del: of_nat_diff)
    then have less: "unat (of_nat (n - Suc i) :: u32) < unat (of_nat (n - i) :: u32)" using lt by linarith
    have left: "of_nat (n - i) \<noteq> (0 :: u32)" "of_nat (n - i) - 1 = (of_nat (n - Suc i) :: u32)"
      using of_nat_eq_0_iff_u32 [of "n - i"] small lt suc by (simp_all del: of_nat_diff)
    have "i < length cs - 1" using lt n by simp
    then have tab: "table_sector v (cs ! i) \<in> lbas" "table_entry content v (cs ! i) = cs ! Suc i" "\<not> is_eoc (cs ! Suc i)"
      using stored by (auto simp: stored_file_def)
    have next': "\<exists>i' \<le> n. (of_nat (n - Suc i) :: u32) = of_nat (n - i')
        \<and> f\<lparr>file_cluster := cs ! Suc i\<rparr> = f\<lparr>file_cluster := cs ! i'\<rparr>"
      using lt by (intro exI [of _ "Suc i"]) simp
    show ?thesis
      unfolding file_jump_step_def prod.case if_not_P [OF left(1)]
      by (rule achieves_bindI [OF fat_table_get_achieves [OF t]])
        (use tab left less next' in \<open>simp_all add: achieves_simps del: of_nat_diff\<close>)
  qed
  show ?thesis
  proof (rule achieves_repeat [where I = ?I and f = ?m])
    show "?I (f, of_nat n) s" using ok f by (auto intro!: exI [of _ 0])
  next
    fix c t assume "?I c t"
    then obtain i where c: "c = (f\<lparr>file_cluster := cs ! i\<rparr>, of_nat (n - i))" and i: "i \<le> n" "cache_ok live content lbas v t"
      by (cases c) auto
    show "achieves (file_jump_step ops c)
        (\<lambda>v' t'. case v' of Inl c' \<Rightarrow> ?I c' t' \<and> ?m c' t' < ?m c t | Inr x \<Rightarrow> ?Q x t') t"
      unfolding c prod.case by (rule step [OF i])
  qed
qed

lemma sect_to_clust_inverse:
  assumes "unat (c - 2) * csize v + unat (data_lba v) + csize v < 2 ^ 32" "cluster_size v \<noteq> 0"
  shows "fat_sect_to_clust v (fat_clust_to_sect v c) = c"
proof -
  have "unat ((c - 2) * ucast (cluster_size v)) = unat (c - 2) * csize v"
    using assms(1) by (simp add: unat_word_ariths)
  moreover have "0 < csize v" using assms(2) by (simp add: unat_gt_0)
  ultimately have "unat ((c - 2) * ucast (cluster_size v) div ucast (cluster_size v)) = unat (c - 2)"
    by (simp add: unat_div)
  then have "(c - 2) * ucast (cluster_size v) div ucast (cluster_size v) = c - 2" by (simp only: word_unat_eq_iff)
  then show ?thesis by (simp add: fat_sect_to_clust_def fat_clust_to_sect_def)
qed

lemma fat_file_jump_achieves:
  assumes ok: "cache_ok live content lbas v s" and stored: "stored_file content lbas v cs size'"
    and start: "file_start f = fat_clust_to_sect v (cs ! 0)" and off: "unat off < size'"
  shows "achieves (fat_file_jump ops f off) (\<lambda>(st, f') t. st = FSTATUS_OK \<and> cache_ok live content lbas v t
      \<and> file_at v cs f' (unat off) \<and> file_size f' = file_size f \<and> file_start f' = file_start f \<and> file_vol f' = file_vol f) s"
proof -
  let ?c = "csize v"
  let ?n = "unat off div 512 div ?c" and ?j = "unat off div 512 mod ?c" and ?r = "unat off mod 512"
  note fields = cache_ok_fields [OF ok]
  have v: "sector_size v = 512" "cluster_size v \<noteq> 0" using stored by (simp_all add: stored_file_def)
  then have c0: "0 < ?c" by (simp add: unat_gt_0)
  have pos: "unat off = (?n * ?c + ?j) * 512 + ?r"
    using div_mult_mod_eq [of "unat off div 512" ?c] div_mult_mod_eq [of "unat off" 512] by simp
  have "size' \<le> length cs * ?c * 512" using stored by (simp add: stored_file_def)
  then have n: "?n < length cs"
    using position_unique [of ?n ?c ?j ?r "length cs"] pos off c0 by simp
  then have "cs ! 0 \<in> set cs" by (intro nth_mem) linarith
  then have bound: "unat (cs ! 0 - 2) * ?c + unat (data_lba v) + ?c < 2 ^ 32"
    using stored by (simp add: stored_file_def)
  have cl: "fat_sect_to_clust v (file_start f) = cs ! 0"
    unfolding start by (rule sect_to_clust_inverse [OF bound v(2)])
  have small: "?n < 2 ^ 32"
    by (rule le_less_trans [OF le_trans [OF div_le_dividend div_le_dividend]])
      (use unsigned_less [of off, where ?'a = nat] in simp)
  have "?j < 2 ^ 32"
    by (rule le_less_trans [OF le_trans [OF mod_less_eq_dividend div_le_dividend]])
      (use unsigned_less [of off, where ?'a = nat] in simp)
  then have mods: "?n mod 2 ^ 32 = ?n" "?j mod 2 ^ 32 = ?j" using small by (simp_all only: mod_less)
  have w: "off div 512 div ucast (cluster_size v) = of_nat ?n" "off div 512 mod ucast (cluster_size v) = of_nat ?j"
    "off mod 512 = of_nat ?r"
    using mods by (simp_all add: word_unat_eq_iff unat_div unat_mod unat_of_nat)
  have at: "file_at v cs (f\<lparr>file_cluster := cs ! ?n, file_sector := fat_clust_to_sect v (cs ! ?n) + of_nat ?j,
      file_rw := of_nat ?r, glob_offset := off\<rparr>) (unat off)"
    unfolding file_at_def using n c0 pos
    by (intro exI [of _ ?n] exI [of _ ?j] exI [of _ ?r]) (simp add: file_in_def flip: pos)
  have loop: "achieves (repeat_io (file_jump_step ops) (f\<lparr>file_cluster := cs ! 0\<rparr>, of_nat ?n))
    (\<lambda>(st, f', reached) t. st = FSTATUS_OK \<and> reached \<and> cache_ok live content lbas v t
      \<and> f' = f\<lparr>file_cluster := cs ! 0\<rparr>\<lparr>file_cluster := cs ! ?n\<rparr>) s"
    by (rule file_jump_loop [OF ok stored n _ small]) simp
  show ?thesis
    unfolding fat_file_jump_def achieves_bind achieves_gets Let_def fields v(1) cl
    using loop at [folded w]
    by (simp add: w(1) achieves_simps) (erule achieves_mono, auto simp: achieves_simps)
qed

lemma seek_read_achieves:
  assumes "cache_ok live content lbas v s" "stored_file content lbas v cs size'"
    "file_start f = fat_clust_to_sect v (cs ! 0)" "file_size f = of_nat size'" "unat off < size'"
  shows "achieves (io_bind (fat_file_jump ops f off) (\<lambda>(_, f'). fat_file_read ops f' count))
    (\<lambda>(st, f', bytes) t. st = FSTATUS_OK
      \<and> bytes = take (unat count) (drop (unat off) (file_bytes content v cs size'))
      \<and> cache_ok live content lbas v t \<and> file_at v cs f' (unat off + length bytes)) s"
proof -
  have slice: "map (file_byte content v cs) [unat off..<min (unat off + unat count) size']
      = take (unat count) (drop (unat off) (file_bytes content v cs size'))"
    by (simp add: file_bytes_def take_map drop_map take_upt min_def)
  have "achieves (fat_file_read ops f' count) (\<lambda>(st, f', bytes) t. st = FSTATUS_OK
      \<and> bytes = take (unat count) (drop (unat off) (file_bytes content v cs size'))
      \<and> cache_ok live content lbas v t \<and> file_at v cs f' (unat off + length bytes)) t"
    if "cache_ok live content lbas v t" "file_at v cs f' (unat off)" "file_size f' = file_size f" for f' t
    by (rule achieves_mono [OF fat_file_read_achieves [OF that(1) assms(2) that(2) assms(5)]])
      (use that assms(4) slice in \<open>auto simp: read_done_def\<close>)
  then show ?thesis
    by (rule_tac achieves_bindI [OF fat_file_jump_achieves [OF assms(1-3,5)]]) auto
qed

end

end
