(* ===== verification/Fat_Api.thy ===== *)
theory Fat_Api
  imports Fat_Dir
begin

text \<open>
  The list of volumes and the functions that take a volume letter or a path: mounting and ejecting a
  disk, looking volumes up, opening directories and files (\<^verbatim>\<open>disk/fat32.c\<close>). A volume lives at the
  address \<^verbatim>\<open>mm_alloc\<close> returned for it; \<open>f_vol\<close> gives the object at an address. Freeing a volume does
  not change its bytes, so a read after the free still sees them.
\<close>

record 'd fat =
  volume_base :: u32
  volume_bitmask :: u32
  mount_buffer :: "u8 list"
  f_vol :: "u32 \<Rightarrow> volume"
  f_mm :: mm_state
  f_drive :: 'd

abbreviation SRAM :: nat where
  "SRAM \<equiv> 0"

text \<open>\<^verbatim>\<open>sizeof(struct volume)\<close>: 46 bytes of fields and padding, the buffer, its state, the name buffer.\<close>

definition volume_bytes :: u32 where
  "volume_bytes = 828"

definition at_volume :: "u32 \<Rightarrow> ('d mounted, 'a) io \<Rightarrow> ('d fat, 'a) io" where
  "at_volume p m s =
     (if p = 0 then Inl NullDeref
      else rbind (m \<lparr>vol = f_vol s p, drive = f_drive s\<rparr>) (\<lambda>(x, t).
        Inr (x, s\<lparr>f_vol := (f_vol s)(p := vol t), f_drive := drive t\<rparr>)))"

definition volume_at :: "u32 \<Rightarrow> ('d fat, volume) io" where
  "volume_at p s = (if p = 0 then Inl NullDeref else Inr (f_vol s p, s))"

definition set_volume :: "u32 \<Rightarrow> (volume \<Rightarrow> volume) \<Rightarrow> ('d fat, unit) io" where
  "set_volume p f s = (if p = 0 then Inl NullDeref else Inr ((), s\<lparr>f_vol := (f_vol s)(p := f (f_vol s p))\<rparr>))"

section \<open>The list of volumes\<close>

text \<open>The scans follow the \<^verbatim>\<open>next\<close> pointers; the first two return whether or where the search stopped.\<close>

definition volume_listed :: "u32 \<Rightarrow> u32 \<Rightarrow> ('d fat, bool) io" where
  "volume_listed vp = repeat_io (\<lambda>tmp.
     if tmp = 0 then leave False
     else if tmp = vp then leave True
     else io_bind (volume_at tmp) (\<lambda>v. again (vol_next v)))"

definition last_volume :: "u32 \<Rightarrow> ('d fat, u32) io" where
  "last_volume = repeat_io (\<lambda>it.
     io_bind (volume_at it) (\<lambda>v. if vol_next v \<noteq> 0 then again (vol_next v) else leave it))"

fun assign_letter :: "nat list \<Rightarrow> u32 \<Rightarrow> ('d fat, unit) io" where
  "assign_letter [] vp = io_return ()"
| "assign_letter (i # is) vp =
     io_bind (io_gets volume_bitmask) (\<lambda>m.
     if m AND push_bit i 1 = 0
     then io_then (io_update (\<lambda>s. s\<lparr>volume_bitmask := m OR push_bit i 1\<rparr>))
            (set_volume vp (\<lambda>v. v\<lparr>letter := 0x43 + of_nat i\<rparr>))
     else assign_letter is vp)"

definition fat_volume_add :: "u32 \<Rightarrow> ('d fat, u8) io" where
  "fat_volume_add vp =
     io_bind (io_gets volume_base) (\<lambda>base.
     io_bind (volume_listed vp base) (\<lambda>listed.
     if listed then io_return 0
     else
       io_then (if base = 0 then io_update (\<lambda>s. s\<lparr>volume_base := vp\<rparr>)
                else io_bind (last_volume base) (\<lambda>it. set_volume it (\<lambda>v. v\<lparr>vol_next := vp\<rparr>)))
       (io_then (set_volume vp (\<lambda>v. v\<lparr>vol_next := 0\<rparr>))
       (io_then (assign_letter [0..<32] vp) (io_return 1)))))"

definition clear_letter :: "u32 \<Rightarrow> ('d fat, u8) io" where
  "clear_letter cur =
     io_bind (volume_at cur) (\<lambda>v.
     io_then (io_update (\<lambda>s. s\<lparr>volume_bitmask := volume_bitmask s AND NOT (push_bit (unat (letter v - 0x43)) 1)\<rparr>))
       (io_return 1))"

text \<open>The predecessor of the volume with the letter and the volume, 0 when there is none.\<close>

definition find_letter :: "u8 \<Rightarrow> u32 \<times> u32 \<Rightarrow> ('d fat, u32 \<times> u32) io" where
  "find_letter l = repeat_io (\<lambda>(prev, cur).
     if cur = 0 then leave (prev, cur)
     else io_bind (volume_at cur) (\<lambda>v.
       if letter v = l then leave (prev, cur) else again (cur, vol_next v)))"

definition fat_volume_remove :: "u8 \<Rightarrow> ('d fat, u8) io" where
  "fat_volume_remove l =
     io_bind (io_gets volume_base) (\<lambda>base.
     if base = 0 then io_return 0
     else
       io_bind (volume_at base) (\<lambda>v.
       if letter v = l then
         io_then (io_update (\<lambda>s. s\<lparr>volume_base := vol_next v\<rparr>)) (clear_letter base)
       else
         io_bind (find_letter l (base, vol_next v)) (\<lambda>(prev, cur).
         if cur = 0 then io_return 0
         else io_bind (volume_at cur) (\<lambda>c.
           io_then (set_volume prev (\<lambda>p. p\<lparr>vol_next := vol_next c\<rparr>)) (clear_letter cur)))))"

definition volume_get_first :: "('d fat, u32) io" where
  "volume_get_first = io_gets volume_base"

definition volume_get :: "u8 \<Rightarrow> ('d fat, u32) io" where
  "volume_get l =
     io_bind (io_gets volume_base) (repeat_io (\<lambda>p.
       if p = 0 then leave 0
       else io_bind (volume_at p) (\<lambda>v. if letter v = l then leave p else again (vol_next v))))"

section \<open>Mounting\<close>

definition disk_io :: "('d, 'a) io \<Rightarrow> ('d fat, 'a) io" where
  "disk_io = io_zoom f_drive f_drive_update"

definition mount_load16 :: "nat \<Rightarrow> ('d fat, u16) io" where
  "mount_load16 off = io_bind (io_gets mount_buffer) (\<lambda>b. io_res (fat_load16 b off))"

definition mount_load32 :: "nat \<Rightarrow> ('d fat, u32) io" where
  "mount_load32 off = io_bind (io_gets mount_buffer) (\<lambda>b. io_res (fat_load32 b off))"

definition mount_get :: "nat \<Rightarrow> ('d fat, u8) io" where
  "mount_get off = io_bind (io_gets mount_buffer) (\<lambda>b. io_res (array_get b off))"

definition mount_read :: "'d sd_ops \<Rightarrow> disk \<Rightarrow> u32 \<Rightarrow> ('d fat, u8) io" where
  "mount_read ops disk lba =
     io_bind (io_gets mount_buffer) (\<lambda>b.
     io_bind (disk_io (disk_read ops disk b lba 1)) (\<lambda>(st, b').
     io_then (io_update (\<lambda>s. s\<lparr>mount_buffer := b'\<rparr>)) (io_return st)))"

definition read_partition :: "nat \<Rightarrow> ('d fat, partition) io" where
  "read_partition i =
     (let off = MBR_PARTITION + i * MBR_PARTITION_SIZE in
     io_bind (mount_load32 (off + PAR_LBA)) (\<lambda>lba.
     io_bind (mount_load32 (off + PAR_SIZE)) (\<lambda>sz.
     io_bind (mount_get (off + PAR_TYPE)) (\<lambda>ty.
     io_bind (mount_get (off + PAR_STATUS)) (\<lambda>st.
       io_return \<lparr>par_lba = lba, par_size = sz, par_status = st, par_type = ty\<rparr>)))))"

text \<open>The fields of a new volume from the boot sector in the mount buffer of a partition at \<open>lba\<close>.\<close>

definition volume_init :: "disk \<Rightarrow> u32 \<Rightarrow> u32 \<Rightarrow> ('d fat, unit) io" where
  "volume_init disk lba vp =
     io_bind (mount_load16 BPB_SECTOR_SIZE) (\<lambda>ssize.
     io_bind (mount_get BPB_CLUSTER_SIZE) (\<lambda>csize.
     io_bind (mount_load32 BPB_TOT_SECT_32) (\<lambda>total.
     io_bind (mount_load16 BPB_32_FSINFO) (\<lambda>fsinfo.
     io_bind (mount_load16 BPB_RSVD_CNT) (\<lambda>rsvd.
     io_bind (mount_load32 BPB_32_FAT_SIZE) (\<lambda>fsize.
     io_bind (mount_get BPB_NUM_FATS) (\<lambda>num.
     io_bind (mount_load32 BPB_32_ROOT_CLUST) (\<lambda>root.
     set_volume vp (\<lambda>v.
       let v = v\<lparr>sector_size := ssize, cluster_size := csize, total_size := total,
             fsinfo_lba := lba + ucast fsinfo, fat_lba := lba + ucast rsvd,
             data_lba := lba + ucast rsvd + fsize * ucast num\<rparr>
       in v\<lparr>root_lba := fat_clust_to_sect v root, vol_disk := disk, buffer_lba := 0, buffer_dirty := 0\<rparr>)))))))))"

text \<open>The label function writes into the label array of the volume.\<close>

definition store_label :: "'d sd_ops \<Rightarrow> u32 \<Rightarrow> ('d fat, unit) io" where
  "store_label ops vp =
     io_bind (at_volume vp (fat_get_vol_label ops)) (\<lambda>(_, l).
       set_volume vp (\<lambda>v. v\<lparr>label := l @ drop (length l) (label v)\<rparr>))"

definition mount_partition :: "'d sd_ops \<Rightarrow> disk \<Rightarrow> partition \<Rightarrow> unit \<Rightarrow> ('d fat, unit) io" where
  "mount_partition ops disk p _ =
     (if par_lba p = 0 then io_return ()
      else
        io_bind (mount_read ops disk (par_lba p)) (\<lambda>st.
        if st = 0 then io_panic ''Disk error''
        else
          io_bind (io_gets mount_buffer) (\<lambda>b.
          io_bind (io_res (fat_search b)) (\<lambda>fat32.
          if fat32 = 0 then io_return ()
          else
            io_bind (io_zoom f_mm f_mm_update (mm_alloc volume_bytes SRAM)) (\<lambda>vp.
            io_then (volume_init disk (par_lba p) vp)
            (io_then (store_label ops vp)
            (io_bind (fat_volume_add vp) (\<lambda>_. io_return ()))))))))"

definition disk_mount :: "'d sd_ops \<Rightarrow> disk \<Rightarrow> ('d fat, u8) io" where
  "disk_mount ops disk =
     io_bind (disk_io (disk_get_status ops disk)) (\<lambda>present.
     if present = 0 then io_panic ''SD card not connected''
     else
       io_bind (disk_io (disk_initialize ops disk)) (\<lambda>ready.
       if ready = 0 then io_panic ''SD protocol error''
       else
         io_bind (mount_read ops disk 0) (\<lambda>st.
         if st = 0 then io_panic ''Read failed''
         else
           io_bind (mount_load16 MBR_BOOT_SIG) (\<lambda>sig.
           if sig \<noteq> 0xAA55 then io_return 0
           else
             io_bind (for_io (\<lambda>i ps. io_bind (read_partition i) (\<lambda>p. io_return (ps @ [p]))) [0..<4] []) (\<lambda>ps.
             io_then (for_io (mount_partition ops disk) ps ()) (io_return 1))))))"

definition eject_step :: "disk \<Rightarrow> u32 \<Rightarrow> ('d fat, u32 + u8) io" where
  "eject_step disk vp =
     (if vp = 0 then leave 1
      else
        io_bind (volume_at vp) (\<lambda>v.
        if vol_disk v = disk then
          io_bind (fat_volume_remove (letter v)) (\<lambda>removed.
          if removed = 0 then leave 0
          else io_then (io_bind (io_gets f_mm) (\<lambda>mm. io_bind (io_res (mm_free vp mm)) (\<lambda>mm'.
              io_update (\<lambda>s. s\<lparr>f_mm := mm'\<rparr>))))
            (io_bind (volume_at vp) (\<lambda>v. again (vol_next v))))
        else again (vol_next v)))"

definition disk_eject :: "disk \<Rightarrow> ('d fat, u8) io" where
  "disk_eject disk = io_bind volume_get_first (repeat_io (eject_step disk))"

section \<open>Opening\<close>

definition fat_follow_path :: "'d sd_ops \<Rightarrow> u8 list \<Rightarrow> dir \<Rightarrow> ('d fat, fstatus \<times> dir) io" where
  "fat_follow_path ops path dir0 =
     io_bind (io_res (array_get path 0)) (\<lambda>l.
     io_bind (volume_get l) (\<lambda>vp.
     if vp = 0 then io_return (FSTATUS_NO_VOLUME, dir0)
     else at_volume vp (follow_from_root ops path vp dir0)))"

definition fat_dir_open :: "'d sd_ops \<Rightarrow> u8 list \<Rightarrow> dir \<Rightarrow> ('d fat, fstatus \<times> dir) io" where
  "fat_dir_open ops path dir0 = fat_follow_path ops path dir0"

text \<open>
  The backwards scan for the last slash of the path: \<open>Some (p, n)\<close> is its position and the number of
  characters passed, \<open>None\<close> the scan that met a zero byte.
\<close>

fun scan_back :: "u8 list \<Rightarrow> nat \<Rightarrow> u8 \<Rightarrow> (nat \<times> u8) option res" where
  "scan_back path 0 sz =
     rbind (array_get path 0) (\<lambda>c. if c = 0x2F then Inr (Some (0, sz)) else if c = 0 then Inr None else Inl OutOfBounds)"
| "scan_back path (Suc p) sz =
     rbind (array_get path (Suc p)) (\<lambda>c.
       if c = 0x2F then Inr (Some (Suc p, sz)) else if c = 0 then Inr None else scan_back path p (sz + 1))"

definition last_fragment :: "u8 list \<Rightarrow> u16 \<Rightarrow> (nat \<times> u8) option res" where
  "last_fragment path len =
     (if len = 0 then Inl OutOfBounds
      else
        rbind (array_get path (unat len - 1)) (\<lambda>c.
        if c = 0x00 then Inr None
        else if c = 0x2F then (if len = 1 then Inl OutOfBounds else scan_back path (unat len - 2) 0)
        else scan_back path (unat len - 1) 0))"

definition empty_dir :: dir where
  "empty_dir = \<lparr>dir_sector = 0, dir_cluster = 0, dir_rw = 0, dir_start = 0, dir_size = 0, dir_vol = 0\<rparr>"

definition fat_file_open :: "'d sd_ops \<Rightarrow> u8 list \<Rightarrow> u16 \<Rightarrow> fat_file \<Rightarrow> ('d fat, fstatus \<times> fat_file) io" where
  "fat_file_open ops path len file0 =
     io_bind (fat_follow_path ops path empty_dir) (\<lambda>(st, dir).
     if st \<noteq> FSTATUS_OK then io_return (st, file0)
     else
       io_bind (io_res (last_fragment path len)) (\<lambda>frag.
       case frag of None \<Rightarrow> io_return (FSTATUS_PATH_ERR, file0)
       | Some (p, sz) \<Rightarrow>
           io_bind (at_volume (dir_vol dir) (fat_dir_search ops path (p + 1) (ucast sz) dir)) (\<lambda>(ok, d).
           if ok = 0 then io_return (FSTATUS_PATH_ERR, file0)
           else io_return (FSTATUS_OK,
             \<lparr>file_sector = dir_sector d, file_cluster = dir_cluster d, file_rw = 0, file_size = dir_size d,
              file_start = dir_sector d, glob_offset = 0, file_vol = dir_vol d\<rparr>))))"

section \<open>The file system thread\<close>

text \<open>
  The mounting attempts of \<^verbatim>\<open>fat32_thread\<close>: at most ten, a sleep of 50 ms after each that fails. \<open>sleep\<close>
  is the system call, which gives the processor to other threads and so may change the state.
\<close>

fun mount_attempts :: "'d sd_ops \<Rightarrow> (u64 \<Rightarrow> ('d fat, unit) io) \<Rightarrow> nat \<Rightarrow> ('d fat, u8) io" where
  "mount_attempts ops sleep 0 = io_return 0"
| "mount_attempts ops sleep (Suc n) =
     io_bind (disk_mount ops DISK_SD_CARD) (\<lambda>ok.
       if ok \<noteq> 0 then io_return 1 else io_then (sleep 50) (mount_attempts ops sleep n))"

text \<open>One round of its endless loop, from the status of the card to the next.\<close>

definition fat32_round :: "'d sd_ops \<Rightarrow> (u64 \<Rightarrow> ('d fat, unit) io) \<Rightarrow> u8 \<Rightarrow> ('d fat, u8) io" where
  "fat32_round ops sleep sd_status =
     io_bind (disk_io (op_is_connected ops)) (\<lambda>c.
     io_bind (if c \<noteq> 0 \<and> sd_status = 0 then mount_attempts ops sleep 10 else io_return sd_status) (\<lambda>status.
     io_bind (disk_io (op_is_connected ops)) (\<lambda>c.
     io_bind (if c = 0 \<and> status \<noteq> 0 then
                io_bind (disk_eject DISK_SD_CARD) (\<lambda>ok.
                  if ok \<noteq> 0 then io_return 0 else io_panic ''SD eject failed'')
              else io_return status) (\<lambda>status.
     io_then (sleep 500) (io_return status)))))"

definition fat32_thread :: "'d sd_ops \<Rightarrow> ('d fat, unit) io \<Rightarrow> (u64 \<Rightarrow> ('d fat, unit) io) \<Rightarrow> ('d fat, unit) io" where
  "fat32_thread ops sd_init sleep =
     io_then sd_init (repeat_io (\<lambda>st. io_bind (fat32_round ops sleep st) again) 0)"

end
