(* ===== verification/Fat_Claims.thy ===== *)
theory Fat_Claims
  imports Fat_Files Fat_Api "HOL-Library.Sublist"
begin

text \<open>
  The file system's properties: reading files, the termination of its loops on any disk, name comparison,
  byte order, and the allocation of clusters.
\<close>

section \<open>A volume on a small disk\<close>

text \<open>
  A disk for the examples: sector 1 is the allocation table, in which cluster 3 is followed by
  cluster 2 and cluster 4 by cluster 128; clusters are one sector long and start at sector 2. Every
  byte of sector \<open>n\<close> from 2 on is \<open>n\<close>.
\<close>

definition demo_sector :: "u32 \<Rightarrow> u8 list" where
  "demo_sector lba = (if lba = 1 then
       [0xF8, 0xFF, 0xFF, 0x0F, 0xFF, 0xFF, 0xFF, 0x0F, 0xFF, 0xFF, 0xFF, 0x0F, 2, 0, 0, 0, 0x80, 0, 0, 0] @ replicate 492 0
     else replicate 512 (ucast lba))"

definition demo_lbas :: "u32 set" where
  "demo_lbas = {1, 2, 3}"

definition demo_ops :: "unit sd_ops" where
  "demo_ops = \<lparr>op_is_connected = io_return 1, op_init = io_return (),
     op_read = (\<lambda>lba count buf. io_return (1, demo_sector lba)), op_write = (\<lambda>lba count buf. io_return 0)\<rparr>"

definition demo_volume :: volume where
  "demo_volume = \<lparr>vol_next = 0, label = replicate 13 0, letter = 0x43, sector_size = 512, cluster_size = 1,
     total_size = 5, fat_lba = 1, fsinfo_lba = 0, data_lba = 2, root_lba = 2, vol_buffer = replicate 512 0,
     buffer_lba = 0, vol_disk = DISK_SD_CARD, buffer_dirty = 0\<rparr>"

definition demo_file :: fat_file where
  "demo_file = \<lparr>file_sector = 3, file_cluster = 3, file_rw = 0, file_size = 600, file_start = 3, glob_offset = 0, file_vol = 0\<rparr>"

lemma demo_reads: "reads_sectors demo_ops (\<lambda>_. True) demo_sector demo_lbas"
  by (simp add: reads_sectors_def demo_ops_def achieves_simps demo_sector_def)

lemma demo_cache_ok: "cache_ok (\<lambda>_. True) demo_sector demo_lbas demo_volume \<lparr>vol = demo_volume, drive = ()\<rparr>"
proof -
  have "demo_volume = demo_volume\<lparr>vol_buffer := replicate 512 0, buffer_lba := 0\<rparr>" by (simp add: demo_volume_def)
  then show ?thesis unfolding cache_ok_def
    by (intro conjI exI [of _ "replicate 512 0"] exI [of _ 0]) (simp_all add: demo_volume_def demo_lbas_def)
qed

lemma demo_stored: "stored_file demo_sector demo_lbas demo_volume [3, 2] 600"
  by (simp add: stored_file_def demo_volume_def demo_lbas_def fat_clust_to_sect_def table_sector_def table_entry_def
      demo_sector_def le32_def is_eoc_def Let_def)

section \<open>Reading files\<close>

text \<open>
  \<^bold>\<open>Seeking and reading (C21).\<close> On a disk that reads its sectors, for a file stored along a chain of
  clusters: moving to an offset inside the file and reading \<open>count\<close> bytes returns exactly those bytes of
  the file, or the rest of it when there are fewer, across sector and cluster boundaries; the calls return.
\<close>

theorem seek_and_read:
  assumes "reads_sectors ops live content lbas" "cache_ok live content lbas v s"
    "stored_file content lbas v cs size'" "file_start f = fat_clust_to_sect v (cs ! 0)" "file_size f = of_nat size'"
    "unat off < size'"
  shows "achieves (io_bind (fat_file_jump ops f off) (\<lambda>(_, f'). fat_file_read ops f' count))
    (\<lambda>(st, f', bytes) t. st = FSTATUS_OK
      \<and> bytes = take (unat count) (drop (unat off) (file_bytes content v cs size'))
      \<and> cache_ok live content lbas v t \<and> file_at v cs f' (unat off + length bytes)) s"
  by (rule block_device.seek_read_achieves [OF block_device.intro [OF assms(1)] assms(2-6)])

theorem seek_and_read_witness:
  "achieves (io_bind (fat_file_jump demo_ops demo_file 510) (\<lambda>(_, f'). fat_file_read demo_ops f' 4))
    (\<lambda>(st, f', bytes) t. st = FSTATUS_OK \<and> bytes = [3, 3, 2, 2]) \<lparr>vol = demo_volume, drive = ()\<rparr>"
proof -
  have "take 4 (drop 510 (file_bytes demo_sector demo_volume [3, 2] 600)) = [3, 3, 2, 2]"
  proof -
    have "take 4 (drop 510 [0..<600]) = [510, 511, 512, 513 :: nat]" by (simp add: take_upt upt_conv_Cons)
    moreover have "file_byte demo_sector demo_volume [3, 2] n = 3" if "n < 512" for n
      using that by (simp add: file_byte_def demo_volume_def demo_sector_def fat_clust_to_sect_def)
    moreover have "file_byte demo_sector demo_volume [3, 2] n = 2" if "512 \<le> n" "n < 1024" for n
    proof -
      have "n div 512 = 1" using that by simp
      then show ?thesis using that
        by (simp add: file_byte_def demo_volume_def demo_sector_def fat_clust_to_sect_def)
    qed
    ultimately show ?thesis by (simp add: file_bytes_def drop_map take_map)
  qed
  then show ?thesis
    by (intro achieves_mono [OF seek_and_read [OF demo_reads demo_cache_ok demo_stored, of demo_file 510 4]])
      (auto simp: demo_file_def demo_volume_def fat_clust_to_sect_def)
qed

section \<open>Termination\<close>

text \<open>A disk whose operations return or panic.\<close>

definition disk_settles :: "'d sd_ops \<Rightarrow> bool" where
  "disk_settles ops \<longleftrightarrow> (\<forall>lba n buf d. op_read ops lba n buf d \<noteq> Inl Diverge \<and> op_write ops lba n buf d \<noteq> Inl Diverge)"

lemma array_settles: "array_get b i \<noteq> Inl Diverge"
  by (simp add: array_get_def)

lemma buffer_get_settles: "(\<And>x t. Q x t) \<Longrightarrow> settles (buffer_get off) Q s"
  by (simp add: buffer_get_def settles_simps settles_res array_settles)

lemma load32_settles: "fat_load32 b off \<noteq> Inl Diverge"
  by (simp add: fat_load32_def res_simps array_settles)

lemma drive_settles: "(\<And>d. m d \<noteq> Inl Diverge) \<Longrightarrow> (\<And>x t. Q x t) \<Longrightarrow> settles (on_drive m) Q s"
  by (simp add: on_drive_def settles_simps settles_any)

lemma fat_read_settles:
  assumes "disk_settles ops" "\<And>x t. Q x t"
  shows "settles (fat_read ops lba) Q s"
proof -
  have io: "disk_write ops dk b l n d \<noteq> Inl Diverge" "disk_read ops dk b l n d \<noteq> Inl Diverge" for dk b l n d
    using assms(1) by (simp_all add: disk_settles_def disk_write_def disk_read_def split: disk.split)
  show ?thesis
    by (auto simp: fat_read_def fat_flush_def settles_simps assms(2) intro!: drive_settles io)
qed

lemma fat_table_get_settles:
  "disk_settles ops \<Longrightarrow> (\<And>x t. Q x t) \<Longrightarrow> settles (fat_table_get ops c) Q s"
  by (auto simp: fat_table_get_def settles_simps buffer_load32_def
      intro!: fat_read_settles settles_res load32_settles)

lemma resolve_settles:
  "disk_settles ops \<Longrightarrow> (\<And>x t. Q x t) \<Longrightarrow> settles (fat_file_addr_resolve ops f) Q s"
  by (auto simp: fat_file_addr_resolve_def settles_simps Let_def intro!: fat_table_get_settles split: option.split)

lemma u32_dec_less: "c \<noteq> 0 \<Longrightarrow> unat (c - 1) < unat c" for c :: u32
  by (simp add: unat_minus_one unat_gt_0)

lemma file_read_settles:
  assumes "disk_settles ops"
  shows "settles (fat_file_read ops f count) (\<lambda>_ _. True) s"
proof -
  have "settles (repeat_io (file_read_step ops ss fs) c) (\<lambda>_ _. True) t" for ss fs c t
  proof (rule settles_repeat [where I = "\<lambda>_ _. True" and f = "\<lambda>(f, left, read) t. unat left"], rule TrueI)
    fix c :: "fat_file \<times> u32 \<times> u8 list" and t
    obtain f1 left read where c: "c = (f1, left, read)" by (cases c)
    show "settles (file_read_step ops ss fs c) (\<lambda>v t'. case v of
        Inl c' \<Rightarrow> True \<and> (case c' of (f, left, read) \<Rightarrow> \<lambda>t. unat left) t' < (case c of (f, left, read) \<Rightarrow> \<lambda>t. unat left) t
      | Inr r \<Rightarrow> True) t"
      unfolding c using assms u32_dec_less [of left]
      by (auto simp: file_read_step_def settles_simps Let_def intro!: resolve_settles fat_read_settles buffer_get_settles)
  qed
  then show ?thesis
    by (auto simp: fat_file_read_def settles_simps intro!: fat_read_settles assms)
qed

lemma file_jump_settles:
  assumes "disk_settles ops"
  shows "settles (fat_file_jump ops f off) (\<lambda>_ _. True) s"
proof -
  have "settles (repeat_io (file_jump_step ops) c) (\<lambda>_ _. True) t" for c t
  proof (rule settles_repeat [where I = "\<lambda>_ _. True" and f = "\<lambda>(f, left) t. unat left"], rule TrueI)
    fix c :: "fat_file \<times> u32" and t
    obtain f1 left where c: "c = (f1, left)" by (cases c)
    show "settles (file_jump_step ops c) (\<lambda>v t'. case v of
        Inl c' \<Rightarrow> True \<and> (case c' of (f, left) \<Rightarrow> \<lambda>t. unat left) t' < (case c of (f, left) \<Rightarrow> \<lambda>t. unat left) t
      | Inr r \<Rightarrow> True) t"
      unfolding c using assms u32_dec_less [of left]
      by (auto simp: file_jump_step_def settles_simps intro!: fat_table_get_settles split: option.split)
  qed
  then have "settles (repeat_io (file_jump_step ops) c) Q t" if "\<And>x t. Q x t" for Q c t
    by (rule settles_mono) (rule that)
  then show ?thesis
    by (auto simp: fat_file_jump_def settles_simps Let_def split: prod.split)
qed

text \<open>
  \<^bold>\<open>Termination (C22).\<close> Reading and seeking return or panic for every file object, every volume and every
  contents of the disk, cyclic cluster chains included, as long as the disk's own operations do not hang.
\<close>

theorem file_io_terminates:
  assumes "disk_settles ops"
  shows "fat_file_read ops f count s \<noteq> Inl Diverge \<and> fat_file_jump ops f off s \<noteq> Inl Diverge"
  using file_read_settles [OF assms, of f count s] file_jump_settles [OF assms, of f off s]
  by (auto simp: settles_def)

theorem file_io_terminates_witness:
  "fat_file_read demo_ops demo_file 0xFFFFFFFF \<lparr>vol = demo_volume, drive = ()\<rparr> \<noteq> Inl Diverge"
  using file_io_terminates [of demo_ops demo_file] by (simp add: disk_settles_def demo_ops_def io_return_def)

section \<open>Reading at the end\<close>

text \<open>
  \<^bold>\<open>End of file (C23).\<close> A read at the end of a file, or of an empty file, returns one byte that is not
  part of it: the end is tested after the byte is copied. The status says that the read succeeded.
\<close>

theorem read_at_end_returns_a_byte:
  assumes "reads_sectors ops live content lbas" "cache_ok live content lbas v s" "sector_size v = 512"
    "file_sector f \<in> lbas" "file_rw f < 512" "file_size f \<le> glob_offset f" "glob_offset f \<noteq> - 1" "count \<noteq> 0"
  shows "achieves (fat_file_read ops f count) (\<lambda>(st, f', bytes) t. st = FSTATUS_OK
    \<and> bytes = [content (file_sector f) ! unat (file_rw f)]) s"
proof -
  note dev = block_device.intro [OF assms(1)]
  have goff: "file_size f \<le> glob_offset f + 1"
  proof -
    have "glob_offset f + 1 \<noteq> 0" using assms(7) by (simp add: eq_neg_iff_add_eq_0)
    then have "glob_offset f \<le> glob_offset f + 1" by (simp add: inc_le less_imp_le word_le_nat_alt unatSuc add.commute)
    then show ?thesis using assms(6) by simp
  qed
  have rw: "\<not> 512 \<le> file_rw f" "unat (file_rw f) < 512" using assms(5) by (simp_all add: word_less_nat_alt word_le_nat_alt)
  have ssize: "ucast (512 :: u16) = (512 :: u32)" by simp
  show ?thesis
    unfolding fat_file_read_def achieves_bind achieves_gets cache_ok_fields [OF assms(2)] assms(3)
    by (rule achieves_mono [OF block_device.fat_read_coherent [OF dev assms(2,4)]], simp)
      (rule achieves_repeat [where I = "\<lambda>c t. c = (f, count, []) \<and> vol_buffer (vol t) = content (file_sector f)"
          and f = "\<lambda>_ _. 0"],
        use rw goff assms(8) block_device.content_length [OF dev assms(4)] in
          \<open>auto simp: file_read_step_def achieves_simps Let_def ssize\<close>)
qed

theorem read_at_end_returns_a_byte_witness:
  "achieves (fat_file_read demo_ops (demo_file\<lparr>file_size := 0\<rparr>) 8) (\<lambda>(st, f', bytes) t. st = FSTATUS_OK \<and> bytes = [3])
    \<lparr>vol = demo_volume, drive = ()\<rparr>"
  using read_at_end_returns_a_byte [OF demo_reads demo_cache_ok, where f = "demo_file\<lparr>file_size := 0\<rparr>" and count = 8]
  by (simp add: demo_file_def demo_volume_def demo_lbas_def demo_sector_def)

section \<open>Names\<close>

text \<open>The characters of a long-name entry, up to the first empty one.\<close>

definition lfn_chars :: "u8 list \<Rightarrow> nat \<Rightarrow> nat list \<Rightarrow> u8 list" where
  "lfn_chars lfn i ls = takeWhile (\<lambda>c. c \<noteq> 0x00 \<and> c \<noteq> 0xFF) (map (\<lambda>l. lfn ! (i + l)) ls)"

lemma lfn_cmp_loop_eq:
  assumes "\<forall>l \<in> set ls. i + l < length lfn" "j + unat n \<le> length name" "k + length ls < 2 ^ 32"
  shows "lfn_cmp_loop ls k lfn i name j n
    = Inr (if prefix (lfn_chars lfn i ls) (drop k (take (unat n) (drop j name))) then 1 else 0)"
  using assms
proof (induction ls arbitrary: k)
  case Nil
  then show ?case by (simp add: lfn_chars_def)
next
  case (Cons l ls)
  have k: "of_nat k \<ge> n \<longleftrightarrow> unat n \<le> k" using Cons.prems(3) by (simp add: word_le_nat_alt unat_of_nat)
  show ?case
  proof (cases "lfn ! (i + l) = 0 \<or> lfn ! (i + l) = 0xFF")
    case True
    then show ?thesis using Cons.prems(1) by (auto simp: lfn_chars_def)
  next
    case False
    then have chars: "lfn_chars lfn i (l # ls) = lfn ! (i + l) # lfn_chars lfn i ls" by (simp add: lfn_chars_def)
    show ?thesis
    proof (cases "unat n \<le> k")
      case True
      then show ?thesis using False k Cons.prems(1) by (simp add: chars)
    next
      case in_range: False
      then have "drop k (take (unat n) (drop j name)) = name ! (j + k) # drop (Suc k) (take (unat n) (drop j name))"
        using Cons.prems(2) by (subst Cons_nth_drop_Suc [symmetric]) simp_all
      then show ?thesis using False k in_range Cons by (simp add: chars)
    qed
  qed
qed

text \<open>
  \<^bold>\<open>Long names (C24).\<close> The comparison of an entry with a name succeeds exactly when the characters of the
  entry are a prefix of the rest of the name from the entry's position. The name need not end where
  the entry does: the long name of a file matches every name that extends it.
\<close>

theorem lfn_matches_prefixes:
  assumes "i + 32 \<le> length lfn" "j + unat n \<le> length name"
  shows "fat_dir_lfn_cmp lfn i name j n
    = Inr (if prefix (lfn_chars lfn i lfn_lut) (drop (unat (lfn_name_off (lfn ! i))) (take (unat n) (drop j name)))
        then 1 else 0)"
proof -
  have "unat (lfn_name_off (lfn ! i)) < 256" using unsigned_less [of "lfn_name_off (lfn ! i)", where ?'a = nat] by simp
  then have "unat (lfn_name_off (lfn ! i)) + length lfn_lut < 2 ^ 32" by (simp add: lfn_lut_def)
  moreover have "\<forall>l \<in> set lfn_lut. i + l < length lfn" using assms(1) by (simp add: lfn_lut_def)
  ultimately show ?thesis
    using assms by (simp add: fat_dir_lfn_cmp_def lfn_cmp_loop_eq)
qed

text \<open>The entry of the file \<^verbatim>\<open>ab\<close> and the name \<^verbatim>\<open>abc\<close>.\<close>

theorem lfn_matches_prefixes_witness:
  "fat_dir_lfn_cmp ([0x41, 0x61, 0, 0x62, 0, 0, 0] @ replicate 25 0xFF) 0 [0x61, 0x62, 0x63, 0] 0 3 = Inr 1"
  using lfn_matches_prefixes [of 0 "[0x41, 0x61, 0, 0x62, 0, 0, 0] @ replicate 25 0xFF" 0 3 "[0x61, 0x62, 0x63, 0]"]
  by (simp add: lfn_chars_def lfn_lut_def lfn_name_off_def)

section \<open>Byte order\<close>

text \<open>
  A word stored into a buffer is read back, and the bytes around it are kept.
\<close>

lemma store_load32:
  assumes "off + 3 < length buf"
  shows "\<exists>buf'. fat_store32 buf off x = Inr buf' \<and> fat_load32 buf' off = Inr x \<and> length buf' = length buf
    \<and> (\<forall>i. i < off \<or> off + 3 < i \<longrightarrow> buf' ! i = buf ! i)"
  using assms by (simp add: fat_store32_def fat_load32_def le32_split nth_list_update)

section \<open>Allocating clusters\<close>

text \<open>
  \<^bold>\<open>A cluster in use is allocated (C25).\<close> The search for a free cluster tests seven bits of an entry of
  28. A cluster whose successor is a multiple of 128 passes the test: it is taken, and its entry, which
  held the chain of a file, is overwritten with the end mark.
\<close>

theorem in_use_cluster_taken:
  assumes "reads_sectors ops live content lbas" "cache_ok live content lbas v s" "sector \<in> lbas" "unat rw + 3 < 512"
    "fat_load32 (content sector) (unat rw) = Inr entry" "entry AND 0x7F = 0"
  shows "achieves (free_cluster_step ops (sector, rw, None)) (\<lambda>r t.
      (\<exists>sector' rw'. r = Inl (sector', rw', Some (128 * (sector - fat_lba v) + rw div 4)))
      \<and> buffer_dirty (vol t) = 1 \<and> fat_load32 (vol_buffer (vol t)) (unat rw) = Inr 0xFFFFFFF) s"
proof -
  note dev = block_device.intro [OF assms(1)]
  have len: "unat rw + 3 < length (content sector)"
    using block_device.content_length [OF dev assms(3)] assms(4) by simp
  obtain buf' where buf': "fat_store32 (content sector) (unat rw) 0xFFFFFFF = Inr buf'" "fat_load32 buf' (unat rw) = Inr 0xFFFFFFF"
    using len by (simp add: fat_store32_def fat_load32_def le32_split [of "0xFFFFFFF", simplified] nth_list_update)
  show ?thesis
    unfolding free_cluster_step_def prod.case achieves_bind
    by (rule achieves_mono [OF block_device.fat_read_coherent [OF dev assms(2,3)]])
      (use assms(5,6) buf' in
        \<open>auto simp: achieves_simps buffer_load32_def buffer_store32_def Let_def dest: cache_ok_fields(3)\<close>)
qed

theorem in_use_cluster_taken_witness:
  "achieves (free_cluster_step demo_ops (1, 16, None)) (\<lambda>r t. (\<exists>sector' rw'. r = Inl (sector', rw', Some 4))
      \<and> fat_load32 (vol_buffer (vol t)) 16 = Inr 0xFFFFFFF) \<lparr>vol = demo_volume, drive = ()\<rparr>"
proof -
  have "fat_load32 (demo_sector 1) 16 = Inr 0x80" by (simp add: fat_load32_def demo_sector_def le32_def)
  then show ?thesis
    using in_use_cluster_taken [OF demo_reads demo_cache_ok, where sector = 1 and rw = 16 and entry = "0x80"]
    by (auto simp: demo_lbas_def demo_volume_def elim!: achieves_mono)
qed

end
