(* ===== verification/Registers.thy ===== *)
theory Registers
  imports Io_Monad
begin

text \<open>
  The register blocks of \<^verbatim>\<open>cpu/hardware.h\<close> the modelled drivers use: each C struct is the list of its
  fields with their sizes in words, reserved words included, and a register is the address of a field
  in the block at its base address. The drivers access registers through a bus (\<open>Io_Monad\<close>) whose register names
  are these addresses.
\<close>

type_synonym layout = "(string \<times> nat) list"
type_synonym 'h mmio = "(u32, 'h) bus"

fun field_offset :: "layout \<Rightarrow> string \<Rightarrow> nat" where
  "field_offset [] f = 0"
| "field_offset ((g, k) # fs) f = (if f = g then 0 else k + field_offset fs f)"

definition reg_at :: "u32 \<Rightarrow> layout \<Rightarrow> string \<Rightarrow> u32" where
  "reg_at base lay f = base + 4 * of_nat (field_offset lay f)"

text \<open>The size of a block in bytes, and the fields a driver may name.\<close>

definition block_bytes :: "layout \<Rightarrow> nat" where
  "block_bytes lay = 4 * sum_list (map snd lay)"

definition clock_reg :: layout where
  "clock_reg = [
    (''SCER'', 1), (''SCDR'', 1), (''SCSR'', 1), (''RESERVED_1'', 1), (''PCER0'', 1), (''PCDR0'', 1),
    (''PCSR0'', 1), (''UCKR'', 1), (''MOR'', 1), (''MCFR'', 1), (''PLLA'', 1), (''RESERVED_2'', 1),
    (''MCKR'', 1), (''RESERVED_3'', 1), (''USB'', 1), (''RESERVED_4'', 1), (''PCK'', 8), (''IER'', 1),
    (''IDR'', 1), (''SR'', 1), (''IMR'', 1), (''FSMR'', 1), (''FSPR'', 1), (''FOCR'', 1),
    (''RESERVED_5'', 26), (''WPMR'', 1), (''WPSR'', 1), (''RESERVED_6'', 5), (''PCER1'', 1),
    (''PCDR1'', 1), (''PCSR1'', 1), (''PCR'', 1), (''OCR'', 1), (''SLPWK_ER0'', 1), (''SLPWK_DR0'', 1),
    (''SLPWK_SR0'', 1), (''SLPWK_ASR0'', 1), (''RESERVED_7'', 3), (''PMMR'', 1), (''SLPWK_ER1'', 1),
    (''SLPWK_DR1'', 1), (''SLPWK_SR1'', 1), (''SLPWK_ASR1'', 1), (''AIPR'', 1)]"

definition flash_reg :: layout where
  "flash_reg = [
    (''FMR'', 1), (''FCR'', 1), (''FSR'', 1), (''FRR'', 1), (''RESERVED'', 53), (''WPMR'', 1)]"

definition gpio_reg :: layout where
  "gpio_reg = [
    (''PER'', 1), (''PDR'', 1), (''PSR'', 1), (''RESERVED_1'', 1), (''OER'', 1), (''ODR'', 1),
    (''OSR'', 1), (''RESERVED_2'', 1), (''IFER'', 1), (''IFDR'', 1), (''IFSR'', 1), (''RESERVED_3'', 1),
    (''SODR'', 1), (''CODR'', 1), (''ODSR'', 1), (''PDSR'', 1), (''IER'', 1), (''IDR'', 1),
    (''IMR'', 1), (''ISR'', 1), (''MDER'', 1), (''MDDR'', 1), (''MDSR'', 1), (''RESERVED_4'', 1),
    (''PUDR'', 1), (''PUER'', 1), (''PUSR'', 1), (''RESERVED_5'', 1), (''ABCDSR0'', 1),
    (''ABCDSR1'', 1), (''RESERVED_6'', 2), (''IFSCDR'', 1), (''IFSCER'', 1), (''IFSCSR'', 1),
    (''SCDR'', 1), (''PPDDR'', 1), (''PPDER'', 1), (''PPDSR'', 1), (''RESERVED_7'', 1), (''OWER'', 1),
    (''OWDR'', 1), (''OWSR'', 1), (''RESERVED_8'', 1), (''AIMER'', 1), (''AIMDR'', 1), (''AIMMR'', 1),
    (''RESERVED_9'', 1), (''ESR'', 1), (''LSR'', 1), (''ELSR'', 1), (''RESERVED_10'', 1),
    (''FELLSR'', 1), (''REHLSR'', 1), (''FRLHSR'', 1), (''RESERVED_11'', 1), (''LOCKSR'', 1),
    (''WPMR'', 1), (''WPSR'', 1), (''RESERVED_12'', 5), (''SCHMITT'', 1), (''RESERVED_13'', 5),
    (''DRIVER'', 1), (''RESERVED_14'', 13), (''PCMR'', 1), (''PCIER'', 1), (''PCIDR'', 1),
    (''PCIMR'', 1), (''PCISR'', 1), (''PCRHR'', 1)]"

definition systick_reg :: layout where
  "systick_reg = [
    (''CSR'', 1), (''RVR'', 1), (''CVR'', 1), (''CALIB'', 1)]"

definition usart_reg :: layout where
  "usart_reg = [
    (''CR'', 1), (''MR'', 1), (''IER'', 1), (''IDR'', 1), (''IMR'', 1), (''CSR'', 1), (''RHR'', 1),
    (''THR'', 1), (''BRGR'', 1), (''RTOR'', 1), (''TTGR'', 1), (''RESERVED1'', 4), (''FTDI'', 1),
    (''NER'', 1)]"

definition mmc_reg :: layout where
  "mmc_reg = [
    (''CR'', 1), (''MR'', 1), (''DTOR'', 1), (''SDCR'', 1), (''ARG'', 1), (''CMD'', 1), (''BLKR'', 1),
    (''CSTOR'', 1), (''RESP'', 4), (''RDR'', 1), (''TDR'', 1), (''RESERVED1'', 2), (''SR'', 1),
    (''IER'', 1), (''IDR'', 1), (''IMR'', 1), (''DMA'', 1), (''CFG'', 1), (''RESERVED2'', 35),
    (''WPMR'', 1), (''WPSR'', 1), (''RESERVED3'', 69), (''FIFO'', 256)]"

definition utmi_reg :: layout where
  "utmi_reg = [
    (''RESERVED1'', 4), (''OHCIICR'', 1), (''RESERVED2'', 7), (''CKTRIM'', 1)]"

text \<open>The base addresses. The ports and serial modules share one block type.\<close>

definition CLOCK :: "string \<Rightarrow> u32" where
  "CLOCK = reg_at 0x400E0600 clock_reg"

definition FLASH :: "string \<Rightarrow> u32" where
  "FLASH = reg_at 0x400E0C00 flash_reg"

definition SYSTICK :: "string \<Rightarrow> u32" where
  "SYSTICK = reg_at 0xE000E010 systick_reg"

definition MMC :: "string \<Rightarrow> u32" where
  "MMC = reg_at 0x40000000 mmc_reg"

definition UTMI :: "string \<Rightarrow> u32" where
  "UTMI = reg_at 0x400E0400 utmi_reg"

definition GPIOA :: u32 where
  "GPIOA = 0x400E0E00"

definition GPIOB :: u32 where
  "GPIOB = 0x400E1000"

definition GPIOC :: u32 where
  "GPIOC = 0x400E1200"

definition GPIOD :: u32 where
  "GPIOD = 0x400E1400"

definition GPIOE :: u32 where
  "GPIOE = 0x400E1600"

definition USART0 :: u32 where
  "USART0 = 0x40024000"

definition USART1 :: u32 where
  "USART1 = 0x40028000"

definition USART2 :: u32 where
  "USART2 = 0x4002C000"

definition port_reg :: "u32 \<Rightarrow> string \<Rightarrow> u32" where
  "port_reg port = reg_at port gpio_reg"

definition usart :: "u32 \<Rightarrow> string \<Rightarrow> u32" where
  "usart base = reg_at base usart_reg"

text \<open>Element \<open>i\<close> of a field that is an array of registers.\<close>

definition reg_elem :: "u32 \<Rightarrow> nat \<Rightarrow> u32" where
  "reg_elem r i = r + 4 * of_nat i"

lemmas register_defs = CLOCK_def FLASH_def SYSTICK_def MMC_def UTMI_def GPIOA_def GPIOB_def GPIOC_def
  GPIOD_def GPIOE_def port_reg_def usart_def reg_at_def reg_elem_def

text \<open>Two fields of one block have different addresses, as long as the block does not wrap around.\<close>

lemma field_offset_bound: "f \<in> fst ` set lay \<Longrightarrow> (\<forall>x \<in> set lay. 0 < snd x) \<Longrightarrow>
    field_offset lay f < sum_list (map snd lay)"
  by (induction lay) (auto simp: rev_image_eqI)

lemma field_offset_inj:
  "f \<in> fst ` set lay \<Longrightarrow> g \<in> fst ` set lay \<Longrightarrow> (\<forall>x \<in> set lay. 0 < snd x) \<Longrightarrow>
    field_offset lay f = field_offset lay g \<Longrightarrow> f = g"
  by (induction lay) (auto simp: rev_image_eqI split: if_splits)

end
