(* ===== verification/Gpio_Clock.thy ===== *)
theory Gpio_Clock
  imports Registers
begin

text \<open>
  The pin and clock drivers \<^verbatim>\<open>drivers/gpio.c\<close> and \<^verbatim>\<open>drivers/clock.c\<close>, with the board functions of the
  LED and of the card slot (\<^verbatim>\<open>board/led.c\<close>, \<^verbatim>\<open>board/sd.c\<close>), as sequences of register accesses. A wait
  for a status bit is \<^const>\<open>reg_wait\<close>: it does not return on a device that never sets the bit.
\<close>

section \<open>Pins\<close>

datatype gpio_func = GPIO_FUNC_A | GPIO_FUNC_B | GPIO_FUNC_C | GPIO_FUNC_D | GPIO_FUNC_OFF
datatype gpio_dir = GPIO_INPUT | GPIO_OUTPUT
datatype gpio_pull = GPIO_PULL_UP | GPIO_PULL_DOWN
datatype gpio_irq_src = GPIO_RISING_EDGE | GPIO_FALLING_EDGE | GPIO_HIGH_LEVEL | GPIO_LOW_LEVEL | GPIO_EDGE
datatype gpio_filter = GPIO_GLITCH_FILTER | GPIO_DEBOUNCE_FILTER

text \<open>The values of the enumerators, which the code tests bit by bit.\<close>

fun func_code :: "gpio_func \<Rightarrow> u32" where
  "func_code GPIO_FUNC_A = 0"
| "func_code GPIO_FUNC_B = 1"
| "func_code GPIO_FUNC_C = 2"
| "func_code GPIO_FUNC_D = 3"
| "func_code GPIO_FUNC_OFF = 4"

fun irq_code :: "gpio_irq_src \<Rightarrow> u32" where
  "irq_code GPIO_RISING_EDGE = 0"
| "irq_code GPIO_FALLING_EDGE = 1"
| "irq_code GPIO_HIGH_LEVEL = 2"
| "irq_code GPIO_LOW_LEVEL = 3"
| "irq_code GPIO_EDGE = 4"

definition pin_mask :: "u8 \<Rightarrow> u32" where
  "pin_mask pin = push_bit (unat pin) 1"

definition MATRIX_SYSIO :: u32 where
  "MATRIX_SYSIO = 0x40088114"

definition assign_bit :: "'h mmio \<Rightarrow> u32 \<Rightarrow> u32 \<Rightarrow> bool \<Rightarrow> ('h, unit) io" where
  "assign_bit b r m on = (if on then reg_or b r m else reg_and b r (NOT m))"

definition gpio_set_function :: "'h mmio \<Rightarrow> u32 \<Rightarrow> u8 \<Rightarrow> gpio_func \<Rightarrow> ('h, unit) io" where
  "gpio_set_function b port pin func =
     io_then
       (if port = GPIOB \<and> pin \<in> {4, 5, 6, 7, 12} then reg_or b MATRIX_SYSIO (pin_mask pin) else io_return ())
       (if func = GPIO_FUNC_OFF then reg_set b (port_reg port ''PER'') (pin_mask pin)
        else
          io_then (assign_bit b (port_reg port ''ABCDSR0'') (pin_mask pin) (func_code func AND 1 \<noteq> 0))
          (io_then (assign_bit b (port_reg port ''ABCDSR1'') (pin_mask pin) (func_code func AND 2 \<noteq> 0))
          (reg_set b (port_reg port ''PDR'') (pin_mask pin))))"

definition gpio_set_direction :: "'h mmio \<Rightarrow> u32 \<Rightarrow> u8 \<Rightarrow> gpio_dir \<Rightarrow> ('h, unit) io" where
  "gpio_set_direction b port pin d =
     reg_set b (port_reg port (if d = GPIO_INPUT then ''ODR'' else ''OER'')) (pin_mask pin)"

definition gpio_set :: "'h mmio \<Rightarrow> u32 \<Rightarrow> u8 \<Rightarrow> ('h, unit) io" where
  "gpio_set b port pin = reg_set b (port_reg port ''SODR'') (pin_mask pin)"

definition gpio_clear :: "'h mmio \<Rightarrow> u32 \<Rightarrow> u8 \<Rightarrow> ('h, unit) io" where
  "gpio_clear b port pin = reg_set b (port_reg port ''CODR'') (pin_mask pin)"

definition gpio_toggle :: "'h mmio \<Rightarrow> u32 \<Rightarrow> u8 \<Rightarrow> ('h, unit) io" where
  "gpio_toggle b port pin =
     io_bind (reg_get b (port_reg port ''ODSR'')) (\<lambda>v.
       if v AND pin_mask pin \<noteq> 0 then reg_set b (port_reg port ''CODR'') (pin_mask pin)
       else reg_set b (port_reg port ''SODR'') (pin_mask pin))"

definition gpio_read :: "'h mmio \<Rightarrow> u32 \<Rightarrow> ('h, u32) io" where
  "gpio_read b port = reg_get b (port_reg port ''PDSR'')"

definition gpio_get_pin_status :: "'h mmio \<Rightarrow> u32 \<Rightarrow> u8 \<Rightarrow> ('h, u8) io" where
  "gpio_get_pin_status b port pin =
     io_bind (reg_get b (port_reg port ''PDSR'')) (\<lambda>v. io_return (if v AND pin_mask pin \<noteq> 0 then 1 else 0))"

definition gpio_set_pull :: "'h mmio \<Rightarrow> u32 \<Rightarrow> u8 \<Rightarrow> gpio_pull \<Rightarrow> ('h, unit) io" where
  "gpio_set_pull b port pin pull =
     (if pull = GPIO_PULL_DOWN then
        io_then (reg_set b (port_reg port ''PUDR'') (pin_mask pin)) (reg_set b (port_reg port ''PPDER'') (pin_mask pin))
      else
        io_then (reg_set b (port_reg port ''PUER'') (pin_mask pin)) (reg_set b (port_reg port ''PPDDR'') (pin_mask pin)))"

definition gpio_interrupt_enable :: "'h mmio \<Rightarrow> u32 \<Rightarrow> u8 \<Rightarrow> gpio_irq_src \<Rightarrow> ('h, unit) io" where
  "gpio_interrupt_enable b port pin src =
     io_then
       (if src = GPIO_EDGE then reg_set b (port_reg port ''AIMDR'') (pin_mask pin)
        else
          io_then (reg_set b (port_reg port ''AIMER'') (pin_mask pin))
          (io_then (reg_set b (port_reg port (if irq_code src AND 2 \<noteq> 0 then ''LSR'' else ''ESR'')) (pin_mask pin))
          (reg_set b (port_reg port (if irq_code src AND 1 \<noteq> 0 then ''FELLSR'' else ''REHLSR'')) (pin_mask pin))))
       (reg_set b (port_reg port ''IER'') (pin_mask pin))"

definition gpio_get_interrupt_status :: "'h mmio \<Rightarrow> u32 \<Rightarrow> ('h, u32) io" where
  "gpio_get_interrupt_status b port = reg_get b (port_reg port ''ISR'')"

text \<open>
  The divider is computed in floating point: \<open>us / 125\<close> is a whole number below \<open>2 ^ 26\<close>, so the
  difference is exact; for less than 125 microseconds it is \<open>-1\<close>, which the core's conversion to an
  unsigned integer makes 0.
\<close>

definition debounce_div :: "u32 \<Rightarrow> u32" where
  "debounce_div us = (let q = us div 125; d = (if q = 0 then 0 else q - 1) in if d > 0x3FFF then 0x3FFF else d)"

definition gpio_set_filter :: "'h mmio \<Rightarrow> u32 \<Rightarrow> u8 \<Rightarrow> gpio_filter \<Rightarrow> u32 \<Rightarrow> ('h, unit) io" where
  "gpio_set_filter b port pin filt us =
     io_then (reg_set b (port_reg port (if filt = GPIO_GLITCH_FILTER then ''IFSCDR'' else ''IFSCER'')) (pin_mask pin))
     (io_then (if filt = GPIO_DEBOUNCE_FILTER then reg_set b (port_reg port ''SCDR'') (0x3FFF AND debounce_div us)
               else io_return ())
     (reg_set b (port_reg port ''IFER'') (pin_mask pin)))"

section \<open>Clocks\<close>

datatype clock_source = RC_OSCILLATOR | CRYSTAL_OSCILLATOR
datatype clock_net = SLOW_CLOCK | MAIN_CLOCK | PLLA_CLOCK | UPLL_CLOCK

fun net_code :: "clock_net \<Rightarrow> u32" where
  "net_code SLOW_CLOCK = 0"
| "net_code MAIN_CLOCK = 1"
| "net_code PLLA_CLOCK = 2"
| "net_code UPLL_CLOCK = 3"

fun source_code :: "clock_source \<Rightarrow> u32" where
  "source_code RC_OSCILLATOR = 0"
| "source_code CRYSTAL_OSCILLATOR = 1"

text \<open>A wait for one bit of a status register.\<close>

definition wait_bit :: "'h mmio \<Rightarrow> u32 \<Rightarrow> nat \<Rightarrow> ('h, unit) io" where
  "wait_bit b r n = io_bind (reg_wait b r (\<lambda>v. bit v n)) (\<lambda>_. io_return ())"

definition clock_source_enable :: "'h mmio \<Rightarrow> clock_source \<Rightarrow> u8 \<Rightarrow> ('h, unit) io" where
  "clock_source_enable b source startup_time =
     (if source = RC_OSCILLATOR then
        io_then (reg_or b (CLOCK ''MOR'') (push_bit 3 1 OR 0x00370000)) (wait_bit b (CLOCK ''SR'') 17)
      else
        io_then (io_bind (reg_get b (CLOCK ''MOR'')) (\<lambda>reg. reg_set b (CLOCK ''MOR'')
            ((reg AND NOT (push_bit 8 0xFF OR push_bit 1 1)) OR (1 OR push_bit 8 (ucast startup_time) OR 0x00370000))))
          (wait_bit b (CLOCK ''SR'') 0))"

definition clock_source_disable :: "'h mmio \<Rightarrow> clock_source \<Rightarrow> ('h, u8) io" where
  "clock_source_disable b source =
     io_bind (reg_get b (CLOCK ''MOR'')) (\<lambda>mor.
     if drop_bit 24 mor AND 1 = source_code source then io_return 0
     else
       io_bind (reg_get b (CLOCK ''MOR'')) (\<lambda>reg.
       io_then (reg_set b (CLOCK ''MOR'')
         ((reg OR 0x00370000) AND NOT (if source = RC_OSCILLATOR then push_bit 3 1 else 1)))
       (io_return 1)))"

text \<open>Waiting for ever is how the code stops when the oscillator is off.\<close>

definition rc_frequency_select :: "'h mmio \<Rightarrow> u32 \<Rightarrow> ('h, unit) io" where
  "rc_frequency_select b freq =
     io_bind (reg_get b (CLOCK ''SR'')) (\<lambda>sr.
     if \<not> bit sr 17 then io_fail Diverge
     else
       io_then (io_bind (reg_get b (CLOCK ''MOR'')) (\<lambda>reg.
           reg_set b (CLOCK ''MOR'') ((reg AND NOT (push_bit 4 7)) OR push_bit 4 freq)))
         (wait_bit b (CLOCK ''SR'') 17))"

definition main_clock_select :: "'h mmio \<Rightarrow> clock_source \<Rightarrow> ('h, unit) io" where
  "main_clock_select b source =
     io_then (io_bind (reg_get b (CLOCK ''MOR'')) (\<lambda>reg.
         let reg1 = reg AND NOT (push_bit 24 1);
             reg2 = if source = CRYSTAL_OSCILLATOR then reg1 OR push_bit 24 1 else reg1
         in reg_set b (CLOCK ''MOR'') (reg2 OR 0x00370000)))
       (wait_bit b (CLOCK ''SR'') 16)"

definition plla_init :: "'h mmio \<Rightarrow> u8 \<Rightarrow> u16 \<Rightarrow> u8 \<Rightarrow> ('h, unit) io" where
  "plla_init b dv mul startup_time =
     io_then (reg_set b (CLOCK ''PLLA'')
         (push_bit 29 1 OR push_bit 16 ((ucast mul - 1) AND 0x7FF) OR ucast dv OR push_bit 8 (ucast startup_time AND 0x3F)))
       (wait_bit b (CLOCK ''SR'') 1)"

definition plla_disable :: "'h mmio \<Rightarrow> ('h, u8) io" where
  "plla_disable b =
     io_bind (reg_get b (CLOCK ''MCKR'')) (\<lambda>mckr.
     if mckr AND 3 = 2 then io_return 0
     else io_then (reg_set b (CLOCK ''PLLA'') (push_bit 29 1 OR push_bit 8 0x3F)) (io_return 1))"

text \<open>One field of the master clock register is rewritten and the clock waited for.\<close>

definition mckr_field :: "'h mmio \<Rightarrow> nat \<Rightarrow> u32 \<Rightarrow> u32 \<Rightarrow> ('h, unit) io" where
  "mckr_field b pos msk v =
     io_then (io_bind (reg_get b (CLOCK ''MCKR'')) (\<lambda>reg.
         reg_set b (CLOCK ''MCKR'') ((reg AND NOT (push_bit pos msk)) OR push_bit pos v)))
       (wait_bit b (CLOCK ''SR'') 3)"

definition master_clock_select :: "'h mmio \<Rightarrow> clock_net \<Rightarrow> u32 \<Rightarrow> u32 \<Rightarrow> ('h, unit) io" where
  "master_clock_select b net presc dv =
     (if net = SLOW_CLOCK \<or> net = MAIN_CLOCK then
        io_then (mckr_field b 0 3 (net_code net)) (io_then (mckr_field b 4 7 presc) (mckr_field b 8 3 dv))
      else
        io_then (mckr_field b 4 7 presc) (io_then (mckr_field b 8 3 dv) (mckr_field b 0 3 (net_code net))))"

definition master_clock_verify :: "'h mmio \<Rightarrow> ('h, u8) io" where
  "master_clock_verify b = io_bind (reg_get b (CLOCK ''SR'')) (\<lambda>sr. io_return (ucast (sr AND push_bit 3 1)))"

definition peripheral_clock_enable :: "'h mmio \<Rightarrow> u8 \<Rightarrow> ('h, unit) io" where
  "peripheral_clock_enable b per_id =
     (if per_id < 32 then reg_set b (CLOCK ''PCER0'') (push_bit (unat per_id) 1)
      else if per_id < 64 then reg_set b (CLOCK ''PCER1'') (push_bit (unat (per_id - 32)) 1)
      else reg_set b (CLOCK ''PCR'') ((ucast per_id AND 0x7F) OR push_bit 12 1 OR push_bit 28 1))"

definition peripheral_clock_disable :: "'h mmio \<Rightarrow> u8 \<Rightarrow> ('h, unit) io" where
  "peripheral_clock_disable b per_id =
     (if per_id < 32 then reg_set b (CLOCK ''PCDR0'') (push_bit (unat per_id) 1)
      else if per_id < 64 then reg_set b (CLOCK ''PCDR1'') (push_bit (unat (per_id - 32)) 1)
      else reg_set b (CLOCK ''PCR'') ((ucast per_id AND 0x7F) OR push_bit 12 1))"

definition pck_init :: "'h mmio \<Rightarrow> nat \<Rightarrow> clock_net \<Rightarrow> u8 \<Rightarrow> ('h, unit) io" where
  "pck_init b pck net presc = reg_set b (reg_elem (CLOCK ''PCK'') pck) (push_bit 4 (ucast presc) OR net_code net)"

definition pck_enable :: "'h mmio \<Rightarrow> nat \<Rightarrow> ('h, unit) io" where
  "pck_enable b pck = reg_set b (CLOCK ''SCER'') (push_bit (8 + pck) 1)"

definition pck_disable :: "'h mmio \<Rightarrow> nat \<Rightarrow> ('h, unit) io" where
  "pck_disable b pck = reg_set b (CLOCK ''SCDR'') (push_bit (8 + pck) 1)"

definition clock_tree_reset :: "'h mmio \<Rightarrow> ('h, unit) io" where
  "clock_tree_reset b =
     io_then (master_clock_select b MAIN_CLOCK 0 0)
     (io_bind (plla_disable b) (\<lambda>_.
     io_then (main_clock_select b RC_OSCILLATOR)
     (io_then (rc_frequency_select b 2)
     (io_bind (clock_source_disable b CRYSTAL_OSCILLATOR) (\<lambda>_. io_return ())))))"

definition upll_init :: "'h mmio \<Rightarrow> u32 \<Rightarrow> ('h, unit) io" where
  "upll_init b mult =
     io_then (reg_set b (UTMI ''CKTRIM'') mult)
     (io_then (reg_set b (CLOCK ''UCKR'') (push_bit 20 0xF OR push_bit 16 1))
     (io_then (wait_bit b (CLOCK ''SR'') 6)
     (io_then (reg_and b (CLOCK ''MCKR'') (NOT (push_bit 13 1)))
     (io_then (wait_bit b (CLOCK ''SR'') 3)
     (io_then (reg_set b (CLOCK ''USB'') (1 OR push_bit 8 9))
     (io_then (reg_set b (CLOCK ''SCER'') (push_bit 5 1))
     (wait_bit b (CLOCK ''SCSR'') 5)))))))"

section \<open>The board\<close>

definition led_init :: "'h mmio \<Rightarrow> ('h, unit) io" where
  "led_init b = io_then (gpio_set_function b GPIOC 8 GPIO_FUNC_OFF) (gpio_set_direction b GPIOC 8 GPIO_OUTPUT)"

definition led_on :: "'h mmio \<Rightarrow> ('h, unit) io" where
  "led_on b = gpio_clear b GPIOC 8"

definition led_off :: "'h mmio \<Rightarrow> ('h, unit) io" where
  "led_off b = gpio_set b GPIOC 8"

definition led_toggle :: "'h mmio \<Rightarrow> ('h, unit) io" where
  "led_toggle b = gpio_toggle b GPIOC 8"

definition sd_init :: "'h mmio \<Rightarrow> ('h, unit) io" where
  "sd_init b =
     io_then (gpio_set_function b GPIOA 25 GPIO_FUNC_D)
     (io_then (gpio_set_function b GPIOA 28 GPIO_FUNC_C)
     (io_then (gpio_set_function b GPIOA 30 GPIO_FUNC_C)
     (io_then (gpio_set_function b GPIOA 31 GPIO_FUNC_C)
     (io_then (gpio_set_function b GPIOA 26 GPIO_FUNC_C)
     (io_then (gpio_set_function b GPIOA 27 GPIO_FUNC_C)
     (io_then (peripheral_clock_enable b 12)
     (io_then (gpio_set_function b GPIOC 16 GPIO_FUNC_OFF)
     (gpio_set_direction b GPIOC 16 GPIO_INPUT))))))))"

definition sd_is_connected :: "'h mmio \<Rightarrow> ('h, u8) io" where
  "sd_is_connected b =
     io_bind (gpio_get_pin_status b GPIOC 16) (\<lambda>p. io_return (if p \<noteq> 0 then 0 else 1))"

end
