(* ===== verification/Mmc.thy ===== *)
theory Mmc
  imports Gpio_Clock
begin

text \<open>
  The multimedia card controller driver \<^verbatim>\<open>drivers/mmc.c\<close>, register access by register access.
\<close>

section \<open>Command words\<close>

definition MMC_CMD_READ :: u32 where "MMC_CMD_READ = push_bit 18 1"
definition MMC_CMD_WRITE :: u32 where "MMC_CMD_WRITE = push_bit 18 0"
definition MMC_CMD_SINGLE :: u32 where "MMC_CMD_SINGLE = push_bit 19 0"
definition MMC_CMD_BYTE :: u32 where "MMC_CMD_BYTE = push_bit 19 4"
definition MMC_CMD_START_DATA :: u32 where "MMC_CMD_START_DATA = push_bit 16 1"
definition MMC_CMD_EXT_LATENCY :: u32 where "MMC_CMD_EXT_LATENCY = push_bit 12 1"
definition MMC_CMD_OPEN_DRAIN :: u32 where "MMC_CMD_OPEN_DRAIN = push_bit 11 1"
definition MMC_CMD_RESP48 :: u32 where "MMC_CMD_RESP48 = push_bit 6 1"
definition MMC_CMD_RESP136 :: u32 where "MMC_CMD_RESP136 = push_bit 6 2"
definition MMC_CMD_R1b :: u32 where "MMC_CMD_R1b = push_bit 6 3"
definition MMC_CMD_INIT :: u32 where "MMC_CMD_INIT = push_bit 8 1"

lemmas mmc_cmd_defs = MMC_CMD_READ_def MMC_CMD_WRITE_def MMC_CMD_SINGLE_def MMC_CMD_BYTE_def
  MMC_CMD_START_DATA_def MMC_CMD_EXT_LATENCY_def MMC_CMD_OPEN_DRAIN_def MMC_CMD_RESP48_def
  MMC_CMD_RESP136_def MMC_CMD_R1b_def MMC_CMD_INIT_def

datatype mmc_bus_width = MMC_1_LANE | MMC_4_LANES

fun width_code :: "mmc_bus_width \<Rightarrow> u32" where
  "width_code MMC_1_LANE = 0"
| "width_code MMC_4_LANES = 2"

section \<open>Configuration\<close>

definition mmc_init :: "'h mmio \<Rightarrow> ('h, unit) io" where
  "mmc_init b =
     io_then (reg_and b (MMC ''MR'') (NOT 0xFF00))
     (io_then (reg_or b (MMC ''MR'') (push_bit 11 1 OR push_bit 12 1))
     (io_then (reg_set b (MMC ''DTOR'') (push_bit 4 7 OR 3))
     (io_then (reg_set b (MMC ''CSTOR'') (push_bit 4 7 OR 3))
     (reg_set b (MMC ''CFG'') (1 OR push_bit 4 1)))))"

definition mmc_reset :: "'h mmio \<Rightarrow> ('h, unit) io" where
  "mmc_reset b =
     io_bind (reg_get b (MMC ''MR'')) (\<lambda>mr.
     io_bind (reg_get b (MMC ''DTOR'')) (\<lambda>dtor.
     io_bind (reg_get b (MMC ''SDCR'')) (\<lambda>sdcr.
     io_bind (reg_get b (MMC ''CSTOR'')) (\<lambda>cstor.
     io_bind (reg_get b (MMC ''CFG'')) (\<lambda>cfg.
     io_then (reg_set b (MMC ''CR'') (push_bit 7 1))
     (io_then (reg_set b (MMC ''MR'') mr)
     (io_then (reg_set b (MMC ''DTOR'') dtor)
     (io_then (reg_set b (MMC ''SDCR'') sdcr)
     (io_then (reg_set b (MMC ''CSTOR'') cstor)
     (reg_set b (MMC ''CFG'') cfg))))))))))"

definition mmc_enable :: "'h mmio \<Rightarrow> ('h, unit) io" where
  "mmc_enable b = reg_set b (MMC ''CR'') 1"

definition mmc_disable :: "'h mmio \<Rightarrow> ('h, unit) io" where
  "mmc_disable b = reg_set b (MMC ''CR'') 2"

text \<open>The divider and its half step, truncated to bytes: the bus clock is 150 MHz / (2 div + odd + 2).\<close>

definition bus_divider :: "u32 \<Rightarrow> u8 \<times> u8" where
  "bus_divider freq =
     (if 2 * freq < 150000000 then
        (let p = 150000000 div freq - 2;
             p' = (if 150000000 mod freq \<noteq> 0 then p + 1 else p)
         in (ucast (drop_bit 1 p'), ucast (p' AND 1)))
      else (0, 0))"

definition mmc_set_bus_freq :: "'h mmio \<Rightarrow> u32 \<Rightarrow> ('h, unit) io" where
  "mmc_set_bus_freq b freq =
     (case bus_divider freq of (dv, half) \<Rightarrow>
        io_then (reg_and b (MMC ''MR'') (NOT (push_bit 16 1 AND 0xFF)))
          (reg_or b (MMC ''MR'') (push_bit 16 (ucast half) OR ucast dv)))"

definition mmc_set_bus_width :: "'h mmio \<Rightarrow> mmc_bus_width \<Rightarrow> ('h, unit) io" where
  "mmc_set_bus_width b width =
     io_then (reg_and b (MMC ''SDCR'') (NOT (push_bit 6 3)))
       (reg_or b (MMC ''SDCR'') (push_bit 6 (width_code width)))"

definition mmc_enable_high_speed :: "'h mmio \<Rightarrow> ('h, unit) io" where
  "mmc_enable_high_speed b = reg_or b (MMC ''CFG'') (push_bit 8 1)"

definition mmc_disable_high_speed :: "'h mmio \<Rightarrow> ('h, unit) io" where
  "mmc_disable_high_speed b = reg_and b (MMC ''CFG'') (NOT (push_bit 8 1))"

definition mmc_dma_enable :: "'h mmio \<Rightarrow> u32 \<Rightarrow> ('h, unit) io" where
  "mmc_dma_enable b chunk =
     io_then (reg_and b (MMC ''DMA'') (NOT (push_bit 4 7)))
     (io_then (reg_or b (MMC ''DMA'') (push_bit 4 chunk)) (reg_or b (MMC ''DMA'') (push_bit 8 1)))"

definition mmc_dma_disable :: "'h mmio \<Rightarrow> ('h, unit) io" where
  "mmc_dma_disable b = reg_and b (MMC ''DMA'') (NOT (push_bit 8 1))"

section \<open>Commands\<close>

text \<open>
  Waiting while the card is busy after a command with an R1b response: until bit 5 or bit 4 of the
  status is set, at most \<open>2 ^ 32 - 1\<close> times.
\<close>

definition busy_step :: "'h mmio \<Rightarrow> u32 \<Rightarrow> ('h, u32 + u8) io" where
  "busy_step b timeout =
     (if timeout \<le> 1 then io_panic ''MMC command timeout''
      else io_bind (reg_get b (MMC ''SR'')) (\<lambda>status.
        if status AND push_bit 5 1 = 0 \<and> status AND push_bit 4 1 = 0 then again (timeout - 1) else leave 1))"

definition wait_not_busy :: "'h mmio \<Rightarrow> u32 \<Rightarrow> ('h, u8) io" where
  "wait_not_busy b cmd =
     (if drop_bit 6 cmd AND 3 = 3 then repeat_io (busy_step b) 0xFFFFFFFF else io_return 1)"

text \<open>The status word is checked for errors every time it is read, until bit 0 is set.\<close>

definition CMD_ERRORS :: u32 where
  "CMD_ERRORS = push_bit 16 1 OR push_bit 17 1 OR push_bit 19 1 OR push_bit 20 1 OR push_bit 23 1"

definition cmd_step :: "'h mmio \<Rightarrow> u8 \<Rightarrow> unit \<Rightarrow> ('h, unit + unit) io" where
  "cmd_step b check_crc _ =
     io_bind (reg_get b (MMC ''SR'')) (\<lambda>status.
     if status AND CMD_ERRORS \<noteq> 0 then io_panic ''MMC send command error''
     else if check_crc \<noteq> 0 \<and> status AND push_bit 18 1 \<noteq> 0 then io_panic ''MMC send command CRC error''
     else if status AND 1 = 0 then again () else leave ())"

definition mmc_send_cmd :: "'h mmio \<Rightarrow> u32 \<Rightarrow> u32 \<Rightarrow> u8 \<Rightarrow> ('h, u8) io" where
  "mmc_send_cmd b cmd arg check_crc =
     io_then (reg_set b (MMC ''ARG'') arg)
     (io_then (reg_set b (MMC ''CMD'') cmd)
     (io_then (repeat_io (cmd_step b check_crc) ())
     (wait_not_busy b cmd)))"

text \<open>A command with a data transfer waits for the status first and checks it once.\<close>

definition mmc_send_adtc :: "'h mmio \<Rightarrow> u32 \<Rightarrow> u32 \<Rightarrow> u32 \<Rightarrow> u32 \<Rightarrow> u8 \<Rightarrow> ('h, u8) io" where
  "mmc_send_adtc b cmd arg block_size block_count check_crc =
     io_then (reg_or b (MMC ''MR'') (push_bit 11 1 OR push_bit 12 1))
     (io_then (if block_size AND 3 \<noteq> 0 then reg_or b (MMC ''MR'') (push_bit 13 1)
               else reg_and b (MMC ''MR'') (NOT (push_bit 13 1)))
     (io_then (if drop_bit 19 cmd AND 7 = 4 then reg_set b (MMC ''BLKR'') ((block_size mod 512) AND 0xFFFF)
               else reg_set b (MMC ''BLKR'') (push_bit 16 block_size OR (block_count AND 0xFFFF)))
     (io_then (reg_set b (MMC ''ARG'') arg)
     (io_then (reg_set b (MMC ''CMD'') cmd)
     (io_bind (reg_wait b (MMC ''SR'') (\<lambda>s. s AND 1 \<noteq> 0)) (\<lambda>status.
      if status AND 0x21FB0000 \<noteq> 0 then io_panic ''CMD failed''
      else if check_crc \<noteq> 0 \<and> status AND push_bit 18 1 \<noteq> 0 then io_panic ''CMD failed CRC error''
      else wait_not_busy b cmd))))))"

section \<open>Responses and data\<close>

definition mmc_read_resp48 :: "'h mmio \<Rightarrow> ('h, u32) io" where
  "mmc_read_resp48 b = reg_get b (reg_elem (MMC ''RESP'') 0)"

definition be_bytes :: "u32 \<Rightarrow> u8 list" where
  "be_bytes w = [ucast (drop_bit 24 w), ucast (drop_bit 16 w), ucast (drop_bit 8 w), ucast w]"

definition mmc_read_resp136 :: "'h mmio \<Rightarrow> ('h, u8 list) io" where
  "mmc_read_resp136 b =
     io_bind (for_io (\<lambda>i acc. io_bind (reg_get b (reg_elem (MMC ''RESP'') i)) (\<lambda>r. io_return (acc @ be_bytes r))) [0..<4] [])
       (\<lambda>byte_reverse. io_return (rev byte_reverse))"

definition mmc_read_data :: "'h mmio \<Rightarrow> ('h, u32) io" where
  "mmc_read_data b =
     io_bind (reg_wait b (MMC ''SR'') (\<lambda>s. s AND push_bit 1 1 \<noteq> 0)) (\<lambda>_. reg_get b (MMC ''RDR''))"

text \<open>
  The words are stored from the end of the buffer, each with its bytes reversed. The loop counter is
  a byte.
\<close>

definition read_reverse_step :: "'h mmio \<Rightarrow> u32 \<Rightarrow> u8 \<times> u8 list \<Rightarrow> ('h, u8 \<times> u8 list + u8 list) io" where
  "read_reverse_step b word_count = (\<lambda>(i, buffer).
     if \<not> ucast i < word_count then leave buffer
     else
       io_bind (mmc_read_data b) (\<lambda>reg.
       let pos = (\<lambda>k. unat (4 * word_count - 1 - (4 * ucast i + k)))
       in io_bind (io_res (
            rbind (array_set buffer (pos 0) (ucast reg)) (\<lambda>buf.
            rbind (array_set buf (pos 1) (ucast (drop_bit 8 reg))) (\<lambda>buf.
            rbind (array_set buf (pos 2) (ucast (drop_bit 16 reg))) (\<lambda>buf.
              array_set buf (pos 3) (ucast (drop_bit 24 reg))))))) (\<lambda>buf.
          again (i + 1, buf))))"

definition mmc_read_data_reverse :: "'h mmio \<Rightarrow> u8 list \<Rightarrow> u32 \<Rightarrow> ('h, u8 list) io" where
  "mmc_read_data_reverse b buffer word_count = repeat_io (read_reverse_step b word_count) (0, buffer)"

definition mmc_write_data :: "'h mmio \<Rightarrow> u32 \<Rightarrow> ('h, unit) io" where
  "mmc_write_data b data =
     io_bind (reg_wait b (MMC ''SR'') (\<lambda>s. s AND push_bit 2 1 \<noteq> 0)) (\<lambda>_. reg_set b (MMC ''TDR'') data)"

definition mmc_read_status :: "'h mmio \<Rightarrow> ('h, u32) io" where
  "mmc_read_status b = reg_get b (MMC ''SR'')"

end
