(* ===== verification/Sd_Protocol.thy ===== *)
theory Sd_Protocol
  imports Mmc Disk_Io
begin

text \<open>
  The SD card protocol \<^verbatim>\<open>disk/sd_protocol.c\<close>: the card's descriptor \<^verbatim>\<open>slot_1\<close>, one operation per command,
  the decoding of the capacity register, the initialization sequence, and block transfers, on the
  controller driver. \<open>sd_card_ops\<close> is the interface of \<open>Disk_Io\<close> the kernel uses. Messages to the
  console are not modelled.
\<close>

record sd_card =
  rca :: u32
  cid_name :: "u8 list"
  initialized :: u8
  high_capacity :: u8
  four_bit_bus_support :: u8
  past_v1_10 :: u8
  high_speed :: u8
  kib_size :: u32
  block_count :: u32

record 'h sd =
  sd_hw :: 'h
  slot_1 :: sd_card

definition slot_0 :: sd_card where
  "slot_0 = \<lparr>rca = 0, cid_name = replicate 6 0, initialized = 0, high_capacity = 0, four_bit_bus_support = 0,
     past_v1_10 = 0, high_speed = 0, kib_size = 0, block_count = 0\<rparr>"

abbreviation on_mmc :: "('h, 'a) io \<Rightarrow> ('h sd, 'a) io" where
  "on_mmc \<equiv> io_zoom sd_hw sd_hw_update"

abbreviation upd_slot :: "(sd_card \<Rightarrow> sd_card) \<Rightarrow> ('h sd, unit) io" where
  "upd_slot f \<equiv> io_update (\<lambda>s. s\<lparr>slot_1 := f (slot_1 s)\<rparr>)"

section \<open>Response types\<close>

definition SD_RESP_1 :: u32 where "SD_RESP_1 = MMC_CMD_EXT_LATENCY OR MMC_CMD_RESP48"
definition SD_RESP_1b :: u32 where "SD_RESP_1b = MMC_CMD_EXT_LATENCY OR MMC_CMD_R1b"
definition SD_RESP_2 :: u32 where "SD_RESP_2 = MMC_CMD_EXT_LATENCY OR MMC_CMD_RESP136"
definition SD_RESP_3 :: u32 where "SD_RESP_3 = MMC_CMD_EXT_LATENCY OR MMC_CMD_RESP48"
definition SD_RESP_6 :: u32 where "SD_RESP_6 = MMC_CMD_EXT_LATENCY OR MMC_CMD_RESP48"
definition SD_RESP_7 :: u32 where "SD_RESP_7 = MMC_CMD_EXT_LATENCY OR MMC_CMD_RESP48"

lemmas sd_cmd_defs = SD_RESP_1_def SD_RESP_1b_def SD_RESP_2_def SD_RESP_3_def SD_RESP_6_def SD_RESP_7_def
  mmc_cmd_defs

section \<open>Commands\<close>

definition flag_of :: "u8 \<Rightarrow> u8" where
  "flag_of status = (if status \<noteq> 0 then 1 else 0)"

definition sd_boot :: "'h mmio \<Rightarrow> ('h sd, u8) io" where
  "sd_boot b = io_bind (on_mmc (mmc_send_cmd b (MMC_CMD_INIT OR MMC_CMD_OPEN_DRAIN) 0 1)) (io_return \<circ> flag_of)"

definition sd_exec_cmd_0 :: "'h mmio \<Rightarrow> ('h sd, u8) io" where
  "sd_exec_cmd_0 b = io_bind (on_mmc (mmc_send_cmd b (MMC_CMD_OPEN_DRAIN OR 0) 0 1)) (io_return \<circ> flag_of)"

text \<open>\<open>None\<close> is the return value 0; otherwise the 16 bytes of the register.\<close>

definition sd_exec_cmd_2 :: "'h mmio \<Rightarrow> ('h sd, u8 list option) io" where
  "sd_exec_cmd_2 b =
     io_bind (on_mmc (mmc_send_cmd b (SD_RESP_2 OR MMC_CMD_OPEN_DRAIN OR 2) 0 1)) (\<lambda>st.
     if st = 0 then io_return None
     else
       io_bind (on_mmc (mmc_read_resp136 b)) (\<lambda>cid.
       io_then (for_io (\<lambda>i _.
           io_bind (io_res (array_get cid (12 - i))) (\<lambda>c.
           io_bind (io_gets (cid_name \<circ> slot_1)) (\<lambda>nm.
           io_bind (io_res (array_set nm i c)) (\<lambda>nm'. upd_slot (\<lambda>s. s\<lparr>cid_name := nm'\<rparr>))))) [0..<6] ())
         (io_return (Some cid))))"

definition sd_exec_cmd_3 :: "'h mmio \<Rightarrow> ('h sd, u8) io" where
  "sd_exec_cmd_3 b =
     io_bind (on_mmc (mmc_send_cmd b (SD_RESP_6 OR MMC_CMD_OPEN_DRAIN OR 3) 0 1)) (\<lambda>st.
     if st = 0 then io_return 0
     else
       io_bind (on_mmc (mmc_read_resp48 b)) (\<lambda>resp.
       io_then (upd_slot (\<lambda>s. s\<lparr>rca := drop_bit 16 resp AND 0xFFFF\<rparr>)) (io_return 1)))"

definition sd_exec_cmd_8 :: "'h mmio \<Rightarrow> u8 \<Rightarrow> ('h sd, u8) io" where
  "sd_exec_cmd_8 b vhs =
     (let arg = push_bit 8 (ucast vhs AND 0xF) OR 0xAA in
     io_bind (on_mmc (mmc_send_cmd b (SD_RESP_7 OR MMC_CMD_OPEN_DRAIN OR 8) arg 1)) (\<lambda>st.
     if st = 0 then io_return 0
     else io_bind (on_mmc (mmc_read_resp48 b)) (\<lambda>resp. io_return (if resp AND 0xFFF = arg then 1 else 0))))"

text \<open>Switching to high speed. Bit 31 of the argument is clear: the card is only asked, not switched.\<close>

definition sd_exec_cmd_6 :: "'h mmio \<Rightarrow> ('h sd, u8) io" where
  "sd_exec_cmd_6 b =
     io_then (upd_slot (\<lambda>s. s\<lparr>high_speed := 0\<rparr>))
     (io_bind (on_mmc (mmc_send_adtc b (SD_RESP_1 OR MMC_CMD_SINGLE OR MMC_CMD_START_DATA OR MMC_CMD_READ OR 6)
         (push_bit 31 0 OR push_bit 12 0xF OR push_bit 8 0xF OR push_bit 4 0xF OR 0) 64 1 1)) (\<lambda>st.
     if st = 0 then io_return 0
     else
       io_bind (on_mmc (mmc_read_data_reverse b (replicate 64 0) 16)) (\<lambda>buffer.
       io_bind (on_mmc (mmc_read_resp48 b)) (\<lambda>resp.
       if resp AND push_bit 7 1 \<noteq> 0 then io_return 0
       else
         io_bind (io_res (array_get buffer 35)) (\<lambda>b35.
         io_bind (io_res (array_get buffer 34)) (\<lambda>b34.
         if (push_bit 8 (ucast b35) OR ucast b34 :: u32) \<noteq> 0 then io_return 0
         else
           io_bind (io_res (array_get buffer 47)) (\<lambda>b47.
           if b47 AND 0xF = 0xF then io_then (upd_slot (\<lambda>s. s\<lparr>high_speed := 0\<rparr>)) (io_return 1)
           else io_then (upd_slot (\<lambda>s. s\<lparr>high_speed := 1\<rparr>)) (io_return 1))))))))"

abbreviation rca_arg :: "('h sd, u32) io" where
  "rca_arg \<equiv> io_gets (\<lambda>s. push_bit 16 (rca (slot_1 s)))"

definition sd_exec_cmd_7 :: "'h mmio \<Rightarrow> ('h sd, u8) io" where
  "sd_exec_cmd_7 b =
     io_bind rca_arg (\<lambda>arg. io_bind (on_mmc (mmc_send_cmd b (SD_RESP_1b OR 7) arg 1)) (io_return \<circ> flag_of))"

definition sd_exec_cmd_9 :: "'h mmio \<Rightarrow> ('h sd, u8 list option) io" where
  "sd_exec_cmd_9 b =
     io_bind rca_arg (\<lambda>arg.
     io_bind (on_mmc (mmc_send_cmd b (SD_RESP_2 OR 9) arg 1)) (\<lambda>st.
     if st = 0 then io_return None else io_bind (on_mmc (mmc_read_resp136 b)) (io_return \<circ> Some)))"

definition sd_exec_cmd_55 :: "'h mmio \<Rightarrow> ('h sd, u8) io" where
  "sd_exec_cmd_55 b =
     io_bind rca_arg (\<lambda>arg. io_bind (on_mmc (mmc_send_cmd b (SD_RESP_1 OR 55) arg 1)) (io_return \<circ> flag_of))"

text \<open>The poll for the end of the card's start-up, at most 1000 times.\<close>

definition acmd_41_step :: "'h mmio \<Rightarrow> u32 \<Rightarrow> u32 \<Rightarrow> ('h sd, u32 + u8) io" where
  "acmd_41_step b arg timeout =
     (if timeout = 0 then leave 0
      else
        io_bind (sd_exec_cmd_55 b) (\<lambda>st.
        if st = 0 then leave 0
        else
          io_bind (on_mmc (mmc_send_cmd b (SD_RESP_3 OR MMC_CMD_OPEN_DRAIN OR 41) arg 0)) (\<lambda>st.
          if st = 0 then leave 0
          else
            io_bind (on_mmc (mmc_read_resp48 b)) (\<lambda>resp.
            if resp AND push_bit 31 1 \<noteq> 0 then
              (if resp AND push_bit 15 3 \<noteq> push_bit 15 3 then leave 0
               else io_then (upd_slot (\<lambda>s. s\<lparr>high_capacity := if resp AND push_bit 30 1 \<noteq> 0 then 1 else 0\<rparr>)) (leave 1))
            else again (timeout - 1)))))"

definition sd_exec_acmd_41 :: "'h mmio \<Rightarrow> u8 \<Rightarrow> ('h sd, u8) io" where
  "sd_exec_acmd_41 b cmd8_resp =
     repeat_io (acmd_41_step b (if cmd8_resp \<noteq> 0 then push_bit 20 3 OR push_bit 30 1 else push_bit 20 3)) 1000"

text \<open>Waiting until the card is ready for data: bit 8 of its status.\<close>

definition cmd_13_step :: "'h mmio \<Rightarrow> u32 \<Rightarrow> ('h sd, u32 + u8) io" where
  "cmd_13_step b timeout =
     io_bind rca_arg (\<lambda>arg.
     io_bind (on_mmc (mmc_send_cmd b (SD_RESP_1 OR 13) arg 1)) (\<lambda>st.
     if st = 0 then leave 0
     else if timeout \<le> 1 then leave 0
     else
       io_bind (on_mmc (mmc_read_resp48 b)) (\<lambda>status.
       if status AND push_bit 8 1 = 0 then again (timeout - 1) else leave 1)))"

definition sd_exec_cmd_13 :: "'h mmio \<Rightarrow> ('h sd, u8) io" where
  "sd_exec_cmd_13 b = repeat_io (cmd_13_step b) 200000"

definition sd_exec_acmd_51 :: "'h mmio \<Rightarrow> ('h sd, u8) io" where
  "sd_exec_acmd_51 b =
     io_bind (sd_exec_cmd_55 b) (\<lambda>st.
     if st = 0 then io_return 0
     else
       io_bind (on_mmc (mmc_send_adtc b (SD_RESP_1 OR MMC_CMD_READ OR MMC_CMD_START_DATA OR MMC_CMD_BYTE OR 51) 0 8 1 1)) (\<lambda>st.
       if st = 0 then io_return 0
       else
         io_bind (on_mmc (mmc_read_data_reverse b (replicate 8 0) 2)) (\<lambda>csr.
         io_bind (io_res (array_get csr 6)) (\<lambda>c6.
         io_bind (io_res (array_get csr 7)) (\<lambda>c7.
         io_then (upd_slot (\<lambda>s. s\<lparr>four_bit_bus_support := if drop_bit 2 c6 AND 1 = 1 then 1 else 0\<rparr>))
         (io_then (if c7 AND 0xF \<noteq> 0 then upd_slot (\<lambda>s. s\<lparr>past_v1_10 := 1\<rparr>) else io_return ())
         (io_return 1)))))))"

definition sd_exec_acmd_6 :: "'h mmio \<Rightarrow> u8 \<Rightarrow> ('h sd, u8) io" where
  "sd_exec_acmd_6 b bus_width =
     io_bind (sd_exec_cmd_55 b) (\<lambda>st.
     if st = 0 then io_return 0
     else
       io_bind (on_mmc (mmc_send_cmd b (SD_RESP_1 OR 6) (ucast bus_width AND 3) 1)) (\<lambda>st.
       if st = 0 then io_return 0
       else io_bind (on_mmc (mmc_read_resp48 b)) (\<lambda>status.
         io_return (if status AND 0xFFF80000 \<noteq> 0 then 0 else 1))))"

section \<open>Capacity\<close>

definition csd_v1_size :: "u8 list \<Rightarrow> u32" where
  "csd_v1_size csd =
     (let c_size = (drop_bit 6 (ucast (csd ! 7)) AND 3) OR push_bit 2 (ucast (csd ! 8)) OR push_bit 10 (ucast (csd ! 9) AND 3);
          c_size_mult = push_bit 1 (ucast (csd ! 6) AND 3) OR (drop_bit 7 (ucast (csd ! 5)) AND 1) :: u32;
          read_bl_len = ucast (csd ! 10) AND 0xF :: u32
      in ((c_size + 1) * push_bit (unat (c_size_mult + 2)) 1 * push_bit (unat read_bl_len) 1) div 1000)"

definition csd_v2_size :: "u8 list \<Rightarrow> u32" where
  "csd_v2_size csd =
     (push_bit 16 (ucast (csd ! 8) AND 0x3F) OR push_bit 8 (ucast (csd ! 7)) OR ucast (csd ! 6)) * 512"

definition csd_decode :: "u8 list \<Rightarrow> ('h sd, unit) io" where
  "csd_decode csd =
     (if length csd < 16 then io_fail OutOfBounds
      else
        (let csd_structure = drop_bit 6 (csd ! 15) AND 3
         in if csd_structure = 0 then upd_slot (\<lambda>s. s\<lparr>kib_size := csd_v1_size csd\<rparr>)
            else if csd_structure = 1 then upd_slot (\<lambda>s. s\<lparr>kib_size := csd_v2_size csd\<rparr>)
            else io_panic ''CSD structure error''))"

section \<open>Initialization\<close>

definition or_panic :: "string \<Rightarrow> ('s, u8) io \<Rightarrow> ('s, unit) io" where
  "or_panic reason m = io_bind m (\<lambda>st. if st = 0 then io_panic reason else io_return ())"

definition card_identify :: "'h mmio \<Rightarrow> ('h sd, unit) io" where
  "card_identify b =
     io_then (or_panic ''SD boot failed'' (sd_boot b))
     (io_then (or_panic ''CMD0 failed'' (sd_exec_cmd_0 b))
     (io_bind (sd_exec_cmd_8 b 1) (\<lambda>cmd8_status.
     io_then (or_panic ''ACMD41 failed'' (sd_exec_acmd_41 b cmd8_status))
     (io_bind (sd_exec_cmd_2 b) (\<lambda>cid.
     if cid = None then io_panic ''Can't retrieve CID register''
     else or_panic ''Can't retrieve RCA address'' (sd_exec_cmd_3 b))))))"

definition bus_setup :: "'h mmio \<Rightarrow> ('h sd, unit) io" where
  "bus_setup b =
     io_bind (io_gets slot_1) (\<lambda>s.
     io_then (if four_bit_bus_support s \<noteq> 0 then
                io_then (or_panic ''Can't set 4-bit bus width'' (sd_exec_acmd_6 b 2))
                  (on_mmc (mmc_set_bus_width b MMC_4_LANES))
              else io_return ())
     (if past_v1_10 s \<noteq> 0 then
        io_then (or_panic ''CMD6 failed'' (sd_exec_cmd_6 b))
        (io_bind (io_gets slot_1) (\<lambda>s.
          if high_speed s \<noteq> 0 then
            io_then (on_mmc (mmc_enable_high_speed b)) (on_mmc (mmc_set_bus_freq b 50000000))
          else on_mmc (mmc_set_bus_freq b 25000000)))
      else io_return ()))"

definition sd_protocol_init :: "'h mmio \<Rightarrow> ('h sd, unit) io" where
  "sd_protocol_init b =
     io_then (on_mmc (peripheral_clock_enable b 18))
     (io_then (on_mmc (mmc_reset b))
     (io_then (on_mmc (mmc_init b))
     (io_then (on_mmc (mmc_set_bus_width b MMC_1_LANE))
     (io_then (on_mmc (mmc_set_bus_freq b 400000))
     (io_then (on_mmc (mmc_enable b))
     (io_then (upd_slot (\<lambda>s. s\<lparr>rca := 0\<rparr>))
     (io_then (card_identify b)
     (io_bind (sd_exec_cmd_9 b) (\<lambda>csd.
      case csd of None \<Rightarrow> io_panic ''Retrieve CSD failed''
      | Some csd \<Rightarrow>
          io_then (csd_decode csd)
          (io_then (or_panic ''CMD7 failed'' (sd_exec_cmd_7 b))
          (io_then (or_panic ''ACMD51 failed'' (sd_exec_acmd_51 b))
          (bus_setup b))))))))))))"

section \<open>Block transfers\<close>

definition block_arg :: "sd_card \<Rightarrow> u32 \<Rightarrow> u32" where
  "block_arg s sector = (if high_capacity s \<noteq> 0 then sector else sector * 512)"

definition read_word :: "'h mmio \<Rightarrow> nat \<Rightarrow> nat \<Rightarrow> u8 list \<Rightarrow> ('h sd, u8 list) io" where
  "read_word b i j buf = io_bind (on_mmc (mmc_read_data b)) (\<lambda>w. io_res (store_word buf (512 * i + 4 * j) w))"

definition read_block :: "'h mmio \<Rightarrow> u32 \<Rightarrow> nat \<Rightarrow> u8 list \<Rightarrow> ('h sd, u8 list) io" where
  "read_block b sector i buf =
     io_then (or_panic ''Card is not ready'' (sd_exec_cmd_13 b))
     (io_bind (io_gets slot_1) (\<lambda>s.
     io_bind (on_mmc (mmc_send_adtc b (MMC_CMD_SINGLE OR MMC_CMD_START_DATA OR MMC_CMD_READ OR SD_RESP_1 OR 17)
        (block_arg s (sector + of_nat i)) 512 1 1)) (\<lambda>_.
     io_bind (for_io (read_word b i) [0..<128] buf) (\<lambda>buf'.
     io_bind (on_mmc (mmc_read_resp48 b)) (\<lambda>status.
     if status AND 0xFFF80000 \<noteq> 0 then io_panic ''Write error'' else io_return buf')))))"

definition sd_read :: "'h mmio \<Rightarrow> u32 \<Rightarrow> u32 \<Rightarrow> u8 list \<Rightarrow> ('h sd, u8 \<times> u8 list) io" where
  "sd_read b sector count buffer =
     io_bind (io_gets slot_1) (\<lambda>s.
     if sector + count > kib_size s * 2 then io_panic ''Block size wrong''
     else io_bind (for_io (read_block b sector) [0..<unat count] buffer) (\<lambda>buf. io_return (1, buf)))"

definition write_block :: "'h mmio \<Rightarrow> u32 \<Rightarrow> u8 list \<Rightarrow> nat \<Rightarrow> unit \<Rightarrow> ('h sd, unit) io" where
  "write_block b sector buffer i _ =
     io_bind (io_gets slot_1) (\<lambda>s.
     io_bind (on_mmc (mmc_send_adtc b (MMC_CMD_SINGLE OR MMC_CMD_START_DATA OR MMC_CMD_WRITE OR SD_RESP_1 OR 24)
        (block_arg s (sector + of_nat i)) 512 1 1)) (\<lambda>_.
     io_then (for_io (\<lambda>j _. io_bind (io_res (load_word buffer (512 * i + 4 * j))) (\<lambda>w. on_mmc (mmc_write_data b w))) [0..<128] ())
     (io_bind (on_mmc (mmc_read_resp48 b)) (\<lambda>status.
     if status AND 0xFFF80000 \<noteq> 0 then io_panic ''Read error''
     else on_mmc (wait_bit b (MMC ''SR'') 5)))))"

text \<open>The function panics before it does anything.\<close>

definition sd_write :: "'h mmio \<Rightarrow> u32 \<Rightarrow> u32 \<Rightarrow> u8 list \<Rightarrow> ('h sd, u8) io" where
  "sd_write b sector count buffer =
     io_then (io_panic ''Watch it'')
     (io_then (for_io (write_block b sector buffer) [0..<unat count] ()) (io_return 1))"

definition sd_card_ops :: "'h mmio \<Rightarrow> 'h sd sd_ops" where
  "sd_card_ops b = \<lparr>op_is_connected = on_mmc (sd_is_connected b), op_init = sd_protocol_init b,
     op_read = sd_read b, op_write = sd_write b\<rparr>"

end
