(* ===== verification/Sd_Card.thy ===== *)
theory Sd_Card
  imports Sd_Protocol Fat_Files
begin

text \<open>
  The SD protocol as a block device. \<open>card_contract\<close> states what the controller and an initialized card
  do at the registers the read path touches, as their documentation describes them; the hardware itself
  is the parameter \<open>b\<close>. From it, \<^verbatim>\<open>sd_read\<close> returns the block the card stores at the address, which is the
  interface \<open>block_device\<close> the file system is verified against.
\<close>

section \<open>The contract of the controller\<close>

text \<open>
  \<open>Sending ws\<close>: a block transfer is under way and the words \<open>ws\<close> are still to be read from the data
  register. A controller in a state \<open>Unspecified\<close> may do anything.
\<close>

datatype card_phase = Unspecified | Ready | Sending "u32 list"

definition CMD13 :: u32 where
  "CMD13 = SD_RESP_1 OR 13"

definition CMD17 :: u32 where
  "CMD17 = MMC_CMD_SINGLE OR MMC_CMD_START_DATA OR MMC_CMD_READ OR SD_RESP_1 OR 17"

text \<open>
  Reading the status either shows the controller ready, for a transfer with a word in the data
  register, or brings it closer to that: \<open>delay\<close> bounds the number of reads. The status never shows an
  error. A status command keeps a ready card ready; a read command starts the transfer of the block at
  the address in the argument register; the response says that the card is ready for data.
\<close>

definition status_contract :: "'h mmio \<Rightarrow> ('h \<Rightarrow> card_phase) \<Rightarrow> ('h \<Rightarrow> nat) \<Rightarrow> bool" where
  "status_contract b ph delay \<longleftrightarrow> (\<forall>h v h'. ph h \<noteq> Unspecified \<longrightarrow> bus_read b (MMC ''SR'') h = (v, h') \<longrightarrow>
     ph h' = ph h \<and> v AND 0x21FF0000 = 0
     \<and> (delay h' < delay h \<or> v AND 1 \<noteq> 0 \<and> (ph h = Ready \<or> v AND 2 \<noteq> 0)))"

definition setup_contract :: "'h mmio \<Rightarrow> ('h \<Rightarrow> card_phase) \<Rightarrow> ('h \<Rightarrow> u32) \<Rightarrow> bool" where
  "setup_contract b ph arg \<longleftrightarrow> (\<forall>h v. ph h \<noteq> Unspecified \<longrightarrow>
     ph (bus_write b (MMC ''MR'') v h) = ph h \<and> ph (bus_write b (MMC ''BLKR'') v h) = ph h
     \<and> ph (snd (bus_read b (MMC ''MR'') h)) = ph h
     \<and> ph (bus_write b (MMC ''ARG'') v h) = ph h \<and> arg (bus_write b (MMC ''ARG'') v h) = v)"

definition command_contract :: "'h mmio \<Rightarrow> (u32 \<Rightarrow> u32 list) \<Rightarrow> ('h \<Rightarrow> card_phase) \<Rightarrow> ('h \<Rightarrow> u32) \<Rightarrow> bool" where
  "command_contract b blocks ph arg \<longleftrightarrow> (\<forall>h. ph h = Ready \<longrightarrow>
     ph (bus_write b (MMC ''CMD'') CMD13 h) = Ready \<and> ph (bus_write b (MMC ''CMD'') CMD17 h) = Sending (blocks (arg h)))"

definition data_contract :: "'h mmio \<Rightarrow> ('h \<Rightarrow> card_phase) \<Rightarrow> bool" where
  "data_contract b ph \<longleftrightarrow> (\<forall>h w ws v h'. ph h = Sending (w # ws) \<longrightarrow> bus_read b (MMC ''RDR'') h = (v, h') \<longrightarrow>
     v = w \<and> ph h' = (if ws = [] then Ready else Sending ws))"

definition response_contract :: "'h mmio \<Rightarrow> ('h \<Rightarrow> card_phase) \<Rightarrow> bool" where
  "response_contract b ph \<longleftrightarrow> (\<forall>h v h'. ph h \<noteq> Unspecified \<longrightarrow> bus_read b (reg_elem (MMC ''RESP'') 0) h = (v, h') \<longrightarrow>
     ph h' = ph h \<and> v AND 0xFFF80000 = 0 \<and> v AND 0x100 \<noteq> 0)"

definition card_contract ::
    "'h mmio \<Rightarrow> (u32 \<Rightarrow> u32 list) \<Rightarrow> ('h \<Rightarrow> card_phase) \<Rightarrow> ('h \<Rightarrow> u32) \<Rightarrow> ('h \<Rightarrow> nat) \<Rightarrow> bool" where
  "card_contract b blocks ph arg delay \<longleftrightarrow> status_contract b ph delay \<and> setup_contract b ph arg
     \<and> command_contract b blocks ph arg \<and> data_contract b ph \<and> response_contract b ph
     \<and> (\<forall>a. length (blocks a) = 128)"

definition le_bytes :: "u32 \<Rightarrow> u8 list" where
  "le_bytes w = [ucast w, ucast (drop_bit 8 w), ucast (drop_bit 16 w), ucast (drop_bit 24 w)]"

lemma le_bytes_length [simp]: "length (le_bytes w) = 4"
  by (simp add: le_bytes_def)

lemma concat_le_bytes_length [simp]: "length (concat (map le_bytes ws)) = 4 * length ws"
  by (induction ws) simp_all

section \<open>The read path\<close>

lemma cmd_fields:
  "drop_bit 6 CMD13 AND 3 = 1" "drop_bit 6 CMD17 AND 3 = 1" "drop_bit 19 CMD17 AND 7 = 0"
  by (simp_all add: CMD13_def CMD17_def sd_cmd_defs)

lemma status_bits:
  fixes v :: u32
  assumes "v AND 0x21FF0000 = 0"
  shows "v AND CMD_ERRORS = 0" "v AND 0x21FB0000 = 0" "v AND 0x40000 = 0"
proof -
  have "v AND CMD_ERRORS = (v AND 0x21FF0000) AND CMD_ERRORS" by (simp add: CMD_ERRORS_def and.assoc)
  then show "v AND CMD_ERRORS = 0" using assms by simp
  have "v AND 0x21FB0000 = (v AND 0x21FF0000) AND 0x21FB0000" by (simp add: and.assoc)
  then show "v AND 0x21FB0000 = 0" using assms by simp
  have "v AND 0x40000 = (v AND 0x21FF0000) AND 0x40000" by (simp add: and.assoc)
  then show "v AND 0x40000 = 0" using assms by simp
qed

text \<open>One read of the status register.\<close>

lemma status_read:
  assumes "card_contract b blocks ph arg delay" "ph h \<noteq> Unspecified" "bus_read b (MMC ''SR'') h = (v, h')"
  shows "ph h' = ph h" "v AND 0x21FF0000 = 0" "delay h' < delay h \<or> v AND 1 \<noteq> 0 \<and> (ph h = Ready \<or> v AND 2 \<noteq> 0)"
  using assms unfolding card_contract_def status_contract_def by blast+

lemma status_wait:
  assumes contract: "card_contract b blocks ph arg delay" and "ph h \<noteq> Unspecified"
    and "\<And>v. v AND 1 \<noteq> 0 \<Longrightarrow> ph h = Ready \<or> v AND 2 \<noteq> 0 \<Longrightarrow> ready v"
  shows "achieves (reg_wait b (MMC ''SR'') ready) (\<lambda>v h'. v AND 0x21FF0000 = 0 \<and> ph h' = ph h) h"
  unfolding reg_wait_def
proof (rule achieves_repeat [where I = "\<lambda>_ h'. ph h' = ph h" and f = "\<lambda>_. delay"])
  fix c h1 assume h1: "ph h1 = ph h"
  obtain v h2 where sr: "bus_read b (MMC ''SR'') h1 = (v, h2)" by (cases "bus_read b (MMC ''SR'') h1")
  note st = status_read [OF contract _ sr, unfolded h1, OF assms(2)]
  show "achieves (io_bind (reg_get b (MMC ''SR'')) (\<lambda>v. if ready v then leave v else again ()))
      (\<lambda>v t. case v of Inl c' \<Rightarrow> ph t = ph h \<and> delay t < delay h1 | Inr r \<Rightarrow> r AND 0x21FF0000 = 0 \<and> ph t = ph h) h1"
  proof (cases "ready v")
    case True
    then show ?thesis using st by (simp add: achieves_simps sr)
  next
    case False
    then have "delay h2 < delay h1" using st(3) assms(3) by blast
    then show ?thesis using False st by (simp add: achieves_simps sr)
  qed
qed simp

lemma cmd_wait:
  assumes contract: "card_contract b blocks ph arg delay" and "ph h = Ready"
  shows "achieves (repeat_io (cmd_step b 1) ()) (\<lambda>_ h'. ph h' = Ready) h"
proof (rule achieves_repeat [where I = "\<lambda>_ h'. ph h' = Ready" and f = "\<lambda>_. delay"])
  fix c h1 assume h1: "ph h1 = Ready"
  obtain v h2 where sr: "bus_read b (MMC ''SR'') h1 = (v, h2)" by (cases "bus_read b (MMC ''SR'') h1")
  note st = status_read [OF contract _ sr, unfolded h1, simplified]
  note bits = status_bits [OF st(2)]
  show "achieves (cmd_step b 1 c)
      (\<lambda>v t. case v of Inl c' \<Rightarrow> ph t = Ready \<and> delay t < delay h1 | Inr r \<Rightarrow> ph t = Ready) h1"
    using st bits by (cases "v AND 1 = 0") (simp_all add: cmd_step_def achieves_simps sr)
qed (use assms(2) in simp)

text \<open>The status command returns 1 and leaves the card ready; its response says so.\<close>

lemma send_cmd13:
  assumes contract: "card_contract b blocks ph arg delay" and "ph h = Ready"
  shows "achieves (mmc_send_cmd b CMD13 a 1) (\<lambda>st h'. st = 1 \<and> ph h' = Ready) h"
proof -
  have "ph (bus_write b (MMC ''CMD'') CMD13 (bus_write b (MMC ''ARG'') a h)) = Ready"
    using contract assms(2) unfolding card_contract_def setup_contract_def command_contract_def by simp
  then show ?thesis
    unfolding mmc_send_cmd_def achieves_then achieves_reg_set
    by (rule achieves_mono [OF cmd_wait [OF contract]]) (simp add: wait_not_busy_def cmd_fields achieves_simps)
qed

lemma resp_read:
  assumes "card_contract b blocks ph arg delay" "ph h \<noteq> Unspecified" "bus_read b (reg_elem (MMC ''RESP'') 0) h = (v, h')"
  shows "ph h' = ph h" "v AND 0xFFF80000 = 0" "v AND 0x100 \<noteq> 0"
  using assms unfolding card_contract_def response_contract_def by blast+

lemma exec_cmd13:
  assumes contract: "card_contract b blocks ph arg delay" and "ph (sd_hw s) = Ready"
  shows "achieves (sd_exec_cmd_13 b) (\<lambda>st (t :: 'a sd). st = 1 \<and> slot_1 t = slot_1 s \<and> ph (sd_hw t) = Ready) s"
  unfolding sd_exec_cmd_13_def
proof (rule achieves_repeat [where I = "\<lambda>c t. c = 200000 \<and> slot_1 t = slot_1 s \<and> ph (sd_hw t) = Ready" and f = "\<lambda>_ _. 0"])
  fix c and t :: "'a sd" assume t: "c = (200000 :: u32) \<and> slot_1 t = slot_1 s \<and> ph (sd_hw t) = Ready"
  have resp: "v AND push_bit 8 1 \<noteq> 0 \<and> ph h' = Ready"
    if "ph h = Ready" "bus_read b (reg_elem (MMC ''RESP'') 0) h = (v, h')" for h v h'
    using resp_read [OF contract _ that(2)] that(1) by simp
  have c: "c \<noteq> 0" "\<not> c \<le> 1" using t by (simp_all add: word_le_nat_alt)
  show "achieves (cmd_13_step b c) (\<lambda>v t'. case v of
      Inl c' \<Rightarrow> (c' = 200000 \<and> slot_1 t' = slot_1 s \<and> ph (sd_hw t') = Ready) \<and> (0 :: nat) < 0
    | Inr st \<Rightarrow> st = 1 \<and> slot_1 t' = slot_1 s \<and> ph (sd_hw t') = Ready) t"
    unfolding cmd_13_step_def achieves_bind achieves_gets CMD13_def [symmetric] achieves_zoom
  proof (rule achieves_mono [OF send_cmd13 [OF contract]])
    fix st :: u8 and h assume st: "st = 1 \<and> ph h = Ready"
    obtain v h' where r: "bus_read b (reg_elem (MMC ''RESP'') 0) h = (v, h')" by (cases "bus_read b (reg_elem (MMC ''RESP'') 0) h")
    show "achieves (if st = 0 then leave 0 else if c \<le> 1 then leave 0 else
        io_bind (on_mmc (mmc_read_resp48 b)) (\<lambda>status. if status AND push_bit 8 1 = 0 then again (c - 1) else leave 1))
      (\<lambda>v t'. case v of
        Inl c' \<Rightarrow> (c' = 200000 \<and> slot_1 t' = slot_1 s \<and> ph (sd_hw t') = Ready) \<and> (0 :: nat) < 0
      | Inr st \<Rightarrow> st = 1 \<and> slot_1 t' = slot_1 s \<and> ph (sd_hw t') = Ready) (sd_hw_update (\<lambda>_. h) t)"
      using st c t resp [OF _ r] by (simp add: achieves_simps mmc_read_resp48_def r)
  qed (use t in simp)
qed (use assms(2) in simp)

text \<open>The read command starts the transfer of the block at its argument.\<close>

lemma send_cmd17:
  assumes contract: "card_contract b blocks ph arg delay" and ready: "ph h = Ready"
  shows "achieves (mmc_send_adtc b CMD17 a 512 1 1) (\<lambda>_ h'. ph h' = Sending (blocks a)) h"
proof -
  note prep = contract [unfolded card_contract_def setup_contract_def]
  have mr: "achieves (reg_or b (MMC ''MR'') x) (\<lambda>_ h'. ph h' = Ready) h1"
    "achieves (reg_and b (MMC ''MR'') x) (\<lambda>_ h'. ph h' = Ready) h1" if "ph h1 = Ready" for x h1
  proof -
    have "ph (bus_write b (MMC ''MR'') w (snd (bus_read b (MMC ''MR'') h1))) = Ready" for w
      using prep that by simp
    then show "achieves (reg_or b (MMC ''MR'') x) (\<lambda>_ h'. ph h' = Ready) h1"
      "achieves (reg_and b (MMC ''MR'') x) (\<lambda>_ h'. ph h' = Ready) h1"
      by (simp_all add: reg_or_def reg_and_def achieves_simps split: prod.split) (metis snd_conv)+
  qed
  have start: "ph (bus_write b (MMC ''CMD'') CMD17 (bus_write b (MMC ''ARG'') a (bus_write b (MMC ''BLKR'') x h1))) = Sending (blocks a)"
    if "ph h1 = Ready" for h1 x
    using contract that unfolding card_contract_def setup_contract_def command_contract_def by simp
  have rest: "achieves
     (io_then (if drop_bit 19 CMD17 AND 7 = 4 then reg_set b (MMC ''BLKR'') ((512 mod 512) AND 0xFFFF)
               else reg_set b (MMC ''BLKR'') (push_bit 16 512 OR (1 AND 0xFFFF)))
     (io_then (reg_set b (MMC ''ARG'') a)
     (io_then (reg_set b (MMC ''CMD'') CMD17)
     (io_bind (reg_wait b (MMC ''SR'') (\<lambda>s. s AND 1 \<noteq> 0)) (\<lambda>status.
      if status AND 0x21FB0000 \<noteq> 0 then io_panic ''CMD failed''
      else if (1 :: u8) \<noteq> 0 \<and> status AND push_bit 18 1 \<noteq> 0 then io_panic ''CMD failed CRC error''
      else wait_not_busy b CMD17))))) (\<lambda>_ h'. ph h' = Sending (blocks a)) h1" if "ph h1 = Ready" for h1
  proof -
    have four: "(0 :: u32) \<noteq> 4" by simp
    show ?thesis
      unfolding cmd_fields if_not_P [OF four] achieves_then achieves_reg_set achieves_bind
      by (rule achieves_mono [OF status_wait [OF contract]])
        (auto simp: start [OF that] status_bits wait_not_busy_def cmd_fields achieves_simps)
  qed
  show ?thesis
    unfolding mmc_send_adtc_def
    by (simp only: io_then_def, rule achieves_bindI [OF mr(1) [OF ready]], rule achieves_bindI [where P = "\<lambda>_ h'. ph h' = Ready"])
      (use mr rest in \<open>simp_all add: io_then_def\<close>)
qed

text \<open>Reading the words of the block.\<close>

definition after_word :: "u32 list \<Rightarrow> card_phase" where
  "after_word ws = (if ws = [] then Ready else Sending ws)"

lemma read_data:
  assumes contract: "card_contract b blocks ph arg delay" and "ph h = Sending (w # ws)"
  shows "achieves (mmc_read_data b) (\<lambda>v h'. v = w \<and> ph h' = after_word ws) h"
  unfolding mmc_read_data_def
proof (rule achieves_bindI [OF status_wait [OF contract]])
  fix v h1 assume "v AND 0x21FF0000 = 0 \<and> ph h1 = ph h"
  then have h1: "ph h1 = Sending (w # ws)" using assms(2) by simp
  obtain v h2 where rdr: "bus_read b (MMC ''RDR'') h1 = (v, h2)" by (cases "bus_read b (MMC ''RDR'') h1")
  have "v = w \<and> ph h2 = after_word ws"
    using contract h1 rdr unfolding card_contract_def data_contract_def after_word_def by blast
  then show "achieves (reg_get b (MMC ''RDR'')) (\<lambda>v h'. v = w \<and> ph h' = after_word ws) h1"
    by (simp add: achieves_reg_get rdr)
qed (use assms(2) in simp_all)

lemma store_word_splice:
  assumes "off + 4 \<le> length buf"
  shows "store_word buf off w = Inr (take off buf @ le_bytes w @ drop (off + 4) buf)"
proof -
  obtain a0 a1 a2 a3 zs where rest: "drop off buf = a0 # a1 # a2 # a3 # zs"
  proof -
    have "Suc (Suc (Suc (Suc 0))) \<le> length (drop off buf)" using assms by simp
    then show ?thesis using that unfolding Suc_le_length_iff by auto
  qed
  define xs where "xs = take off buf"
  have xs: "length xs = off" using assms by (simp add: xs_def)
  have buf: "buf = xs @ a0 # a1 # a2 # a3 # zs" using rest by (metis xs_def append_take_drop_id)
  have upd: "(xs @ a0 # a1 # a2 # a3 # zs)[off := b0, off + 1 := b1, off + 2 := b2, off + 3 := b3] = xs @ b0 # b1 # b2 # b3 # zs"
    for b0 b1 b2 b3
    by (simp add: xs [symmetric] list_update_append numeral_eq_Suc)
  have parts: "take off buf = xs" "drop (off + 4) buf = zs" using xs by (simp_all add: buf)
  show ?thesis unfolding parts using assms xs upd by (simp add: store_word_def le_bytes_def buf)
qed

lemma read_words:
  assumes contract: "card_contract b blocks ph arg delay"
    and ws: "ph (sd_hw s) = Sending ws" "length ws = 128" and buf: "512 * i + 512 \<le> length buf"
  shows "achieves (for_io (read_word b i) [0..<128] buf) (\<lambda>buf' (t :: 'a sd).
      buf' = take (512 * i) buf @ concat (map le_bytes ws) @ drop (512 * i + 512) buf
      \<and> slot_1 t = slot_1 s \<and> ph (sd_hw t) = Ready) s"
proof -
  let ?I = "\<lambda>k buf' (t :: 'a sd). buf' = take (512 * i) buf @ concat (map le_bytes (take k ws)) @ drop (512 * i + 4 * k) buf
      \<and> slot_1 t = slot_1 s \<and> ph (sd_hw t) = after_word (drop k ws)"
  have "achieves (for_io (read_word b i) [0..<128] buf) (?I (length [0..<128])) s"
  proof (rule achieves_for [where I = ?I])
    show "?I 0 buf s" using ws by (auto simp: after_word_def)
  next
    fix k buf' and t :: "'a sd" assume k: "k < length [0..<128]" and I: "?I k buf' t"
    then have ks: "drop k ws = ws ! k # drop (Suc k) ws" using ws(2) by (simp add: Cons_nth_drop_Suc)
    have len: "length buf' = length buf" "512 * i + 4 * k + 4 \<le> length buf" using I k buf ws(2) by auto
    have splice: "store_word buf' (512 * i + 4 * k) (ws ! k)
        = Inr (take (512 * i) buf @ concat (map le_bytes (take (Suc k) ws)) @ drop (512 * i + 4 * Suc k) buf)"
      using I k ws(2) buf len by (simp add: store_word_splice take_Suc_conv_app_nth add.assoc add.commute [of 4])
    show "achieves (read_word b i ([0..<128] ! k) buf') (?I (Suc k)) t"
      unfolding read_word_def achieves_bind achieves_zoom
    proof (rule achieves_mono [OF read_data [OF contract]])
      show "ph (sd_hw t) = Sending (ws ! k # drop (Suc k) ws)" using I ks by (simp add: after_word_def)
    qed (use k splice I in \<open>simp add: achieves_simps\<close>)
  qed
  then show ?thesis by (rule achieves_mono) (use ws(2) in \<open>simp add: after_word_def\<close>)
qed

lemma read_block_spliced:
  assumes contract: "card_contract b blocks ph arg delay"
    and s: "ph (sd_hw s) = Ready" "slot_1 s = sl" and buf: "512 * i + 512 \<le> length buf"
  shows "achieves (read_block b sector i buf) (\<lambda>buf' (t :: 'a sd).
      buf' = take (512 * i) buf @ concat (map le_bytes (blocks (block_arg sl (sector + of_nat i)))) @ drop (512 * i + 512) buf
      \<and> slot_1 t = sl \<and> ph (sd_hw t) = Ready) s"
  unfolding read_block_def CMD17_def [symmetric] io_then_def
proof (rule achieves_bindI [where P = "\<lambda>_ t. slot_1 t = sl \<and> ph (sd_hw t) = Ready"])
  show "achieves (or_panic ''Card is not ready'' (sd_exec_cmd_13 b)) (\<lambda>_ t. slot_1 t = sl \<and> ph (sd_hw t) = Ready) s"
    unfolding or_panic_def by (rule achieves_bindI [OF exec_cmd13 [OF contract s(1)]]) (simp add: s(2) achieves_simps)
next
  fix u and t :: "'a sd" assume t: "slot_1 t = sl \<and> ph (sd_hw t) = Ready"
  let ?ws = "blocks (block_arg sl (sector + of_nat i))"
  let ?done = "\<lambda>buf' (t :: 'a sd). buf' = take (512 * i) buf @ concat (map le_bytes ?ws) @ drop (512 * i + 512) buf
      \<and> slot_1 t = sl \<and> ph (sd_hw t) = Ready"
  have status: "achieves (on_mmc (mmc_read_resp48 b)) (\<lambda>r t. r AND 0xFFF80000 = 0 \<and> slot_1 t = sl \<and> ph (sd_hw t) = Ready) t"
    if "slot_1 t = sl \<and> ph (sd_hw t) = Ready" for t
    using resp_read [OF contract, of "sd_hw t"] that by (simp add: achieves_simps mmc_read_resp48_def split: prod.split)
  show "achieves (io_bind (io_gets slot_1) (\<lambda>s.
     io_bind (on_mmc (mmc_send_adtc b CMD17 (block_arg s (sector + of_nat i)) 512 1 1)) (\<lambda>_.
     io_bind (for_io (read_word b i) [0..<128] buf) (\<lambda>buf'.
     io_bind (on_mmc (mmc_read_resp48 b)) (\<lambda>status.
     if status AND 0xFFF80000 \<noteq> 0 then io_panic ''Write error'' else io_return buf'))))) ?done t"
    unfolding achieves_bind [of "io_gets slot_1"] achieves_gets
  proof (rule achieves_bindI [where P = "\<lambda>_ t. slot_1 t = sl \<and> ph (sd_hw t) = Sending ?ws"])
    show "achieves (on_mmc (mmc_send_adtc b CMD17 (block_arg (slot_1 t) (sector + of_nat i)) 512 1 1))
        (\<lambda>_ t. slot_1 t = sl \<and> ph (sd_hw t) = Sending ?ws) t"
      unfolding achieves_zoom by (rule achieves_mono [OF send_cmd17 [OF contract]]) (use t in auto)
  next
    fix v and t :: "'a sd" assume t: "slot_1 t = sl \<and> ph (sd_hw t) = Sending ?ws"
    have len: "length ?ws = 128" using contract by (simp add: card_contract_def)
    show "achieves (io_bind (for_io (read_word b i) [0..<128] buf) (\<lambda>buf'.
        io_bind (on_mmc (mmc_read_resp48 b)) (\<lambda>status.
        if status AND 0xFFF80000 \<noteq> 0 then io_panic ''Write error'' else io_return buf'))) ?done t"
      by (rule achieves_bindI [OF read_words [OF contract conjunct2 [OF t] len buf]],
          rule achieves_bindI [OF status]) (use t in \<open>simp_all add: achieves_simps\<close>)
  qed
qed

text \<open>A read of \<open>count\<close> blocks returns what the card stores there, block after block.\<close>

definition sd_sector :: "(u32 \<Rightarrow> u32 list) \<Rightarrow> sd_card \<Rightarrow> u32 \<Rightarrow> u8 list" where
  "sd_sector blocks sl lba = concat (map le_bytes (blocks (block_arg sl lba)))"

lemma sd_read_blocks:
  assumes contract: "card_contract b blocks ph arg delay"
    and s: "ph (sd_hw s) = Ready" "slot_1 s = sl"
    and range: "sector + count \<le> kib_size sl * 2" and buf: "length buf = 512 * unat count"
  shows "achieves (sd_read b sector count buf) (\<lambda>(st, out) (t :: 'a sd).
      st = 1 \<and> out = concat (map (\<lambda>k. sd_sector blocks sl (sector + of_nat k)) [0..<unat count])
      \<and> slot_1 t = sl \<and> ph (sd_hw t) = Ready) s"
proof -
  let ?I = "\<lambda>k buf' (t :: 'a sd). buf' = concat (map (\<lambda>k. sd_sector blocks sl (sector + of_nat k)) [0..<k]) @ drop (512 * k) buf
      \<and> slot_1 t = sl \<and> ph (sd_hw t) = Ready"
  have sector_length: "length (sd_sector blocks sl lba) = 512" for lba
    using contract by (simp add: card_contract_def sd_sector_def)
  have sectors_length: "length (concat (map (\<lambda>k. sd_sector blocks sl (sector + of_nat k)) [0..<k])) = 512 * k" for k
    by (induction k) (simp_all add: sector_length)
  have "achieves (for_io (read_block b sector) [0..<unat count] buf) (?I (length [0..<unat count])) s"
  proof (rule achieves_for [where I = ?I])
    show "?I 0 buf s" using s by simp
  next
    fix k buf' and t :: "'a sd" assume k: "k < length [0..<unat count]" and I: "?I k buf' t"
    then have len: "512 * k + 512 \<le> length buf'" using buf sectors_length [of k] by simp
    have nth: "[0..<unat count] ! k = k" using k by simp
    show "achieves (read_block b sector ([0..<unat count] ! k) buf') (?I (Suc k)) t"
      unfolding nth
      by (rule achieves_mono [OF read_block_spliced [OF contract _ _ len, of t sl sector, folded sd_sector_def]])
        (use I sectors_length [of k] in \<open>simp_all add: add.commute [of 512]\<close>)
  qed
  then have "achieves (for_io (read_block b sector) [0..<unat count] buf) (\<lambda>out t.
      out = concat (map (\<lambda>k. sd_sector blocks sl (sector + of_nat k)) [0..<unat count]) \<and> slot_1 t = sl \<and> ph (sd_hw t) = Ready) s"
    by (rule achieves_mono) (use buf in simp)
  then have "achieves (io_bind (for_io (read_block b sector) [0..<unat count] buf) (\<lambda>out. io_return (1, out)))
      (\<lambda>(st, out) t. st = 1 \<and> out = concat (map (\<lambda>k. sd_sector blocks sl (sector + of_nat k)) [0..<unat count])
        \<and> slot_1 t = sl \<and> ph (sd_hw t) = Ready) s"
    by (rule achieves_bindI) (simp add: achieves_simps)
  moreover have "\<not> sector + count > kib_size (slot_1 s) * 2" using range s(2) by simp
  ultimately show ?thesis unfolding sd_read_def achieves_bind [of "io_gets slot_1"] achieves_gets by (simp only: if_False)
qed

section \<open>The card as a block device\<close>

text \<open>
  The device is live while the card is ready under the descriptor \<open>sl\<close>; its sectors are those that pass
  the range check of \<^verbatim>\<open>sd_read\<close>.
\<close>

definition sd_live :: "'h mmio \<Rightarrow> (u32 \<Rightarrow> u32 list) \<Rightarrow> ('h \<Rightarrow> card_phase) \<Rightarrow> ('h \<Rightarrow> u32) \<Rightarrow> ('h \<Rightarrow> nat) \<Rightarrow> sd_card \<Rightarrow> 'h sd \<Rightarrow> bool" where
  "sd_live b blocks ph arg delay sl s \<longleftrightarrow> card_contract b blocks ph arg delay \<and> ph (sd_hw s) = Ready \<and> slot_1 s = sl"

definition sd_lbas :: "'h mmio \<Rightarrow> (u32 \<Rightarrow> u32 list) \<Rightarrow> ('h \<Rightarrow> card_phase) \<Rightarrow> ('h \<Rightarrow> u32) \<Rightarrow> ('h \<Rightarrow> nat) \<Rightarrow> sd_card \<Rightarrow> u32 set" where
  "sd_lbas b blocks ph arg delay sl = {lba. card_contract b blocks ph arg delay \<and> lba + 1 \<le> kib_size sl * 2}"

lemma sd_reads_sectors:
  "reads_sectors (sd_card_ops b) (sd_live b blocks ph arg delay sl) (sd_sector blocks sl) (sd_lbas b blocks ph arg delay sl)"
  unfolding reads_sectors_def
proof (intro conjI allI impI ballI)
  fix s lba and buf :: "u8 list"
  assume live: "sd_live b blocks ph arg delay sl s" and lba: "lba \<in> sd_lbas b blocks ph arg delay sl" and "length buf = 512"
  then have buf: "length buf = 512 * unat (1 :: u32)" by simp
  note card = live [unfolded sd_live_def]
  have "lba + 1 \<le> kib_size sl * 2" using lba by (simp add: sd_lbas_def)
  note read = sd_read_blocks [OF conjunct1 [OF card] _ _ this buf]
  show "achieves (op_read (sd_card_ops b) lba 1 buf)
      (\<lambda>(st, out) t. st = 1 \<and> out = sd_sector blocks sl lba \<and> sd_live b blocks ph arg delay sl t) s"
    unfolding sd_card_ops_def sd_ops.select_convs
    by (rule achieves_mono [OF read]) (use card in \<open>auto simp: sd_live_def\<close>)
qed (auto simp: sd_lbas_def sd_sector_def card_contract_def)

interpretation sd: block_device "sd_card_ops b" "sd_live b blocks ph arg delay sl" "sd_sector blocks sl"
    "sd_lbas b blocks ph arg delay sl" for b blocks ph arg delay sl
  by unfold_locales (rule sd_reads_sectors)

end
