(* ===== verification/Sd_Claims.thy ===== *)
theory Sd_Claims
  imports Fat_Claims Sd_Card
begin

text \<open>
  The properties of the storage stack below and through the file system: block reads, files read from
  the card, writes, the controller's clock, and the card's capacity.
\<close>

section \<open>A controller and a card\<close>

text \<open>
  A card for the examples, with the sectors of \<open>demo_sector\<close> as words; the controller answers every
  status read at once.
\<close>

definition demo_blocks :: "u32 \<Rightarrow> u32 list" where
  "demo_blocks a = (if a = 1 then [0x0FFFFFF8, 0x0FFFFFFF, 0x0FFFFFFF, 2, 0x80] @ replicate 123 0
     else replicate 128 ((a AND 0xFF) * 0x01010101))"

definition demo_bus :: "(card_phase \<times> u32) mmio" where
  "demo_bus = \<lparr>
     bus_read = (\<lambda>r (ph, arg).
       if r = MMC ''SR'' then (3, ph, arg)
       else if r = MMC ''RDR'' then (case ph of Sending (w # ws) \<Rightarrow> (w, after_word ws, arg) | _ \<Rightarrow> (0, ph, arg))
       else if r = reg_elem (MMC ''RESP'') 0 then (0x100, ph, arg)
       else (0, ph, arg)),
     bus_write = (\<lambda>r v (ph, arg).
       if r = MMC ''ARG'' then (ph, v)
       else if r = MMC ''CMD'' then (if v = CMD17 \<and> ph = Ready then Sending (demo_blocks arg) else ph, arg)
       else (ph, arg))\<rparr>"

definition demo_slot :: sd_card where
  "demo_slot = slot_0\<lparr>high_capacity := 1, kib_size := 512, initialized := 1\<rparr>"

lemma mmc_addresses:
  "MMC ''SR'' = 0x40000040" "MMC ''RDR'' = 0x40000030" "reg_elem (MMC ''RESP'') 0 = 0x40000020" "MMC ''ARG'' = 0x40000010"
  "MMC ''CMD'' = 0x40000014" "MMC ''MR'' = 0x40000004" "MMC ''BLKR'' = 0x40000018"
  by (simp_all add: register_defs mmc_reg_def)

lemma demo_contract: "card_contract demo_bus demo_blocks fst snd (\<lambda>_. 0)"
  unfolding card_contract_def status_contract_def setup_contract_def command_contract_def data_contract_def response_contract_def
  by (auto simp: demo_bus_def mmc_addresses CMD13_def CMD17_def sd_cmd_defs after_word_def demo_blocks_def)

lemma demo_live: "sd_live demo_bus demo_blocks fst snd (\<lambda>_. 0) demo_slot \<lparr>sd_hw = (Ready, 0), slot_1 = demo_slot\<rparr>"
  using demo_contract by (simp add: sd_live_def)

lemma le_bytes_replicate:
  "concat (replicate n [x, x, x, x]) = replicate (4 * n) x"
  by (induction n) (simp_all add: replicate_add numeral_eq_Suc)

lemma demo_sd_sector:
  assumes "lba \<in> {1, 2, 3}"
  shows "sd_sector demo_blocks demo_slot lba = demo_sector lba"
proof -
  have table: "sd_sector demo_blocks demo_slot 1 = demo_sector 1"
    by (simp add: sd_sector_def block_arg_def demo_slot_def demo_blocks_def demo_sector_def le_bytes_replicate le_bytes_def)
  have "le_bytes 0x02020202 = [2, 2, 2, 2]" "le_bytes 0x03030303 = [3, 3, 3, 3]" by (simp_all add: le_bytes_def)
  then have "sd_sector demo_blocks demo_slot 2 = demo_sector 2" "sd_sector demo_blocks demo_slot 3 = demo_sector 3"
    by (simp_all add: sd_sector_def block_arg_def demo_slot_def demo_blocks_def demo_sector_def le_bytes_replicate)
  with table show ?thesis using assms by auto
qed

lemma demo_sd_lbas: "{1, 2, 3} \<subseteq> sd_lbas demo_bus demo_blocks fst snd (\<lambda>_. 0) demo_slot"
  using demo_contract by (simp add: sd_lbas_def demo_slot_def)

lemma demo_sd_stored:
  "stored_file (sd_sector demo_blocks demo_slot) (sd_lbas demo_bus demo_blocks fst snd (\<lambda>_. 0) demo_slot) demo_volume [3, 2] 600"
  using demo_stored demo_sd_lbas
  by (auto simp: stored_file_def demo_volume_def demo_lbas_def fat_clust_to_sect_def table_sector_def table_entry_def
      demo_sd_sector nth_Cons')

lemma demo_sd_cache_ok:
  "cache_ok (sd_live demo_bus demo_blocks fst snd (\<lambda>_. 0) demo_slot) (sd_sector demo_blocks demo_slot)
    (sd_lbas demo_bus demo_blocks fst snd (\<lambda>_. 0) demo_slot) (demo_volume\<lparr>buffer_lba := 2000\<rparr>)
    \<lparr>vol = demo_volume\<lparr>buffer_lba := 2000\<rparr>, drive = \<lparr>sd_hw = (Ready, 0), slot_1 = demo_slot\<rparr>\<rparr>"
  using demo_live unfolding cache_ok_def
  by (auto simp: demo_volume_def sd_lbas_def demo_slot_def intro!: exI [of _ "replicate 512 0"] exI [of _ 2000])

section \<open>Reading\<close>

text \<open>
  \<^bold>\<open>Block reads (C26).\<close> With a ready card and a controller that behaves as documented, a read of \<open>count\<close>
  blocks inside the card's capacity returns 1 and the blocks the card stores, in order, whatever the
  delays of the status register; the card is ready for the next command.
\<close>

theorem sd_read_returns_blocks:
  assumes "card_contract b blocks ph arg delay" "ph (sd_hw s) = Ready"
    "sector + count \<le> kib_size (slot_1 s) * 2" "length buf = 512 * unat count"
  shows "achieves (sd_read b sector count buf) (\<lambda>(st, out) t. st = 1
    \<and> out = concat (map (\<lambda>k. sd_sector blocks (slot_1 s) (sector + of_nat k)) [0..<unat count])
    \<and> slot_1 t = slot_1 s \<and> ph (sd_hw t) = Ready) s"
  by (rule sd_read_blocks [OF assms(1,2) refl assms(3,4)])

theorem sd_read_returns_blocks_witness:
  "achieves (sd_read demo_bus 2 2 (replicate 1024 0)) (\<lambda>(st, out) t. st = 1 \<and> out = replicate 512 2 @ replicate 512 3)
    \<lparr>sd_hw = (Ready, 0), slot_1 = demo_slot\<rparr>"
proof -
  have range: "(2 :: u32) + 2 \<le> kib_size demo_slot * 2" by (simp add: demo_slot_def)
  have "sd_sector demo_blocks demo_slot 2 = replicate 512 2" "sd_sector demo_blocks demo_slot 3 = replicate 512 3"
    by (simp_all add: demo_sd_sector) (simp_all add: demo_sector_def)
  moreover have "[0..<2] = [0, 1 :: nat]" by (simp add: upt_conv_Cons)
  ultimately show ?thesis
    using sd_read_returns_blocks [OF demo_contract, of "\<lparr>sd_hw = (Ready, 0), slot_1 = demo_slot\<rparr>" 2 2 "replicate 1024 0"] range
    by (auto elim!: achieves_mono)
qed

text \<open>
  \<^bold>\<open>Files on the card (C27).\<close> The file system over the card's driver: a seek and a read return the bytes of
  the file that the card's blocks hold along the file's cluster chain, down to the controller's registers.
\<close>

theorem card_file_read:
  assumes "cache_ok (sd_live b blocks ph arg delay sl) (sd_sector blocks sl) (sd_lbas b blocks ph arg delay sl) v s"
    "stored_file (sd_sector blocks sl) (sd_lbas b blocks ph arg delay sl) v cs size'"
    "file_start f = fat_clust_to_sect v (cs ! 0)" "file_size f = of_nat size'" "unat off < size'"
  shows "achieves (io_bind (fat_file_jump (sd_card_ops b) f off) (\<lambda>(_, f'). fat_file_read (sd_card_ops b) f' count))
    (\<lambda>(st, f', bytes) t. st = FSTATUS_OK
      \<and> bytes = take (unat count) (drop (unat off) (file_bytes (sd_sector blocks sl) v cs size'))
      \<and> ph (sd_hw (drive t)) = Ready \<and> slot_1 (drive t) = sl) s"
  by (rule achieves_mono [OF sd.seek_read_achieves [OF assms]]) (auto simp: cache_ok_def sd_live_def)

theorem card_file_read_witness:
  "achieves (io_bind (fat_file_jump (sd_card_ops demo_bus) demo_file 510) (\<lambda>(_, f'). fat_file_read (sd_card_ops demo_bus) f' 4))
    (\<lambda>(st, f', bytes) t. st = FSTATUS_OK \<and> length bytes = 4)
    \<lparr>vol = demo_volume\<lparr>buffer_lba := 2000\<rparr>, drive = \<lparr>sd_hw = (Ready, 0), slot_1 = demo_slot\<rparr>\<rparr>"
proof -
  have stored: "stored_file (sd_sector demo_blocks demo_slot) (sd_lbas demo_bus demo_blocks fst snd (\<lambda>_. 0) demo_slot)
      (demo_volume\<lparr>buffer_lba := 2000\<rparr>) [3, 2] 600"
    using demo_sd_stored by (simp add: stored_file_def table_sector_def table_entry_def fat_clust_to_sect_def)
  show ?thesis
    by (rule achieves_mono [OF card_file_read [OF demo_sd_cache_ok stored, of demo_file 510 4]])
      (auto simp: demo_file_def demo_volume_def fat_clust_to_sect_def file_bytes_def)
qed

section \<open>Writing\<close>

text \<open>
  \<^bold>\<open>No write reaches the card (C28).\<close> With the card's driver, once the cached sector is dirty, the flush
  and any access to another sector panic: the driver's write function panics before it does anything.
\<close>

theorem dirty_cache_panics:
  assumes "buffer_dirty (vol s) \<noteq> 0"
  shows "fat_flush (sd_card_ops b) s = Inl (Panic ''Watch it'')
    \<and> (lba \<noteq> buffer_lba (vol s) \<longrightarrow> fat_read (sd_card_ops b) lba s = Inl (Panic ''Watch it''))"
proof -
  have "fat_flush (sd_card_ops b) s = Inl (Panic ''Watch it'')"
    using assms by (simp add: fat_flush_def io_bind_def io_gets_def on_drive_def io_zoom_def disk_write_def sd_card_ops_def
        sd_write_def io_then_def io_fail_def split: disk.split)
  then show ?thesis by (auto simp: fat_read_def io_bind_def io_then_def io_gets_def)
qed

theorem dirty_cache_panics_witness:
  "fat_read (sd_card_ops demo_bus) 3 \<lparr>vol = demo_volume\<lparr>buffer_dirty := 1\<rparr>, drive = \<lparr>sd_hw = (Ready, 0), slot_1 = demo_slot\<rparr>\<rparr>
    = Inl (Panic ''Watch it'')"
  by (rule mp [OF conjunct2 [OF dirty_cache_panics]]) (simp_all add: demo_volume_def)

section \<open>The clock of the bus\<close>

text \<open>
  The bus clock. Setting the bus frequency does not replace the divider: the mask that should
  clear the field is zero, so the new divider is combined with the old one bit by bit, and the divider
  never gets smaller.
\<close>

lemma bus_freq_never_rises:
  assumes "\<And>h. bus_read b (MMC ''MR'') h = (m h, h)" "\<And>v h. m (bus_write b (MMC ''MR'') v h) = v"
  shows "achieves (mmc_set_bus_freq b freq) (\<lambda>_ h'.
    m h' = m h OR (push_bit 16 (ucast (snd (bus_divider freq))) OR ucast (fst (bus_divider freq)))
    \<and> m h AND 0xFF \<le> m h' AND 0xFF) h"
proof -
  have "x AND k \<le> (x OR y) AND k" for x y k :: u32
    by (simp add: word_ao_dist le_word_or2)
  then show ?thesis
    by (simp add: mmc_set_bus_freq_def reg_and_def reg_or_def achieves_simps assms split: prod.split)
qed

section \<open>The capacity\<close>

text \<open>The capacity in bytes as the SD specification defines it from the fields of the register.\<close>

definition csd_capacity :: "u8 list \<Rightarrow> nat" where
  "csd_capacity csd =
     (if unat (csd ! 15) div 64 = 0 then
        (unat (csd ! 9) mod 4 * 2 ^ 10 + unat (csd ! 8) * 4 + unat (csd ! 7) div 64 + 1)
          * 2 ^ (unat (csd ! 6) mod 4 * 2 + unat (csd ! 5) div 128 + 2) * 2 ^ (unat (csd ! 10) mod 16)
      else (unat (csd ! 8) mod 64 * 2 ^ 16 + unat (csd ! 7) * 2 ^ 8 + unat (csd ! 6) + 1) * 512 * 1024)"

lemma unat_or_push:
  fixes x y :: "'a::len word"
  assumes "unat x < 2 ^ k" "unat x + unat y * 2 ^ k < 2 ^ LENGTH('a)"
  shows "unat (x OR push_bit k y) = unat x + unat y * 2 ^ k"
proof -
  have "take_bit k x = x"
    using assms(1) by (simp add: word_unat_eq_iff unsigned_take_bit_eq take_bit_nat_eq_self)
  then have x: "\<not> bit x n" if "k \<le> n" for n using that by (metis bit_take_bit_iff not_less)
  have "x OR push_bit k y = x + push_bit k y"
    by (rule disjunctive_add [symmetric]) (use x in \<open>auto simp: bit_simps\<close>)
  moreover have "unat (push_bit k y) = unat y * 2 ^ k"
    unfolding unsigned_push_bit_eq using assms(2) by (simp add: push_bit_eq_mult take_bit_nat_eq_self)
  ultimately show ?thesis using assms(2) by (simp add: unat_plus_simple [THEN iffD1] unat_word_ariths)
qed

lemma byte_less: "unat x < 256" for x :: u8
  using unsigned_less [of x, where ?'a = nat] by simp


lemma csd_v2_size_value:
  "unat (csd_v2_size csd) = (unat (csd ! 8) mod 64 * 2 ^ 16 + unat (csd ! 7) * 2 ^ 8 + unat (csd ! 6)) * 512"
proof -
  have hi: "unat (ucast (csd ! 8) AND 0x3F :: u32) = unat (csd ! 8) mod 64"
    using unat_and_mask [of "ucast (csd ! 8) :: u32" 6] by (simp add: unat_u8_u32 mask_eq_exp_minus_1)
  have mid: "unat (ucast (csd ! 6) OR push_bit 8 (ucast (csd ! 7)) :: u32) = unat (csd ! 6) + unat (csd ! 7) * 2 ^ 8"
    using byte_less [of "csd ! 6"] byte_less [of "csd ! 7"] by (subst unat_or_push) (simp_all add: unat_u8_u32)
  have bound: "unat (csd ! 6) + unat (csd ! 7) * 2 ^ 8 < 2 ^ 16"
    using byte_less [of "csd ! 6"] byte_less [of "csd ! 7"] by simp
  have m: "unat (csd ! 8) mod 64 < 64" by simp
  have all: "unat ((ucast (csd ! 6) OR push_bit 8 (ucast (csd ! 7))) OR push_bit 16 (ucast (csd ! 8) AND 0x3F) :: u32)
      = unat (csd ! 6) + unat (csd ! 7) * 2 ^ 8 + unat (csd ! 8) mod 64 * 2 ^ 16"
    using bound m by (subst unat_or_push) (simp_all add: mid hi)
  have "csd_v2_size csd = ((ucast (csd ! 6) OR push_bit 8 (ucast (csd ! 7))) OR push_bit 16 (ucast (csd ! 8) AND 0x3F)) * 512"
    by (simp add: csd_v2_size_def ac_simps)
  then show ?thesis using all bound m by (simp add: unat_word_ariths)
qed

lemma csd_v1_size_value:
  "unat (csd_v1_size csd) = (unat (csd ! 9) mod 4 * 2 ^ 10 + unat (csd ! 8) * 4 + unat (csd ! 7) div 64 + 1)
      * 2 ^ (unat (csd ! 6) mod 4 * 2 + unat (csd ! 5) div 128 + 2) * 2 ^ (unat (csd ! 10) mod 16) mod 2 ^ 32 div 1000"
proof -
  note b = byte_less [of "csd ! 5"] byte_less [of "csd ! 6"] byte_less [of "csd ! 7"]
    byte_less [of "csd ! 8"] byte_less [of "csd ! 9"]
  have masks: "unat (x AND 3) = unat x mod 4" "unat (x AND 1) = unat x mod 2" "unat (x AND 0xF) = unat x mod 16" for x :: u32
    using unat_and_mask [of x 2] unat_and_mask [of x 1] unat_and_mask [of x 4] by (simp_all add: mask_eq_exp_minus_1)
  have unat_drop: "unat (drop_bit k (ucast x) :: u32) = unat x div 2 ^ k" for k and x :: u8
    unfolding unsigned_drop_bit_eq unat_u8_u32 using byte_less [of x] by (simp add: drop_bit_eq_div take_bit_nat_eq_self)
  have drops: "unat (drop_bit 6 (ucast (csd ! 7)) AND 3 :: u32) = unat (csd ! 7) div 64"
    "unat (drop_bit 7 (ucast (csd ! 5)) AND 1 :: u32) = unat (csd ! 5) div 128"
    unfolding masks unat_drop using b by simp_all
  have lo: "unat ((drop_bit 6 (ucast (csd ! 7)) AND 3) OR push_bit 2 (ucast (csd ! 8)) :: u32)
      = unat (csd ! 7) div 64 + unat (csd ! 8) * 4"
    using b by (subst unat_or_push) (simp_all add: drops unat_u8_u32)
  have m: "unat (csd ! 9) mod 4 < 4" "unat (csd ! 6) mod 4 < 4" by simp_all
  have size': "unat (((drop_bit 6 (ucast (csd ! 7)) AND 3) OR push_bit 2 (ucast (csd ! 8))) OR push_bit 10 (ucast (csd ! 9) AND 3) :: u32)
      = unat (csd ! 7) div 64 + unat (csd ! 8) * 4 + unat (csd ! 9) mod 4 * 2 ^ 10" (is "unat ?c = ?n")
    using b m by (subst unat_or_push) (simp_all add: lo masks unat_u8_u32)
  have mult: "unat ((drop_bit 7 (ucast (csd ! 5)) AND 1) OR push_bit 1 (ucast (csd ! 6) AND 3) :: u32)
      = unat (csd ! 5) div 128 + unat (csd ! 6) mod 4 * 2" (is "unat ?k = ?e")
    using b m by (subst unat_or_push) (simp_all add: drops unat_drop masks unat_u8_u32)
  have e: "?e < 8" using b m by linarith
  define c k where "c = ?c" and "k = ?k"
  then have c: "unat c = ?n" and k: "unat k = ?e" using size' mult by simp_all
  have k2: "unat (k + 2) = ?e + 2" using e by (simp add: unat_word_ariths k)
  have "csd_v1_size csd = ((c + 1) * push_bit (unat (k + 2)) 1 * push_bit (unat (ucast (csd ! 10) AND 0xF :: u32)) 1) div 1000"
    unfolding csd_v1_size_def Let_def c_def k_def by (simp only: ac_simps)
  also have "\<dots> = (of_nat ((?n + 1) * 2 ^ (?e + 2) * 2 ^ (unat (csd ! 10) mod 16)) :: u32) div 1000"
    unfolding c [symmetric] k2 masks unat_u8_u32 push_bit_eq_mult by (simp add: algebra_simps)
  finally have eq: "csd_v1_size csd = of_nat ((?n + 1) * 2 ^ (?e + 2) * 2 ^ (unat (csd ! 10) mod 16)) div 1000" .
  have "unat ((of_nat j :: u32) div 1000) = j mod 2 ^ 32 div 1000" for j by (simp add: unat_div unat_of_nat)
  then show ?thesis unfolding eq by (simp only: ac_simps)
qed

text \<open>
  \<^bold>\<open>The capacity of the card (C29).\<close> Against the capacity defined by the SD specification: the size the
  driver computes for a version 2 register is 512 KiB short; for version 1 it is the capacity, wrapped to
  32 bits, in units of 1000 bytes where the range checks of reads take it in units of 1024.
\<close>

theorem csd_size_against_specification:
  assumes "16 \<le> length csd" "unat (csd ! 15) div 64 \<in> {0, 1}"
  shows "achieves (csd_decode csd) (\<lambda>_ t. t = s\<lparr>slot_1 := (slot_1 s)\<lparr>kib_size := kib_size (slot_1 t)\<rparr>\<rparr>
    \<and> unat (kib_size (slot_1 t)) =
        (if unat (csd ! 15) div 64 = 0 then csd_capacity csd mod 2 ^ 32 div 1000 else csd_capacity csd div 1024 - 512)) s"
proof -
  have kind: "drop_bit 6 (csd ! 15) AND 3 = (of_nat (unat (csd ! 15) div 64) :: u8)"
  proof -
    have "unat (drop_bit 6 (csd ! 15) AND 3) = unat (csd ! 15) div 64"
      using unat_and_mask [of "drop_bit 6 (csd ! 15)" 2] byte_less [of "csd ! 15"]
      by (simp add: mask_eq_exp_minus_1 unat_div drop_bit_eq_div)
    then show ?thesis using byte_less [of "csd ! 15"] by (simp add: word_unat_eq_iff unat_of_nat)
  qed
  show ?thesis
  proof (cases "unat (csd ! 15) div 64 = 0")
    case True
    then show ?thesis using assms kind
      by (simp add: csd_decode_def achieves_simps csd_v1_size_value csd_capacity_def Let_def)
  next
    case False
    then have "unat (csd ! 15) div 64 = 1" using assms by simp
    then show ?thesis using assms kind
      by (simp add: csd_decode_def achieves_simps csd_v2_size_value csd_capacity_def Let_def)
  qed
qed

theorem csd_size_against_specification_witness:
  "achieves (csd_decode [0, 0, 0, 0, 0, 0, 0xFF, 0x76, 0, 0, 0, 0, 0, 0, 0, 0x40]) (\<lambda>_ t. unat (kib_size (slot_1 t)) = 15597056)
    \<lparr>sd_hw = (), slot_1 = slot_0\<rparr>"
  by (rule achieves_mono [OF csd_size_against_specification]) (simp_all add: csd_capacity_def)

end
