(* ===== verification/Sprint.thy ===== *)
theory Sprint
  imports Io_Monad
begin

text \<open>
  The formatted output of \<^verbatim>\<open>generic/sprint.c\<close>, of the kernel and of the bootloader, which differ in two
  conversions. A string is the list of its bytes with the terminating zero; reading past the end of the
  list is an error, and so is writing past the end of the buffer. The optional arguments are a list of
  integers and strings.
\<close>

section \<open>Writing characters\<close>

datatype fmt_arg = ArgInt u32 | ArgStr "u8 list"

record fmt_state =
  fmt_buf :: "u8 list"
  fmt_dest :: nat
  fmt_count :: u16

definition put_char :: "u8 \<Rightarrow> fmt_state \<Rightarrow> fmt_state res" where
  "put_char c st =
     rbind (array_set (fmt_buf st) (fmt_dest st) c) (\<lambda>buf.
       Inr (st\<lparr>fmt_buf := buf, fmt_dest := fmt_dest st + 1, fmt_count := fmt_count st + 1\<rparr>))"

definition put_chars :: "u8 list \<Rightarrow> fmt_state \<Rightarrow> fmt_state res" where
  "put_chars = each put_char"

definition power_u8 :: "u8 \<Rightarrow> u8 \<Rightarrow> u32" where
  "power_u8 base exp = ((\<lambda>result. result * ucast base) ^^ unat exp) 1"

text \<open>The digits from the last to the first, in a local buffer of ten characters.\<close>

function uint_digits :: "u32 \<Rightarrow> u8 list" where
  "uint_digits value =
     (if value div 10 \<noteq> 0 then (0x30 + ucast (value mod 10)) # uint_digits (value div 10)
      else [0x30 + ucast (value mod 10)])"
  by pat_completeness auto

termination
proof (relation "measure unat")
  fix v :: u32 assume "v div 10 \<noteq> 0"
  then have "0 < unat (v div 10)" by (simp add: unat_gt_0)
  then have "unat v div 10 < unat v" by (simp add: unat_div)
  then show "(v div 10, v) \<in> measure unat" by (simp add: unat_div)
qed simp

declare uint_digits.simps [simp del]

definition print_uint_to_buffer :: "u32 \<Rightarrow> fmt_state \<Rightarrow> fmt_state res" where
  "print_uint_to_buffer value st =
     (if 10 < length (uint_digits value) then Inl OutOfBounds else put_chars (rev (uint_digits value)) st)"

section \<open>Conversions\<close>

fun put_string :: "u8 list \<Rightarrow> fmt_state \<Rightarrow> fmt_state res" where
  "put_string [] st = Inl OutOfBounds"
| "put_string (c # s) st = (if c = 0 then Inr st else rbind (put_char c st) (put_string s))"

fun put_string_count :: "nat \<Rightarrow> u8 list \<Rightarrow> fmt_state \<Rightarrow> fmt_state res" where
  "put_string_count 0 s st = Inr st"
| "put_string_count (Suc n) [] st = Inl OutOfBounds"
| "put_string_count (Suc n) (c # s) st =
     (if c = 0 then Inr st else rbind (put_char c st) (put_string_count n s))"

definition put_int :: "u32 \<Rightarrow> fmt_state \<Rightarrow> fmt_state res" where
  "put_int v st =
     (if v <s 0 then rbind (put_char 0x2D st) (print_uint_to_buffer (- v)) else print_uint_to_buffer v st)"

text \<open>One binary digit; the kernel puts a space after each whole byte.\<close>

definition put_bit :: "bool \<Rightarrow> u32 \<Rightarrow> nat \<Rightarrow> fmt_state \<Rightarrow> fmt_state res" where
  "put_bit kern v i st =
     (if 32 \<le> i then Inl ShiftRange
      else rbind (put_char (if v AND push_bit i 1 \<noteq> 0 then 0x31 else 0x30) st) (\<lambda>st'.
        if kern \<and> i mod 8 = 0 then put_char 0x20 st' else Inr st'))"

definition hex_table :: "u8 list" where
  "hex_table = [0x30, 0x31, 0x32, 0x33, 0x34, 0x35, 0x36, 0x37, 0x38, 0x39, 0x41, 0x42, 0x43, 0x44, 0x45, 0x46]"

definition put_hex_byte :: "nat \<Rightarrow> u32 \<Rightarrow> nat \<Rightarrow> fmt_state \<Rightarrow> fmt_state res" where
  "put_hex_byte n v i st =
     (let k = (n - 1 - i) * 8
      in if 32 \<le> k then Inl ShiftRange
         else
           (let b = ucast (drop_bit k v) :: u8
            in put_chars [hex_table ! unat (drop_bit 4 b), hex_table ! unat (b AND 0xF)] st))"

text \<open>
  The optional number before the conversion character: the digits are counted in a byte and their value
  is added up in a byte. Arguments are taken in order; taking one that is not there, or as another type, is
  undefined.
\<close>

fun opt_value :: "u8 list \<Rightarrow> u8" where
  "opt_value [] = 0"
| "opt_value (d # ds) = ucast ((ucast d - 0x30) * power_u8 10 (of_nat (length ds))) + opt_value ds"

definition opt_digits :: "u8 list \<Rightarrow> nat" where
  "opt_digits src = length (takeWhile (\<lambda>c. 0x30 \<le> c \<and> c \<le> 0x39) src) mod 256"

fun next_int :: "fmt_arg list \<Rightarrow> (u32 \<times> fmt_arg list) res" where
  "next_int (ArgInt v # args) = Inr (v, args)"
| "next_int _ = Inl OutOfBounds"

fun next_str :: "fmt_arg list \<Rightarrow> (u8 list \<times> fmt_arg list) res" where
  "next_str (ArgStr s # args) = Inr (s, args)"
| "next_str _ = Inl OutOfBounds"

definition convert :: "bool \<Rightarrow> u8 \<Rightarrow> nat \<Rightarrow> fmt_arg list \<Rightarrow> fmt_state \<Rightarrow> (fmt_arg list \<times> fmt_state) res" where
  "convert kern ch opt args st =
     (if ch = 0x73 then
        rbind (next_str args) (\<lambda>(s, args').
        rbind (if opt \<noteq> 0 then put_string_count opt s st else put_string s st) (\<lambda>st'. Inr (args', st')))
      else if ch = 0x63 then
        rbind (next_int args) (\<lambda>(v, args'). rbind (put_char (ucast v) st) (\<lambda>st'. Inr (args', st')))
      else if ch = 0x75 \<or> ch = 0x64 then
        rbind (next_int args) (\<lambda>(v, args'). rbind (put_int v st) (\<lambda>st'. Inr (args', st')))
      else if ch = 0x62 then
        rbind (next_int args) (\<lambda>(v, args').
        rbind (each (put_bit kern v) (rev [0..<opt]) st) (\<lambda>st'. Inr (args', st')))
      else if ch = 0x68 then
        rbind (next_int args) (\<lambda>(v, args').
        rbind (each (put_hex_byte opt v) [0..<opt] st) (\<lambda>st'. Inr (args', st')))
      else if kern \<and> ch = 0x65 then
        rbind (each (\<lambda>_. put_chars [0x3A, 0x44]) [0..<opt] st) (\<lambda>st'. Inr (args, st'))
      else Inr (args, st))"

section \<open>The format string\<close>

function format_loop :: "bool \<Rightarrow> u8 list \<Rightarrow> fmt_arg list \<Rightarrow> fmt_state \<Rightarrow> fmt_state res" where
  "format_loop kern [] args st = Inl OutOfBounds"
| "format_loop kern (c # src) args st =
     (if c = 0 then Inr st
      else if c = 0x25 then
        (let n = opt_digits src
         in case drop n src of
              [] \<Rightarrow> Inl OutOfBounds
            | ch # src' \<Rightarrow>
                rbind (convert kern ch (unat (opt_value (take n src))) args st) (\<lambda>(args', st').
                  format_loop kern src' args' st'))
      else rbind (put_char c st) (format_loop kern src args))"
  by pat_completeness auto

termination
proof (relation "measure (\<lambda>(kern, src, args, st). length src)")
  fix kern c src args st n ch src' y args' st'
  assume n: "n = opt_digits src" and src': "drop n src = ch # src'"
  have "length src' < length src" using arg_cong [OF src', of length] by simp
  then show "((kern, src', args', st'), kern, c # src, args, st) \<in> measure (\<lambda>(kern, src, args, st). length src)" by simp
qed simp_all

text \<open>The result is the buffer and the number of characters, in 16 bits.\<close>

definition print_to_buffer_va :: "bool \<Rightarrow> u8 list \<Rightarrow> u8 list \<Rightarrow> fmt_arg list \<Rightarrow> (u16 \<times> u8 list) res" where
  "print_to_buffer_va kern buffer data args =
     rbind (format_loop kern data args \<lparr>fmt_buf = buffer, fmt_dest = 0, fmt_count = 0\<rparr>)
       (\<lambda>st. Inr (fmt_count st, fmt_buf st))"

end
