(* ===== verification/Sprint_Claims.thy ===== *)
theory Sprint_Claims
  imports Sprint
begin

text \<open>
  Formatted output against a reference: a format string is written from pieces, a piece has a type and a
  rendering, and the formatter outputs the renderings one after the other, or runs out of the buffer.
\<close>

section \<open>The reference\<close>

datatype piece = Lit u8 | Conv nat u8

datatype arg_type = IntT | StrT

text \<open>The conversion characters, and the argument each one takes.\<close>

fun conv_types :: "u8 \<Rightarrow> arg_type list option" where
  "conv_types ch =
     (if ch = 0x73 then Some [StrT]
      else if ch \<in> {0x63, 0x75, 0x64, 0x62, 0x68} then Some [IntT]
      else if ch = 0x65 then Some []
      else None)"

text \<open>A number is written with as many decimal digits as it needs; an optional number of 0 is left out.\<close>

fun decimal :: "nat \<Rightarrow> u8 list" where
  "decimal n = (if n < 10 then [0x30 + of_nat n] else decimal (n div 10) @ [0x30 + of_nat (n mod 10)])"

declare decimal.simps [simp del]

definition encode_opt :: "nat \<Rightarrow> u8 list" where
  "encode_opt w = (if w = 0 then [] else decimal w)"

fun encode :: "piece list \<Rightarrow> u8 list" where
  "encode [] = [0]"
| "encode (Lit c # ps) = c # encode ps"
| "encode (Conv w ch # ps) = 0x25 # encode_opt w @ ch # encode ps"

text \<open>The width of a binary or hexadecimal conversion is that of a word at most.\<close>

definition piece_ok :: "piece \<Rightarrow> bool" where
  "piece_ok p = (case p of
     Lit c \<Rightarrow> c \<noteq> 0 \<and> c \<noteq> 0x25
   | Conv w ch \<Rightarrow> w < 256 \<and> conv_types ch \<noteq> None \<and> (ch = 0x62 \<longrightarrow> w \<le> 32) \<and> (ch = 0x68 \<longrightarrow> w \<le> 4))"

text \<open>An argument is an integer or a string with its terminating zero.\<close>

fun arg_ok :: "arg_type \<Rightarrow> fmt_arg \<Rightarrow> bool" where
  "arg_ok IntT (ArgInt v) = True"
| "arg_ok StrT (ArgStr s) = (0 \<in> set s)"
| "arg_ok _ _ = False"

fun format_types :: "piece list \<Rightarrow> arg_type list" where
  "format_types [] = []"
| "format_types (Lit c # ps) = format_types ps"
| "format_types (Conv w ch # ps) = the (conv_types ch) @ format_types ps"

definition well_typed :: "piece list \<Rightarrow> fmt_arg list \<Rightarrow> bool" where
  "well_typed ps args \<longleftrightarrow> (\<forall>p \<in> set ps. piece_ok p) \<and> list_all2 arg_ok (format_types ps) args"

definition signed_decimal :: "int \<Rightarrow> u8 list" where
  "signed_decimal i = (if i < 0 then 0x2D # decimal (nat (- i)) else decimal (nat i))"

definition hex_digit :: "nat \<Rightarrow> u8" where
  "hex_digit n = hex_table ! n"

text \<open>The bytes of a number from the most significant of \<open>w\<close>, two digits each; the bits likewise.\<close>

definition hex_bytes :: "nat \<Rightarrow> u32 \<Rightarrow> u8 list" where
  "hex_bytes w v = concat (map (\<lambda>i. [hex_digit (unat v div 256 ^ i div 16 mod 16), hex_digit (unat v div 256 ^ i mod 16)]) (rev [0..<w]))"

definition binary_digits :: "bool \<Rightarrow> nat \<Rightarrow> u32 \<Rightarrow> u8 list" where
  "binary_digits kern w v =
     concat (map (\<lambda>i. (if bit v i then 0x31 else 0x30) # (if kern \<and> i mod 8 = 0 then [0x20] else [])) (rev [0..<w]))"

text \<open>
  What the formatter outputs for a conversion. \<^verbatim>\<open>%u\<close> takes its argument as signed, as \<^verbatim>\<open>%d\<close> does; the
  comment at the top of the file and the one at the case say that it is unsigned, which is \<open>doc_conv\<close>.
\<close>

fun show_conv :: "bool \<Rightarrow> nat \<Rightarrow> u8 \<Rightarrow> fmt_arg \<Rightarrow> u8 list" where
  "show_conv kern w ch (ArgStr s) = (let t = takeWhile (\<lambda>c. c \<noteq> 0) s in if w = 0 then t else take w t)"
| "show_conv kern w ch (ArgInt v) =
     (if ch = 0x63 then [ucast v]
      else if ch \<in> {0x75, 0x64} then signed_decimal (sint v)
      else if ch = 0x62 then binary_digits kern w v
      else hex_bytes w v)"

fun render :: "bool \<Rightarrow> piece list \<Rightarrow> fmt_arg list \<Rightarrow> u8 list" where
  "render kern [] args = []"
| "render kern (Lit c # ps) args = c # render kern ps args"
| "render kern (Conv w ch # ps) args =
     (if ch = 0x65 then (if kern then concat (replicate w [0x3A, 0x44]) else []) @ render kern ps args
      else case args of [] \<Rightarrow> [] | a # args' \<Rightarrow> show_conv kern w ch a @ render kern ps args')"

text \<open>The text the comments describe, and the arguments on which it is the text that is output.\<close>

fun doc_conv :: "bool \<Rightarrow> nat \<Rightarrow> u8 \<Rightarrow> fmt_arg \<Rightarrow> u8 list" where
  "doc_conv kern w ch (ArgStr s) = show_conv kern w ch (ArgStr s)"
| "doc_conv kern w ch (ArgInt v) = (if ch = 0x75 then decimal (unat v) else show_conv kern w ch (ArgInt v))"

fun doc_render :: "bool \<Rightarrow> piece list \<Rightarrow> fmt_arg list \<Rightarrow> u8 list" where
  "doc_render kern [] args = []"
| "doc_render kern (Lit c # ps) args = c # doc_render kern ps args"
| "doc_render kern (Conv w ch # ps) args =
     (if ch = 0x65 then (if kern then concat (replicate w [0x3A, 0x44]) else []) @ doc_render kern ps args
      else case args of [] \<Rightarrow> [] | a # args' \<Rightarrow> doc_conv kern w ch a @ doc_render kern ps args')"

fun small_unsigned :: "u8 \<Rightarrow> fmt_arg \<Rightarrow> bool" where
  "small_unsigned ch (ArgStr s) = True"
| "small_unsigned ch (ArgInt v) = (ch = 0x75 \<longrightarrow> unat v < 2 ^ 31)"

fun unsigned_small :: "piece list \<Rightarrow> fmt_arg list \<Rightarrow> bool" where
  "unsigned_small [] args = True"
| "unsigned_small (Lit c # ps) args = unsigned_small ps args"
| "unsigned_small (Conv w ch # ps) args =
     (if ch = 0x65 then unsigned_small ps args
      else case args of [] \<Rightarrow> True | a # args' \<Rightarrow> small_unsigned ch a \<and> unsigned_small ps args')"

lemma sint_bounds: "- 2147483648 \<le> sint v" "sint v < 2147483648" for v :: u32
  using sint_ge [of v] sint_lt [of v] by simp_all

lemma unat_sint: "int (unat v) = (if sint v < 0 then sint v + 4294967296 else sint v)" for v :: u32
proof -
  have "int (unat v) = sint v mod 4294967296" by (simp add: uint_sint take_bit_eq_mod)
  also have "\<dots> = (if sint v < 0 then sint v + 4294967296 else sint v)"
  proof (cases "sint v < 0")
    case True
    have "sint v mod 4294967296 = (sint v + 4294967296) mod 4294967296" by simp
    also have "\<dots> = sint v + 4294967296" using True sint_bounds [of v] by (intro mod_pos_pos_trivial) linarith+
    finally show ?thesis using True by simp
  next
    case False
    then show ?thesis using sint_bounds [of v] by (simp add: mod_pos_pos_trivial)
  qed
  finally show ?thesis .
qed

lemma signed_unsigned:
  fixes v :: u32
  shows "unat v < 2 ^ 31 \<Longrightarrow> signed_decimal (sint v) = decimal (unat v)"
    and "2 ^ 31 \<le> unat v \<Longrightarrow> signed_decimal (sint v) = 0x2D # decimal (2 ^ 32 - unat v)"
proof -
  have signed: "0 \<le> sint v \<longleftrightarrow> unat v < 2147483648"
    using unat_sint [of v] sint_bounds [of v] by (cases "sint v < 0") (simp_all only: if_True if_False, linarith+)
  show "signed_decimal (sint v) = decimal (unat v)" if "unat v < 2 ^ 31"
  proof -
    have "\<not> sint v < 0" using signed that by simp
    then have "sint v = int (unat v)" using unat_sint [of v] by (simp only: if_False)
    then show ?thesis unfolding signed_decimal_def by (simp only: nat_int) simp
  qed
  show "signed_decimal (sint v) = 0x2D # decimal (2 ^ 32 - unat v)" if "2 ^ 31 \<le> unat v"
  proof -
    have neg: "sint v < 0" using signed that by simp
    then have "- sint v = 4294967296 - int (unat v)" using unat_sint [of v] by (simp only: if_True)
    also have "\<dots> = int (2 ^ 32 - unat v)" using unsigned_less [of v, where ?'a = nat] by (simp add: of_nat_diff)
    finally show ?thesis using neg unfolding signed_decimal_def by (simp only: nat_int) simp
  qed
qed

lemma render_documented: "unsigned_small ps args \<Longrightarrow> doc_render kern ps args = render kern ps args"
proof (induction kern ps args rule: render.induct)
  case (3 kern w ch ps args)
  have conv: "doc_conv kern w ch a = show_conv kern w ch a" if "small_unsigned ch a" for a
    using that by (cases a) (auto simp: signed_unsigned)
  show ?case
  proof (cases "ch = 0x65")
    case True
    then show ?thesis using 3 by simp
  next
    case False
    then show ?thesis using 3 conv by (cases args) simp_all
  qed
qed simp_all

section \<open>Output\<close>

lemma each_append: "each f (xs @ ys) s = rbind (each f xs s) (each f ys)"
  by (induction xs arbitrary: s) (simp_all add: rbind_assoc cong: rbind_cong)

lemma put_chars_append: "put_chars (xs @ ys) st = rbind (put_chars xs st) (put_chars ys)"
  by (simp add: put_chars_def each_append)

lemma put_chars_Nil [simp]: "put_chars [] st = Inr st"
  by (simp add: put_chars_def)

lemma put_chars_Cons: "put_chars (c # cs) st = rbind (put_char c st) (put_chars cs)"
  by (simp add: put_chars_def)

lemma each_put_chars: "each (\<lambda>i. put_chars (f i)) is st = put_chars (concat (map f is)) st"
  by (induction "is" arbitrary: st) (simp_all add: put_chars_append cong: rbind_cong)

lemma each_cong: "(\<And>x s. x \<in> set xs \<Longrightarrow> f x s = g x s) \<Longrightarrow> each f xs s = each g xs s"
  by (induction xs arbitrary: s) (auto intro: rbind_cong)

text \<open>Characters are written one after the other, or the buffer is too small.\<close>

lemma put_chars_run:
  "put_chars cs st =
     (if fmt_dest st + length cs \<le> length (fmt_buf st) \<or> cs = [] then
        Inr (st\<lparr>fmt_buf := take (fmt_dest st) (fmt_buf st) @ cs @ drop (fmt_dest st + length cs) (fmt_buf st),
          fmt_dest := fmt_dest st + length cs, fmt_count := fmt_count st + of_nat (length cs)\<rparr>)
      else Inl OutOfBounds)"
proof (induction cs arbitrary: st)
  case (Cons c cs)
  show ?case
  proof (cases "fmt_dest st < length (fmt_buf st)")
    case True
    define st1 where "st1 = st\<lparr>fmt_buf := (fmt_buf st)[fmt_dest st := c], fmt_dest := fmt_dest st + 1, fmt_count := fmt_count st + 1\<rparr>"
    have st1: "put_char c st = Inr st1" using True by (simp add: put_char_def st1_def)
    have buf: "take (fmt_dest st1) (fmt_buf st1) = take (fmt_dest st) (fmt_buf st) @ [c]"
      using True by (simp add: st1_def take_Suc_conv_app_nth)
    show ?thesis using True buf by (auto simp: put_chars_Cons st1 Cons.IH) (simp_all add: st1_def algebra_simps)
  qed (simp add: put_chars_Cons put_char_def array_set_def)
qed simp

section \<open>Each conversion outputs its rendering\<close>

lemma put_string_run: "0 \<in> set s \<Longrightarrow> put_string s st = put_chars (takeWhile (\<lambda>c. c \<noteq> 0) s) st"
  by (induction s arbitrary: st) (auto simp: put_chars_Cons intro: rbind_cong)

lemma put_string_count_run:
  "0 \<in> set s \<Longrightarrow> put_string_count n s st = put_chars (take n (takeWhile (\<lambda>c. c \<noteq> 0) s)) st"
  by (induction n s st rule: put_string_count.induct) (auto simp: put_chars_Cons intro: rbind_cong)

lemma uint_digits_decimal: "rev (uint_digits v) = decimal (unat v)"
proof (induction v rule: uint_digits.induct)
  case (1 v)
  have zero: "v div 10 \<noteq> 0 \<longleftrightarrow> \<not> unat v < 10" by (simp add: word_unat_eq_iff unat_div div_greater_zero_iff not_less)
  have digit: "unat v mod 10 = unat (v mod 10)" by (simp add: unat_mod)
  have "(of_nat (unat v mod 10) :: u8) = ucast (v mod 10)" unfolding digit by simp
  then show ?case using 1 zero
    by (subst uint_digits.simps, subst decimal.simps) (auto simp: unat_div)
qed

lemma decimal_length: "n < 10 ^ Suc k \<Longrightarrow> length (decimal n) \<le> Suc k"
proof (induction k arbitrary: n)
  case (Suc k)
  then have "n div 10 < 10 ^ Suc k" by (simp add: less_mult_imp_div_less mult.commute)
  then show ?case using Suc.IH by (subst decimal.simps) simp
qed (subst decimal.simps, simp)

lemma print_uint_run: "print_uint_to_buffer v st = put_chars (decimal (unat v)) st"
proof -
  have "unat v < 10 ^ Suc 9" using unsigned_less [of v, where ?'a = nat] by simp
  then have "length (decimal (unat v)) \<le> 10" using decimal_length [of "unat v" 9] by simp
  moreover have "length (uint_digits v) = length (decimal (unat v))" by (metis length_rev uint_digits_decimal)
  ultimately show ?thesis by (simp add: print_uint_to_buffer_def uint_digits_decimal)
qed

lemma put_int_run: "put_int v st = put_chars (signed_decimal (sint v)) st"
proof (cases "v <s 0")
  case True
  then have neg: "sint v < 0" by (simp add: word_sless_alt)
  have "uint (- v) = (- sint v) mod 2 ^ 32" using uint_word_of_int [of "- sint v", where ?'a = 32] by simp
  moreover have "- sint v \<le> 2 ^ 31" using sint_ge [of v] by simp
  ultimately have "unat (- v) = nat (- sint v)" using neg by (simp add: unat_eq_nat_uint)
  then show ?thesis using True neg
    by (simp add: put_int_def signed_decimal_def put_chars_Cons print_uint_run cong: rbind_cong)
next
  case False
  then have pos: "0 \<le> sint v" by (simp add: word_sless_alt)
  then have "uint v = sint v" using sint_lt [of v] by (simp add: uint_sint take_bit_int_eq_self)
  then have "unat v = nat (sint v)" by (simp add: unat_eq_nat_uint)
  then show ?thesis using False pos by (simp add: put_int_def signed_decimal_def print_uint_run)
qed

lemma rbind_Inr_right [simp]: "rbind r Inr = r"
  by (cases r) simp_all

lemma rbind_put_Nil [simp]: "rbind r (put_chars []) = r"
  by (cases r) simp_all

lemma unat_drop_bit: "unat (drop_bit k v) = unat v div 2 ^ k" for v :: "'a::len word"
  unfolding unsigned_drop_bit_eq using unsigned_less [of v, where ?'a = nat]
  by (simp add: drop_bit_eq_div take_bit_nat_eq_self)

lemma put_bit_run:
  assumes "i < 32"
  shows "put_bit kern v i st = put_chars ((if bit v i then 0x31 else 0x30) # (if kern \<and> i mod 8 = 0 then [0x20] else [])) st"
proof -
  have "v AND push_bit i 1 \<noteq> 0 \<longleftrightarrow> bit v i"
    by (simp add: bit_iff_and_push_bit_not_eq_0)
  then show ?thesis using assms by (auto simp: put_bit_def put_chars_Cons rbind_assoc intro!: rbind_cong split: if_splits)
qed

lemma put_hex_byte_run:
  assumes "i < n" "n \<le> 4"
  shows "put_hex_byte n v i st = put_chars [hex_digit (unat v div 256 ^ (n - 1 - i) div 16 mod 16), hex_digit (unat v div 256 ^ (n - 1 - i) mod 16)] st"
proof -
  let ?k = "(n - 1 - i) * 8"
  let ?b = "ucast (drop_bit ?k v) :: u8"
  have k: "\<not> 32 \<le> ?k" using assms by linarith
  have b: "unat ?b = unat v div 256 ^ (n - 1 - i) mod 256"
    unfolding unsigned_ucast_eq unat_drop_bit by (simp add: take_bit_eq_mod power_mult mult.commute [of _ 8])
  have nibbles: "x mod 256 div 16 = x div 16 mod 16" "x mod 256 mod 16 = x mod 16" for x :: nat
    using mod_mult2_eq [of x 16 16] by (simp_all add: mod_mod_cancel)
  have "unat (drop_bit 4 ?b) = unat v div 256 ^ (n - 1 - i) div 16 mod 16" "unat (?b AND 0xF) = unat v div 256 ^ (n - 1 - i) mod 16"
    using b unat_and_mask [of ?b 4] unsigned_less [of ?b, where ?'a = nat]
    by (simp_all add: unat_drop_bit mask_eq_exp_minus_1 nibbles)
  then show ?thesis using k by (simp add: put_hex_byte_def hex_digit_def Let_def)
qed

section \<open>The optional number\<close>

lemma digit_range: "k < 10 \<Longrightarrow> 0x30 \<le> (0x30 + of_nat k :: u8) \<and> (0x30 + of_nat k :: u8) \<le> 0x39"
  by (simp add: word_le_nat_alt unat_word_ariths unat_of_nat)

lemma decimal_digits: "c \<in> set (decimal n) \<Longrightarrow> 0x30 \<le> c \<and> c \<le> 0x39"
proof (induction n rule: decimal.induct)
  case (1 n)
  show ?case
  proof (cases "n < 10")
    case True
    then show ?thesis using 1 digit_range [of n] by (simp add: decimal.simps)
  next
    case False
    then have "c \<in> set (decimal (n div 10)) \<or> c = 0x30 + of_nat (n mod 10)" using 1(2) by (auto simp: decimal.simps [of n])
    then show ?thesis using 1(1) [OF False] digit_range [of "n mod 10"] by auto
  qed
qed

lemma digit_value:
  assumes "k < 10"
  shows "ucast ((ucast (0x30 + of_nat k :: u8) - 0x30 :: u32) * x) = (of_nat k * ucast x :: u8)"
proof -
  have "ucast (0x30 + of_nat k :: u8) = (0x30 + of_nat k :: u32)"
    using assms by (simp add: word_unat_eq_iff unsigned_ucast_eq take_bit_eq_mod unat_word_ariths unat_of_nat)
  then have "ucast (0x30 + of_nat k :: u8) - 0x30 = (of_nat k :: u32)" by simp
  moreover have "ucast (of_nat k * x) = (of_nat k * ucast x :: u8)"
    by (simp add: word_unat_eq_iff unsigned_ucast_eq take_bit_eq_mod unat_word_ariths unat_of_nat mod_mod_cancel mod_mult_left_eq mod_mult_right_eq)
  ultimately show ?thesis by simp
qed

lemma opt_value_digit:
  "k < 10 \<Longrightarrow> opt_value ((0x30 + of_nat k) # ds) = of_nat k * ucast (power_u8 10 (of_nat (length ds))) + opt_value ds"
  by (simp only: opt_value.simps digit_value)

lemma opt_value_decimal:
  assumes "w < 256"
  shows "opt_value (encode_opt w) = of_nat w"
proof -
  have two: "unat (2 :: u8) = Suc (Suc 0)" by simp
  have powers: "power_u8 10 0 = 1" "power_u8 10 1 = 10" by (simp_all add: power_u8_def)
  have hundred: "power_u8 10 2 = 100" unfolding power_u8_def two funpow.simps by simp
  have one: "decimal n = [0x30 + of_nat n]" if "n < 10" for n using that by (simp add: decimal.simps)
  consider "w < 10" | "10 \<le> w" "w < 100" | "100 \<le> w" by linarith
  then show ?thesis
  proof cases
    case 1
    then show ?thesis by (auto simp: encode_opt_def one opt_value_digit powers simp del: opt_value.simps(2))
  next
    case 2
    then have w: "decimal w = [0x30 + of_nat (w div 10), 0x30 + of_nat (w mod 10)]" "w div 10 < 10" "w mod 10 < 10"
      by (simp_all add: decimal.simps [of w] one)
    have "(of_nat (w div 10) * 10 + of_nat (w mod 10) :: u8) = of_nat (w div 10 * 10 + w mod 10)"
      by (simp only: of_nat_add of_nat_mult of_nat_numeral)
    then show ?thesis using 2 w by (simp add: encode_opt_def opt_value_digit powers del: opt_value.simps(2))
  next
    case 3
    then have w: "decimal w = [0x30 + of_nat (w div 10 div 10), 0x30 + of_nat (w div 10 mod 10), 0x30 + of_nat (w mod 10)]"
      "w div 10 div 10 < 10" "w div 10 mod 10 < 10" "w mod 10 < 10"
      using assms by (simp_all add: decimal.simps [of w] decimal.simps [of "w div 10"] one)
    have three: "x * 100 + y * 10 + z = w" if "x * 10 + y = q" "q * 10 + z = w" for x y z q using that by linarith
    have sum: "w div 10 div 10 * 100 + w div 10 mod 10 * 10 + w mod 10 = w"
      by (rule three [OF div_mult_mod_eq div_mult_mod_eq])
    have "(of_nat (w div 10 div 10) * 100 + of_nat (w div 10 mod 10) * 10 + of_nat (w mod 10) :: u8)
        = of_nat (w div 10 div 10 * 100 + w div 10 mod 10 * 10 + w mod 10)"
      by (simp only: of_nat_add of_nat_mult of_nat_numeral)
    then have "(of_nat (w div 10 div 10) * 100 + (of_nat (w div 10 mod 10) * 10 + of_nat (w mod 10)) :: u8) = of_nat w"
      unfolding sum by (simp only: add.assoc)
    then show ?thesis using 3 w by (simp add: encode_opt_def opt_value_digit powers hundred del: opt_value.simps(2))
  qed
qed

lemma encode_opt_length: "w < 256 \<Longrightarrow> length (encode_opt w) \<le> 3"
  using decimal_length [of w 2] by (simp add: encode_opt_def)

lemma opt_digits_encoded:
  assumes "w < 256" "conv_types ch \<noteq> None"
  shows "opt_digits (encode_opt w @ ch # src) = length (encode_opt w)"
proof -
  let ?digit = "\<lambda>c :: u8. 0x30 \<le> c \<and> c \<le> 0x39"
  have "\<not> ?digit ch" using assms(2) by (auto split: if_splits)
  moreover have "\<forall>c \<in> set (encode_opt w). ?digit c" using decimal_digits by (auto simp: encode_opt_def)
  ultimately have "takeWhile ?digit (encode_opt w @ ch # src) = encode_opt w" by (simp add: takeWhile_append2)
  then show ?thesis using encode_opt_length [OF assms(1)] by (simp add: opt_digits_def)
qed

section \<open>The format string\<close>

text \<open>One conversion takes its argument and outputs its rendering.\<close>

lemma convert_int:
  assumes "piece_ok (Conv w ch)" "conv_types ch = Some [IntT]"
  shows "convert kern ch w (ArgInt v # args) st = rbind (put_chars (show_conv kern w ch (ArgInt v)) st) (\<lambda>st'. Inr (args, st'))"
proof -
  have bits: "each (put_bit kern v) (rev [0..<w]) s = put_chars (binary_digits kern w v) s" if "w \<le> 32" for s
    unfolding binary_digits_def each_put_chars [symmetric]
    by (rule each_cong) (use that in \<open>simp add: put_bit_run\<close>)
  have hex: "each (put_hex_byte w v) [0..<w] s = put_chars (hex_bytes w v) s" if "w \<le> 4" for s
  proof -
    have "rev [0..<w] = map (\<lambda>i. w - 1 - i) [0..<w]"
      by (rule nth_equalityI) (simp_all add: rev_nth)
    then have hb: "hex_bytes w v = concat (map (\<lambda>i. [hex_digit (unat v div 256 ^ (w - 1 - i) div 16 mod 16),
        hex_digit (unat v div 256 ^ (w - 1 - i) mod 16)]) [0..<w])"
      by (simp add: hex_bytes_def comp_def)
    show ?thesis unfolding hb each_put_chars [symmetric]
      by (intro each_cong put_hex_byte_run) (use that in auto)
  qed
  show ?thesis
    using assms bits hex
    by (auto simp: convert_def piece_ok_def put_int_run put_chars_Cons split: if_splits)
qed

lemma convert_str:
  assumes "arg_ok StrT (ArgStr s)"
  shows "convert kern 0x73 w (ArgStr s # args) st = rbind (put_chars (show_conv kern w 0x73 (ArgStr s)) st) (\<lambda>st'. Inr (args, st'))"
  using assms by (simp add: convert_def put_string_run put_string_count_run Let_def)

lemma convert_smile:
  "convert kern 0x65 w args st = rbind (put_chars (if kern then concat (replicate w [0x3A, 0x44]) else []) st) (\<lambda>st'. Inr (args, st'))"
proof -
  have "each (\<lambda>_. put_chars [0x3A, 0x44]) [0..<w] s = put_chars (concat (replicate w [0x3A, 0x44])) s" for s
    using each_put_chars [of "\<lambda>_. [0x3A, 0x44]" "[0..<w]" s] by (simp add: map_replicate_const)
  then show ?thesis by (simp add: convert_def)
qed

lemma format_loop_run:
  "well_typed ps args \<Longrightarrow> format_loop kern (encode ps) args st = put_chars (render kern ps args) st"
proof (induction kern ps args arbitrary: st rule: render.induct)
  case (1 kern args)
  then show ?case by simp
next
  case (2 kern c ps args)
  then have "c \<noteq> 0" "c \<noteq> 0x25" "well_typed ps args" by (auto simp: well_typed_def piece_ok_def)
  then show ?case using 2(1) by (auto simp: put_chars_Cons intro: rbind_cong)
next
  case (3 kern w ch ps args)
  have ok: "piece_ok (Conv w ch)" "\<forall>p \<in> set ps. piece_ok p"
    and types: "list_all2 arg_ok (the (conv_types ch) @ format_types ps) args"
    using 3(3) by (simp_all add: well_typed_def)
  have w: "w < 256" and ch: "conv_types ch \<noteq> None" using ok(1) by (simp_all add: piece_ok_def)
  have opt: "unat (opt_value (encode_opt w)) = w" using w by (simp add: opt_value_decimal unat_of_nat)
  note digits = opt_digits_encoded [OF w ch]
  have step: "format_loop kern (encode (Conv w ch # ps)) args st
      = rbind (convert kern ch w args st) (\<lambda>(args', st'). format_loop kern (encode ps) args' st')"
    by (simp add: Let_def digits opt)
  consider "ch = 0x65" | "ch = 0x73" | "conv_types ch = Some [IntT]" "ch \<noteq> 0x65" "ch \<noteq> 0x73"
    using ch by (auto split: if_splits)
  then show ?case
  proof cases
    case 1
    then have "well_typed ps args" using ok types by (simp add: well_typed_def)
    then show ?thesis using 1 3(1) unfolding 1 step [unfolded 1] convert_smile
      by (simp add: rbind_assoc put_chars_append cong: rbind_cong)
  next
    case 2
    then obtain s args' where args: "args = ArgStr s # args'" and s: "arg_ok StrT (ArgStr s)"
      and rest: "list_all2 arg_ok (format_types ps) args'"
      using types by (auto simp: list_all2_Cons1 elim!: arg_ok.elims)
    have "well_typed ps args'" using ok rest by (simp add: well_typed_def)
    then show ?thesis using 3(2) [of "ArgStr s" args'] args 2 unfolding args 2 step [unfolded args 2] convert_str [OF s]
      by (simp add: rbind_assoc put_chars_append cong: rbind_cong)
  next
    case int: 3
    then obtain v args' where args: "args = ArgInt v # args'" and rest: "list_all2 arg_ok (format_types ps) args'"
      using types by (auto simp: list_all2_Cons1 elim!: arg_ok.elims)
    have "well_typed ps args'" using ok rest by (simp add: well_typed_def)
    then show ?thesis using 3(2) [of "ArgInt v" args'] args int unfolding args step [unfolded args] convert_int [OF ok(1) int(1)]
      by (simp add: rbind_assoc put_chars_append cong: rbind_cong del: show_conv.simps conv_types.simps)
  qed
qed

text \<open>
  \<^bold>\<open>Well-typed formats (C30).\<close> When the arguments have the types the conversions of the format ask for, the
  formatter outputs the renderings of its pieces one after the other and returns their length; it never
  takes a wrong argument nor reads past the format. Nothing bounds the output: it is written past the end
  of a buffer that is shorter. The text is the documented one as long as every argument of \<^verbatim>\<open>%u\<close> is below
  \<open>2 ^ 31\<close>. Above, the code and its comments differ: \<^verbatim>\<open>%u\<close> is documented as unsigned, and the code outputs a
  minus sign and the distance of the value to \<open>2 ^ 32\<close>.
\<close>

theorem well_typed_formats:
  assumes "well_typed ps args" "out = render kern ps args"
  shows "print_to_buffer_va kern buf (encode ps) args =
      (if length out \<le> length buf then Inr (of_nat (length out), out @ drop (length out) buf) else Inl OutOfBounds)
    \<and> (unsigned_small ps args \<longrightarrow> out = doc_render kern ps args)
    \<and> (\<forall>w v. 2 ^ 31 \<le> unat v \<longrightarrow> render kern [Conv w 0x75] [ArgInt v] = 0x2D # decimal (2 ^ 32 - unat v))"
proof (intro conjI allI impI)
  show "print_to_buffer_va kern buf (encode ps) args =
      (if length out \<le> length buf then Inr (of_nat (length out), out @ drop (length out) buf) else Inl OutOfBounds)"
    unfolding print_to_buffer_va_def format_loop_run [OF assms(1)] assms(2) [symmetric] put_chars_run by simp
qed (simp_all add: assms(2) render_documented signed_unsigned)

theorem well_typed_formats_witness:
  "print_to_buffer_va True (replicate 8 0) (encode [Lit 0x78, Conv 1 0x68, Lit 0x3A, Conv 0 0x64]) [ArgInt 0xA5, ArgInt (- 12)]
    = Inr (7, [0x78, 0x41, 0x35, 0x3A, 0x2D, 0x31, 0x32, 0])"
proof -
  have out: "[0x78, 0x41, 0x35, 0x3A, 0x2D, 0x31, 0x32] =
      render True [Lit 0x78, Conv 1 0x68, Lit 0x3A, Conv 0 0x64] [ArgInt 0xA5, ArgInt (- 12)]"
    by (simp add: hex_bytes_def hex_digit_def hex_table_def signed_decimal_def decimal.simps)
  have "well_typed [Lit 0x78, Conv 1 0x68, Lit 0x3A, Conv 0 0x64] [ArgInt 0xA5, ArgInt (- 12)]"
    by (simp add: well_typed_def piece_ok_def)
  from conjunct1 [OF well_typed_formats [OF this out, of "replicate 8 0"]] show ?thesis by (simp add: numeral_eq_Suc)
qed

end
