(* ===== verification/Core_Registers.thy ===== *)
theory Core_Registers
  imports Registers
begin

text \<open>
  The register blocks of \<^verbatim>\<open>cpu/hardware.h\<close> for the processor core, the memory system, the timers and the
  hash engine. A byte register of an array is at its own byte address.
\<close>

definition watchdog_reg :: layout where
  "watchdog_reg = [
    (''CR'', 1), (''MR'', 1), (''SR'', 1)]"

definition nvic_reg :: layout where
  "nvic_reg = [
    (''ISER'', 8), (''RESERVED1'', 24), (''ICER'', 8), (''RESERVED2'', 24), (''ISPR'', 8),
    (''RESERVED3'', 24), (''ICPR'', 8), (''RESERVED4'', 24), (''IABR'', 8), (''RESERVED5'', 56),
    (''IPR'', 60), (''RESERVED6'', 644), (''STIR'', 1)]"

definition icm_reg :: layout where
  "icm_reg = [
    (''CFG'', 1), (''CTRL'', 1), (''SR'', 1), (''RESERVED1'', 1), (''IER'', 1), (''IDR'', 1),
    (''IMR'', 1), (''ISR'', 1), (''UASR'', 1), (''RESERVED2'', 3), (''DSCR'', 1), (''HASH'', 1),
    (''UIHVAL'', 8)]"

definition matrix_pri_reg :: layout where
  "matrix_pri_reg = [
    (''PRAS'', 1), (''PRBS'', 1)]"

definition matrix_reg :: layout where
  "matrix_reg = [
    (''MCFG'', 13), (''RESERVED1'', 3), (''SCFG'', 9), (''RESERVED2'', 7), (''PRI'', 18),
    (''RESERVED3'', 14), (''MRCR'', 1), (''RESERVED4'', 3), (''CAN0'', 1), (''SYSIO'', 1),
    (''PCCR'', 1), (''DYNCKG'', 1), (''RESERVED5'', 1), (''SMCNFCS'', 1), (''RESERVED6'', 47),
    (''WPMR'', 1), (''WPSR'', 1)]"

definition dram_reg :: layout where
  "dram_reg = [
    (''MR'', 1), (''TR'', 1), (''CR'', 1), (''RESERVED'', 1), (''LPR'', 1), (''IER'', 1),
    (''IDR'', 1), (''IMR'', 1), (''ISR'', 1), (''MDR'', 1), (''CFR1'', 1), (''OCMS'', 1),
    (''OCMS_KEY1'', 1), (''OCMS_KEY2'', 1)]"

definition scb_reg :: layout where
  "scb_reg = [
    (''CPUID'', 1), (''ICSR'', 1), (''VTOR'', 1), (''AIRCR'', 1), (''SCR'', 1), (''CCR'', 1),
    (''SHPR'', 3), (''SHCSR'', 1), (''CFSR'', 1), (''HFSR'', 1), (''DFSR'', 1), (''MMFAR'', 1),
    (''BFAR'', 1), (''AFSR'', 1), (''ID_PFR'', 2), (''ID_DFR'', 1), (''ID_AFR'', 1),
    (''ID_MFR'', 4), (''ID_ISAR'', 5), (''RESERVED0'', 1), (''CLIDR'', 1), (''CTR'', 1),
    (''CCSIDR'', 1), (''CSSELR'', 1), (''CPACR'', 1), (''RESERVED3'', 93), (''STIR'', 1),
    (''RESERVED4'', 15), (''MVFR0'', 1), (''MVFR1'', 1), (''MVFR2'', 1), (''RESERVED5'', 1),
    (''ICIALLU'', 1), (''RESERVED6'', 1), (''ICIMVAU'', 1), (''DCIMVAC'', 1), (''DCISW'', 1),
    (''DCCMVAU'', 1), (''DCCMVAC'', 1), (''DCCSW'', 1), (''DCCIMVAC'', 1), (''DCCISW'', 1),
    (''RESERVED7'', 6), (''ITCMCR'', 1), (''DTCMCR'', 1), (''AHBPCR'', 1), (''CACR'', 1),
    (''AHBSCR'', 1), (''RESERVED8'', 1), (''ABFSR'', 1)]"

definition mpu_reg :: layout where
  "mpu_reg = [
    (''TYPE'', 1), (''CTRL'', 1), (''RNR'', 1), (''RBAR'', 1), (''RASR'', 1), (''RBAR_A1'', 1),
    (''RASR_A1'', 1), (''RBAR_A2'', 1), (''RASR_A2'', 1), (''RBAR_A3'', 1), (''RASR_A3'', 1)]"

definition timer_channel :: layout where
  "timer_channel = [
    (''CCR'', 1), (''CMR'', 1), (''SMMR'', 1), (''RAB'', 1), (''CV'', 1), (''RA'', 1), (''RB'', 1),
    (''RC'', 1), (''SR'', 1), (''IER'', 1), (''IDR'', 1), (''IMR'', 1), (''EMR'', 1),
    (''RESERVED'', 3)]"

definition timer_reg :: layout where
  "timer_reg = [
    (''channel'', 48), (''BCR'', 1), (''BMR'', 1), (''QIER'', 1), (''QIDR'', 1), (''QIMR'', 1),
    (''QISR'', 1), (''FMR'', 1), (''RESERVED'', 2), (''WPMR'', 1)]"

definition WATCHDOG :: "string \<Rightarrow> u32" where
  "WATCHDOG = reg_at 0x400E1850 watchdog_reg"

definition NVIC :: "string \<Rightarrow> u32" where
  "NVIC = reg_at 0xE000E100 nvic_reg"

definition ICM :: "string \<Rightarrow> u32" where
  "ICM = reg_at 0x40048000 icm_reg"

definition MATRIX :: "string \<Rightarrow> u32" where
  "MATRIX = reg_at 0x40088000 matrix_reg"

definition DRAM :: "string \<Rightarrow> u32" where
  "DRAM = reg_at 0x40084000 dram_reg"

definition SCB :: "string \<Rightarrow> u32" where
  "SCB = reg_at 0xE000ED00 scb_reg"

definition MPU :: "string \<Rightarrow> u32" where
  "MPU = reg_at 0xE000ED90 mpu_reg"

text \<open>Channel \<open>i\<close> of the first timer module.\<close>

definition TIMER0_channel :: "nat \<Rightarrow> string \<Rightarrow> u32" where
  "TIMER0_channel i = reg_at (reg_at 0x4000C000 timer_reg ''channel'' + of_nat (block_bytes timer_channel * i)) timer_channel"

definition reg_byte :: "u32 \<Rightarrow> nat \<Rightarrow> u32" where
  "reg_byte r i = r + of_nat i"

lemmas core_register_defs = WATCHDOG_def NVIC_def ICM_def MATRIX_def DRAM_def SCB_def MPU_def TIMER0_channel_def reg_byte_def

end
