(* ===== verification/Cpu_Drivers.thy ===== *)
theory Cpu_Drivers
  imports Core_Registers Gpio_Clock
begin

text \<open>
  The drivers of the processor core and the memory system: interrupt controller (\<^verbatim>\<open>cpu/nvic.h\<close>), caches
  (\<^verbatim>\<open>mm/cache.c\<close>), memory protection (\<^verbatim>\<open>mm/mpu.c\<close>), tick timer, watchdog, bus matrix, hash engine and
  SDRAM controller (\<^verbatim>\<open>drivers/\<close>). Barriers order accesses that the bus already performs in order; delay
  loops have no effect on it.
\<close>

section \<open>Interrupts\<close>

datatype irq_priority = NVIC_PRI_0 | NVIC_PRI_1 | NVIC_PRI_2 | NVIC_PRI_3 | NVIC_PRI_4 | NVIC_PRI_5 | NVIC_PRI_6 | NVIC_PRI_7

fun priority_code :: "irq_priority \<Rightarrow> u32" where
  "priority_code NVIC_PRI_0 = 0"
| "priority_code NVIC_PRI_1 = 1"
| "priority_code NVIC_PRI_2 = 2"
| "priority_code NVIC_PRI_3 = 3"
| "priority_code NVIC_PRI_4 = 4"
| "priority_code NVIC_PRI_5 = 5"
| "priority_code NVIC_PRI_6 = 6"
| "priority_code NVIC_PRI_7 = 7"

text \<open>The register and the bit of an interrupt in the bit arrays.\<close>

definition irq_reg :: "string \<Rightarrow> u8 \<Rightarrow> u32" where
  "irq_reg r irq_number = reg_elem (NVIC r) (unat (drop_bit 5 irq_number))"

definition irq_bit :: "u8 \<Rightarrow> u32" where
  "irq_bit irq_number = push_bit (unat (irq_number AND 0x1F)) 1"

definition irq_test :: "'h mmio \<Rightarrow> string \<Rightarrow> u8 \<Rightarrow> ('h, u8) io" where
  "irq_test b r irq_number =
     io_bind (reg_get b (irq_reg r irq_number)) (\<lambda>v. io_return (if v AND irq_bit irq_number \<noteq> 0 then 1 else 0))"

definition nvic_enable :: "'h mmio \<Rightarrow> u8 \<Rightarrow> ('h, unit) io" where
  "nvic_enable b irq_number = reg_set b (irq_reg ''ISER'' irq_number) (irq_bit irq_number)"

definition nvic_disable :: "'h mmio \<Rightarrow> u8 \<Rightarrow> ('h, unit) io" where
  "nvic_disable b irq_number = reg_set b (irq_reg ''ICER'' irq_number) (irq_bit irq_number)"

definition nvic_is_enabled :: "'h mmio \<Rightarrow> u8 \<Rightarrow> ('h, u8) io" where
  "nvic_is_enabled b irq_number = irq_test b ''ISER'' irq_number"

definition nvic_set_pending :: "'h mmio \<Rightarrow> u8 \<Rightarrow> ('h, unit) io" where
  "nvic_set_pending b irq_number = reg_set b (irq_reg ''ISPR'' irq_number) (irq_bit irq_number)"

definition nvic_clear_pending :: "'h mmio \<Rightarrow> u8 \<Rightarrow> ('h, unit) io" where
  "nvic_clear_pending b irq_number = reg_set b (irq_reg ''ICPR'' irq_number) (irq_bit irq_number)"

definition nvic_is_pending :: "'h mmio \<Rightarrow> u8 \<Rightarrow> ('h, u8) io" where
  "nvic_is_pending b irq_number = irq_test b ''ISPR'' irq_number"

definition nvic_is_active :: "'h mmio \<Rightarrow> u8 \<Rightarrow> ('h, u8) io" where
  "nvic_is_active b irq_number = irq_test b ''IABR'' irq_number"

definition nvic_set_prioriy :: "'h mmio \<Rightarrow> u8 \<Rightarrow> irq_priority \<Rightarrow> ('h, unit) io" where
  "nvic_set_prioriy b irq_number pri =
     reg_set b (reg_byte (NVIC ''IPR'') (unat irq_number)) (push_bit 5 (priority_code pri) AND 0xFF)"

definition nvic_get_priority :: "'h mmio \<Rightarrow> u8 \<Rightarrow> ('h, u8) io" where
  "nvic_get_priority b irq_number =
     io_bind (reg_get b (reg_byte (NVIC ''IPR'') (unat irq_number))) (\<lambda>v. io_return (drop_bit 5 (ucast v)))"

definition system_priority :: "'h mmio \<Rightarrow> nat \<Rightarrow> irq_priority \<Rightarrow> ('h, unit) io" where
  "system_priority b i pri = reg_set b (reg_byte (SCB ''SHPR'') i) (push_bit 5 (priority_code pri) AND 0xFF)"

definition systick_set_priority :: "'h mmio \<Rightarrow> irq_priority \<Rightarrow> ('h, unit) io" where
  "systick_set_priority b = system_priority b 11"

definition pendsv_set_priority :: "'h mmio \<Rightarrow> irq_priority \<Rightarrow> ('h, unit) io" where
  "pendsv_set_priority b = system_priority b 10"

definition svc_set_priority :: "'h mmio \<Rightarrow> irq_priority \<Rightarrow> ('h, unit) io" where
  "svc_set_priority b = system_priority b 7"

definition usage_fault_set_priority :: "'h mmio \<Rightarrow> irq_priority \<Rightarrow> ('h, unit) io" where
  "usage_fault_set_priority b = system_priority b 2"

definition mem_fault_set_priority :: "'h mmio \<Rightarrow> irq_priority \<Rightarrow> ('h, unit) io" where
  "mem_fault_set_priority b = system_priority b 0"

definition bus_fault_set_priority :: "'h mmio \<Rightarrow> irq_priority \<Rightarrow> ('h, unit) io" where
  "bus_fault_set_priority b = system_priority b 1"

definition systick_set_pending :: "'h mmio \<Rightarrow> ('h, unit) io" where
  "systick_set_pending b = reg_set b (SCB ''ICSR'') (push_bit 26 1)"

definition systick_clear_pending :: "'h mmio \<Rightarrow> ('h, unit) io" where
  "systick_clear_pending b = reg_set b (SCB ''ICSR'') (push_bit 25 1)"

definition pendsv_set_pending :: "'h mmio \<Rightarrow> ('h, unit) io" where
  "pendsv_set_pending b = reg_set b (SCB ''ICSR'') (push_bit 28 1)"

definition pendsv_clear_pending :: "'h mmio \<Rightarrow> ('h, unit) io" where
  "pendsv_clear_pending b = reg_set b (SCB ''ICSR'') (push_bit 27 1)"

definition nmi_set_pending :: "'h mmio \<Rightarrow> ('h, unit) io" where
  "nmi_set_pending b = reg_set b (SCB ''ICSR'') (push_bit 31 1)"

definition vector_is_pending :: "'h mmio \<Rightarrow> ('h, u8) io" where
  "vector_is_pending b =
     io_bind (reg_get b (SCB ''ICSR'')) (\<lambda>v. io_return (if v AND push_bit 22 1 \<noteq> 0 then 1 else 0))"

definition nvic_get_executing_vector :: "'h mmio \<Rightarrow> ('h, u8) io" where
  "nvic_get_executing_vector b = io_bind (reg_get b (SCB ''ICSR'')) (\<lambda>v. io_return (ucast (v AND 0xFF)))"

section \<open>Caches\<close>

text \<open>
  A cache is walked from one past the last set and the last way down to 0 by the \<^verbatim>\<open>do\<close> loops
  \<^verbatim>\<open>while (num--)\<close>, writing each line to a maintenance register.
\<close>

definition cache_lines :: "u32 \<Rightarrow> (nat \<times> nat) list" where
  "cache_lines cache_id =
     (let num_sets = unat (drop_bit 13 cache_id AND 0x7FFF) + 1; num_ways = unat (drop_bit 3 cache_id AND 0x3FF) + 1
      in concat (map (\<lambda>s. map (\<lambda>w. (s, w)) (rev [0..<num_ways + 1])) (rev [0..<num_sets + 1])))"

definition line_word :: "nat \<times> nat \<Rightarrow> u32" where
  "line_word = (\<lambda>(s, w). push_bit 5 (of_nat s) OR push_bit 30 (of_nat w))"

definition cache_walk :: "'h mmio \<Rightarrow> string \<Rightarrow> ('h, unit) io" where
  "cache_walk b r =
     io_bind (reg_get b (SCB ''CCSIDR'')) (\<lambda>cache_id.
       for_io (\<lambda>l _. reg_set b (SCB r) (line_word l)) (cache_lines cache_id) ())"

definition dcache_enable :: "'h mmio \<Rightarrow> ('h, unit) io" where
  "dcache_enable b =
     io_then (reg_set b (SCB ''CSSELR'') 0)
     (io_then (cache_walk b ''DCISW'') (reg_or b (SCB ''CCR'') (push_bit 16 1)))"

definition dcache_disable :: "'h mmio \<Rightarrow> ('h, unit) io" where
  "dcache_disable b =
     io_then (reg_set b (SCB ''CSSELR'') 0)
     (io_then (reg_and b (SCB ''CCR'') (NOT (push_bit 16 1))) (cache_walk b ''DCCISW''))"

definition dcache_invalidate :: "'h mmio \<Rightarrow> ('h, unit) io" where
  "dcache_invalidate b = io_then (reg_set b (SCB ''CSSELR'') 0) (cache_walk b ''DCISW'')"

definition dcache_clean :: "'h mmio \<Rightarrow> ('h, unit) io" where
  "dcache_clean b = io_then (reg_set b (SCB ''CSSELR'') 0) (cache_walk b ''DCCSW'')"

definition dcache_clean_invalidate :: "'h mmio \<Rightarrow> ('h, unit) io" where
  "dcache_clean_invalidate b = io_then (reg_set b (SCB ''CSSELR'') 0) (cache_walk b ''DCCISW'')"

text \<open>Maintenance by address, 32 bytes at a time; the counter is a 32-bit word.\<close>

definition cache_by_address :: "'h mmio \<Rightarrow> string \<Rightarrow> u32 \<Rightarrow> u32 \<Rightarrow> ('h, unit) io" where
  "cache_by_address b r addr size' =
     (if addr AND 0x1F \<noteq> 0 then io_panic ''Unaligned cache address detected''
      else repeat_io (\<lambda>(i, addr_ptr).
        if i < size' then io_then (reg_set b (SCB r) addr_ptr) (again (i + 32, addr_ptr + 32)) else leave ()) (0, addr))"

definition dcache_invalidate_addr :: "'h mmio \<Rightarrow> u32 \<Rightarrow> u32 \<Rightarrow> ('h, unit) io" where
  "dcache_invalidate_addr b = cache_by_address b ''DCIMVAC''"

definition dcache_clean_addr :: "'h mmio \<Rightarrow> u32 \<Rightarrow> u32 \<Rightarrow> ('h, unit) io" where
  "dcache_clean_addr b = cache_by_address b ''DCCMVAC''"

definition dcache_clean_invalidate_addr :: "'h mmio \<Rightarrow> u32 \<Rightarrow> u32 \<Rightarrow> ('h, unit) io" where
  "dcache_clean_invalidate_addr b = cache_by_address b ''DCCIMVAC''"

definition icache_enable :: "'h mmio \<Rightarrow> ('h, unit) io" where
  "icache_enable b = io_then (reg_set b (SCB ''ICIALLU'') 0) (reg_or b (SCB ''CCR'') (push_bit 17 1))"

definition icache_disable :: "'h mmio \<Rightarrow> ('h, unit) io" where
  "icache_disable b = io_then (reg_and b (SCB ''CCR'') (NOT (push_bit 17 1))) (reg_set b (SCB ''ICIALLU'') 0)"

definition icache_invalidate :: "'h mmio \<Rightarrow> ('h, unit) io" where
  "icache_invalidate b = reg_set b (SCB ''ICIALLU'') 0"

section \<open>Memory protection\<close>

record mpu_region =
  mpu_size :: u8
  mpu_ap :: "3 word"
  mpu_tex :: "3 word"
  mpu_c :: "1 word"
  mpu_b :: "1 word"
  mpu_s :: "1 word"
  mpu_executable :: "1 word"
  mpu_enabled :: "1 word"
  mpu_subregion_mask :: u8

definition mpu_enable_priv_access :: "'h mmio \<Rightarrow> ('h, unit) io" where
  "mpu_enable_priv_access b = reg_or b (MPU ''CTRL'') (push_bit 2 1)"

definition mpu_disable_priv_access :: "'h mmio \<Rightarrow> ('h, unit) io" where
  "mpu_disable_priv_access b = reg_and b (MPU ''CTRL'') (NOT (push_bit 2 1))"

definition mpu_hard_fault_enable :: "'h mmio \<Rightarrow> ('h, unit) io" where
  "mpu_hard_fault_enable b = reg_or b (MPU ''CTRL'') (push_bit 1 1)"

definition mpu_hard_fault_disable :: "'h mmio \<Rightarrow> ('h, unit) io" where
  "mpu_hard_fault_disable b = reg_and b (MPU ''CTRL'') (NOT (push_bit 1 1))"

definition mpu_enable :: "'h mmio \<Rightarrow> ('h, unit) io" where
  "mpu_enable b = reg_or b (MPU ''CTRL'') 1"

definition mpu_disable :: "'h mmio \<Rightarrow> ('h, unit) io" where
  "mpu_disable b = reg_and b (MPU ''CTRL'') (NOT 1)"

definition mpu_get_data_regions :: "'h mmio \<Rightarrow> ('h, u8) io" where
  "mpu_get_data_regions b = io_bind (reg_get b (MPU ''TYPE'')) (\<lambda>reg. io_return (ucast (drop_bit 8 reg AND 0xFF)))"

definition mpu_set_region :: "'h mmio \<Rightarrow> u8 \<Rightarrow> ('h, unit) io" where
  "mpu_set_region b reg_num =
     io_bind (mpu_get_data_regions b) (\<lambda>max_region.
     if max_region \<le> reg_num then io_panic ''MPU region failure'' else reg_set b (MPU ''RNR'') (ucast reg_num))"

definition region_rasr :: "mpu_region \<Rightarrow> u32" where
  "region_rasr r =
     push_bit 24 (ucast (mpu_ap r)) OR push_bit 19 (ucast (mpu_tex r)) OR push_bit 17 (ucast (mpu_c r))
     OR push_bit 16 (ucast (mpu_b r)) OR push_bit 18 (ucast (mpu_s r))
     OR (if mpu_executable r = 0 then push_bit 28 1 else 0)
     OR push_bit 8 (ucast (mpu_subregion_mask r)) OR ucast (mpu_enabled r) OR push_bit 1 (ucast (mpu_size r))"

definition mpu_configure_region :: "'h mmio \<Rightarrow> u8 \<Rightarrow> u32 \<Rightarrow> mpu_region \<Rightarrow> ('h, unit) io" where
  "mpu_configure_region b reg_num addr r =
     io_then (mpu_set_region b reg_num)
     (if mpu_size r < 4 then io_panic ''Region size error''
      else if 32 \<le> unat (mpu_size r) + 1 then io_fail ShiftRange
      else if addr AND (push_bit (unat (mpu_size r) + 1) 1 - 1) \<noteq> 0 then io_panic ''Address is wrong''
      else io_then (reg_set b (MPU ''RBAR'') addr) (reg_set b (MPU ''RASR'') (region_rasr r)))"

section \<open>Tick timer, watchdog, bus matrix\<close>

definition systick_enable :: "'h mmio \<Rightarrow> u8 \<Rightarrow> ('h, unit) io" where
  "systick_enable b irq_enable = reg_set b (SYSTICK ''CSR'') (if irq_enable \<noteq> 0 then 5 OR push_bit 1 1 else 5)"

definition systick_disable :: "'h mmio \<Rightarrow> ('h, unit) io" where
  "systick_disable b = reg_set b (SYSTICK ''CSR'') 0"

definition systick_set_rvr :: "'h mmio \<Rightarrow> u32 \<Rightarrow> ('h, unit) io" where
  "systick_set_rvr b v = reg_set b (SYSTICK ''RVR'') (0xFFFFFF AND v)"

definition systick_set_cvr :: "'h mmio \<Rightarrow> u32 \<Rightarrow> ('h, unit) io" where
  "systick_set_cvr b v = reg_set b (SYSTICK ''CVR'') (0xFFFFFF AND v)"

definition systick_get_cvr :: "'h mmio \<Rightarrow> ('h, u32) io" where
  "systick_get_cvr b = reg_get b (SYSTICK ''CVR'')"

definition watchdog_disable :: "'h mmio \<Rightarrow> ('h, unit) io" where
  "watchdog_disable b = reg_set b (WATCHDOG ''MR'') (push_bit 15 1)"

datatype cs1_select = CS1_SDRAM | CS1_NAND_FLASH | CS1_NONE

definition matrix_cs_init :: "'h mmio \<Rightarrow> cs1_select \<Rightarrow> u8 \<Rightarrow> u8 \<Rightarrow> u8 \<Rightarrow> ('h, unit) io" where
  "matrix_cs_init b cs1 assign_cs2_flash assign_cs3_flash assign_cs0_flash =
     reg_set b (MATRIX ''SMCNFCS'')
       ((1 AND ucast assign_cs0_flash) OR push_bit 2 (1 AND ucast assign_cs2_flash) OR push_bit 3 (1 AND ucast assign_cs3_flash)
        OR (case cs1 of CS1_SDRAM \<Rightarrow> push_bit 4 1 | CS1_NAND_FLASH \<Rightarrow> 1 | CS1_NONE \<Rightarrow> 0))"

section \<open>SDRAM controller\<close>

definition dram_pins :: "(u32 \<times> u8 \<times> gpio_func) list" where
  "dram_pins = [
    (GPIOC, 20, GPIO_FUNC_A), (GPIOC, 21, GPIO_FUNC_A), (GPIOC, 22, GPIO_FUNC_A), (GPIOC, 23,
    GPIO_FUNC_A), (GPIOC, 24, GPIO_FUNC_A), (GPIOC, 25, GPIO_FUNC_A), (GPIOC, 26, GPIO_FUNC_A), (GPIOC,
    27, GPIO_FUNC_A), (GPIOC, 28, GPIO_FUNC_A), (GPIOC, 29, GPIO_FUNC_A), (GPIOA, 20, GPIO_FUNC_C),
    (GPIOD, 17, GPIO_FUNC_C), (GPIOC, 0, GPIO_FUNC_A), (GPIOC, 1, GPIO_FUNC_A), (GPIOC, 2, GPIO_FUNC_A),
    (GPIOC, 3, GPIO_FUNC_A), (GPIOC, 4, GPIO_FUNC_A), (GPIOC, 5, GPIO_FUNC_A), (GPIOC, 6, GPIO_FUNC_A),
    (GPIOC, 7, GPIO_FUNC_A), (GPIOE, 0, GPIO_FUNC_A), (GPIOE, 1, GPIO_FUNC_A), (GPIOE, 2, GPIO_FUNC_A),
    (GPIOE, 3, GPIO_FUNC_A), (GPIOE, 4, GPIO_FUNC_A), (GPIOE, 5, GPIO_FUNC_A), (GPIOA, 15, GPIO_FUNC_A),
    (GPIOA, 16, GPIO_FUNC_A), (GPIOC, 18, GPIO_FUNC_A), (GPIOD, 15, GPIO_FUNC_C), (GPIOD, 16,
    GPIO_FUNC_C), (GPIOD, 13, GPIO_FUNC_C), (GPIOD, 23, GPIO_FUNC_C), (GPIOD, 14, GPIO_FUNC_C), (GPIOC,
    15, GPIO_FUNC_A), (GPIOD, 29, GPIO_FUNC_C)]"

datatype dram_mode = DRAM_MODE_NORMAL | DRAM_MODE_NOP | DRAM_MODE_PRECHARGE | DRAM_MODE_LOAD_MR
  | DRAM_MODE_REFRESH | DRAM_MODE_LOAD_EXT_MR | DRAM_MODE_POWERDOWN

fun dram_mode_code :: "dram_mode \<Rightarrow> u32" where
  "dram_mode_code DRAM_MODE_NORMAL = 0"
| "dram_mode_code DRAM_MODE_NOP = 1"
| "dram_mode_code DRAM_MODE_PRECHARGE = 2"
| "dram_mode_code DRAM_MODE_LOAD_MR = 3"
| "dram_mode_code DRAM_MODE_REFRESH = 4"
| "dram_mode_code DRAM_MODE_LOAD_EXT_MR = 5"
| "dram_mode_code DRAM_MODE_POWERDOWN = 6"

text \<open>A mode is followed by a write to the memory, which issues the command.\<close>

definition dram_command :: "'h mmio \<Rightarrow> dram_mode \<Rightarrow> u32 \<Rightarrow> u32 \<Rightarrow> ('h, unit) io" where
  "dram_command b mode addr v = io_then (reg_set b (DRAM ''MR'') (dram_mode_code mode)) (reg_set b addr v)"

definition dram_init :: "'h mmio \<Rightarrow> ('h, unit) io" where
  "dram_init b =
     io_then (peripheral_clock_enable b 62)
     (io_then (for_io (\<lambda>(port, pin, f) _. gpio_set_function b port pin f) dram_pins ())
     (io_then (matrix_cs_init b CS1_SDRAM 0 0 0)
     (io_then (reg_set b (DRAM ''CR'') 0xF955D5E0)
     (io_then (reg_set b (DRAM ''CFR1'') 0x102)
     (io_then (reg_set b (DRAM ''LPR'') 0)
     (io_then (reg_set b (DRAM ''MDR'') 0)
     (io_then (dram_command b DRAM_MODE_NOP 0x70000000 0)
     (io_then (dram_command b DRAM_MODE_PRECHARGE 0x70000000 0)
     (io_then (for_io (\<lambda>i _. dram_command b DRAM_MODE_REFRESH 0x70000000 (of_nat i)) [1..<9] ())
     (io_then (dram_command b DRAM_MODE_LOAD_MR 0x70000060 0xFEFA)
     (io_then (dram_command b DRAM_MODE_NORMAL 0x70000000 0)
     (reg_set b (DRAM ''TR'') (150000000 div 1000 * 15625 div 1000000 AND 0xFFF)))))))))))))"

section \<open>Hash engine\<close>

text \<open>
  The engine reads a descriptor at \<open>desc\<close> in memory, hashes the region it names and writes the digest to
  memory: all of it is on the bus. The functions return when the engine reports the end of the region.
\<close>

definition hash_region :: "'h mmio \<Rightarrow> u32 \<Rightarrow> u32 \<Rightarrow> u32 \<Rightarrow> u32 \<Rightarrow> ('h, unit) io" where
  "hash_region b desc start cfg size' =
     io_then (reg_set b desc start)
     (io_then (reg_set b (desc + 4) cfg)
     (io_then (reg_set b (desc + 8) (size' div 32 - 1))
     (reg_set b (desc + 12) 0)))"

definition hash_wait :: "'h mmio \<Rightarrow> ('h, unit) io" where
  "hash_wait b =
     io_bind (reg_wait b (ICM ''ISR'') (\<lambda>status. status AND 1 \<noteq> 0)) (\<lambda>status.
     if status AND (push_bit 24 1 OR push_bit 8 0xF) \<noteq> 0 then io_panic ''Hash error'' else io_return ())"

definition hash256_generate :: "'h mmio \<Rightarrow> u32 \<Rightarrow> u32 \<Rightarrow> u32 \<Rightarrow> u32 \<Rightarrow> ('h, unit) io" where
  "hash256_generate b desc data size' hash =
     io_then (reg_set b (ICM ''CTRL'') (push_bit 2 1))
     (io_then (reg_set b (ICM ''CFG'') (push_bit 2 1 OR push_bit 13 1))
     (io_then (hash_region b desc data (push_bit 12 1 OR push_bit 2 1) size')
     (io_then (reg_set b (ICM ''DSCR'') desc)
     (io_then (reg_set b (ICM ''HASH'') hash)
     (io_then (reg_set b (ICM ''CTRL'') 1)
     (io_then (hash_wait b)
     (reg_set b (ICM ''CTRL'') (push_bit 2 1 OR push_bit 1 1))))))))"

text \<open>The bootloader's version clears the digest first.\<close>

definition boot_hash256_generate :: "'h mmio \<Rightarrow> u32 \<Rightarrow> u32 \<Rightarrow> u32 \<Rightarrow> u32 \<Rightarrow> ('h, unit) io" where
  "boot_hash256_generate b desc data size' hash =
     io_then (reg_set b (ICM ''CTRL'') (push_bit 2 1 OR push_bit 1 1 OR push_bit 9 7))
     (io_then (reg_set b (ICM ''CFG'') (push_bit 2 1 OR push_bit 13 1))
     (io_then (hash_region b desc data (push_bit 12 1 OR push_bit 2 1) size')
     (io_then (reg_set b (ICM ''DSCR'') desc)
     (io_then (reg_set b (ICM ''HASH'') hash)
     (io_then (for_io (\<lambda>i _. reg_set b (reg_byte hash i) 0) [0..<32] ())
     (io_then (reg_set b (ICM ''CTRL'') 1)
     (io_then (hash_wait b)
     (reg_set b (ICM ''CTRL'') (push_bit 2 1)))))))))"

definition hash256_verify :: "'h mmio \<Rightarrow> u32 \<Rightarrow> u32 \<Rightarrow> u32 \<Rightarrow> u32 \<Rightarrow> ('h, u8) io" where
  "hash256_verify b desc data size' hash =
     io_then (reg_set b (ICM ''CTRL'') (push_bit 2 1 OR push_bit 1 1 OR push_bit 9 7))
     (io_then (reg_set b (ICM ''CFG'') (push_bit 2 1 OR push_bit 13 1))
     (io_then (hash_region b desc data (push_bit 12 1 OR push_bit 2 1 OR 1) size')
     (io_then (reg_set b (ICM ''DSCR'') desc)
     (io_then (reg_set b (ICM ''HASH'') hash)
     (io_then (reg_set b (ICM ''CTRL'') 1)
     (io_then (hash_wait b)
     (io_then (reg_set b (ICM ''CTRL'') (push_bit 2 1))
     (io_return 0))))))))"

end
