(* ===== verification/Serial_Port.thy ===== *)
theory Serial_Port
  imports Cpu_Drivers Sprint Ring_Buffer
begin

text \<open>
  The serial ports: the driver \<^verbatim>\<open>drivers/usart.c\<close>, the host port \<^verbatim>\<open>board/serial.c\<close> and the console
  \<^verbatim>\<open>board/print.c\<close>. A formatted line is built in a static buffer, of which only the characters just written
  are read, and sent character by character, each one after a wait for the transmitter.
\<close>

section \<open>The driver\<close>

datatype usart_parity = USART_PARITY_EVEN | USART_PARITY_ODD | USART_PARITY_SPACE | USART_PARITY_MARK
  | USART_PARITY_NO | USART_PARITY_MULTIDROP

fun parity_code :: "usart_parity \<Rightarrow> u32" where
  "parity_code USART_PARITY_EVEN = 0"
| "parity_code USART_PARITY_ODD = 1"
| "parity_code USART_PARITY_SPACE = 2"
| "parity_code USART_PARITY_MARK = 3"
| "parity_code USART_PARITY_NO = 4"
| "parity_code USART_PARITY_MULTIDROP = 6"

datatype usart_sb = USART_SB_ONE | USART_SB_TWO

fun sb_code :: "usart_sb \<Rightarrow> u32" where
  "sb_code USART_SB_ONE = 0"
| "sb_code USART_SB_TWO = 2"

datatype usart_data = USART_DATA_5_BIT | USART_DATA_6_BIT | USART_DATA_7_BIT | USART_DATA_8_BIT

fun data_code :: "usart_data \<Rightarrow> u32" where
  "data_code USART_DATA_5_BIT = 0"
| "data_code USART_DATA_6_BIT = 1"
| "data_code USART_DATA_7_BIT = 2"
| "data_code USART_DATA_8_BIT = 3"

record usart_desc =
  buad_rate :: u32
  data_bits :: usart_data
  stop_bits :: usart_sb
  parity_bits :: usart_parity

definition USART_IRQ_RXRDY :: u32 where
  "USART_IRQ_RXRDY = push_bit 0 1"

definition usart_init :: "'h mmio \<Rightarrow> u32 \<Rightarrow> usart_desc \<Rightarrow> ('h, unit) io" where
  "usart_init b base desc =
     io_then (reg_set b (usart base ''CR'') (push_bit 5 1 OR push_bit 7 1 OR push_bit 2 1 OR push_bit 3 1))
     (io_then (reg_set b (usart base ''RTOR'') 0)
     (io_then (reg_set b (usart base ''TTGR'') 0)
     (io_then (reg_set b (usart base ''MR'') (push_bit 20 1 OR push_bit 6 (data_code (data_bits desc))
        OR push_bit 12 (sb_code (stop_bits desc)) OR push_bit 9 (parity_code (parity_bits desc))))
     (io_then (reg_set b (usart base ''BRGR'') (ucast (ucast (150000000 div (16 * buad_rate desc)) :: u16)))
     (reg_set b (usart base ''CR'') (push_bit 4 1 OR push_bit 6 1))))))"

definition usart_deinit :: "'h mmio \<Rightarrow> u32 \<Rightarrow> ('h, unit) io" where
  "usart_deinit b base =
     io_then (reg_set b (usart base ''CR'') (push_bit 5 1 OR push_bit 7 1 OR push_bit 2 1 OR push_bit 3 1))
       (reg_set b (usart base ''IDR'') 0xFFFFFFFF)"

definition usart_interrupt_enable :: "'h mmio \<Rightarrow> u32 \<Rightarrow> u32 \<Rightarrow> ('h, unit) io" where
  "usart_interrupt_enable b base mask' = reg_set b (usart base ''IER'') mask'"

definition usart_write :: "'h mmio \<Rightarrow> u32 \<Rightarrow> u8 \<Rightarrow> ('h, unit) io" where
  "usart_write b base data = io_then (wait_bit b (usart base ''CSR'') 1) (reg_set b (usart base ''THR'') (ucast data))"

definition usart_write_raw :: "'h mmio \<Rightarrow> u32 \<Rightarrow> u8 \<Rightarrow> ('h, unit) io" where
  "usart_write_raw b base data = reg_set b (usart base ''THR'') (ucast data)"

definition usart_read :: "'h mmio \<Rightarrow> u32 \<Rightarrow> ('h, u8) io" where
  "usart_read b base = io_bind (reg_get b (usart base ''RHR'')) (\<lambda>v. io_return (ucast v))"

definition usart_get_thr_status :: "'h mmio \<Rightarrow> u32 \<Rightarrow> ('h, u8) io" where
  "usart_get_thr_status b base = io_bind (reg_get b (usart base ''CSR'')) (\<lambda>v. io_return (ucast (v AND push_bit 1 1)))"

definition usart_flush :: "'h mmio \<Rightarrow> u32 \<Rightarrow> ('h, unit) io" where
  "usart_flush b base = wait_bit b (usart base ''CSR'') 9"

section \<open>Formatted output\<close>

definition cstr :: "string \<Rightarrow> u8 list" where
  "cstr s = map of_char s @ [0]"

text \<open>
  The version of the formatter (the kernel's or the bootloader's), the size of the static buffer, the format and the
  arguments.
\<close>

definition usart_print :: "'h mmio \<Rightarrow> u32 \<Rightarrow> bool \<Rightarrow> nat \<Rightarrow> u8 list \<Rightarrow> fmt_arg list \<Rightarrow> ('h, unit) io" where
  "usart_print b base kern n data args =
     io_bind (io_res (print_to_buffer_va kern (replicate n 0) data args)) (\<lambda>(size', buf).
       for_io (\<lambda>i _. io_bind (io_res (array_get buf i)) (usart_write b base)) [0..<unat size'] ())"

definition usart_printl :: "'h mmio \<Rightarrow> u32 \<Rightarrow> bool \<Rightarrow> nat \<Rightarrow> u8 list \<Rightarrow> fmt_arg list \<Rightarrow> ('h, unit) io" where
  "usart_printl b base kern n data args = io_then (usart_print b base kern n data args) (usart_write b base 0x0A)"

definition serial_print :: "'h mmio \<Rightarrow> bool \<Rightarrow> u8 list \<Rightarrow> fmt_arg list \<Rightarrow> ('h, unit) io" where
  "serial_print b kern = usart_print b USART0 kern 256"

definition serial_printl :: "'h mmio \<Rightarrow> bool \<Rightarrow> u8 list \<Rightarrow> fmt_arg list \<Rightarrow> ('h, unit) io" where
  "serial_printl b kern = usart_printl b USART0 kern 256"

definition print_fmt :: "'h mmio \<Rightarrow> bool \<Rightarrow> u8 list \<Rightarrow> fmt_arg list \<Rightarrow> ('h, unit) io" where
  "print_fmt b kern = usart_print b USART1 kern 64"

definition printl :: "'h mmio \<Rightarrow> bool \<Rightarrow> u8 list \<Rightarrow> fmt_arg list \<Rightarrow> ('h, unit) io" where
  "printl b kern = usart_printl b USART1 kern 64"

section \<open>The host port\<close>

definition serial_init :: "'h mmio \<Rightarrow> bool \<Rightarrow> ('h, unit) io" where
  "serial_init b kern =
     io_then (gpio_set_function b GPIOB 0 GPIO_FUNC_C)
     (io_then (gpio_set_function b GPIOB 1 GPIO_FUNC_C)
     (io_then (peripheral_clock_enable b 13)
     (io_then (usart_init b USART0 \<lparr>buad_rate = 230400, data_bits = USART_DATA_8_BIT, stop_bits = USART_SB_ONE, parity_bits = USART_PARITY_NO\<rparr>)
     (io_then (usart_interrupt_enable b USART0 USART_IRQ_RXRDY)
     (io_then (nvic_enable b 13)
     (if kern then nvic_set_prioriy b 13 NVIC_PRI_0 else io_return ()))))))"

definition serial_deinit :: "'h mmio \<Rightarrow> ('h, unit) io" where
  "serial_deinit b =
     io_then (usart_deinit b USART0)
     (io_then (peripheral_clock_disable b 13) (io_then (nvic_disable b 13) (nvic_clear_pending b 13)))"

definition serial_flush :: "'h mmio \<Rightarrow> ('h, unit) io" where
  "serial_flush b = usart_flush b USART0"

definition serial_read :: "'h mmio \<Rightarrow> ('h, u8) io" where
  "serial_read b = usart_read b USART0"

section \<open>The console\<close>

text \<open>The kernel's console also receives: into a ring buffer of 256 bytes at \<open>receive_buffer\<close>.\<close>

definition console_usart :: "'h mmio \<Rightarrow> ('h, unit) io" where
  "console_usart b =
     io_then (gpio_set_function b GPIOA 21 GPIO_FUNC_A)
     (io_then (gpio_set_function b GPIOB 4 GPIO_FUNC_D)
     (io_then (peripheral_clock_enable b 14)
     (usart_init b USART1 \<lparr>buad_rate = 115200, data_bits = USART_DATA_8_BIT, stop_bits = USART_SB_ONE, parity_bits = USART_PARITY_NO\<rparr>)))"

definition print_init :: "'h mmio \<Rightarrow> u32 \<Rightarrow> ('h, ringbuffer) io" where
  "print_init b receive_buffer =
     io_then (console_usart b)
     (io_then (usart_interrupt_enable b USART1 USART_IRQ_RXRDY)
     (io_then (nvic_enable b 14)
     (io_then (nvic_set_prioriy b 14 NVIC_PRI_2)
     (io_return (ringbuffer_init receive_buffer 256)))))"

definition boot_print_init :: "'h mmio \<Rightarrow> ('h, unit) io" where
  "boot_print_init b = console_usart b"

definition print_deinit :: "'h mmio \<Rightarrow> ('h, unit) io" where
  "print_deinit b =
     io_then (usart_deinit b USART1)
     (io_then (peripheral_clock_disable b 14) (io_then (nvic_disable b 14) (nvic_clear_pending b 14)))"

definition print_flush :: "'h mmio \<Rightarrow> ('h, unit) io" where
  "print_flush b = usart_flush b USART1"

fun print_raw :: "'h mmio \<Rightarrow> u8 list \<Rightarrow> ('h, unit) io" where
  "print_raw b [] = io_fail OutOfBounds"
| "print_raw b (c # data) = (if c = 0 then io_return () else io_then (usart_write b USART1 c) (print_raw b data))"

definition print_count :: "'h mmio \<Rightarrow> u8 list \<Rightarrow> u32 \<Rightarrow> ('h, unit) io" where
  "print_count b data count =
     for_io (\<lambda>i _. io_bind (io_res (array_get data i)) (usart_write b USART1)) [0..<unat count] ()"

definition print_byte :: "'h mmio \<Rightarrow> u8 \<Rightarrow> ('h, unit) io" where
  "print_byte b data = usart_write_raw b USART1 data"

definition print_get_status :: "'h mmio \<Rightarrow> ('h, u8) io" where
  "print_get_status b = usart_get_thr_status b USART1"

text \<open>A memory dump: an address every two groups of four bytes; the counters are bytes.\<close>

definition dump_byte :: "'h mmio \<Rightarrow> mem \<Rightarrow> u32 \<Rightarrow> u8 \<times> u8 \<times> u8 \<Rightarrow> ('h, u8 \<times> u8 \<times> u8) io" where
  "dump_byte b m src = (\<lambda>(line, byte, sect).
     io_bind (if line \<ge> 2 then
         io_then (if sect \<ge> 8 then print_fmt b True (cstr ''\<newline>'') [] else io_return ())
         (io_then (print_fmt b True (cstr ''\<newline>0x%4h:  '') [ArgInt src])
         (io_return (0, if sect \<ge> 8 then 0 else sect + 1)))
       else io_return (line, sect)) (\<lambda>(line, sect).
     io_then (print_fmt b True (cstr ''%1h '') [ArgInt (ucast (m src))])
     (if byte \<ge> 3 then io_then (print_fmt b True (cstr ''   '') []) (io_return (line + 1, 0, sect))
      else io_return (line, byte + 1, sect))))"

definition print_memory :: "'h mmio \<Rightarrow> mem \<Rightarrow> u32 \<Rightarrow> u32 \<Rightarrow> ('h, unit) io" where
  "print_memory b m memory size' =
     io_then (print_fmt b True (cstr ''\<newline>0x%4h:  '') [ArgInt memory])
     (io_bind (for_io (\<lambda>i. dump_byte b m (memory + of_nat i)) [0..<unat size'] (0, 0, 0)) (\<lambda>_.
     print_fmt b True (cstr ''\<newline>\<newline>'') []))"

definition print_register :: "'h mmio \<Rightarrow> u8 list \<Rightarrow> u32 \<Rightarrow> ('h, unit) io" where
  "print_register b name reg =
     io_then (printl b True (cstr ''%s'') [ArgStr name])
     (for_io (\<lambda>i _.
        let reg_byte = drop_bit ((3 - i) * 8) reg AND 0xFF
        in io_then (print_fmt b True (cstr ''%4b '') [ArgInt (drop_bit 4 reg_byte)])
           (io_then (print_fmt b True (cstr ''%4b'') [ArgInt reg_byte])
           (print_fmt b True (cstr ''\<newline>'') []))) [0..<4] ())"

definition usart1_exception :: "'h mmio \<Rightarrow> ringbuffer \<times> mem \<Rightarrow> ('h, ringbuffer \<times> mem) io" where
  "usart1_exception b rb = io_bind (usart_read b USART1) (\<lambda>rec. io_res (ringbuffer_add rec rb))"

end
