(* ===== verification/Boot_Flash.thy ===== *)
theory Boot_Flash
  imports Serial_Port
begin

text \<open>
  The flash controller drivers \<^verbatim>\<open>drivers/flash.c\<close> of the bootloader and of the kernel. The flash is memory
  as well as a peripheral: \<open>m_byte\<close> reads a byte of it, words are written to its latch buffer through the
  bus, and a command to the controller programs or erases a page. The bootloader's functions read the page
  back.
\<close>

record 'h machine =
  m_bus :: "'h mmio"
  m_byte :: "u32 \<Rightarrow> 'h \<Rightarrow> u8"

definition mem_byte :: "'h machine \<Rightarrow> u32 \<Rightarrow> ('h, u8) io" where
  "mem_byte M a = io_gets (m_byte M a)"

definition mem_word :: "'h machine \<Rightarrow> u32 \<Rightarrow> ('h, u32) io" where
  "mem_word M a = io_gets (\<lambda>h. load32 (\<lambda>x. m_byte M x h) a)"

text \<open>The bytes of the flash from an address are those of a buffer.\<close>

definition flash_holds :: "'h machine \<Rightarrow> u32 \<Rightarrow> u8 list \<Rightarrow> 'h \<Rightarrow> bool" where
  "flash_holds M a bs h \<longleftrightarrow> (\<forall>i < length bs. m_byte M (a + of_nat i) h = bs ! i)"

section \<open>Commands\<close>

definition flash_set_access_cycles :: "'h mmio \<Rightarrow> u8 \<Rightarrow> ('h, unit) io" where
  "flash_set_access_cycles b access_cycles =
     io_bind (reg_get b (FLASH ''FMR'')) (\<lambda>reg.
       reg_set b (FLASH ''FMR'') ((reg AND NOT (push_bit 8 0xF)) OR push_bit 8 ((ucast access_cycles - 1) AND 0xF)))"

definition flash_ready :: "'h mmio \<Rightarrow> ('h, unit) io" where
  "flash_ready b = wait_bit b (FLASH ''FSR'') 0"

text \<open>The 128 words of a page.\<close>

definition write_latch :: "'h mmio \<Rightarrow> u32 \<Rightarrow> u8 list \<Rightarrow> ('h, unit) io" where
  "write_latch b flash_dest buffer =
     for_io (\<lambda>i _. io_bind (io_res (load_word buffer (4 * i))) (\<lambda>w. reg_set b (flash_dest + 4 * of_nat i) w)) [0..<128] ()"

text \<open>The comparison of a page with a buffer, byte by byte.\<close>

fun flash_compare :: "'h machine \<Rightarrow> u8 list \<Rightarrow> u32 \<Rightarrow> nat list \<Rightarrow> ('h, u8) io" where
  "flash_compare M buffer a [] = io_return 1"
| "flash_compare M buffer a (i # is) =
     io_bind (io_res (array_get buffer i)) (\<lambda>c.
     io_bind (mem_byte M (a + of_nat i)) (\<lambda>f.
     if f \<noteq> c then io_return 0 else flash_compare M buffer a is))"

definition erase_write_command :: "'h mmio \<Rightarrow> u32 \<Rightarrow> u8 list \<Rightarrow> ('h, u8) io" where
  "erase_write_command b page buffer =
     io_then (flash_ready b)
     (io_then (write_latch b (0x00400000 + 512 * page) buffer)
     (io_then (reg_set b (FLASH ''FCR'') (push_bit 24 0x5A OR push_bit 8 (page AND 0xFFFF) OR 3))
     (io_bind (reg_wait b (FLASH ''FSR'') (\<lambda>status. status AND 0xF \<noteq> 0)) (\<lambda>status.
     io_return (if status AND 0xE \<noteq> 0 then 0 else 1)))))"

definition flash_erase_write :: "'h machine \<Rightarrow> u32 \<Rightarrow> u8 list \<Rightarrow> ('h, u8) io" where
  "flash_erase_write M page buffer =
     (if 32 \<le> page then io_return 0
      else
        io_bind (erase_write_command (m_bus M) page buffer) (\<lambda>st.
        if st = 0 then io_return 0 else flash_compare M buffer (0x00400000 + 512 * page) [0..<512]))"

definition kernel_flash_erase_write :: "'h mmio \<Rightarrow> u32 \<Rightarrow> u8 list \<Rightarrow> ('h, u8) io" where
  "kernel_flash_erase_write b page buffer =
     (if 32 \<le> page then io_return 0 else erase_write_command b page buffer)"

text \<open>The number of 8 KiB sectors that hold \<open>size\<close> bytes, and the erase of one.\<close>

definition erase_sectors :: "u32 \<Rightarrow> u32" where
  "erase_sectors size' =
     (let pages = size' div 512 + (if size' mod 512 \<noteq> 0 then 1 else 0)
      in pages div 16 + (if pages mod 16 \<noteq> 0 then 1 else 0))"

definition erase_step :: "'h mmio \<Rightarrow> u32 \<Rightarrow> u32 \<times> u32 \<Rightarrow> ('h, u32 \<times> u32 + bool) io" where
  "erase_step b sect_8k = (\<lambda>(i, sect_8k_base).
     if i < sect_8k then
       (let arg = ucast (sect_8k_base AND NOT 0xF) OR 2 :: u16
        in io_then (flash_ready b)
           (io_then (reg_set b (FLASH ''FCR'') (0x5A000000 OR push_bit 8 (ucast arg) OR 7))
           (io_bind (reg_wait b (FLASH ''FSR'') (\<lambda>status. status AND 1 \<noteq> 0)) (\<lambda>status.
           if status AND 0xE \<noteq> 0 then leave False else again (i + 1, sect_8k_base + 16)))))
     else leave True)"

definition flash_erase_image :: "'h mmio \<Rightarrow> u32 \<Rightarrow> ('h, u32) io" where
  "flash_erase_image b size' =
     io_bind (repeat_io (erase_step b (erase_sectors size')) (0, 32)) (\<lambda>ok.
       io_return (if ok then erase_sectors size' * 8192 else 0))"

definition kernel_flash_erase_image :: "'h mmio \<Rightarrow> u32 \<Rightarrow> ('h, u8) io" where
  "kernel_flash_erase_image b size' =
     io_bind (repeat_io (erase_step b (erase_sectors size')) (0, 32)) (\<lambda>ok. io_return (if ok then 1 else 0))"

text \<open>The page number of the command has eight bits.\<close>

definition image_page_word :: "u32 \<Rightarrow> u32" where
  "image_page_word page = 0x5A000000 OR push_bit 8 ((page + 32) AND 0xFF) OR 1"

definition write_page_command :: "'h mmio \<Rightarrow> u32 \<Rightarrow> u8 list \<Rightarrow> ('h, u8) io" where
  "write_page_command b page buffer =
     io_then (flash_ready b)
     (io_then (write_latch b (0x00404000 + page * 512) buffer)
     (io_then (reg_set b (FLASH ''FCR'') (image_page_word page))
     (io_bind (reg_wait b (FLASH ''FSR'') (\<lambda>status. status AND 1 \<noteq> 0)) (\<lambda>status.
     io_return (if status AND 0xE \<noteq> 0 then 0 else 1)))))"

definition flash_write_image_page :: "'h machine \<Rightarrow> u32 \<Rightarrow> u8 list \<Rightarrow> ('h, u8) io" where
  "flash_write_image_page M page buffer =
     io_bind (write_page_command (m_bus M) page buffer) (\<lambda>st.
     if st = 0 then io_return 0 else flash_compare M buffer (0x00404000 + page * 512) [0..<512])"

definition kernel_flash_write_image_page :: "'h mmio \<Rightarrow> u32 \<Rightarrow> u8 list \<Rightarrow> ('h, u8) io" where
  "kernel_flash_write_image_page b page buffer = write_page_command b page buffer"

end
