(* ===== verification/Boot_Frame.thy ===== *)
theory Boot_Frame
  imports Boot_Flash Memory_Ops
begin

text \<open>
  The frames between the host and the board: the receiver \<^verbatim>\<open>frame.c\<close> of the bootloader and the one of the
  kernel in \<^verbatim>\<open>kernel/bootloader.c\<close>. A frame is \<^verbatim>\<open>0xAA\<close>, a command, a size of two bytes, the payload, a
  checksum and \<^verbatim>\<open>0x55\<close>. The receiver is a state machine driven by the receive interrupt; a timer resets it
  when the host stops in the middle of a frame.

  The frame is the packed structure as its 516 bytes; the payload has the bytes 3 to 514, and an index past
  the structure is out of bounds.
\<close>

datatype bus_states = STATE_IDLE | STATE_CMD | STATE_SIZE | STATE_PAYLOAD | STATE_FCS | STATE_END

record 'h receiver =
  bus_state :: bus_states
  frame :: "u8 list"
  frame_index :: u32
  frame_received :: u8
  rx_hw :: 'h

abbreviation on_rx :: "('h, 'a) io \<Rightarrow> ('h receiver, 'a) io" where
  "on_rx \<equiv> io_zoom rx_hw rx_hw_update"

abbreviation to_state :: "bus_states \<Rightarrow> ('h receiver, unit) io" where
  "to_state st \<equiv> io_update (\<lambda>s. s\<lparr>bus_state := st\<rparr>)"

definition frame_cmd :: "u8 list \<Rightarrow> u8" where
  "frame_cmd f = f ! 0"

definition frame_size :: "u8 list \<Rightarrow> u16" where
  "frame_size f = ucast (f ! 1) OR push_bit 8 (ucast (f ! 2))"

definition frame_payload :: "u8 list \<Rightarrow> u8 list" where
  "frame_payload f = take 512 (drop 3 f)"

definition frame_fcs :: "u8 list \<Rightarrow> u8" where
  "frame_fcs f = f ! 515"

definition set_frame_size :: "u16 \<Rightarrow> u8 list \<Rightarrow> u8 list" where
  "set_frame_size sz f = f[1 := ucast sz, 2 := ucast (drop_bit 8 sz)]"

section \<open>Response codes\<close>

definition RESP_OK :: u8 where "RESP_OK = 0"
definition RESP_ERROR :: u8 where "RESP_ERROR = push_bit 0 1"
definition RESP_FLASH_ERROR :: u8 where "RESP_FLASH_ERROR = push_bit 3 1"
definition RESP_FCS_ERROR :: u8 where "RESP_FCS_ERROR = push_bit 4 1"
definition RESP_FRAME_ERROR :: u8 where "RESP_FRAME_ERROR = push_bit 6 1"

definition POLYNOMIAL :: u8 where "POLYNOMIAL = 0xB2"

section \<open>The timeout\<close>

definition timeout_stop :: "'h mmio \<Rightarrow> ('h, unit) io" where
  "timeout_stop b = reg_set b (TIMER0_channel 0 ''CCR'') 2"

definition timeout_reload :: "'h mmio \<Rightarrow> ('h, unit) io" where
  "timeout_reload b = reg_set b (TIMER0_channel 0 ''CCR'') 5"

text \<open>The clock and the timer that both receivers set up.\<close>

definition timeout_init :: "'h mmio \<Rightarrow> ('h, unit) io" where
  "timeout_init b =
     io_then (peripheral_clock_enable b 23)
     (io_then (pck_init b 6 SLOW_CLOCK 32)
     (io_then (pck_enable b 6)
     (io_then (reg_set b (TIMER0_channel 0 ''CMR'') (push_bit 15 1 OR push_bit 7 1 OR push_bit 6 1))
     (io_then (reg_set b (TIMER0_channel 0 ''RC'') 1000)
     (io_then (reg_set b (TIMER0_channel 0 ''IER'') (push_bit 4 1))
     (nvic_enable b 23))))))"

definition frame_init :: "'h mmio \<Rightarrow> ('h receiver, unit) io" where
  "frame_init b = io_then (on_rx (io_then (serial_init b False) (timeout_init b))) (to_state STATE_IDLE)"

definition frame_deinit :: "'h mmio \<Rightarrow> ('h, unit) io" where
  "frame_deinit b =
     io_then (serial_deinit b)
     (io_then (peripheral_clock_disable b 23)
     (io_then (pck_disable b 6)
     (io_then (timeout_stop b)
     (io_then (reg_set b (TIMER0_channel 0 ''IDR'') 0xFFFFFFFF)
     (io_then (nvic_disable b 23) (nvic_clear_pending b 23))))))"

section \<open>Receiving\<close>

definition send_response :: "'h mmio \<Rightarrow> bool \<Rightarrow> u8 \<Rightarrow> ('h receiver, unit) io" where
  "send_response b kern error_code =
     io_then (io_update (\<lambda>s. s\<lparr>frame_received := 0\<rparr>))
       (on_rx (serial_print b kern (cstr ''%c'') [ArgInt (ucast error_code)]))"

definition check_new_frame :: "('h receiver, u8) io" where
  "check_new_frame = io_gets (\<lambda>s. if frame_received s \<noteq> 0 then 1 else 0)"

definition on_size :: "u8 \<Rightarrow> ('h receiver, unit) io" where
  "on_size data =
     io_bind (io_gets frame_index) (\<lambda>i.
     if 4 \<le> i then io_fail ShiftRange
     else
       io_then (io_update (\<lambda>s. s\<lparr>frame := set_frame_size (frame_size (frame s) OR ucast (push_bit (unat (8 * i)) (ucast data :: u32))) (frame s),
         frame_index := i + 1\<rparr>))
       (if i + 1 \<ge> 2 then io_update (\<lambda>s. s\<lparr>bus_state := STATE_PAYLOAD, frame_index := 0\<rparr>) else io_return ()))"

definition on_payload :: "u8 \<Rightarrow> ('h receiver, unit) io" where
  "on_payload data =
     io_bind (io_gets (\<lambda>s. s)) (\<lambda>s.
     io_bind (io_res (array_set (frame s) (3 + unat (frame_index s)) data)) (\<lambda>f.
     io_then (io_update (\<lambda>s. s\<lparr>frame := f, frame_index := frame_index s + 1\<rparr>))
     (if frame_index s + 1 \<ge> ucast (frame_size f) then to_state STATE_FCS else io_return ())))"

text \<open>The checksum covers the command, the size and as many payload bytes as the size says.\<close>

definition frame_crc :: "u8 list \<Rightarrow> u8 res" where
  "frame_crc f =
     (let n = unat (frame_size f) + 3
      in if n \<le> length f then Inr (crc_of POLYNOMIAL (take n f)) else Inl OutOfBounds)"

definition on_end :: "'h mmio \<Rightarrow> bool \<Rightarrow> u8 \<Rightarrow> ('h receiver, unit) io" where
  "on_end b kern data =
     io_then
       (if data = 0x55 then
          io_bind (io_gets frame) (\<lambda>f.
          io_bind (io_res (frame_crc f)) (\<lambda>fcs.
          if fcs = frame_fcs f then io_update (\<lambda>s. s\<lparr>frame_received := 1\<rparr>)
          else send_response b kern (RESP_ERROR OR RESP_FCS_ERROR)))
        else
          io_then (on_rx (printl b kern (cstr ''Frame error'') []))
            (send_response b kern (RESP_ERROR OR RESP_FRAME_ERROR)))
       (io_then (to_state STATE_IDLE) (on_rx (timeout_stop b)))"

definition frame_fsm :: "'h mmio \<Rightarrow> bool \<Rightarrow> u8 \<Rightarrow> ('h receiver, unit) io" where
  "frame_fsm b kern data =
     io_bind (io_gets bus_state) (\<lambda>st.
     case st of
       STATE_IDLE \<Rightarrow>
         if data = 0xAA then io_then (to_state STATE_CMD) (on_rx (timeout_reload b)) else io_return ()
     | STATE_CMD \<Rightarrow>
         io_update (\<lambda>s. s\<lparr>frame := set_frame_size 0 ((frame s)[0 := data]), bus_state := STATE_SIZE, frame_index := 0\<rparr>)
     | STATE_SIZE \<Rightarrow> on_size data
     | STATE_PAYLOAD \<Rightarrow> on_payload data
     | STATE_FCS \<Rightarrow> io_update (\<lambda>s. s\<lparr>frame := (frame s)[515 := data], bus_state := STATE_END\<rparr>)
     | STATE_END \<Rightarrow> on_end b kern data)"

text \<open>One received byte in the bootloader: a zero between frames is answered.\<close>

definition frame_byte :: "'h mmio \<Rightarrow> u8 \<Rightarrow> ('h receiver, unit) io" where
  "frame_byte b data =
     io_bind (io_gets bus_state) (\<lambda>st.
     io_then (if st \<noteq> STATE_IDLE then on_rx (timeout_reload b) else io_return ())
     (io_then (if st = STATE_IDLE \<and> data = 0 then send_response b False RESP_OK else io_return ())
     (frame_fsm b False data)))"

definition usart0_handler :: "'h mmio \<Rightarrow> ('h receiver, unit) io" where
  "usart0_handler b = io_bind (on_rx (serial_read b)) (frame_byte b)"

text \<open>Reading the status register clears the flags of the timer.\<close>

definition timer_handler :: "'h mmio \<Rightarrow> bool \<Rightarrow> string \<Rightarrow> ('h receiver, unit) io" where
  "timer_handler b kern message =
     io_then (on_rx (io_then (io_bind (reg_get b (TIMER0_channel 0 ''SR'')) (\<lambda>_. io_return ()))
       (io_then (printl b kern (cstr message) []) (timeout_stop b))))
     (to_state STATE_IDLE)"

definition timer0_ch0_handler :: "'h mmio \<Rightarrow> ('h receiver, unit) io" where
  "timer0_ch0_handler b = timer_handler b False ''Bootloader timeout''"

end
