(* ===== verification/Bootloader.thy ===== *)
theory Bootloader
  imports Boot_Frame
begin

text \<open>
  The bootloader: the decision to start the kernel, and the firmware update driven by frames
  (\<^verbatim>\<open>bootloader.c\<close>, \<^verbatim>\<open>main.c\<close>); and the kernel's side, which resets into the bootloader
  (\<^verbatim>\<open>kernel/bootloader.c\<close>). The addresses the linker gives to the descriptor of the hash engine and to
  the digest in RAM are parameters.
\<close>

record image_info =
  major_version :: u32
  minor_version :: u32
  bootloader_start :: u32
  bootloader_size :: u32
  bootloader_info :: u32
  kernel_start :: u32
  kernel_size :: u32
  kernel_info :: u32

definition boot_image_info :: image_info where
  "boot_image_info = \<lparr>major_version = 2, minor_version = 0, bootloader_start = 0x00400000, bootloader_size = 0x4000,
     bootloader_info = 0x00403E00, kernel_start = 0x00404000, kernel_size = 0x1FC000, kernel_info = 0x00404000\<rparr>"

definition kernel_image_info :: image_info where
  "kernel_image_info = \<lparr>major_version = 1, minor_version = 3, bootloader_start = 0x00400000, bootloader_size = 0x4000,
     bootloader_info = 0x00403E00, kernel_start = 0x00404000, kernel_size = 0x1FC000, kernel_info = 0x00404000\<rparr>"

record 'h boot =
  rx :: "'h receiver"
  kernel_total_size :: u32
  kernel_page :: u32
  flash_buffer :: "u8 list"
  boot_signature :: "u8 list"

abbreviation in_rx :: "('h receiver, 'a) io \<Rightarrow> ('h boot, 'a) io" where
  "in_rx \<equiv> io_zoom rx rx_update"

abbreviation in_hw :: "('h, 'a) io \<Rightarrow> ('h boot, 'a) io" where
  "in_hw m \<equiv> in_rx (on_rx m)"

section \<open>The boot signature and the image information\<close>

definition boot_trigger :: "u8 list" where
  "boot_trigger = map of_char ''StayInBootloader''"

definition clear_boot_signature :: "('h boot, unit) io" where
  "clear_boot_signature = io_update (\<lambda>s. s\<lparr>boot_signature := replicate 32 0\<rparr>)"

fun signature_loop :: "u8 list \<Rightarrow> nat list \<Rightarrow> u8 res" where
  "signature_loop sig [] = Inr 1"
| "signature_loop sig (i # is) =
     rbind (array_get sig i) (\<lambda>c1. rbind (array_get boot_trigger i) (\<lambda>c2.
       if c1 \<noteq> c2 then Inr 0 else signature_loop sig is))"

definition check_boot_signature :: "('h boot, u8) io" where
  "check_boot_signature = io_bind (io_gets boot_signature) (\<lambda>sig. io_res (signature_loop sig [0..<16]))"

definition read_image_info :: "'h machine \<Rightarrow> u32 \<Rightarrow> ('h, image_info) io" where
  "read_image_info M a =
     io_bind (mem_word M a) (\<lambda>w0. io_bind (mem_word M (a + 4)) (\<lambda>w1. io_bind (mem_word M (a + 8)) (\<lambda>w2.
     io_bind (mem_word M (a + 12)) (\<lambda>w3. io_bind (mem_word M (a + 16)) (\<lambda>w4. io_bind (mem_word M (a + 20)) (\<lambda>w5.
     io_bind (mem_word M (a + 24)) (\<lambda>w6. io_bind (mem_word M (a + 28)) (\<lambda>w7.
     io_return \<lparr>major_version = w0, minor_version = w1, bootloader_start = w2, bootloader_size = w3,
       bootloader_info = w4, kernel_start = w5, kernel_size = w6, kernel_info = w7\<rparr>))))))))"

definition check_info_match :: "'h machine \<Rightarrow> ('h, u8) io" where
  "check_info_match M =
     io_bind (read_image_info M (kernel_info boot_image_info)) (\<lambda>k.
     io_return (if bootloader_start k = bootloader_start boot_image_info \<and> bootloader_size k = bootloader_size boot_image_info
       \<and> bootloader_info k = bootloader_info boot_image_info \<and> kernel_start k = kernel_start boot_image_info
       \<and> kernel_size k = kernel_size boot_image_info \<and> kernel_info k = kernel_info boot_image_info
       then 1 else 0))"

section \<open>Writing the flash\<close>

definition payload_word :: "u8 list \<Rightarrow> u32 res" where
  "payload_word data = load_word data 0"

definition erase_kernel_image :: "'h machine \<Rightarrow> u8 list \<Rightarrow> ('h boot, u8) io" where
  "erase_kernel_image M data =
     io_bind (io_res (payload_word data)) (\<lambda>erase_size.
     io_bind (in_hw (flash_erase_image (m_bus M) erase_size)) (\<lambda>flash_status.
     if flash_status \<noteq> 0 then io_then (io_update (\<lambda>s. s\<lparr>kernel_total_size := flash_status\<rparr>)) (io_return 1)
     else io_return 0))"

text \<open>A page of data is padded with \<^verbatim>\<open>0xFF\<close> to 512 bytes.\<close>

definition pad_page :: "u8 list \<Rightarrow> u32 \<Rightarrow> u8 list res" where
  "pad_page data size' =
     (if min 512 (unat size') \<le> length data
      then Inr (take (min 512 (unat size')) data @ replicate (512 - unat size') 0xFF) else Inl OutOfBounds)"

definition fill_flash_buffer :: "u8 list \<Rightarrow> u32 \<Rightarrow> ('h boot, u8 list) io" where
  "fill_flash_buffer data size' =
     io_bind (io_res (pad_page data size')) (\<lambda>buf.
     io_then (io_update (\<lambda>s. s\<lparr>flash_buffer := buf\<rparr>)) (io_return buf))"

text \<open>The page is written from the caller's data, and compared with the padded buffer.\<close>

definition write_bootloader_page :: "'h machine \<Rightarrow> u8 list \<Rightarrow> u32 \<Rightarrow> u32 \<Rightarrow> ('h boot, u8) io" where
  "write_bootloader_page M data size' page =
     io_bind (fill_flash_buffer data size') (\<lambda>buf.
     io_bind (in_hw (flash_erase_write M page data)) (\<lambda>flash_status.
     if flash_status = 0 then io_panic ''Flash erase write error''
     else
       io_bind (in_hw (flash_compare M buf (0x00400000 + page * 512) [0..<512])) (\<lambda>ok.
       if ok = 0 then io_panic ''Flash verification failed'' else io_return 1)))"

definition write_kernel_page :: "'h machine \<Rightarrow> u8 list \<Rightarrow> u32 \<Rightarrow> u32 \<Rightarrow> ('h boot, u8) io" where
  "write_kernel_page M data size' page =
     io_bind (fill_flash_buffer data size') (\<lambda>buf.
     io_bind (in_hw (flash_write_image_page M page buf)) (\<lambda>flash_status.
     if flash_status = 0 then io_panic ''Flash write failed''
     else
       io_bind (in_hw (flash_compare M buf (0x00404000 + 512 * page) [0..<512])) (\<lambda>ok.
       if ok = 0 then io_panic ''Flash verification error'' else io_return 1)))"

definition set_flash_write_offset :: "u8 list \<Rightarrow> ('h boot, unit) io" where
  "set_flash_write_offset data =
     io_bind (io_res (payload_word data)) (\<lambda>w. io_update (\<lambda>s. s\<lparr>kernel_page := w\<rparr>))"

section \<open>The hash of the kernel\<close>

definition read_bytes :: "'h machine \<Rightarrow> u32 \<Rightarrow> nat \<Rightarrow> ('h, u8 list) io" where
  "read_bytes M a n = io_gets (\<lambda>h. map (\<lambda>i. m_byte M (a + of_nat i) h) [0..<n])"

definition word_bytes :: "u32 \<Rightarrow> u8 list" where
  "word_bytes w = [ucast w, ucast (drop_bit 8 w), ucast (drop_bit 16 w), ucast (drop_bit 24 w)]"

definition store_kernel_hash :: "'h machine \<Rightarrow> u32 \<Rightarrow> u32 \<Rightarrow> ('h boot, u8) io" where
  "store_kernel_hash M desc digest =
     io_bind (io_gets kernel_total_size) (\<lambda>sz.
     io_then (in_hw (boot_hash256_generate (m_bus M) desc 0x00404000 sz digest))
     (io_bind (in_hw (read_bytes M digest 32)) (\<lambda>dg.
     let buf = dg @ word_bytes sz @ replicate 476 0xFF
     in io_then (io_update (\<lambda>s. s\<lparr>flash_buffer := buf\<rparr>))
        (io_bind (in_hw (flash_erase_write M 30 buf)) (\<lambda>st.
        if st = 0 then io_return 0
        else
          io_bind (in_hw (flash_compare M buf (0x00400000 + 512 * 30) [0..<512])) (\<lambda>ok.
          io_return (if ok = 0 then 0 else 1)))))))"

definition verify_kernel_hash :: "'h machine \<Rightarrow> u32 \<Rightarrow> u32 \<Rightarrow> ('h, u8) io" where
  "verify_kernel_hash M desc digest =
     io_bind (mem_word M (0x00400000 + 512 * 30 + 32)) (\<lambda>sz.
     if sz = 0 \<or> sz = 0xFFFFFFFF then io_return 0
     else
       io_then (boot_hash256_generate (m_bus M) desc 0x00404000 sz digest)
       (io_bind (read_bytes M digest 32) (\<lambda>dg. flash_compare M dg (0x00400000 + 512 * 30) [0..<32])))"

section \<open>Starting the kernel\<close>

text \<open>The jump: the stack pointer and the program counter it is made with.\<close>

definition start_kernel :: "'h machine \<Rightarrow> ('h, u32 \<times> u32) io" where
  "start_kernel M =
     (let b = m_bus M
      in io_then (print_flush b)
         (io_then (print_deinit b)
         (io_then (clock_tree_reset b)
         (io_then (flash_set_access_cycles b 1)
         (io_then (peripheral_clock_disable b 10)
         (io_then (peripheral_clock_disable b 32)
         (io_then (reg_set b 0xE000ED08 0x00404200)
         (io_bind (mem_word M 0x00404200) (\<lambda>sp.
         io_bind (mem_word M 0x00404204) (\<lambda>pc. io_return (sp, pc OR 1)))))))))))"

definition boot_init :: "'h mmio \<Rightarrow> ('h, unit) io" where
  "boot_init b =
     io_then (watchdog_disable b)
     (io_then (flash_set_access_cycles b 7)
     (io_then (clock_source_enable b CRYSTAL_OSCILLATOR 0xFF)
     (io_then (main_clock_select b CRYSTAL_OSCILLATOR)
     (io_then (plla_init b 1 25 0x3F)
     (io_then (master_clock_select b PLLA_CLOCK 0 1)
     (io_then (boot_print_init b)
     (io_then (gpio_set_function b GPIOC 8 GPIO_FUNC_OFF)
     (io_then (gpio_set_direction b GPIOC 8 GPIO_OUTPUT)
     (io_then (gpio_set b GPIOC 8)
     (io_then (peripheral_clock_enable b 10)
     (io_then (gpio_set_function b GPIOA 11 GPIO_FUNC_OFF)
     (io_then (gpio_set_direction b GPIOA 11 GPIO_INPUT)
     (io_then (gpio_set_pull b GPIOA 11 GPIO_PULL_UP)
     (peripheral_clock_enable b 32))))))))))))))"

datatype boot_outcome = Started u32 u32 | Stayed

definition boot_decide :: "'h machine \<Rightarrow> u32 \<Rightarrow> u32 \<Rightarrow> ('h boot, boot_outcome) io" where
  "boot_decide M desc digest =
     io_bind check_boot_signature (\<lambda>sig.
     io_then (if sig = 1 then clear_boot_signature else io_return ())
     (io_bind (in_hw (gpio_get_pin_status (m_bus M) GPIOA 11)) (\<lambda>pin.
     if sig = 1 \<or> pin = 0 then io_return Stayed
     else
       io_bind (in_hw (check_info_match M)) (\<lambda>info_ok.
       io_bind (in_hw (verify_kernel_hash M desc digest)) (\<lambda>hash_ok.
       if info_ok \<noteq> 0 \<and> hash_ok \<noteq> 0 then io_bind (in_hw (start_kernel M)) (\<lambda>(sp, pc). io_return (Started sp pc))
       else io_return Stayed)))))"

definition boot_main :: "'h machine \<Rightarrow> u32 \<Rightarrow> u32 \<Rightarrow> ('h boot, boot_outcome) io" where
  "boot_main M desc digest =
     io_then (in_hw (boot_init (m_bus M)))
     (io_bind (boot_decide M desc digest) (\<lambda>r.
     case r of
       Started sp pc \<Rightarrow> io_return (Started sp pc)
     | Stayed \<Rightarrow>
         io_then (in_rx (io_then (frame_init (m_bus M)) (send_response (m_bus M) False RESP_OK))) (io_return Stayed)))"

section \<open>Handling a frame\<close>

definition respond :: "'h mmio \<Rightarrow> u8 \<Rightarrow> ('h boot, unit) io" where
  "respond b code = in_rx (send_response b False code)"

definition write_next_page :: "'h machine \<Rightarrow> u8 list \<Rightarrow> ('h boot, u8) io" where
  "write_next_page M f =
     io_bind (io_gets kernel_page) (\<lambda>page.
     io_then (io_update (\<lambda>s. s\<lparr>kernel_page := page + 1\<rparr>))
     (write_kernel_page M (frame_payload f) (ucast (frame_size f)) page))"

text \<open>The last page is followed by the hash, and the chip is reset.\<close>

definition write_last_page :: "'h machine \<Rightarrow> u32 \<Rightarrow> u32 \<Rightarrow> u8 list \<Rightarrow> ('h boot, unit) io" where
  "write_last_page M desc digest f =
     io_bind (io_gets kernel_page) (\<lambda>page.
     io_bind (write_kernel_page M (frame_payload f) (ucast (frame_size f)) page) (\<lambda>status.
     io_then (if status = 0 then respond (m_bus M) (RESP_ERROR OR RESP_FLASH_ERROR) else io_return ())
     (io_then (respond (m_bus M) RESP_OK)
     (io_bind (store_kernel_hash M desc digest) (\<lambda>ok.
     if ok = 0 then io_panic ''Cannot store the hash digest''
     else in_hw (io_then (print_flush (m_bus M)) (reg_set (m_bus M) 0x400E1800 (0xA5000000 OR 1))))))))"

definition handle_frame :: "'h machine \<Rightarrow> u32 \<Rightarrow> u32 \<Rightarrow> u8 list \<Rightarrow> ('h boot, unit) io" where
  "handle_frame M desc digest f =
     (if frame_cmd f = 3 then
        io_bind (erase_kernel_image M (frame_payload f)) (\<lambda>status.
          respond (m_bus M) (if status = 0 then RESP_ERROR OR RESP_FLASH_ERROR else RESP_OK))
      else if frame_cmd f = 4 then
        io_bind (write_next_page M f) (\<lambda>status.
          respond (m_bus M) (if status = 0 then RESP_ERROR OR RESP_FLASH_ERROR else RESP_OK))
      else if frame_cmd f = 5 then write_last_page M desc digest f
      else if frame_cmd f = 6 then io_then (set_flash_write_offset (frame_payload f)) (respond (m_bus M) RESP_OK)
      else if frame_cmd f = 7 then
        io_then (in_hw (if f ! 3 = 0 then gpio_set (m_bus M) GPIOC 8 else gpio_clear (m_bus M) GPIOC 8))
          (respond (m_bus M) RESP_OK)
      else io_return ())"

text \<open>One iteration of the main loop.\<close>

definition boot_poll :: "'h machine \<Rightarrow> u32 \<Rightarrow> u32 \<Rightarrow> ('h boot, unit) io" where
  "boot_poll M desc digest =
     io_bind (in_rx check_new_frame) (\<lambda>new.
     if new = 0 then io_return ()
     else io_bind (io_gets (\<lambda>s. frame (rx s))) (handle_frame M desc digest))"

section \<open>The kernel's side\<close>

record 'h host_link =
  link_rx :: "'h receiver"
  link_signature :: "u8 list"

abbreviation on_link :: "('h receiver, 'a) io \<Rightarrow> ('h host_link, 'a) io" where
  "on_link \<equiv> io_zoom link_rx link_rx_update"

definition bootloader_init :: "'h machine \<Rightarrow> ('h host_link, unit) io" where
  "bootloader_init M =
     (let b = m_bus M
      in io_then (on_link (on_rx (io_then (serial_init b True) (timeout_init b))))
         (io_then (on_link (to_state STATE_IDLE))
         (on_link (on_rx
           (io_bind (mem_word M (bootloader_info kernel_image_info)) (\<lambda>major.
           io_bind (mem_word M (bootloader_info kernel_image_info + 4)) (\<lambda>minor.
           io_then (printl b True (cstr ''\<newline>\<newline>Using Vanilla bootloader v%d.%d'') [ArgInt major, ArgInt minor])
             (printl b True (cstr ''Using Vanilla kernel     v%d.%d\<newline>'')
               [ArgInt (major_version kernel_image_info), ArgInt (minor_version kernel_image_info)]))))))))"

text \<open>A zero between frames leaves the trigger in RAM and resets the chip.\<close>

definition enter_bootloader :: "'h mmio \<Rightarrow> ('h host_link, unit) io" where
  "enter_bootloader b =
     io_then (on_link (on_rx (print_flush b)))
     (io_then (io_update (\<lambda>s. s\<lparr>link_signature := boot_trigger @ drop 16 (link_signature s)\<rparr>))
     (on_link (on_rx (reg_set b 0x400E1800 (0xA5000000 OR 1)))))"

definition usart0_exception :: "'h mmio \<Rightarrow> ('h host_link, unit) io" where
  "usart0_exception b =
     io_bind (on_link (on_rx (serial_read b))) (\<lambda>data.
     io_bind (on_link (io_gets bus_state)) (\<lambda>st.
     io_then (if st \<noteq> STATE_IDLE then on_link (on_rx (timeout_reload b)) else io_return ())
     (io_then (if data = 0 \<and> st = STATE_IDLE then enter_bootloader b else io_return ())
     (on_link (frame_fsm b True data)))))"

definition kernel_timer_handler :: "'h mmio \<Rightarrow> ('h receiver, unit) io" where
  "kernel_timer_handler b = timer_handler b True ''Kernel timeout''"

end
