(* ===== verification/Boot_Claims.thy ===== *)
theory Boot_Claims
  imports Bootloader
begin

text \<open>
  The properties of the firmware update: frames are received exactly, a page that is acknowledged is in the
  flash, and the kernel is started only after its information and its hash have been checked.
\<close>

section \<open>Receiving a frame\<close>

abbreviation receive :: "'h mmio \<Rightarrow> u8 list \<Rightarrow> ('h receiver, unit) io" where
  "receive b bs \<equiv> for_io (\<lambda>d _. frame_byte b d) bs ()"

text \<open>One byte in each state but the last, up to the state of the timer.\<close>

lemma frame_size_frame: "frame_size (set_frame_size sz f) = sz" if "2 < length f"
proof -
  have "ucast (ucast sz :: u8) OR push_bit 8 (ucast (ucast (drop_bit 8 sz) :: u8)) = sz"
    by (rule bit_word_eqI) (auto simp: bit_simps)
  then show ?thesis using that by (simp add: frame_size_def set_frame_size_def)
qed

lemma set_frame_size_length [simp]: "length (set_frame_size sz f) = length f"
  by (simp add: set_frame_size_def)

lemma set_frame_size_twice [simp]: "set_frame_size x (set_frame_size y f) = set_frame_size x f"
  by (simp add: set_frame_size_def list_update_swap [of 2 "Suc 0"])

definition after_byte :: "'h receiver \<Rightarrow> bus_states \<Rightarrow> u8 list \<Rightarrow> u32 \<Rightarrow> 'h receiver \<Rightarrow> bool" where
  "after_byte s st f i t \<longleftrightarrow> bus_state t = st \<and> frame t = f \<and> frame_index t = i \<and> frame_received t = frame_received s"

lemma byte_idle:
  "bus_state s = STATE_IDLE \<Longrightarrow> achieves (frame_byte b 0xAA) (\<lambda>_. after_byte s STATE_CMD (frame s) (frame_index s)) s"
  by (simp add: frame_byte_def frame_fsm_def achieves_simps timeout_reload_def after_byte_def)

lemma byte_cmd:
  "bus_state s = STATE_CMD \<Longrightarrow>
    achieves (frame_byte b d) (\<lambda>_. after_byte s STATE_SIZE (set_frame_size 0 ((frame s)[0 := d])) 0) s"
  by (simp add: frame_byte_def frame_fsm_def achieves_simps timeout_reload_def after_byte_def)

lemma byte_size:
  assumes "bus_state s = STATE_SIZE" "frame_index s = i" "i = 0 \<or> i = 1"
  shows "achieves (frame_byte b d) (\<lambda>_. after_byte s (if i = 0 then STATE_SIZE else STATE_PAYLOAD)
    (set_frame_size (frame_size (frame s) OR ucast (push_bit (unat (8 * i)) (ucast d :: u32))) (frame s)) (if i = 0 then 1 else 0)) s"
  using assms
  by (auto simp: frame_byte_def frame_fsm_def on_size_def achieves_simps timeout_reload_def after_byte_def word_le_nat_alt)

lemma byte_payload:
  assumes "bus_state s = STATE_PAYLOAD" "3 + unat (frame_index s) < length (frame s)"
    "f = (frame s)[3 + unat (frame_index s) := d]"
  shows "achieves (frame_byte b d) (\<lambda>_. after_byte s
    (if frame_index s + 1 \<ge> ucast (frame_size f) then STATE_FCS else STATE_PAYLOAD) f (frame_index s + 1)) s"
  using assms
  by (simp add: frame_byte_def frame_fsm_def on_payload_def achieves_simps timeout_reload_def after_byte_def)

lemma byte_fcs:
  "bus_state s = STATE_FCS \<Longrightarrow> achieves (frame_byte b d) (\<lambda>_. after_byte s STATE_END ((frame s)[515 := d]) (frame_index s)) s"
  by (simp add: frame_byte_def frame_fsm_def achieves_simps timeout_reload_def after_byte_def)

lemma receive_Cons:
  assumes "achieves (frame_byte b d) (\<lambda>_. P) s" "\<And>t. P t \<Longrightarrow> achieves (receive b ds) Q t"
  shows "achieves (receive b (d # ds)) Q s"
  unfolding for_io.simps by (rule achieves_bindI [OF assms(1)]) (use assms(2) in simp)

text \<open>The payload goes to its place, byte after byte.\<close>

lemma receive_payload:
  assumes "bus_state s = STATE_PAYLOAD" "frame_index s = of_nat k" "frame_size (frame s) = of_nat n"
    "length (frame s) = 516" "k + length ps = n" "ps \<noteq> []" "n \<le> 512"
    and next': "\<And>t. after_byte s STATE_FCS (take (3 + k) (frame s) @ ps @ drop (3 + n) (frame s)) (of_nat n) t
      \<Longrightarrow> achieves (receive b rest) Q t"
  shows "achieves (receive b (ps @ rest)) Q s"
  using assms
proof (induction ps arbitrary: s k)
  case (Cons d ps)
  have k: "k < n" "unat (of_nat k :: u32) = k" using Cons.prems(5,7) by (simp_all add: unat_of_nat)
  define f where "f = (frame s)[3 + k := d]"
  have size': "frame_size f = of_nat n" using Cons.prems(3) by (simp add: frame_size_def f_def)
  have cmp: "ucast (of_nat n :: u16) \<le> (of_nat k + 1 :: u32) \<longleftrightarrow> ps = []"
    using Cons.prems(5,7)
    by (cases ps) (simp_all add: word_le_nat_alt unsigned_ucast_eq take_bit_eq_mod unat_word_ariths unat_of_nat)
  have "take (Suc (3 + k)) f = take (3 + k) (frame s) @ [d]"
    using k Cons.prems(4,7) unfolding f_def by (subst take_Suc_conv_app_nth) simp_all
  then have f: "take (3 + Suc k) f = take (3 + k) (frame s) @ [d]" "drop (3 + n) f = drop (3 + n) (frame s)" "length f = 516"
    using k Cons.prems(4,7) by (simp_all add: f_def)
  show ?case
    unfolding append_Cons
  proof (rule receive_Cons [OF byte_payload])
    show "bus_state s = STATE_PAYLOAD" "3 + unat (frame_index s) < length (frame s)" "f = (frame s)[3 + unat (frame_index s) := d]"
      using Cons.prems k by (simp_all add: f_def)
    fix t assume "after_byte s (if frame_index s + 1 \<ge> ucast (frame_size f) then STATE_FCS else STATE_PAYLOAD) f (frame_index s + 1) t"
    then have t: "after_byte s (if ps = [] then STATE_FCS else STATE_PAYLOAD) f (of_nat (Suc k)) t"
      using Cons.prems(2) cmp by (simp add: size' add.commute)
    show "achieves (receive b (ps @ rest)) Q t"
    proof (cases "ps = []")
      case True
      have "take (3 + k) (frame s) @ (d # ps) @ drop (3 + n) (frame s) = f"
        using f True Cons.prems(5) by (metis append_Cons append_Nil append.assoc append_take_drop_id add_Suc_right list.size(3) list.size(4) add.right_neutral One_nat_def)
      moreover have "n = Suc k" using Cons.prems(5) True by simp
      ultimately have "achieves (receive b rest) Q t" using t True by (intro Cons.prems(8)) simp
      then show ?thesis using True by simp
    next
      case False
      show ?thesis
      proof (rule Cons.IH [of t "Suc k"])
        show "achieves (receive b rest) Q u"
          if "after_byte t STATE_FCS (take (3 + Suc k) (frame t) @ ps @ drop (3 + n) (frame t)) (of_nat n) u" for u
          using that t f by (intro Cons.prems(8)) (simp add: after_byte_def)
      qed (use t False Cons.prems size' f in \<open>simp_all add: after_byte_def\<close>)
    qed
  qed
qed simp

text \<open>The bytes of a frame, and what the receiver holds after it.\<close>

definition frame_bytes :: "u8 \<Rightarrow> u8 list \<Rightarrow> u8 list" where
  "frame_bytes cmd ps =
     (let sz = of_nat (length ps) :: u16; hd' = [cmd, ucast sz, ucast (drop_bit 8 sz)]
      in 0xAA # hd' @ ps @ [crc_of POLYNOMIAL (hd' @ ps), 0x55])"

lemma receive_header:
  assumes "bus_state s = STATE_IDLE" "length (frame s) = 516"
    and "\<And>t. after_byte s STATE_PAYLOAD (set_frame_size sz ((frame s)[0 := cmd])) 0 t \<Longrightarrow> achieves (receive b rest) Q t"
  shows "achieves (receive b (0xAA # cmd # ucast sz # ucast (drop_bit 8 sz) # rest)) Q s"
proof (rule receive_Cons [OF byte_idle [OF assms(1)]])
  fix t0 assume t0: "after_byte s STATE_CMD (frame s) (frame_index s) t0"
  then have "bus_state t0 = STATE_CMD" by (simp add: after_byte_def)
  then show "achieves (receive b (cmd # ucast sz # ucast (drop_bit 8 sz) # rest)) Q t0"
  proof (rule receive_Cons [OF byte_cmd])
    fix t1 assume t1: "after_byte t0 STATE_SIZE (set_frame_size 0 ((frame t0)[0 := cmd])) 0 t1"
    show "achieves (receive b (ucast sz # ucast (drop_bit 8 sz) # rest)) Q t1"
    proof (rule receive_Cons [OF byte_size [of t1 0]])
      have widen: "ucast (ucast x :: u32) = (ucast x :: u16)" for x :: u8
        by (rule bit_word_eqI) (auto simp: bit_simps)
      fix t2 assume "after_byte t1 (if (0 :: u32) = 0 then STATE_SIZE else STATE_PAYLOAD)
        (set_frame_size (frame_size (frame t1) OR ucast (push_bit (unat (8 * 0 :: u32)) (ucast (ucast sz :: u8) :: u32))) (frame t1))
        (if (0 :: u32) = 0 then 1 else 0) t2"
      then have t2: "bus_state t2 = STATE_SIZE" "frame_index t2 = 1" "frame_received t2 = frame_received s"
        "frame t2 = set_frame_size (ucast (ucast sz :: u8)) ((frame s)[0 := cmd])"
        using t0 t1 assms(2) by (simp_all add: after_byte_def frame_size_frame widen)
      have "ucast (ucast sz :: u8) OR ucast (push_bit 8 (ucast (ucast (drop_bit 8 sz) :: u8) :: u32)) = (sz :: u16)"
        by (rule bit_word_eqI) (auto simp: bit_simps)
      then have f: "set_frame_size (frame_size (frame t2) OR ucast (push_bit (unat (8 * 1 :: u32)) (ucast (ucast (drop_bit 8 sz) :: u8) :: u32))) (frame t2)
          = set_frame_size sz ((frame s)[0 := cmd])"
        using assms(2) by (simp add: t2 frame_size_frame)
      show "achieves (receive b (ucast (drop_bit 8 sz) # rest)) Q t2"
        by (rule receive_Cons [OF byte_size [OF t2(1,2)]]) (use t2 f assms(3) in \<open>simp_all add: after_byte_def\<close>)
    qed (use t1 in \<open>simp_all add: after_byte_def\<close>)
  qed
qed

lemma receive_trailer:
  assumes "bus_state s = STATE_FCS" "length (frame s) = 516" "frame_crc (frame s) = Inr fcs" "unat (frame_size (frame s)) + 3 \<le> 515"
  shows "achieves (receive b [fcs, 0x55]) (\<lambda>_ t. bus_state t = STATE_IDLE \<and> frame_received t = 1
    \<and> frame t = (frame s)[515 := fcs]) s"
proof (rule receive_Cons [OF byte_fcs [OF assms(1)]])
  fix t assume t: "after_byte s STATE_END ((frame s)[515 := fcs]) (frame_index s) t"
  have "frame_crc ((frame s)[515 := fcs]) = Inr fcs" "frame_fcs ((frame s)[515 := fcs]) = fcs"
    using assms(2-4) by (simp_all add: frame_crc_def frame_size_def frame_fcs_def Let_def)
  then show "achieves (receive b [0x55]) (\<lambda>_ t. bus_state t = STATE_IDLE \<and> frame_received t = 1 \<and> frame t = (frame s)[515 := fcs]) t"
    using t by (simp add: after_byte_def frame_byte_def frame_fsm_def on_end_def achieves_simps timeout_reload_def timeout_stop_def)
qed

text \<open>
  \<^bold>\<open>Frames are received exactly (C33).\<close> From the idle state, the bytes of a frame with any command and a
  payload of 1 to 512 bytes leave the receiver idle again, with the frame reported and its command, size and
  payload stored; nothing is sent to the host, and no assumption on the hardware is needed.
\<close>

theorem frame_received_exactly:
  assumes "bus_state s = STATE_IDLE" "length (frame s) = 516" "ps \<noteq> []" "length ps \<le> 512"
  shows "achieves (receive b (frame_bytes cmd ps)) (\<lambda>_ t. bus_state t = STATE_IDLE \<and> frame_received t = 1
    \<and> frame_cmd (frame t) = cmd \<and> frame_size (frame t) = of_nat (length ps)
    \<and> take (length ps) (frame_payload (frame t)) = ps) s"
proof -
  define sz where "sz = (of_nat (length ps) :: u16)"
  define f1 where "f1 = set_frame_size sz ((frame s)[0 := cmd])"
  define fcs where "fcs = crc_of POLYNOMIAL (cmd # ucast sz # ucast (drop_bit 8 sz) # ps)"
  define f2 where "f2 = take 3 f1 @ ps @ drop (3 + length ps) f1"
  have f1: "length f1 = 516" "frame_size f1 = sz" using assms(2) by (simp_all add: f1_def frame_size_frame)
  have nth1: "f1 ! 0 = cmd" "f1 ! 1 = ucast sz" "f1 ! 2 = ucast (drop_bit 8 sz)"
    using assms(2) by (simp_all add: f1_def set_frame_size_def)
  then have hd': "take 3 f1 = [cmd, ucast sz, ucast (drop_bit 8 sz)]"
    using f1(1) by (simp add: numeral_eq_Suc take_Suc_conv_app_nth)
  then have f2: "length f2 = 516" "f2 = cmd # ucast sz # ucast (drop_bit 8 sz) # ps @ drop (3 + length ps) f1"
    using f1(1) assms(4) by (simp_all add: f2_def)
  have nth2: "f2 ! 0 = cmd" "f2 ! 1 = ucast sz" "f2 ! 2 = ucast (drop_bit 8 sz)" unfolding f2(2) by simp_all
  have size2: "frame_size f2 = sz" using f1(2) nth1 nth2 by (simp add: frame_size_def)
  have sz: "unat sz = length ps" using assms(4) by (simp add: sz_def unat_of_nat)
  have "take (length ps + 3) f2 = [cmd, ucast sz, ucast (drop_bit 8 sz)] @ ps" unfolding f2(2) by (simp add: numeral_eq_Suc)
  then have crc: "frame_crc f2 = Inr fcs" using f2(1) size2 sz assms(4) by (simp add: frame_crc_def fcs_def)
  have final: "frame_cmd (f2[515 := fcs]) = cmd" "frame_size (f2[515 := fcs]) = sz"
      "take (length ps) (frame_payload (f2[515 := fcs])) = ps"
    using nth2 size2 f2 assms(4) by (simp_all add: frame_cmd_def frame_size_def frame_payload_def drop_update_swap)
  show ?thesis
    unfolding frame_bytes_def Let_def sz_def [symmetric] append_Cons append_Nil fcs_def [symmetric]
  proof (rule receive_header [OF assms(1,2)])
    fix t0 assume "after_byte s STATE_PAYLOAD (set_frame_size sz ((frame s)[0 := cmd])) 0 t0"
    then have t0: "bus_state t0 = STATE_PAYLOAD" "frame_index t0 = of_nat 0" "frame t0 = f1"
      by (simp_all add: after_byte_def f1_def)
    show "achieves (receive b (ps @ [fcs, 0x55])) (\<lambda>_ t. bus_state t = STATE_IDLE \<and> frame_received t = 1
        \<and> frame_cmd (frame t) = cmd \<and> frame_size (frame t) = sz \<and> take (length ps) (frame_payload (frame t)) = ps) t0"
    proof (rule receive_payload [OF t0(1,2)])
      fix t assume "after_byte t0 STATE_FCS (take (3 + 0) (frame t0) @ ps @ drop (3 + length ps) (frame t0)) (of_nat (length ps)) t"
      then have t: "bus_state t = STATE_FCS" "frame t = f2" by (simp_all add: after_byte_def t0(3) f2_def)
      show "achieves (receive b [fcs, 0x55]) (\<lambda>_ t. bus_state t = STATE_IDLE \<and> frame_received t = 1
          \<and> frame_cmd (frame t) = cmd \<and> frame_size (frame t) = sz \<and> take (length ps) (frame_payload (frame t)) = ps) t"
        by (rule achieves_mono [OF receive_trailer [OF t(1)]]) (use t f2(1) crc size2 sz final assms(4) in auto)
    qed (use t0 f1 assms(3,4) in \<open>simp_all add: sz_def\<close>)
  qed
qed

theorem frame_received_exactly_witness:
  "achieves (receive \<lparr>bus_read = (\<lambda>r h. (0, h)), bus_write = (\<lambda>r v h. h)\<rparr> [0xAA, 7, 1, 0, 1, crc_of POLYNOMIAL [7, 1, 0, 1], 0x55])
    (\<lambda>_ t. frame_received t = 1 \<and> frame_cmd (frame t) = 7)
    \<lparr>bus_state = STATE_IDLE, frame = replicate 516 0, frame_index = 0, frame_received = 0, rx_hw = ()\<rparr>"
proof -
  have "frame_bytes 7 [1] = [0xAA, 7, 1, 0, 1, crc_of POLYNOMIAL [7, 1, 0, 1], 0x55]" by (simp add: frame_bytes_def)
  then show ?thesis
    using frame_received_exactly [of "\<lparr>bus_state = STATE_IDLE, frame = replicate 516 0, frame_index = 0, frame_received = 0, rx_hw = ()\<rparr>"
      "[1]" "\<lparr>bus_read = (\<lambda>r h. (0, h)), bus_write = (\<lambda>r v h. h)\<rparr>" 7]
    by (auto elim!: achieves_mono simp del: for_io.simps)
qed

section \<open>Pages of the kernel\<close>

lemma io_bind_Inr: "io_bind m f s = Inr r \<longleftrightarrow> (\<exists>x t. m s = Inr (x, t) \<and> f x t = Inr r)"
  by (auto simp: io_bind_def rbind_Inr_iff)

lemma io_then_Inr: "io_then m k s = Inr r \<longleftrightarrow> (\<exists>x t. m s = Inr (x, t) \<and> k t = Inr r)"
  by (simp add: io_then_def io_bind_Inr)

lemma io_zoom_Inr: "io_zoom sel upd m s = Inr (x, t) \<longleftrightarrow> (\<exists>h. m (sel s) = Inr (x, h) \<and> t = upd (\<lambda>_. h) s)"
  by (auto simp: io_zoom_def rbind_Inr_iff)

lemmas run_Inr = io_bind_Inr io_then_Inr io_zoom_Inr io_return_def io_gets_def io_update_def io_res_def io_fail_def
  rbind_Inr_iff

text \<open>A comparison that returns 1 has seen every byte of the buffer in the flash.\<close>

lemma flash_compare_sound:
  "flash_compare M buffer a is h = Inr (st, h') \<Longrightarrow>
    h' = h \<and> (st \<noteq> 0 \<longrightarrow> (\<forall>i \<in> set is. i < length buffer \<and> m_byte M (a + of_nat i) h = buffer ! i))"
  by (induction "is" arbitrary: h)
    (auto simp: run_Inr mem_byte_def array_get_def split: if_splits)

lemma flash_compare_holds:
  assumes "flash_compare M buffer a [0..<n] h = Inr (st, h')" "st \<noteq> 0" "length buffer = n"
  shows "flash_holds M a buffer h'"
  using flash_compare_sound [OF assms(1)] assms(2,3) by (simp add: flash_holds_def)

lemma pad_page_length: "pad_page data size' = Inr buf \<Longrightarrow> length buf = 512"
  by (auto simp: pad_page_def split: if_splits)

text \<open>
  \<^bold>\<open>Acknowledged pages (C32).\<close> When the write of a kernel page returns, it returns 1 and the flash holds the
  data, padded with \<^verbatim>\<open>0xFF\<close> to 512 bytes, at the address of the page, whatever the controller did; in every other
  case the bootloader panics and the host gets no answer.
\<close>

theorem acknowledged_page_is_in_flash:
  assumes "write_kernel_page M data size' page s = Inr (st, t)"
  shows "st = 1 \<and> pad_page data size' = Inr (flash_buffer t)
    \<and> flash_holds M (0x00404000 + 512 * page) (flash_buffer t) (rx_hw (rx t))"
proof -
  obtain h ok h' where buf: "pad_page data size' = Inr (flash_buffer t)" and st: "st = 1" "ok \<noteq> 0"
    and cmp: "flash_compare M (flash_buffer t) (0x00404000 + 512 * page) [0..<512] h = Inr (ok, h')" and t: "rx_hw (rx t) = h'"
    using assms by (auto simp: write_kernel_page_def fill_flash_buffer_def run_Inr split: if_splits)
  show ?thesis using flash_compare_holds [OF cmp st(2)] pad_page_length [OF buf] buf st(1) t by simp
qed

text \<open>A quiet machine: no state, and registers and memory that read as constants.\<close>

definition quiet :: "(u32 \<Rightarrow> u32) \<Rightarrow> (u32 \<Rightarrow> u8) \<Rightarrow> unit machine" where
  "quiet rd byte = \<lparr>m_bus = \<lparr>bus_read = (\<lambda>r h. (rd r, h)), bus_write = (\<lambda>r v h. h)\<rparr>, m_byte = (\<lambda>a h. byte a)\<rparr>"

lemma quiet_run [simp]:
  "bus_read (m_bus (quiet rd byte)) r h = (rd r, h)"
  "bus_write (m_bus (quiet rd byte)) r v h = h"
  "reg_get (m_bus (quiet rd byte)) r h = Inr (rd r, h)"
  "reg_set (m_bus (quiet rd byte)) r v h = Inr ((), h)"
  "m_byte (quiet rd byte) a h = byte a"
  by (simp_all add: quiet_def reg_get_def reg_set_def)

lemma quiet_wait [simp]: "P (rd r) \<Longrightarrow> reg_wait (m_bus (quiet rd byte)) r P h = Inr (rd r, h)"
  unfolding reg_wait_def by (rule repeat_io_leave) (simp add: io_simps)

lemma quiet_wait_bit [simp]: "bit (rd r) n \<Longrightarrow> wait_bit (m_bus (quiet rd byte)) r n h = Inr ((), h)"
  by (simp add: wait_bit_def io_bind_def io_return_def)

lemma quiet_for [simp]:
  "(\<And>i h. i \<in> set is \<Longrightarrow> f i () h = Inr ((), h)) \<Longrightarrow> for_io f is () h = Inr ((), h)"
  by (induction "is" arbitrary: h) (simp_all add: io_simps)

lemma quiet_latch: "length buffer = 512 \<Longrightarrow> write_latch (m_bus (quiet rd byte)) a buffer h = Inr ((), h)"
  unfolding write_latch_def by (rule quiet_for) (simp add: io_simps load_word_def)

lemma flash_compare_complete:
  "(\<And>i. i \<in> set is \<Longrightarrow> i < length buffer \<and> m_byte M (a + of_nat i) h = buffer ! i) \<Longrightarrow>
    flash_compare M buffer a is h = Inr (1, h)"
  by (induction "is") (simp_all add: io_simps mem_byte_def)

text \<open>The controllers of the flash and of the hash engine are done; every other register reads as ones.\<close>

definition ready_regs :: "u32 \<Rightarrow> u32" where
  "ready_regs r = (if r = ICM ''ISR'' \<or> r = FLASH ''FSR'' then 1 else mask 32)"

lemma ready_regs [simp]:
  "ready_regs (FLASH ''FSR'') = 1" "ready_regs (ICM ''ISR'') = 1" "ready_regs (FLASH ''FMR'') = mask 32"
  "ready_regs (CLOCK ''SR'') = mask 32" "ready_regs (CLOCK ''MCKR'') = mask 32" "ready_regs (CLOCK ''MOR'') = mask 32"
  "ready_regs (usart USART1 ''CSR'') = mask 32" "ready_regs (port_reg GPIOA ''PDSR'') = mask 32"
  by (simp_all add: ready_regs_def core_register_defs register_defs usart_reg_def gpio_reg_def clock_reg_def flash_reg_def icm_reg_def USART1_def)

definition boot_state :: "unit boot" where
  "boot_state = \<lparr>rx = \<lparr>bus_state = STATE_IDLE, frame = replicate 516 0, frame_index = 0, frame_received = 0, rx_hw = ()\<rparr>,
     kernel_total_size = 0, kernel_page = 0, flash_buffer = replicate 512 0, boot_signature = replicate 32 0\<rparr>"

definition erased :: "unit machine" where
  "erased = quiet ready_regs (\<lambda>_. 0xFF)"

lemma erased_page:
  "write_kernel_page erased [] 0 0 boot_state = Inr (1, boot_state\<lparr>flash_buffer := replicate 512 0xFF\<rparr>)"
proof -
  have buf: "pad_page [] 0 = Inr (replicate 512 0xFF)" by (simp add: pad_page_def)
  have cmp: "flash_compare erased (replicate 512 0xFF) 0x00404000 [0..<512] h = Inr (1, h)" for h
    by (rule flash_compare_complete) (simp add: erased_def)
  have cmd: "write_page_command (m_bus erased) 0 (replicate 512 0xFF) h = Inr (1, h)" for h
    by (simp add: write_page_command_def flash_ready_def io_bind_def io_then_def io_return_def erased_def quiet_latch)
  show ?thesis
    by (simp add: write_kernel_page_def fill_flash_buffer_def flash_write_image_page_def io_bind_def io_then_def
        io_return_def io_zoom_def io_res_def io_update_def buf cmp cmd boot_state_def)
qed

theorem acknowledged_page_is_in_flash_witness:
  "flash_holds erased 0x00404000 (replicate 512 0xFF) ()"
  using acknowledged_page_is_in_flash [OF erased_page] by (simp add: boot_state_def)

section \<open>Starting the kernel\<close>

text \<open>The words 2 to 7 of the kernel's information, read in the state \<open>h\<close>, and the values the bootloader expects.\<close>

definition info_words :: "'h machine \<Rightarrow> 'h \<Rightarrow> u32 list" where
  "info_words M h = map (\<lambda>i. load32 (\<lambda>a. m_byte M a h) (0x00404000 + of_nat (4 * i))) [2..<8]"

lemma check_info_value:
  assumes "check_info_match M h = Inr (v, h')" "v \<noteq> 0"
  shows "h' = h \<and> info_words M h = [0x00400000, 0x4000, 0x00403E00, 0x00404000, 0x1FC000, 0x00404000]"
  using assms by (auto simp: check_info_match_def read_image_info_def mem_word_def run_Inr info_words_def upt_conv_Cons
      boot_image_info_def split: if_splits)

lemma verify_hash_sound:
  assumes "verify_kernel_hash M desc digest h = Inr (v, h')" "v \<noteq> 0"
  shows "load32 (\<lambda>a. m_byte M a h) 0x00403C20 \<notin> {0, 0xFFFFFFFF}
    \<and> boot_hash256_generate (m_bus M) desc 0x00404000 (load32 (\<lambda>a. m_byte M a h) 0x00403C20) digest h = Inr ((), h')
    \<and> (\<forall>i < 32. m_byte M (digest + of_nat i) h' = m_byte M (0x00403C00 + of_nat i) h')"
proof -
  define sz where "sz = load32 (\<lambda>a. m_byte M a h) 0x00403C20"
  have sz: "sz \<noteq> 0" "sz \<noteq> 0xFFFFFFFF" using assms by (auto simp: verify_kernel_hash_def mem_word_def run_Inr sz_def split: if_splits)
  then obtain k where hash: "boot_hash256_generate (m_bus M) desc 0x00404000 sz digest h = Inr ((), k)"
    and cmp: "flash_compare M (map (\<lambda>i. m_byte M (digest + of_nat i) k) [0..<32]) 0x00403C00 [0..<32] k = Inr (v, h')"
    using assms(1) by (auto simp: verify_kernel_hash_def mem_word_def read_bytes_def run_Inr sz_def split: if_splits)
  have "k = h'" "\<forall>i < 32. m_byte M (0x00403C00 + of_nat i) k = m_byte M (digest + of_nat i) k"
    using flash_compare_sound [OF cmp] assms(2) by auto
  then show ?thesis using sz hash by (auto simp: sz_def)
qed

lemma start_kernel_thumb: "start_kernel M h = Inr ((sp, pc), h') \<Longrightarrow> bit pc 0"
  by (auto simp: start_kernel_def Let_def run_Inr bit_simps)

text \<open>
  \<^bold>\<open>Only a verified kernel is started (C31).\<close> When the bootloader starts the kernel, neither boot trigger was
  set: the signature in RAM does not match, and the pin, read first, is high. In the state after that reading
  the addresses in the kernel's information are the bootloader's own, and the stored size is neither zero nor
  erased; the hash engine, run over that size from that state, leaves the digest that the hash sector stores. The
  kernel is started from the state the hash engine leaves, which ends the run, with the Thumb bit set.
\<close>

theorem started_kernel_is_verified:
  assumes "boot_decide M desc digest s = Inr (Started sp pc, t)"
  shows "(\<exists>sig. signature_loop (boot_signature s) [0..<16] = Inr sig \<and> sig \<noteq> 1)
    \<and> (\<exists>pin h1 h2. gpio_get_pin_status (m_bus M) GPIOA 11 (rx_hw (rx s)) = Inr (pin, h1) \<and> pin \<noteq> 0
        \<and> info_words M h1 = [0x00400000, 0x4000, 0x00403E00, 0x00404000, 0x1FC000, 0x00404000]
        \<and> load32 (\<lambda>a. m_byte M a h1) 0x00403C20 \<notin> {0, 0xFFFFFFFF}
        \<and> boot_hash256_generate (m_bus M) desc 0x00404000 (load32 (\<lambda>a. m_byte M a h1) 0x00403C20) digest h1 = Inr ((), h2)
        \<and> (\<forall>i < 32. m_byte M (digest + of_nat i) h2 = m_byte M (0x00403C00 + of_nat i) h2)
        \<and> start_kernel M h2 = Inr ((sp, pc), rx_hw (rx t)))
    \<and> bit pc 0"
proof -
  obtain sig pin u v h h1 h2 where sig: "signature_loop (boot_signature s) [0..<16] = Inr sig" "sig \<noteq> 1"
    and pin: "gpio_get_pin_status (m_bus M) GPIOA 11 (rx_hw (rx s)) = Inr (pin, h)" "pin \<noteq> 0"
    and info: "check_info_match M h = Inr (u, h1)" "u \<noteq> 0"
    and hash: "verify_kernel_hash M desc digest h1 = Inr (v, h2)" "v \<noteq> 0"
    and start: "start_kernel M h2 = Inr ((sp, pc), rx_hw (rx t))"
    using assms by (auto simp: boot_decide_def check_boot_signature_def run_Inr split: if_splits)
  show ?thesis
    using sig pin check_info_value [OF info] verify_hash_sound [OF hash] start start_kernel_thumb [OF start]
    by (intro conjI exI [of _ sig] exI [of _ pin] exI [of _ h] exI [of _ h2]) auto
qed

text \<open>A flash with the information of a kernel, and ones everywhere else, the hash sector included.\<close>

definition info_bytes :: "u8 list" where
  "info_bytes = [1, 0, 0, 0, 3, 0, 0, 0, 0, 0, 0x40, 0, 0, 0x40, 0, 0, 0, 0x3E, 0x40, 0,
     0, 0x40, 0x40, 0, 0, 0xC0, 0x1F, 0, 0, 0x40, 0x40, 0]"

definition verified :: "unit machine" where
  "verified = quiet ready_regs (\<lambda>a. if a - 0x00404000 < 32 then info_bytes ! unat (a - 0x00404000) else 1)"

lemma verified_info: "check_info_match verified h = Inr (1, h)"
  by (simp add: check_info_match_def read_image_info_def mem_word_def io_bind_def io_gets_def io_return_def boot_image_info_def
      verified_def load32_def le32_def info_bytes_def)

lemma verified_byte:
  assumes "i < 36"
  shows "m_byte verified (0x20400100 + of_nat i) h = 1" "m_byte verified (0x00403C00 + of_nat i) h = 1"
proof -
  have "(0x20400100 + of_nat i :: u32) - 0x00404000 = of_nat (0x1FFFC100 + i)"
    "(0x00403C00 + of_nat i :: u32) - 0x00404000 = of_nat (0xFFFFFC00 + i)" by simp_all
  then have "\<not> (0x20400100 + of_nat i :: u32) - 0x00404000 < 32" "\<not> (0x00403C00 + of_nat i :: u32) - 0x00404000 < 32"
    using assms by (simp_all only: word_less_nat_alt unat_of_nat) simp_all
  then show "m_byte verified (0x20400100 + of_nat i) h = 1" "m_byte verified (0x00403C00 + of_nat i) h = 1"
    by (simp_all add: verified_def)
qed

lemma verified_hash: "verify_kernel_hash verified 0x20400000 0x20400100 h = Inr (1, h)"
proof -
  have size': "load32 (\<lambda>a. m_byte verified a ()) 0x00403C20 = 0x01010101"
    by (simp add: verified_def load32_def le32_def)
  have cmp: "flash_compare verified (map (\<lambda>i. m_byte verified (0x20400100 + of_nat i) h) [0..<32]) 0x00403C00 [0..<32] h = Inr (1, h)" for h
    by (rule flash_compare_complete) (simp add: verified_byte)
  have hash: "boot_hash256_generate (m_bus verified) desc a sz dg h = Inr ((), h)" for desc a sz dg h
    by (simp add: boot_hash256_generate_def hash_region_def hash_wait_def io_then_def io_bind_def io_return_def verified_def)
  show ?thesis by (simp add: verify_kernel_hash_def mem_word_def io_bind_def io_then_def io_gets_def size' hash read_bytes_def cmp)
qed

lemma verified_start: "start_kernel verified h = Inr ((0x01010101, 0x01010101), h)"
  by (simp add: start_kernel_def print_flush_def print_deinit_def usart_flush_def usart_deinit_def clock_tree_reset_def
      master_clock_select_def mckr_field_def plla_disable_def main_clock_select_def rc_frequency_select_def
      clock_source_disable_def flash_set_access_cycles_def peripheral_clock_disable_def nvic_disable_def
      nvic_clear_pending_def io_bind_def io_then_def io_return_def io_gets_def mem_word_def verified_def
      load32_def le32_def Let_def bit_mask_iff)

lemma verified_boot: "boot_decide verified 0x20400000 0x20400100 boot_state = Inr (Started 0x01010101 0x01010101, boot_state)"
proof -
  have sig: "signature_loop (replicate 32 0) [0..<16] = Inr 0" by (simp add: upt_conv_Cons boot_trigger_def of_char_def)
  have pin: "gpio_get_pin_status (m_bus verified) GPIOA 11 h = Inr (1, h)" for h
    by (simp add: gpio_get_pin_status_def io_bind_def io_return_def verified_def pin_mask_def mask_eq_exp_minus_1)
  show ?thesis
    by (simp add: boot_decide_def check_boot_signature_def io_bind_def io_then_def io_return_def io_zoom_def io_gets_def
        io_res_def sig pin verified_info verified_hash verified_start boot_state_def)
qed

theorem started_kernel_is_verified_witness:
  "load32 (\<lambda>a. m_byte verified a ()) 0x00403C20 \<notin> {0, 0xFFFFFFFF} \<and> bit (0x01010101 :: u32) 0
    \<and> info_words verified () = [0x00400000, 0x4000, 0x00403E00, 0x00404000, 0x1FC000, 0x00404000]
    \<and> start_kernel verified () = Inr ((0x01010101, 0x01010101), ())"
  using started_kernel_is_verified [OF verified_boot] by auto

end
