(* ===== verification/Usb_Desc.thy ===== *)
theory Usb_Desc
  imports Io_Monad
begin

text \<open>
  The descriptors of the USB protocol and the functions of \<^verbatim>\<open>usb/usb.c\<close> on them: the walk over the descriptors a
  device returns, the arrays they are stored in, the strings, and the matching of drivers. A descriptor is the list
  of its bytes (the structures of \<^verbatim>\<open>usb/usb_protocol.h\<close> are packed); a buffer is a list of bytes, and an access past
  its end is out of bounds.

  The buffer of \<^verbatim>\<open>usbc_alloc_descriptors\<close> holds three arrays, one after the other. It is modelled as the three arrays,
  a pointer into it as an index; \<open>usbc_get_desc_offset\<close> is the offset in bytes.
\<close>

section \<open>Descriptors (usb\_protocol.h)\<close>

definition USB_DESC_DEVICE :: u8 where "USB_DESC_DEVICE = 1"
definition USB_DESC_CONFIG :: u8 where "USB_DESC_CONFIG = 2"
definition USB_DESC_STRING :: u8 where "USB_DESC_STRING = 3"
definition USB_DESC_IFACE :: u8 where "USB_DESC_IFACE = 4"
definition USB_DESC_EP :: u8 where "USB_DESC_EP = 5"

lemmas desc_types = USB_DESC_DEVICE_def USB_DESC_CONFIG_def USB_DESC_STRING_def USB_DESC_IFACE_def USB_DESC_EP_def

definition USB_DEVICE_TO_HOST :: u8 where "USB_DEVICE_TO_HOST = 0x80"
definition USB_HOST_TO_DEVICE :: u8 where "USB_HOST_TO_DEVICE = 0"
definition USB_REQ_GET_DESCRIPTOR :: u8 where "USB_REQ_GET_DESCRIPTOR = 6"
definition USB_REQ_SET_ADDRESS :: u8 where "USB_REQ_SET_ADDRESS = 5"

definition le16 :: "u8 \<Rightarrow> u8 \<Rightarrow> u16" where
  "le16 b0 b1 = ucast b0 OR push_bit 8 (ucast b1)"

definition half_at :: "u8 list \<Rightarrow> nat \<Rightarrow> u16 res" where
  "half_at d i = rbind (array_get d i) (\<lambda>b0. rbind (array_get d (i + 1)) (\<lambda>b1. Inr (le16 b0 b1)))"

text \<open>The setup packet; its value doubles as a descriptor index (low byte) and type.\<close>

record usb_setup_desc =
  bmRequestType :: u8
  bRequest :: u8
  wValue :: u16
  wIndex :: u16
  wLength :: u16

definition setup_bytes :: "usb_setup_desc \<Rightarrow> u8 list" where
  "setup_bytes r = [bmRequestType r, bRequest r, ucast (wValue r), ucast (drop_bit 8 (wValue r)),
     ucast (wIndex r), ucast (drop_bit 8 (wIndex r)), ucast (wLength r), ucast (drop_bit 8 (wLength r))]"

definition descriptor_value :: "u8 \<Rightarrow> u8 \<Rightarrow> u16" where
  "descriptor_value type' index = le16 index type'"

section \<open>The arrays of descriptors (usb.h)\<close>

record usb_ep =
  ep_desc :: "u8 list"
  ep_pad :: u8
  ep_pipe :: u32

record usb_iface =
  iface_desc :: "u8 list"
  iface_eps :: "nat option"
  num_eps :: u32
  iface_driver :: "u32 option"
  parent_dev :: u32
  assigned :: bool

record usb_config =
  config_desc :: "u8 list"
  config_ifaces :: "nat option"
  num_ifaces :: u32
  curr_iface :: "nat option"

record desc_mem =
  dm_config :: "nat \<Rightarrow> usb_config"
  dm_iface :: "nat \<Rightarrow> usb_iface"
  dm_ep :: "nat \<Rightarrow> usb_ep"

definition upd_config :: "nat \<Rightarrow> (usb_config \<Rightarrow> usb_config) \<Rightarrow> desc_mem \<Rightarrow> desc_mem" where
  "upd_config i f m = m\<lparr>dm_config := (dm_config m)(i := f (dm_config m i))\<rparr>"

definition upd_iface :: "nat \<Rightarrow> (usb_iface \<Rightarrow> usb_iface) \<Rightarrow> desc_mem \<Rightarrow> desc_mem" where
  "upd_iface i f m = m\<lparr>dm_iface := (dm_iface m)(i := f (dm_iface m i))\<rparr>"

definition upd_ep :: "nat \<Rightarrow> (usb_ep \<Rightarrow> usb_ep) \<Rightarrow> desc_mem \<Rightarrow> desc_mem" where
  "upd_ep i f m = m\<lparr>dm_ep := (dm_ep m)(i := f (dm_ep m i))\<rparr>"

text \<open>The sizes of the structures under the ARM procedure call standard.\<close>

definition config_bytes :: u32 where "config_bytes = 24"
definition iface_bytes :: u32 where "iface_bytes = 40"
definition ep_bytes :: u32 where "ep_bytes = 12"

definition usbc_get_desc_offset :: "u32 \<Rightarrow> u32 \<Rightarrow> u8 \<Rightarrow> u32 \<Rightarrow> u32" where
  "usbc_get_desc_offset configs ifaces type' index =
     (if type' = USB_DESC_CONFIG then index * config_bytes
      else if type' = USB_DESC_IFACE then configs * config_bytes + index * iface_bytes
      else if type' = USB_DESC_EP then configs * config_bytes + ifaces * iface_bytes + index * ep_bytes
      else 0)"

definition desc_mem_size :: "u32 \<Rightarrow> u32 \<Rightarrow> u32 \<Rightarrow> u32" where
  "desc_mem_size configs ifaces eps = configs * config_bytes + ifaces * iface_bytes + eps * ep_bytes"

section \<open>Walking the descriptors\<close>

text \<open>One descriptor: its type and its length, in the order the code reads them.\<close>

definition desc_head :: "u8 list \<Rightarrow> u32 \<Rightarrow> (u8 \<times> u8) res" where
  "desc_head data pos =
     rbind (array_get data (unat (pos + 1))) (\<lambda>ty. rbind (array_get data (unat pos)) (\<lambda>sz. Inr (ty, sz)))"

type_synonym counts = "u32 \<times> u32 \<times> u32"

definition verify_step :: "u8 list \<Rightarrow> u32 \<Rightarrow> u32 \<times> counts \<Rightarrow> ('s, u32 \<times> counts + counts option) io" where
  "verify_step data size' = (\<lambda>(pos, configs, ifaces, eps).
     if pos < size' then
       io_bind (io_res (desc_head data pos)) (\<lambda>(ty, sz).
       if ty = USB_DESC_CONFIG then
         (if sz \<noteq> 9 then leave None else again (pos + ucast sz, configs + 1, ifaces, eps))
       else if ty = USB_DESC_IFACE then
         (if sz \<noteq> 9 then leave None else again (pos + ucast sz, configs, ifaces + 1, eps))
       else if ty = USB_DESC_EP then
         (if sz \<noteq> 7 then leave None else again (pos + ucast sz, configs, ifaces, eps + 1))
       else again (pos + ucast sz, configs, ifaces, eps))
     else leave (if pos = size' then Some (configs, ifaces, eps) else None))"

definition usbc_verify_descriptors :: "u8 list \<Rightarrow> u32 \<Rightarrow> ('s, counts option) io" where
  "usbc_verify_descriptors data size' = repeat_io (verify_step data size') (0, 0, 0, 0)"

text \<open>The initial values of the arrays, of which only these fields are set.\<close>

definition init_desc_mem :: "u32 \<Rightarrow> nat \<Rightarrow> nat \<Rightarrow> nat \<Rightarrow> desc_mem \<Rightarrow> desc_mem" where
  "init_desc_mem dev configs ifaces eps m =
     m\<lparr>dm_config := (\<lambda>i. if i < configs then (dm_config m i)\<lparr>curr_iface := None\<rparr> else dm_config m i),
       dm_iface := (\<lambda>i. if i < ifaces then (dm_iface m i)\<lparr>iface_driver := None, parent_dev := dev, assigned := False\<rparr>
         else dm_iface m i),
       dm_ep := (\<lambda>i. if i < eps then (dm_ep m i)\<lparr>ep_pipe := 0\<rparr> else dm_ep m i)\<rparr>"

definition read_slice :: "u8 list \<Rightarrow> u32 \<Rightarrow> nat \<Rightarrow> u8 list res" where
  "read_slice data pos n = (if unat pos + n \<le> length data then Inr (take n (drop (unat pos) data)) else Inl OutOfBounds)"

record parse_state =
  ps_mem :: desc_mem
  ps_num_configs :: u32
  config_index :: nat
  iface_index :: nat
  ep_index :: nat
  last_cfg :: "nat option"
  last_iface :: "nat option"

definition parse_config :: "u8 list \<Rightarrow> parse_state \<Rightarrow> parse_state" where
  "parse_config d s =
     (let i = config_index s
      in s\<lparr>ps_mem := upd_config i (\<lambda>c. c\<lparr>config_desc := d, num_ifaces := 0\<rparr>) (ps_mem s),
           ps_num_configs := ps_num_configs s + 1, config_index := i + 1, last_cfg := Some i\<rparr>)"

definition parse_iface :: "u8 list \<Rightarrow> parse_state \<Rightarrow> parse_state option" where
  "parse_iface d s =
     (let i = iface_index s; m = upd_iface i (\<lambda>f. f\<lparr>iface_desc := d, num_eps := 0\<rparr>) (ps_mem s)
      in case last_cfg s of
           None \<Rightarrow> None
         | Some c \<Rightarrow> Some (s\<lparr>ps_mem := upd_config c (\<lambda>cf. cf\<lparr>config_ifaces :=
               (if num_ifaces cf = 0 then Some i else config_ifaces cf), num_ifaces := num_ifaces cf + 1\<rparr>) m,
             iface_index := i + 1, last_iface := Some i\<rparr>))"

text \<open>An endpoint is copied with the size of the whole structure: the bytes after the descriptor overwrite its pipe.\<close>

definition parse_ep :: "u8 list \<Rightarrow> parse_state \<Rightarrow> parse_state option" where
  "parse_ep d s =
     (let i = ep_index s;
          m = upd_ep i (\<lambda>e. e\<lparr>ep_desc := take 7 d, ep_pad := d ! 7, ep_pipe := le32 (d ! 8) (d ! 9) (d ! 10) (d ! 11)\<rparr>) (ps_mem s)
      in case last_iface s of
           None \<Rightarrow> None
         | Some f \<Rightarrow> Some (s\<lparr>ps_mem := upd_iface f (\<lambda>fc. fc\<lparr>iface_eps :=
               (if num_eps fc = 0 then Some i else iface_eps fc), num_eps := num_eps fc + 1\<rparr>) m,
             ep_index := i + 1\<rparr>))"

definition parse_step :: "u8 list \<Rightarrow> u32 \<Rightarrow> u32 \<times> parse_state \<Rightarrow> ('s, u32 \<times> parse_state + parse_state option) io" where
  "parse_step data size' = (\<lambda>(pos, s).
     if pos < size' then
       io_bind (io_res (array_get data (unat (pos + 1)))) (\<lambda>ty.
       io_bind (if ty = USB_DESC_CONFIG then io_bind (io_res (read_slice data pos 9)) (\<lambda>d. io_return (Some (parse_config d s)))
         else if ty = USB_DESC_IFACE then io_bind (io_res (read_slice data pos 9)) (\<lambda>d. io_return (parse_iface d s))
         else if ty = USB_DESC_EP then io_bind (io_res (read_slice data pos 12)) (\<lambda>d. io_return (parse_ep d s))
         else io_return (Some s)) (\<lambda>r.
       case r of
         None \<Rightarrow> leave None
       | Some s' \<Rightarrow> io_bind (io_res (array_get data (unat pos))) (\<lambda>sz. again (pos + ucast sz, s'))))
     else leave (Some s))"

definition parse_walk :: "u8 list \<Rightarrow> u32 \<Rightarrow> parse_state \<Rightarrow> ('s, parse_state option) io" where
  "parse_walk data size' s = repeat_io (parse_step data size') (0, s)"

section \<open>Strings\<close>

text \<open>Every second byte of the source, at most as many as fit with the terminator; \<open>string_size\<close> is 64.\<close>

definition uni_step :: "u8 list \<Rightarrow> u32 \<Rightarrow> u32 \<Rightarrow> u32 \<times> u32 \<times> u8 list \<Rightarrow> ('s, u32 \<times> u32 \<times> u8 list + u8 list) io" where
  "uni_step uni uni_size string_size = (\<lambda>(uni_pos, ascii_pos, out).
     if uni_pos < uni_size \<and> ascii_pos < string_size then
       io_bind (io_res (array_get uni (unat uni_pos))) (\<lambda>c.
       io_bind (io_res (array_set out (unat ascii_pos) c)) (\<lambda>out'. again (uni_pos + 2, ascii_pos + 1, out')))
     else
       io_bind (io_res (array_set out (unat ascii_pos) 0)) leave)"

definition usbc_uni_to_string :: "u8 list \<Rightarrow> u32 \<Rightarrow> u8 list \<Rightarrow> u32 \<Rightarrow> ('s, u8 list) io" where
  "usbc_uni_to_string uni uni_size out string_size =
     (if string_size = 0 then io_return out else repeat_io (uni_step uni uni_size (string_size - 1)) (0, 0, out))"

section \<open>Matching drivers\<close>

record usb_dev_id =
  id_flags :: u32
  id_vendor :: u16
  id_product :: u16
  id_dev_class :: u8
  id_dev_sub_class :: u8
  id_dev_protocol :: u8
  id_iface_class :: u8
  id_iface_sub_class :: u8
  id_iface_protocol :: u8

text \<open>A field counts only if its flag is set.\<close>

definition flag_match :: "u32 \<Rightarrow> nat \<Rightarrow> bool \<Rightarrow> bool" where
  "flag_match flags n ok \<longleftrightarrow> (bit flags n \<longrightarrow> ok)"

definition usbc_check_dev_match :: "usb_dev_id \<Rightarrow> u8 list \<Rightarrow> u8" where
  "usbc_check_dev_match d desc =
     (if flag_match (id_flags d) 0 (id_vendor d = le16 (desc ! 8) (desc ! 9))
       \<and> flag_match (id_flags d) 1 (id_product d = le16 (desc ! 10) (desc ! 11))
       \<and> flag_match (id_flags d) 2 (id_dev_class d = desc ! 4)
       \<and> flag_match (id_flags d) 3 (id_dev_sub_class d = desc ! 5)
       \<and> flag_match (id_flags d) 4 (id_dev_protocol d = desc ! 6) then 1 else 0)"

definition usbc_check_iface_match :: "usb_dev_id \<Rightarrow> u8 list \<Rightarrow> u8" where
  "usbc_check_iface_match d desc =
     (if flag_match (id_flags d) 5 (id_iface_class d = desc ! 5)
       \<and> flag_match (id_flags d) 6 (id_iface_sub_class d = desc ! 6)
       \<and> flag_match (id_flags d) 7 (id_iface_protocol d = desc ! 7) then 1 else 0)"

fun usbc_check_driver_match :: "usb_dev_id list \<Rightarrow> u8 list \<Rightarrow> u8 list \<Rightarrow> u8" where
  "usbc_check_driver_match [] dev iface = 0"
| "usbc_check_driver_match (d # ds) dev iface =
     (if usbc_check_dev_match d dev \<noteq> 0 \<and> usbc_check_iface_match d iface \<noteq> 0 then 1
      else usbc_check_driver_match ds dev iface)"

section \<open>Addresses\<close>

definition MAX_PIPES :: nat where "MAX_PIPES = 10"

fun new_address_from :: "u16 \<Rightarrow> nat list \<Rightarrow> u8 \<times> u16" where
  "new_address_from bm [] = (0, bm)"
| "new_address_from bm (i # is) =
     (if bm AND push_bit i 1 = 0 then (of_nat i, bm OR push_bit i 1) else new_address_from bm is)"

definition usbc_new_address :: "u16 \<Rightarrow> u8 \<times> u16" where
  "usbc_new_address bm = new_address_from bm [1..<MAX_PIPES]"

definition usbc_delete_address :: "u8 \<Rightarrow> u16 \<Rightarrow> u16" where
  "usbc_delete_address address bm = bm AND NOT (push_bit (unat address) 1)"

section \<open>Bytes written into a buffer\<close>

definition append_at :: "u8 list \<Rightarrow> nat \<Rightarrow> u8 list \<Rightarrow> u8 list" where
  "append_at buf k xs = take k buf @ xs @ drop (k + length xs) buf"

lemma append_at_Nil [simp]: "append_at buf k [] = buf"
  by (simp add: append_at_def)

lemma append_at_Cons: "k < length buf \<Longrightarrow> append_at (buf[k := x]) (Suc k) xs = append_at buf k (x # xs)"
  by (simp add: append_at_def drop_update_cancel take_Suc_conv_app_nth)


end
