(* ===== verification/Usb_Tree.thy ===== *)
theory Usb_Tree
  imports Usb_Desc
begin

text \<open>
  What the walk over the descriptors of a device stores. A device sends its configurations one after the other, each
  followed by its interfaces, each of these by its endpoints; descriptors of other types may follow any of them. The
  arrays filled by \<^verbatim>\<open>usbc_parse_descriptors\<close> represent this tree: \<open>stores s t\<close> says that the state \<open>s\<close> of the walk
  holds the tree \<open>t\<close>, with the interfaces of all configurations in one array, and the endpoints in another.
\<close>

section \<open>Trees of descriptors\<close>

type_synonym iface_tree = "u8 list \<times> u8 list list"
type_synonym config_tree = "u8 list \<times> iface_tree list"

definition flat_ifaces :: "config_tree list \<Rightarrow> iface_tree list" where
  "flat_ifaces t = concat (map snd t)"

definition flat_eps :: "iface_tree list \<Rightarrow> u8 list list" where
  "flat_eps fs = concat (map snd fs)"

section \<open>The walk as a fold\<close>

text \<open>What one step stores, given the data from the descriptor on.\<close>

definition parse_one :: "u8 list \<Rightarrow> parse_state \<Rightarrow> parse_state option" where
  "parse_one w s =
     (if w ! 1 = USB_DESC_CONFIG then Some (parse_config (take 9 w) s)
      else if w ! 1 = USB_DESC_IFACE then parse_iface (take 9 w) s
      else if w ! 1 = USB_DESC_EP then parse_ep (take 12 w) s
      else Some s)"

fun parse_list :: "u8 list \<Rightarrow> u8 list list \<Rightarrow> parse_state \<Rightarrow> parse_state option" where
  "parse_list w [] s = Some s"
| "parse_list w (d # ds) s =
     (case parse_one w s of None \<Rightarrow> None | Some s' \<Rightarrow> parse_list (drop (length d) w) ds s')"

definition well_formed_desc :: "u8 list \<Rightarrow> bool" where
  "well_formed_desc d \<longleftrightarrow> 2 \<le> length d \<and> length d = unat (d ! 0)
     \<and> (d ! 1 = USB_DESC_CONFIG \<or> d ! 1 = USB_DESC_IFACE \<longrightarrow> length d = 9) \<and> (d ! 1 = USB_DESC_EP \<longrightarrow> length d = 7)"

lemma parse_list_append:
  "parse_list w (ds @ es) s =
     (case parse_list w ds s of None \<Rightarrow> None | Some s' \<Rightarrow> parse_list (drop (length (concat ds)) w) es s')"
  by (induction ds arbitrary: w s) (simp_all add: drop_drop add.commute split: option.splits)

lemma drop_nth: "i + j < length xs \<Longrightarrow> drop i xs ! j = xs ! (i + j)"
  by simp

lemma pos_step:
  assumes "unat (pos::u32) + length d < 2 ^ 32" "length d = unat (z::u8)"
  shows "unat (pos + ucast z) = unat pos + length d"
  using assms by (simp add: unat_word_ariths unat_u8_u32)

lemma parse_step_run:
  fixes pos :: u32
  assumes w: "drop (unat pos) data = d @ w" and wf: "well_formed_desc d" and tail: "5 \<le> length w"
    and pos: "unat pos < unat size'" and small: "length data < 2 ^ 32"
  shows "parse_step data size' (pos, s) st = (case parse_one (d @ w) s of
      None \<Rightarrow> Inr (Inr None, st) | Some s' \<Rightarrow> Inr (Inl (pos + ucast (d ! 0), s'), st))"
proof -
  have len: "length data = unat pos + length d + length w"
    using arg_cong [OF w, of length] pos wf by (cases "unat pos \<le> length data") (auto simp: well_formed_desc_def)
  have d2: "2 \<le> length d" using wf by (simp add: well_formed_desc_def)
  have up: "unat (pos + 1) = unat pos + 1" using len d2 small by (simp add: unat_word_ariths)
  have at: "data ! (unat pos + j) = (d @ w) ! j" if "j < length d + length w" for j
    using arg_cong [OF w, of "\<lambda>x. x ! j"] len that by simp
  have slice: "read_slice data pos n = Inr (take n (d @ w))" if "n \<le> length d + length w" for n
    using that len w by (simp add: read_slice_def)
  have "array_get data (unat (pos + 1)) = Inr (d ! 1)" "array_get data (unat pos) = Inr (d ! 0)"
    "(d @ w) ! 1 = d ! 1"
    using at [of 1] at [of 0] len d2 up by (auto simp: array_get_def nth_append)
  then show ?thesis
    using pos wf tail d2 by (auto simp: parse_step_def parse_one_def io_simps word_less_nat_alt slice
      well_formed_desc_def desc_types split: option.split)
qed

lemma parse_walk_list:
  assumes "drop (unat pos) data = concat ds @ w" "\<forall>d\<in>set ds. well_formed_desc d" "5 \<le> length w"
    "length data < 2 ^ 32" "unat size' = unat pos + length (concat ds)"
  shows "repeat_io (parse_step data size') (pos, s) st = Inr (parse_list (concat ds @ w) ds s, st)"
  using assms
proof (induction ds arbitrary: pos s)
  case Nil
  then show ?case by (intro repeat_io_leave) (simp add: parse_step_def io_simps word_less_nat_alt)
next
  case (Cons d ds)
  have wf: "well_formed_desc d" using Cons.prems(2) by simp
  then have dl: "length d = unat (d ! 0)" "2 \<le> length d" by (simp_all add: well_formed_desc_def)
  have len: "length data = unat pos + length d + length (concat ds) + length w"
    using arg_cong [OF Cons.prems(1), of length] dl by (cases "unat pos \<le> length data") auto
  have pos': "unat (pos + ucast (d ! 0)) = unat pos + length d"
    using pos_step [of pos d "d ! 0"] len Cons.prems(4) dl by simp
  have step: "parse_step data size' (pos, s) st = (case parse_one (d @ concat ds @ w) s of
      None \<Rightarrow> Inr (Inr None, st) | Some s' \<Rightarrow> Inr (Inl (pos + ucast (d ! 0), s'), st))"
    using Cons.prems dl by (intro parse_step_run) (auto simp: wf)
  have rest: "drop (unat pos + length d) data = concat ds @ w"
    using Cons.prems(1) dl by (metis append.assoc append_eq_conv_conj concat.simps(2) drop_drop add.commute)
  show ?case
  proof (cases "parse_one (d @ concat ds @ w) s")
    case None
    then show ?thesis using step by (simp add: repeat_io_leave)
  next
    case (Some s')
    then have "repeat_io (parse_step data size') (pos, s) st
        = repeat_io (parse_step data size') (pos + ucast (d ! 0), s') st"
      using step by (intro repeat_io_again) simp
    also have "\<dots> = Inr (parse_list (concat ds @ w) ds s', st)"
      using Cons.prems rest pos' by (intro Cons.IH) simp_all
    finally show ?thesis using Some by simp
  qed
qed

section \<open>The state represents the tree\<close>

definition last_index :: "'a list \<Rightarrow> nat option" where
  "last_index xs = (if xs = [] then None else Some (length xs - 1))"

text \<open>An entry of an array, and where its children start in the next array.\<close>

definition config_entry :: "usb_config \<Rightarrow> nat \<Rightarrow> config_tree \<Rightarrow> bool" where
  "config_entry c k = (\<lambda>(d, fs). config_desc c = d \<and> num_ifaces c = of_nat (length fs)
     \<and> (fs \<noteq> [] \<longrightarrow> config_ifaces c = Some k))"

definition iface_entry :: "usb_iface \<Rightarrow> nat \<Rightarrow> iface_tree \<Rightarrow> bool" where
  "iface_entry f k = (\<lambda>(d, es). iface_desc f = d \<and> num_eps f = of_nat (length es) \<and> (es \<noteq> [] \<longrightarrow> iface_eps f = Some k))"

definition stores_configs :: "(nat \<Rightarrow> usb_config) \<Rightarrow> config_tree list \<Rightarrow> bool" where
  "stores_configs m t \<longleftrightarrow> (\<forall>i < length t. config_entry (m i) (length (flat_ifaces (take i t))) (t ! i))"

definition stores_ifaces :: "(nat \<Rightarrow> usb_iface) \<Rightarrow> iface_tree list \<Rightarrow> bool" where
  "stores_ifaces m fs \<longleftrightarrow> (\<forall>i < length fs. iface_entry (m i) (length (flat_eps (take i fs))) (fs ! i))"

definition stores_eps :: "(nat \<Rightarrow> usb_ep) \<Rightarrow> u8 list list \<Rightarrow> bool" where
  "stores_eps m es \<longleftrightarrow> (\<forall>i < length es. ep_desc (m i) = es ! i)"

definition stores_tree :: "desc_mem \<Rightarrow> config_tree list \<Rightarrow> bool" where
  "stores_tree m t \<longleftrightarrow> stores_configs (dm_config m) t \<and> stores_ifaces (dm_iface m) (flat_ifaces t)
     \<and> stores_eps (dm_ep m) (flat_eps (flat_ifaces t))"

definition walked :: "u32 \<Rightarrow> parse_state \<Rightarrow> config_tree list \<Rightarrow> bool" where
  "walked n0 s t \<longleftrightarrow>
     config_index s = length t \<and> iface_index s = length (flat_ifaces t) \<and> ep_index s = length (flat_eps (flat_ifaces t))
     \<and> last_cfg s = last_index t \<and> last_iface s = last_index (flat_ifaces t) \<and> ps_num_configs s = n0 + of_nat (length t)
     \<and> stores_tree (ps_mem s) t"

lemma flat_simps [simp]:
  "flat_ifaces [] = []" "flat_ifaces (t @ t') = flat_ifaces t @ flat_ifaces t'" "flat_ifaces [(d, fs)] = fs"
  "flat_eps [] = []" "flat_eps (fs @ fs') = flat_eps fs @ flat_eps fs'" "flat_eps [(d, es)] = es"
  by (simp_all add: flat_ifaces_def flat_eps_def)

lemma last_index_simps [simp]: "last_index [] = None"
  "last_index (xs @ ys) = (if ys = [] then last_index xs else Some (length xs + length ys - 1))"
  by (simp_all add: last_index_def)

lemma of_nat_zero_u32: "n < 2 ^ 32 \<Longrightarrow> (of_nat n :: u32) = 0 \<longleftrightarrow> n = 0"
  by (auto simp: word_of_nat_eq_0_iff dest: dvd_imp_le)

lemma all_less_Suc: "(\<forall>i < Suc n. P i) \<longleftrightarrow> (\<forall>i < n. P i) \<and> P n"
  by (auto simp: less_Suc_eq)

lemma stores_snoc:
  "stores_configs m (t @ [c]) \<longleftrightarrow> stores_configs m t \<and> config_entry (m (length t)) (length (flat_ifaces t)) c"
  "stores_ifaces m' (fs @ [f]) \<longleftrightarrow> stores_ifaces m' fs \<and> iface_entry (m' (length fs)) (length (flat_eps fs)) f"
  "stores_eps m'' (es @ [e]) \<longleftrightarrow> stores_eps m'' es \<and> ep_desc (m'' (length es)) = e"
  by (auto simp: stores_configs_def stores_ifaces_def stores_eps_def all_less_Suc nth_append)

lemma stores_beyond [simp]:
  "length t \<le> i \<Longrightarrow> stores_configs (m(i := c)) t = stores_configs m t"
  "length fs \<le> i \<Longrightarrow> stores_ifaces (m'(i := f)) fs = stores_ifaces m' fs"
  "length es \<le> i \<Longrightarrow> stores_eps (m''(i := e)) es = stores_eps m'' es"
  by (auto simp: stores_configs_def stores_ifaces_def stores_eps_def)

lemmas parse_defs = walked_def stores_tree_def Let_def upd_config_def upd_iface_def upd_ep_def config_entry_def
  iface_entry_def of_nat_zero_u32

lemma walked_config:
  assumes "walked n0 s t"
  shows "walked n0 (parse_config d s) (t @ [(d, [])])"
  using assms by (simp add: parse_config_def parse_defs stores_snoc)

lemma walked_iface:
  assumes "walked n0 s (t @ [(c, fs)])" "length fs < 2 ^ 32"
  shows "\<exists>s'. parse_iface d s = Some s' \<and> walked n0 s' (t @ [(c, fs @ [(d, [])])])"
  using assms by (auto simp add: parse_iface_def parse_defs stores_snoc simp flip: append_assoc)

lemma walked_ep:
  assumes "walked n0 s (t @ [(c, fs @ [(i, es)])])" "length es < 2 ^ 32"
  shows "\<exists>s'. parse_ep d s = Some s' \<and> walked n0 s' (t @ [(c, fs @ [(i, es @ [take 7 d])])])"
  using assms by (auto simp add: parse_ep_def parse_defs stores_snoc simp flip: append_assoc)

section \<open>What a device sends\<close>

text \<open>A descriptor, the descriptors of other types that follow it, and what belongs to it.\<close>

type_synonym sent_ep = "u8 list \<times> u8 list list"
type_synonym sent_iface = "u8 list \<times> u8 list list \<times> sent_ep list"
type_synonym sent_config = "u8 list \<times> u8 list list \<times> sent_iface list"

definition sent_ep_list :: "sent_ep \<Rightarrow> u8 list list" where
  "sent_ep_list = (\<lambda>(d, xs). d # xs)"

definition sent_iface_list :: "sent_iface \<Rightarrow> u8 list list" where
  "sent_iface_list = (\<lambda>(d, xs, es). d # xs @ concat (map sent_ep_list es))"

definition sent_config_list :: "sent_config \<Rightarrow> u8 list list" where
  "sent_config_list = (\<lambda>(d, xs, fs). d # xs @ concat (map sent_iface_list fs))"

definition iface_tree_of :: "sent_iface \<Rightarrow> iface_tree" where
  "iface_tree_of = (\<lambda>(d, xs, es). (d, map fst es))"

definition config_tree_of :: "sent_config \<Rightarrow> config_tree" where
  "config_tree_of = (\<lambda>(d, xs, fs). (d, map iface_tree_of fs))"

definition of_type :: "u8 \<Rightarrow> u8 list \<Rightarrow> bool" where
  "of_type ty d \<longleftrightarrow> well_formed_desc d \<and> d ! 1 = ty"

definition other_desc :: "u8 list \<Rightarrow> bool" where
  "other_desc d \<longleftrightarrow> well_formed_desc d \<and> d ! 1 \<notin> {USB_DESC_CONFIG, USB_DESC_IFACE, USB_DESC_EP}"

definition good_ep :: "sent_ep \<Rightarrow> bool" where
  "good_ep = (\<lambda>(d, xs). of_type USB_DESC_EP d \<and> list_all other_desc xs)"

definition good_iface :: "sent_iface \<Rightarrow> bool" where
  "good_iface = (\<lambda>(d, xs, es). of_type USB_DESC_IFACE d \<and> list_all other_desc xs \<and> list_all good_ep es)"

definition good_config :: "sent_config \<Rightarrow> bool" where
  "good_config = (\<lambda>(d, xs, fs). of_type USB_DESC_CONFIG d \<and> list_all other_desc xs \<and> list_all good_iface fs)"

lemmas sent_defs = sent_ep_list_def sent_iface_list_def sent_config_list_def good_ep_def good_iface_def good_config_def

lemma parse_others: "list_all other_desc xs \<Longrightarrow> parse_list (concat xs @ w) xs s = Some s"
  by (induction xs) (auto simp: parse_one_def other_desc_def well_formed_desc_def nth_append)

lemma parse_typed:
  assumes "of_type ty d"
  shows "ty = USB_DESC_CONFIG \<Longrightarrow> parse_one (d @ w) s = Some (parse_config d s)"
    and "ty = USB_DESC_IFACE \<Longrightarrow> parse_one (d @ w) s = parse_iface d s"
    and "ty = USB_DESC_EP \<Longrightarrow> parse_one (d @ w) s = parse_ep (d @ take 5 w) s"
  using assms by (auto simp: parse_one_def of_type_def well_formed_desc_def nth_append desc_types)

text \<open>The rest of the data after a descriptor and those that follow it.\<close>

lemma parse_group:
  assumes "list_all other_desc xs"
  shows "parse_list (d @ concat xs @ w) (d # xs @ es) s
    = (case parse_one (d @ concat xs @ w) s of None \<Rightarrow> None | Some s' \<Rightarrow> parse_list w es s')"
  using parse_others [OF assms] by (simp add: parse_list_append split: option.split)

lemma parse_eps:
  assumes "list_all good_ep es" "walked n0 s (t @ [(c, fs @ [(i, ds)])])" "length ds + length es < 2 ^ 32"
  shows "\<exists>s'. parse_list (concat (concat (map sent_ep_list es)) @ w) (concat (map sent_ep_list es)) s = Some s'
    \<and> walked n0 s' (t @ [(c, fs @ [(i, ds @ map fst es)])])"
  using assms
proof (induction es arbitrary: s ds)
  case (Cons e es)
  obtain d xs where e: "e = (d, xs)" by (cases e)
  then have d: "of_type USB_DESC_EP d" "list_all other_desc xs" using Cons.prems by (auto simp: good_ep_def)
  let ?w = "concat (concat (map sent_ep_list es)) @ w"
  obtain s1 where s1: "parse_ep (d @ take 5 (concat xs @ ?w)) s = Some s1" "walked n0 s1 (t @ [(c, fs @ [(i, ds @ [d])])])"
    using walked_ep [OF Cons.prems(2), of "d @ take 5 (concat xs @ ?w)"] Cons.prems d
    by (auto simp: of_type_def well_formed_desc_def desc_types)
  then show ?case
    using Cons.IH [OF _ s1(2)] Cons.prems parse_group [OF d(2), of d ?w "concat (map sent_ep_list es)" s]
    by (auto simp: e sent_ep_list_def parse_typed [OF d(1)])
qed auto

lemma parse_ifaces:
  assumes "list_all good_iface fs" "walked n0 s (t @ [(c, gs)])" "length gs + length fs < 2 ^ 32"
    "\<forall>(d, xs, es)\<in>set fs. length es < 2 ^ 32"
  shows "\<exists>s'. parse_list (concat (concat (map sent_iface_list fs)) @ w) (concat (map sent_iface_list fs)) s = Some s'
    \<and> walked n0 s' (t @ [(c, gs @ map iface_tree_of fs)])"
  using assms
proof (induction fs arbitrary: s gs)
  case (Cons f fs)
  obtain d xs es where f: "f = (d, xs, es)" by (cases f)
  then have d: "of_type USB_DESC_IFACE d" "list_all other_desc xs" "list_all good_ep es"
    using Cons.prems by (auto simp: good_iface_def)
  let ?w = "concat (concat (map sent_iface_list fs)) @ w"
  obtain s1 where s1: "parse_iface d s = Some s1" "walked n0 s1 (t @ [(c, gs @ [(d, [])])])"
    using walked_iface [OF Cons.prems(2), of d] Cons.prems by auto
  obtain s2 where s2: "parse_list (concat (concat (map sent_ep_list es)) @ ?w) (concat (map sent_ep_list es)) s1 = Some s2"
    "walked n0 s2 (t @ [(c, gs @ [iface_tree_of f])])"
    using parse_eps [OF d(3) s1(2), of ?w] Cons.prems by (auto simp: f iface_tree_of_def)
  show ?case
    using Cons.IH [OF _ s2(2)] Cons.prems s2(1)
      parse_group [OF d(2), of d "concat (concat (map sent_ep_list es)) @ ?w" "concat (map sent_ep_list es) @ concat (map sent_iface_list fs)" s]
    by (auto simp: f sent_iface_list_def parse_typed [OF d(1)] s1(1) parse_list_append)
qed auto

lemma parse_configs:
  assumes "list_all good_config cs" "walked n0 s t"
    "\<forall>(d, xs, fs)\<in>set cs. length fs < 2 ^ 32 \<and> (\<forall>(d, xs, es)\<in>set fs. length es < 2 ^ 32)"
  shows "\<exists>s'. parse_list (concat (concat (map sent_config_list cs)) @ w) (concat (map sent_config_list cs)) s = Some s'
    \<and> walked n0 s' (t @ map config_tree_of cs)"
  using assms
proof (induction cs arbitrary: s t)
  case (Cons f fs)
  obtain d xs es where f: "f = (d, xs, es)" by (cases f)
  then have d: "of_type USB_DESC_CONFIG d" "list_all other_desc xs" "list_all good_iface es"
    using Cons.prems by (auto simp: good_config_def)
  let ?w = "concat (concat (map sent_config_list fs)) @ w"
  have s1: "walked n0 (parse_config d s) (t @ [(d, [])])"
    by (rule walked_config [OF Cons.prems(2)])
  obtain s2 where s2: "parse_list (concat (concat (map sent_iface_list es)) @ ?w) (concat (map sent_iface_list es)) (parse_config d s) = Some s2"
    "walked n0 s2 (t @ [config_tree_of f])"
    using parse_ifaces [OF d(3) s1, of ?w] Cons.prems by (auto simp: f config_tree_of_def)
  show ?case
    using Cons.IH [OF _ s2(2)] Cons.prems s2(1)
      parse_group [OF d(2), of d "concat (concat (map sent_iface_list es)) @ ?w" "concat (map sent_iface_list es) @ concat (map sent_config_list fs)" s]
    by (auto simp: f sent_config_list_def parse_typed [OF d(1)] parse_list_append)
qed auto

section \<open>The verification counts the tree\<close>

definition tally :: "u8 list \<Rightarrow> counts \<Rightarrow> counts" where
  "tally d = (\<lambda>(c, i, e).
     if d ! 1 = USB_DESC_CONFIG then (c + 1, i, e) else if d ! 1 = USB_DESC_IFACE then (c, i + 1, e)
     else if d ! 1 = USB_DESC_EP then (c, i, e + 1) else (c, i, e))"

lemma verify_step_run:
  fixes pos :: u32
  assumes w: "drop (unat pos) data = d @ w" and wf: "well_formed_desc d"
    and pos: "unat pos < unat size'" and small: "length data < 2 ^ 32"
  shows "verify_step data size' (pos, n) st = Inr (Inl (pos + ucast (d ! 0), tally d n), st)"
proof -
  have len: "length data = unat pos + length d + length w"
    using arg_cong [OF w, of length] wf by (cases "unat pos \<le> length data") (auto simp: well_formed_desc_def)
  have d2: "2 \<le> length d" using wf by (simp add: well_formed_desc_def)
  have up: "unat (pos + 1) = unat pos + 1" using len d2 small by (simp add: unat_word_ariths)
  have at: "data ! (unat pos + j) = (d @ w) ! j" if "j < length d + length w" for j
    using arg_cong [OF w, of "\<lambda>x. x ! j"] len that by simp
  have "array_get data (unat (pos + 1)) = Inr (d ! 1)" "array_get data (unat pos) = Inr (d ! 0)"
    using at [of 1] at [of 0] len d2 up by (auto simp: array_get_def nth_append)
  moreover have "d ! 0 = 9 \<longleftrightarrow> length d = 9" "d ! 0 = 7 \<longleftrightarrow> length d = 7"
    using wf by (simp_all add: well_formed_desc_def word_unat_eq_iff)
  moreover have "d ! 1 = USB_DESC_CONFIG \<or> d ! 1 = USB_DESC_IFACE \<longrightarrow> length d = 9" "d ! 1 = USB_DESC_EP \<longrightarrow> length d = 7"
    using wf unfolding well_formed_desc_def by blast+
  moreover have "pos < size'" using pos by (simp add: word_less_nat_alt)
  ultimately show ?thesis by (cases n) (auto simp: verify_step_def desc_head_def io_simps tally_def)
qed

text \<open>The walk passes over well-formed descriptors.\<close>

lemma verify_walk:
  assumes "drop (unat pos) data = concat ds @ w" "\<forall>d\<in>set ds. well_formed_desc d"
    "length data < 2 ^ 32" "unat pos + length (concat ds) \<le> unat size'"
  shows "repeat_io (verify_step data size') (pos, n) st
    = repeat_io (verify_step data size') (pos + of_nat (length (concat ds)), fold tally ds n) st"
  using assms
proof (induction ds arbitrary: pos n)
  case (Cons d ds)
  have wf: "well_formed_desc d" using Cons.prems(2) by simp
  then have dl: "length d = unat (d ! 0)" "2 \<le> length d" by (simp_all add: well_formed_desc_def)
  have len: "length data = unat pos + length d + length (concat ds) + length w"
    using arg_cong [OF Cons.prems(1), of length] dl by (cases "unat pos \<le> length data") auto
  have pos': "unat (pos + ucast (d ! 0)) = unat pos + length d"
    using pos_step [of pos d "d ! 0"] len Cons.prems(3) dl by simp
  have step: "verify_step data size' (pos, n) st = Inr (Inl (pos + ucast (d ! 0), tally d n), st)"
    using Cons.prems dl by (intro verify_step_run) (auto simp: wf)
  have rest: "drop (unat pos + length d) data = concat ds @ w"
    using Cons.prems(1) dl by (metis append.assoc append_eq_conv_conj concat.simps(2) drop_drop add.commute)
  have "repeat_io (verify_step data size') (pos + ucast (d ! 0), tally d n) st
      = repeat_io (verify_step data size') (pos + ucast (d ! 0) + of_nat (length (concat ds)), fold tally ds (tally d n)) st"
    using Cons.prems rest pos' by (intro Cons.IH) simp_all
  moreover have "(ucast (d ! 0) :: u32) = of_nat (length d)" by (simp add: dl(1))
  ultimately show ?case using repeat_io_again [of "verify_step data size'", OF step] by (simp add: add.assoc)
qed simp

lemma verify_list:
  assumes "drop (unat pos) data = concat ds @ w" "\<forall>d\<in>set ds. well_formed_desc d"
    "length data < 2 ^ 32" "unat size' = unat pos + length (concat ds)"
  shows "repeat_io (verify_step data size') (pos, n) st = Inr (Some (fold tally ds n), st)"
proof -
  have "size' = pos + of_nat (length (concat ds))"
    using unsigned_less [of size', where ?'a = nat] assms(4)
    by (simp add: word_unat_eq_iff unat_word_ariths unat_of_nat mod_simps)
  then have "verify_step data size' (pos + of_nat (length (concat ds)), fold tally ds n) st
      = Inr (Inr (Some (fold tally ds n)), st)"
    by (cases "fold tally ds n") (simp add: verify_step_def io_simps)
  then show ?thesis using verify_walk [OF assms(1-3), of size' n st] assms(4) by (simp add: repeat_io_leave)
qed

lemma tally_others: "list_all other_desc xs \<Longrightarrow> fold tally xs n = n"
  by (induction xs) (auto simp: tally_def other_desc_def split: prod.split)

lemma tally_typed [simp]:
  "of_type USB_DESC_CONFIG d \<Longrightarrow> tally d (c, i, e) = (c + 1, i, e)"
  "of_type USB_DESC_IFACE d \<Longrightarrow> tally d (c, i, e) = (c, i + 1, e)"
  "of_type USB_DESC_EP d \<Longrightarrow> tally d (c, i, e) = (c, i, e + 1)"
  by (simp_all add: of_type_def tally_def desc_types)

lemma tally_eps: "list_all good_ep es \<Longrightarrow> fold tally (concat (map sent_ep_list es)) (c, i, e) = (c, i, e + of_nat (length es))"
  by (induction es arbitrary: e) (auto simp: sent_ep_list_def good_ep_def tally_others algebra_simps)

lemma tally_ifaces: "list_all good_iface fs \<Longrightarrow> fold tally (concat (map sent_iface_list fs)) (c, i, e)
    = (c, i + of_nat (length fs), e + of_nat (length (flat_eps (map iface_tree_of fs))))"
  by (induction fs arbitrary: i e)
    (auto simp: sent_iface_list_def good_iface_def tally_others tally_eps algebra_simps iface_tree_of_def flat_eps_def)

lemma tally_configs: "list_all good_config cs \<Longrightarrow> fold tally (concat (map sent_config_list cs)) (c, i, e)
    = (c + of_nat (length cs), i + of_nat (length (flat_ifaces (map config_tree_of cs))),
       e + of_nat (length (flat_eps (flat_ifaces (map config_tree_of cs)))))"
  by (induction cs arbitrary: c i e)
    (auto simp: sent_config_list_def good_config_def tally_others tally_ifaces algebra_simps config_tree_of_def
      flat_ifaces_def flat_eps_def)

section \<open>A whole device\<close>

definition sent_bytes :: "sent_config list \<Rightarrow> u8 list" where
  "sent_bytes cs = concat (concat (map sent_config_list cs))"

lemma sent_well_formed:
  "good_ep e \<Longrightarrow> d \<in> set (sent_ep_list e) \<Longrightarrow> well_formed_desc d"
  "good_iface f \<Longrightarrow> d \<in> set (sent_iface_list f) \<Longrightarrow> well_formed_desc d"
  "good_config c \<Longrightarrow> d \<in> set (sent_config_list c) \<Longrightarrow> well_formed_desc d"
proof -
  show *: "good_ep e \<Longrightarrow> d \<in> set (sent_ep_list e) \<Longrightarrow> well_formed_desc d" for e
    by (auto simp: good_ep_def sent_ep_list_def of_type_def other_desc_def list_all_iff)
  show **: "good_iface f \<Longrightarrow> d \<in> set (sent_iface_list f) \<Longrightarrow> well_formed_desc d" for f
    using * by (auto simp: good_iface_def sent_iface_list_def of_type_def other_desc_def list_all_iff)
  show "good_config c \<Longrightarrow> d \<in> set (sent_config_list c) \<Longrightarrow> well_formed_desc d"
    using ** by (auto simp: good_config_def sent_config_list_def of_type_def other_desc_def list_all_iff)
qed

lemma length_concat_le: "x \<in> set xs \<Longrightarrow> length x \<le> length (concat xs)"
  by (induction xs) auto

lemma length_le_concat: "(\<And>x. x \<in> set xs \<Longrightarrow> f x \<noteq> []) \<Longrightarrow> length xs \<le> length (concat (map f xs))"
proof (induction xs)
  case (Cons x xs)
  then show ?case by (cases "f x") auto
qed simp

lemma sent_not_empty [simp]: "sent_ep_list e \<noteq> []" "sent_iface_list f \<noteq> []" "sent_config_list c \<noteq> []"
  by (simp_all add: sent_defs split: prod.split)

lemma sent_bytes_bounds:
  assumes "list_all good_config cs" "length (sent_bytes cs) < 2 ^ 32"
  shows "length cs < 2 ^ 32 \<and> (\<forall>(d, xs, fs)\<in>set cs. length fs < 2 ^ 32 \<and> (\<forall>(d, xs, es)\<in>set fs. length es < 2 ^ 32))"
proof -
  let ?ds = "concat (map sent_config_list cs)"
  have "d \<noteq> []" if "d \<in> set ?ds" for d
    using that assms(1) sent_well_formed(3) [of _ d] by (force simp: well_formed_desc_def list_all_iff)
  then have "length ?ds \<le> length (sent_bytes cs)"
    using length_le_concat [of ?ds "\<lambda>d. d"] by (simp add: sent_bytes_def)
  then have small: "length ?ds < 2 ^ 32" using assms(2) by simp
  have c: "length cs \<le> length ?ds"
    by (rule length_le_concat) simp
  have i: "length (concat (map sent_iface_list fs)) < 2 ^ 32" if "(d, xs, fs) \<in> set cs" for d xs fs
  proof -
    have "length (concat (map sent_iface_list fs)) \<le> length (sent_config_list (d, xs, fs))"
      by (simp add: sent_config_list_def)
    also have "\<dots> \<le> length ?ds" using that by (intro length_concat_le) (auto intro: image_eqI)
    finally show ?thesis using small by simp
  qed
  have e: "length es < 2 ^ 32" if "(d, xs, fs) \<in> set cs" "(d', xs', es) \<in> set fs" for d xs fs d' xs' es
  proof -
    have "length es \<le> length (concat (map sent_ep_list es))"
      by (rule length_le_concat) simp
    also have "\<dots> \<le> length (sent_iface_list (d', xs', es))" by (simp add: sent_iface_list_def)
    also have "\<dots> \<le> length (concat (map sent_iface_list fs))"
      using that by (intro length_concat_le) (auto intro: image_eqI)
    finally show ?thesis using i that by fastforce
  qed
  have f: "length fs < 2 ^ 32" if "(d, xs, fs) \<in> set cs" for d xs fs
    using le_less_trans [OF length_le_concat i [OF that]] by simp
  show ?thesis using c e f small by (clarsimp split: prod.splits)
qed

section \<open>Strings\<close>

text \<open>The characters as the device sends them, each in two bytes.\<close>

definition unicode :: "u8 list \<Rightarrow> u8 list" where
  "unicode cs = concat (map (\<lambda>c. [c, 0]) cs)"

lemma unicode_nth: "k < length cs \<Longrightarrow> (unicode cs @ rest) ! (2 * k) = cs ! k"
proof (induction cs arbitrary: k)
  case (Cons c cs)
  then show ?case by (cases k) (auto simp: unicode_def)
qed simp

lemma length_unicode [simp]: "length (unicode cs) = 2 * length cs"
  by (induction cs) (simp_all add: unicode_def)

lemma uni_loop:
  assumes "length out = 64" "k \<le> min 63 (length cs)" "length cs < 2 ^ 31"
  shows "repeat_io (uni_step (unicode cs @ rest) (of_nat (2 * length cs)) 63) (of_nat (2 * k), of_nat k, out) s
    = Inr (append_at out k (drop k (take 63 cs) @ [0]), s)"
  using assms
proof (induction "min 63 (length cs) - k" arbitrary: k out)
  case 0
  then have k: "k = min 63 (length cs)" by simp
  have "unat (of_nat k :: u32) = k" "unat (of_nat (2 * k) :: u32) = 2 * k" "unat (of_nat (2 * length cs) :: u32) = 2 * length cs"
    using 0 by (simp_all only: unat_of_nat) (simp_all add: take_bit_nat_eq_self)
  then have "uni_step (unicode cs @ rest) (of_nat (2 * length cs)) 63 (of_nat (2 * k), of_nat k, out) s = Inr (Inr (out[k := 0]), s)"
    using 0 k by (simp add: uni_step_def io_simps word_less_nat_alt array_set_def min_def split: if_splits)
  moreover have "out[k := 0] = append_at out k [0]" using 0 append_at_Cons [of k out 0 "[]"] by simp
  ultimately show ?case using k by (simp add: repeat_io_leave)
next
  case (Suc m)
  then have k: "k < 63" "k < length cs" by simp_all
  have u: "unat (of_nat k :: u32) = k" "unat (of_nat (2 * k) :: u32) = 2 * k" "unat (of_nat (2 * length cs) :: u32) = 2 * length cs"
    using Suc.prems k by (simp_all only: unat_of_nat) (simp_all add: take_bit_nat_eq_self)
  then have less: "(of_nat k :: u32) < 63" "(of_nat (2 * k) :: u32) < of_nat (2 * length cs)"
    using k by (simp_all only: word_less_nat_alt) simp_all
  have "uni_step (unicode cs @ rest) (of_nat (2 * length cs)) 63 (of_nat (2 * k), of_nat k, out) s
      = Inr (Inl (of_nat (2 * Suc k), of_nat (Suc k), out[k := cs ! k]), s)"
    using Suc.prems k u unicode_nth [OF k(2), of rest] less
    by (simp add: uni_step_def io_simps array_set_def array_get_def algebra_simps)
  then have "repeat_io (uni_step (unicode cs @ rest) (of_nat (2 * length cs)) 63) (of_nat (2 * k), of_nat k, out) s
      = repeat_io (uni_step (unicode cs @ rest) (of_nat (2 * length cs)) 63) (of_nat (2 * Suc k), of_nat (Suc k), out[k := cs ! k]) s"
    by (rule repeat_io_again)
  also have "\<dots> = Inr (append_at (out[k := cs ! k]) (Suc k) (drop (Suc k) (take 63 cs) @ [0]), s)"
    using Suc k by (intro Suc.hyps(1)) auto
  also have "append_at (out[k := cs ! k]) (Suc k) (drop (Suc k) (take 63 cs) @ [0]) = append_at out k (drop k (take 63 cs) @ [0])"
    using Suc.prems k append_at_Cons [of k out] Cons_nth_drop_Suc [of k "take 63 cs"] by (simp flip: append_Cons)
  finally show ?case .
qed

end
