(* ===== verification/Device_Registers.thy ===== *)
theory Device_Registers
  imports Registers
begin

text \<open>
  The register blocks of \<^verbatim>\<open>cpu/hardware.h\<close> for the USB controller, the Ethernet controller, the random number
  generator, the processor's cache and the DMA controller. A nested structure is a field of its size in words.
\<close>

definition usb_device_dma :: layout where
  "usb_device_dma = [
    (''DEVDMANXTDSC'', 1), (''DEVDMAADDRESS'', 1), (''DEVDMACONTROL'', 1), (''DEVDMASTATUS'', 1)]"

definition usb_host_dma :: layout where
  "usb_host_dma = [
    (''HSTDMANXTDSC'', 1), (''HSTDMAADDRESS'', 1), (''HSTDMACONTROL'', 1), (''HSTDMASTATUS'', 1)]"

definition usb_reg :: layout where
  "usb_reg = [
    (''DEVCTRL'', 1), (''DEVISR'', 1), (''DEVICR'', 1), (''DEVIFR'', 1), (''DEVIMR'', 1),
    (''DEVIDR'', 1), (''DEVIER'', 1), (''DEVEPT'', 1), (''DEVFNUM'', 1), (''RESERVED1'', 55),
    (''DEVEPTCFG'', 10), (''RESERVED2'', 2), (''DEVEPTISR'', 10), (''RESERVED3'', 2),
    (''DEVEPTICR'', 10), (''RESERVED4'', 2), (''DEVEPTIFR'', 10), (''RESERVED5'', 2),
    (''DEVEPTIMR'', 10), (''RESERVED6'', 2), (''DEVEPTIER'', 10), (''RESERVED7'', 2),
    (''DEVEPTIDR'', 10), (''RESERVED8'', 50), (''device_dma'', 28), (''RESERVED9'', 32),
    (''HSTCTRL'', 1), (''HSTISR'', 1), (''HSTICR'', 1), (''HSTIFR'', 1), (''HSTIMR'', 1),
    (''HSTIDR'', 1), (''HSTIER'', 1), (''HSTPIP'', 1), (''HSTFNUM'', 1), (''HSTADDR1'', 1),
    (''HSTADDR2'', 1), (''HSTADDR3'', 1), (''RESERVED10'', 52), (''HSTPIPCFG'', 10),
    (''RESERVED11'', 2), (''HSTPIPISR'', 10), (''RESERVED12'', 2), (''HSTPIPICR'', 10),
    (''RESERVED13'', 2), (''HSTPIPIFR'', 10), (''RESERVED14'', 2), (''HSTPIPIMR'', 10),
    (''RESERVED15'', 2), (''HSTPIPIER'', 10), (''RESERVED16'', 2), (''HSTPIPIDR'', 10),
    (''RESERVED17'', 2), (''HSTPIPINRQ'', 10), (''RESERVED18'', 2), (''HSTPIPERR'', 10),
    (''RESERVED19'', 26), (''host_dma'', 28), (''RESERVED20'', 32), (''CTRL'', 1), (''SR'', 1),
    (''SCR'', 1), (''SFR'', 1)]"

definition gmac_sa :: layout where
  "gmac_sa = [
    (''SAB'', 1), (''SAT'', 1)]"

definition gmac_st2cw :: layout where
  "gmac_st2cw = [
    (''ST2CW0'', 1), (''ST2CW1'', 1)]"

definition gmac_reg :: layout where
  "gmac_reg = [
    (''NCR'', 1), (''NCFGR'', 1), (''NSR'', 1), (''UR'', 1), (''DCFGR'', 1), (''TSR'', 1),
    (''RBQB'', 1), (''TBQB'', 1), (''RSR'', 1), (''ISR'', 1), (''IER'', 1), (''IDR'', 1),
    (''IMR'', 1), (''MAN'', 1), (''RPQ'', 1), (''TPQ'', 1), (''TPSF'', 1), (''RPSF'', 1),
    (''RJFML'', 1), (''RESERVED1'', 13), (''HBR'', 1), (''HRT'', 1), (''SA'', 8), (''TIDM1'', 1),
    (''TIDM2'', 1), (''TIDM3'', 1), (''TIDM4'', 1), (''WOL'', 1), (''IPGS'', 1), (''SVLAN'', 1),
    (''TPFCP'', 1), (''SAMB1'', 1), (''SAMT1'', 1), (''RESERVED2'', 3), (''NCS'', 1), (''SCL'', 1),
    (''SCH'', 1), (''EFTSH'', 1), (''EFRSH'', 1), (''PEFTSH'', 1), (''PEFRSH'', 1),
    (''RESERVED3'', 2), (''OTLO'', 1), (''OTHI'', 1), (''FT'', 1), (''BCFT'', 1), (''MFT'', 1),
    (''PFT'', 1), (''BFT64'', 1), (''TBFT127'', 1), (''TBFT255'', 1), (''TBFT511'', 1),
    (''TBFT1023'', 1), (''TBFT1518'', 1), (''GTBFT1518'', 1), (''TUR'', 1), (''SCF'', 1),
    (''MCF'', 1), (''EC'', 1), (''LC'', 1), (''DTF'', 1), (''CSE'', 1), (''ORLO'', 1),
    (''ORHI'', 1), (''FR'', 1), (''BCFR'', 1), (''MFR'', 1), (''PFR'', 1), (''BFR64'', 1),
    (''TBFR127'', 1), (''TBFR255'', 1), (''TBFR511'', 1), (''TBFR1023'', 1), (''TBFR1518'', 1),
    (''TMXBFR'', 1), (''UFR'', 1), (''OFR'', 1), (''JR'', 1), (''FCSE'', 1), (''LFFE'', 1),
    (''RSE'', 1), (''AE'', 1), (''RRE'', 1), (''ROE'', 1), (''IHCE'', 1), (''TCE'', 1),
    (''UCE'', 1), (''RESERVED4'', 2), (''TISUBN'', 1), (''TSH'', 1), (''RESERVED5'', 3),
    (''TSL'', 1), (''TN'', 1), (''TA'', 1), (''TI'', 1), (''EFTSL'', 1), (''EFTN'', 1),
    (''EFRSL'', 1), (''EFRN'', 1), (''PEFTSL'', 1), (''PEFTN'', 1), (''PEFRSL'', 1),
    (''PEFRN'', 1), (''RESERVED6'', 28), (''RXLPI'', 1), (''RXLPITIME'', 1), (''TXLPI'', 1),
    (''TXLPITIME'', 1), (''RESERVED7'', 96), (''ISRPQ'', 5), (''RESERVED8'', 11), (''TBQBAPQ'', 5),
    (''RESERVED9'', 11), (''RBQBAPQ'', 5), (''RESERVED10'', 3), (''RBSRPQ'', 5),
    (''RESERVED11'', 2), (''CBSCR'', 1), (''CBSISQA'', 1), (''CBSISQB'', 1), (''RESERVED12'', 14),
    (''ST1RPQ'', 4), (''RESERVED13'', 12), (''ST2RPQ'', 8), (''RESERVED14'', 40), (''IERPQ'', 5),
    (''RESERVED15'', 3), (''IDRPQ'', 5), (''RESERVED16'', 3), (''IMRPQ'', 5), (''RESERVED17'', 35),
    (''ST2ER'', 4), (''RESERVED18'', 4), (''ST2CW'', 48)]"

definition trand_reg :: layout where
  "trand_reg = [
    (''CR'', 1), (''RESERVED1'', 3), (''IER'', 1), (''IDR'', 1), (''IMR'', 1), (''ISR'', 1),
    (''RESERVED2'', 12), (''ODATA'', 1)]"

definition cache_reg :: layout where
  "cache_reg = [
    (''ICIALLU'', 1), (''RESERVED'', 1), (''ICIMVAU'', 1), (''DCIMVAU'', 1), (''DCISW'', 1),
    (''DCCMVAU'', 1), (''DCCMVAC'', 1), (''DCCSW'', 1), (''DCCIMVAC'', 1), (''DCCISW'', 1),
    (''DONT_USE'', 1)]"

definition dma_channel_reg :: layout where
  "dma_channel_reg = [
    (''CIE'', 1), (''CID'', 1), (''CIM'', 1), (''CIS'', 1), (''CSA'', 1), (''CDA'', 1),
    (''CNDA'', 1), (''CNDC'', 1), (''CUBC'', 1), (''CBC'', 1), (''CC'', 1), (''CDS_MSP'', 1),
    (''CSUS'', 1), (''CDUS'', 1), (''RESERVED'', 2)]"

definition dma_reg :: layout where
  "dma_reg = [
    (''GTYPE'', 1), (''GCFG'', 1), (''GWAC'', 1), (''GIE'', 1), (''GID'', 1), (''GIM'', 1),
    (''GIS'', 1), (''GE'', 1), (''GD'', 1), (''GS'', 1), (''GRS'', 1), (''GWS'', 1), (''GRWS'', 1),
    (''GRWR'', 1), (''GSWR'', 1), (''GSWS'', 1), (''GSWF'', 1), (''RESERVED'', 3),
    (''channel'', 384)]"

section \<open>Base addresses\<close>

definition USBHC :: "string \<Rightarrow> u32" where
  "USBHC = reg_at 0x40038000 usb_reg"

definition GMAC :: "string \<Rightarrow> u32" where
  "GMAC = reg_at 0x40050000 gmac_reg"

definition TRAND :: "string \<Rightarrow> u32" where
  "TRAND = reg_at 0x40070000 trand_reg"

definition CACHE :: "string \<Rightarrow> u32" where
  "CACHE = reg_at 0xE000EF50 cache_reg"

text \<open>The array \<^verbatim>\<open>SA\<close> of the Ethernet controller and the DMA channels are structures of the same fields.\<close>

definition struct_elem :: "u32 \<Rightarrow> layout \<Rightarrow> nat \<Rightarrow> string \<Rightarrow> u32" where
  "struct_elem r lay i f = reg_at (r + of_nat (i * block_bytes lay)) lay f"

lemmas device_register_defs = USBHC_def GMAC_def TRAND_def CACHE_def

lemma usb_blocks: "block_bytes usb_reg = 0x810" "USBHC ''HSTCTRL'' = 0x40038400" "USBHC ''HSTPIPCFG'' = 0x40038500"
  "USBHC ''CTRL'' = 0x40038800"
  by (simp_all add: block_bytes_def usb_reg_def USBHC_def reg_at_def)

end
