(* ===== verification/Usb_Hw.thy ===== *)
theory Usb_Hw
  imports Device_Registers
begin

text \<open>
  The register layer of the USB host controller (\<^verbatim>\<open>drivers/usbhw.h\<close>): one operation per inline function. A
  compound access reads the register into a variable, changes it and writes it back.
\<close>

section \<open>Interrupt and status bits\<close>

definition USBHW_RXIN :: u32 where "USBHW_RXIN = push_bit 0 1"
definition USBHW_TXOUT :: u32 where "USBHW_TXOUT = push_bit 1 1"
definition USBHW_TXSETUP :: u32 where "USBHW_TXSETUP = push_bit 2 1"
definition USBHW_PERROR :: u32 where "USBHW_PERROR = push_bit 3 1"
definition USBHW_NAKED :: u32 where "USBHW_NAKED = push_bit 4 1"
definition USBHW_OVERFLOW :: u32 where "USBHW_OVERFLOW = push_bit 5 1"
definition USBHW_STALL :: u32 where "USBHW_STALL = push_bit 6 1"
definition USBHW_SHORTPKT :: u32 where "USBHW_SHORTPKT = push_bit 7 1"
definition USBHW_CONN :: u32 where "USBHW_CONN = push_bit 0 1"
definition USBHW_DCONN :: u32 where "USBHW_DCONN = push_bit 1 1"
definition USBHW_RST :: u32 where "USBHW_RST = push_bit 2 1"
definition USBHW_SOF :: u32 where "USBHW_SOF = push_bit 5 1"
definition USBHW_WAKEUP :: u32 where "USBHW_WAKEUP = push_bit 6 1"
definition USBHW_FIFO_CTRL :: u32 where "USBHW_FIFO_CTRL = push_bit 14 1"
definition USBHW_PFREEZE :: u32 where "USBHW_PFREEZE = push_bit 17 1"
definition USBHW_PIPE_OFFSET :: nat where "USBHW_PIPE_OFFSET = 8"

lemmas usbhw_bits = USBHW_RXIN_def USBHW_TXOUT_def USBHW_TXSETUP_def USBHW_PERROR_def USBHW_NAKED_def USBHW_OVERFLOW_def
  USBHW_STALL_def USBHW_SHORTPKT_def USBHW_CONN_def USBHW_DCONN_def USBHW_RST_def USBHW_SOF_def USBHW_WAKEUP_def
  USBHW_FIFO_CTRL_def USBHW_PFREEZE_def USBHW_PIPE_OFFSET_def

datatype usb_mode = USB_HOST | USB_DEVICE

datatype usb_host_speed = USB_HOST_SPEED_NORMAL | USB_HOST_SPEED_LS | USB_HOST_SPEED_HS | USB_HOST_SPEED_FS

fun host_speed_code :: "usb_host_speed \<Rightarrow> u32" where
  "host_speed_code USB_HOST_SPEED_NORMAL = 0"
| "host_speed_code USB_HOST_SPEED_LS = 1"
| "host_speed_code USB_HOST_SPEED_HS = 2"
| "host_speed_code USB_HOST_SPEED_FS = 3"

datatype pipe_token = PIPE_TOKEN_SETUP | PIPE_TOKEN_IN | PIPE_TOKEN_OUT

fun token_code :: "pipe_token \<Rightarrow> u32" where
  "token_code PIPE_TOKEN_SETUP = 0"
| "token_code PIPE_TOKEN_IN = 1"
| "token_code PIPE_TOKEN_OUT = 2"

datatype pipe_type = PIPE_TYPE_CTRL | PIPE_TYPE_ISO | PIPE_TYPE_BLK | PIPE_TYPE_INT

fun type_code :: "pipe_type \<Rightarrow> u32" where
  "type_code PIPE_TYPE_CTRL = 0"
| "type_code PIPE_TYPE_ISO = 1"
| "type_code PIPE_TYPE_BLK = 2"
| "type_code PIPE_TYPE_INT = 3"

section \<open>The controller\<close>

text \<open>Every change of the control register selects the mode by software and disconnects the VBUS hardware control.\<close>

definition ctrl_change :: "'h mmio \<Rightarrow> (u32 \<Rightarrow> u32) \<Rightarrow> ('h, unit) io" where
  "ctrl_change b f =
     io_bind (reg_get b (USBHC ''CTRL'')) (\<lambda>reg.
       reg_set b (USBHC ''CTRL'') (f ((reg AND NOT (push_bit 24 1)) OR push_bit 8 1)))"

definition usbhw_connection_error_enable :: "'h mmio \<Rightarrow> ('h, unit) io" where
  "usbhw_connection_error_enable b = ctrl_change b (\<lambda>r. r OR push_bit 4 1)"

definition usbhw_connection_error_disable :: "'h mmio \<Rightarrow> ('h, unit) io" where
  "usbhw_connection_error_disable b = ctrl_change b (\<lambda>r. r AND NOT (push_bit 4 1))"

definition usbhw_connection_error_check :: "'h mmio \<Rightarrow> ('h, u8) io" where
  "usbhw_connection_error_check b = io_bind (reg_get b (USBHC ''SR'')) (\<lambda>v. io_return (if v AND push_bit 4 1 \<noteq> 0 then 1 else 0))"

definition usbhw_get_device_speed :: "'h mmio \<Rightarrow> ('h, u32) io" where
  "usbhw_get_device_speed b = io_bind (reg_get b (USBHC ''SR'')) (\<lambda>v. io_return (drop_bit 12 v AND 3))"

definition usbhw_connection_error_clear :: "'h mmio \<Rightarrow> ('h, unit) io" where
  "usbhw_connection_error_clear b = reg_set b (USBHC ''SCR'') (push_bit 4 1)"

definition usbhw_connection_error_force :: "'h mmio \<Rightarrow> ('h, unit) io" where
  "usbhw_connection_error_force b = reg_set b (USBHC ''SFR'') (push_bit 4 1)"

definition usbhw_vbus_request_enable :: "'h mmio \<Rightarrow> ('h, unit) io" where
  "usbhw_vbus_request_enable b = reg_set b (USBHC ''SFR'') (push_bit 9 1)"

definition usbhw_freeze_clock :: "'h mmio \<Rightarrow> ('h, unit) io" where
  "usbhw_freeze_clock b = ctrl_change b (\<lambda>r. r OR push_bit 14 1)"

definition usbhw_unfreeze_clock :: "'h mmio \<Rightarrow> ('h, unit) io" where
  "usbhw_unfreeze_clock b = ctrl_change b (\<lambda>r. r AND NOT (push_bit 14 1))"

definition usbhw_enable :: "'h mmio \<Rightarrow> ('h, unit) io" where
  "usbhw_enable b = ctrl_change b (\<lambda>r. r OR push_bit 15 1)"

definition usbhw_disable :: "'h mmio \<Rightarrow> ('h, unit) io" where
  "usbhw_disable b = ctrl_change b (\<lambda>r. r AND NOT (push_bit 15 1))"

definition usbhw_set_mode :: "'h mmio \<Rightarrow> usb_mode \<Rightarrow> ('h, unit) io" where
  "usbhw_set_mode b mode =
     ctrl_change b (\<lambda>r. if mode = USB_HOST then r AND NOT (push_bit 25 1) else r OR push_bit 25 1)"

definition usbhw_clock_usable :: "'h mmio \<Rightarrow> ('h, u8) io" where
  "usbhw_clock_usable b = io_bind (reg_get b (USBHC ''SR'')) (\<lambda>v. io_return (if v AND push_bit 14 1 \<noteq> 0 then 1 else 0))"

section \<open>The bus\<close>

definition usbhw_send_resume :: "'h mmio \<Rightarrow> ('h, unit) io" where
  "usbhw_send_resume b =
     io_bind (reg_get b (USBHC ''HSTCTRL'')) (\<lambda>v.
     if v AND push_bit 8 1 = 0 then io_panic ''Attempted resume without SOF enabled''
     else reg_or b (USBHC ''HSTCTRL'') (push_bit 10 1))"

definition usbhw_send_reset :: "'h mmio \<Rightarrow> ('h, unit) io" where
  "usbhw_send_reset b = reg_or b (USBHC ''HSTCTRL'') (push_bit 9 1)"

definition usbhw_clear_reset :: "'h mmio \<Rightarrow> ('h, unit) io" where
  "usbhw_clear_reset b = reg_and b (USBHC ''HSTCTRL'') (NOT (push_bit 9 1))"

definition usbhw_sof_enable :: "'h mmio \<Rightarrow> ('h, unit) io" where
  "usbhw_sof_enable b = reg_or b (USBHC ''HSTCTRL'') (push_bit 8 1)"

definition usbhw_sof_disable :: "'h mmio \<Rightarrow> ('h, unit) io" where
  "usbhw_sof_disable b = reg_and b (USBHC ''HSTCTRL'') (NOT (push_bit 8 1))"

definition usbhw_set_host_speed :: "'h mmio \<Rightarrow> usb_host_speed \<Rightarrow> ('h, unit) io" where
  "usbhw_set_host_speed b speed =
     io_bind (reg_get b (USBHC ''HSTCTRL'')) (\<lambda>reg.
       reg_set b (USBHC ''HSTCTRL'') ((reg AND NOT (push_bit 12 3)) OR push_bit 12 (host_speed_code speed)))"

section \<open>Global interrupts\<close>

definition usbhw_global_get_status :: "'h mmio \<Rightarrow> ('h, u32) io" where
  "usbhw_global_get_status b = reg_get b (USBHC ''HSTISR'')"

definition usbhw_global_clear_status :: "'h mmio \<Rightarrow> u32 \<Rightarrow> ('h, unit) io" where
  "usbhw_global_clear_status b = reg_set b (USBHC ''HSTICR'')"

definition usbhw_global_force_status :: "'h mmio \<Rightarrow> u32 \<Rightarrow> ('h, unit) io" where
  "usbhw_global_force_status b = reg_set b (USBHC ''HSTIFR'')"

definition usbhw_global_get_interrupt_mask :: "'h mmio \<Rightarrow> ('h, u32) io" where
  "usbhw_global_get_interrupt_mask b = reg_get b (USBHC ''HSTIMR'')"

definition usbhw_global_disable_interrupt :: "'h mmio \<Rightarrow> u32 \<Rightarrow> ('h, unit) io" where
  "usbhw_global_disable_interrupt b = reg_set b (USBHC ''HSTIDR'')"

definition usbhw_global_enable_interrupt :: "'h mmio \<Rightarrow> u32 \<Rightarrow> ('h, unit) io" where
  "usbhw_global_enable_interrupt b = reg_set b (USBHC ''HSTIER'')"

definition usbhw_get_frame_number :: "'h mmio \<Rightarrow> ('h, u32) io" where
  "usbhw_get_frame_number b = io_bind (reg_get b (USBHC ''HSTFNUM'')) (\<lambda>v. io_return (drop_bit 3 v AND 0x7FF))"

definition usbhw_get_microframe_number :: "'h mmio \<Rightarrow> ('h, u8) io" where
  "usbhw_get_microframe_number b = io_bind (reg_get b (USBHC ''HSTFNUM'')) (\<lambda>v. io_return (ucast (v AND 7)))"

definition usbhw_clear_frame_number :: "'h mmio \<Rightarrow> ('h, unit) io" where
  "usbhw_clear_frame_number b = reg_and b (USBHC ''HSTFNUM'') (NOT (push_bit 3 0x7FF))"

section \<open>Pipes\<close>

text \<open>Most of the operations on a pipe refuse a number that is not one of the ten pipes.\<close>

definition on_pipe :: "u8 \<Rightarrow> ('h, 'a) io \<Rightarrow> ('h, 'a) io" where
  "on_pipe pipe m = (if 10 \<le> pipe then io_panic ''Pipe out of bound'' else m)"

definition pipe_reg :: "string \<Rightarrow> u8 \<Rightarrow> u32" where
  "pipe_reg f pipe = reg_elem (USBHC f) (unat pipe)"

definition usbhw_pipe_set_addr :: "'h mmio \<Rightarrow> u8 \<Rightarrow> u8 \<Rightarrow> ('h, unit) io" where
  "usbhw_pipe_set_addr b pipe addr =
     (let r = reg_elem (USBHC ''HSTADDR1'') (unat (drop_bit 2 pipe)); offset = unat (push_bit 3 (pipe AND 3))
      in io_bind (reg_get b r) (\<lambda>reg.
           reg_set b r ((reg AND NOT (push_bit offset 0x7F)) OR push_bit offset (ucast addr AND 0x7F))))"

definition usbhw_pipe_reset_assert :: "'h mmio \<Rightarrow> u8 \<Rightarrow> ('h, unit) io" where
  "usbhw_pipe_reset_assert b pipe = on_pipe pipe (reg_or b (USBHC ''HSTPIP'') (push_bit (unat pipe + 16) 1))"

definition usbhw_pipe_reset_deassert :: "'h mmio \<Rightarrow> u8 \<Rightarrow> ('h, unit) io" where
  "usbhw_pipe_reset_deassert b pipe = on_pipe pipe (reg_and b (USBHC ''HSTPIP'') (NOT (push_bit (unat pipe + 16) 1)))"

definition usbhw_pipe_enable :: "'h mmio \<Rightarrow> u8 \<Rightarrow> ('h, unit) io" where
  "usbhw_pipe_enable b pipe = on_pipe pipe (reg_or b (USBHC ''HSTPIP'') (push_bit (unat pipe) 1))"

definition usbhw_pipe_disable :: "'h mmio \<Rightarrow> u8 \<Rightarrow> ('h, unit) io" where
  "usbhw_pipe_disable b pipe = on_pipe pipe (reg_and b (USBHC ''HSTPIP'') (NOT (push_bit (unat pipe) 1)))"

definition usbhw_pipe_get_status :: "'h mmio \<Rightarrow> u8 \<Rightarrow> ('h, u32) io" where
  "usbhw_pipe_get_status b pipe = on_pipe pipe (reg_get b (pipe_reg ''HSTPIPISR'' pipe))"

definition usbhw_pipe_clear_status :: "'h mmio \<Rightarrow> u8 \<Rightarrow> u32 \<Rightarrow> ('h, unit) io" where
  "usbhw_pipe_clear_status b pipe msk = on_pipe pipe (reg_set b (pipe_reg ''HSTPIPICR'' pipe) msk)"

definition usbhw_pipe_force_status :: "'h mmio \<Rightarrow> u8 \<Rightarrow> u32 \<Rightarrow> ('h, unit) io" where
  "usbhw_pipe_force_status b pipe msk = on_pipe pipe (reg_set b (pipe_reg ''HSTPIPIFR'' pipe) msk)"

definition usbhw_pipe_get_interrupt_mask :: "'h mmio \<Rightarrow> u8 \<Rightarrow> ('h, u32) io" where
  "usbhw_pipe_get_interrupt_mask b pipe = on_pipe pipe (reg_get b (pipe_reg ''HSTPIPIMR'' pipe))"

definition usbhw_pipe_enable_interrupt :: "'h mmio \<Rightarrow> u8 \<Rightarrow> u32 \<Rightarrow> ('h, unit) io" where
  "usbhw_pipe_enable_interrupt b pipe msk = on_pipe pipe (reg_set b (pipe_reg ''HSTPIPIER'' pipe) msk)"

definition usbhw_pipe_disable_interrupt :: "'h mmio \<Rightarrow> u8 \<Rightarrow> u32 \<Rightarrow> ('h, unit) io" where
  "usbhw_pipe_disable_interrupt b pipe msk = on_pipe pipe (reg_set b (pipe_reg ''HSTPIPIDR'' pipe) msk)"

definition usbhw_pipe_in_request_defined :: "'h mmio \<Rightarrow> u8 \<Rightarrow> u8 \<Rightarrow> ('h, unit) io" where
  "usbhw_pipe_in_request_defined b pipe count =
     on_pipe pipe (if count = 0 then io_panic ''Cannot perform zero INs''
       else reg_set b (pipe_reg ''HSTPIPINRQ'' pipe) (ucast count - 1))"

definition usbhw_pipe_in_request_continous :: "'h mmio \<Rightarrow> u8 \<Rightarrow> ('h, unit) io" where
  "usbhw_pipe_in_request_continous b pipe = on_pipe pipe (reg_set b (pipe_reg ''HSTPIPINRQ'' pipe) (push_bit 8 1))"

definition usbhw_pipe_set_configuration :: "'h mmio \<Rightarrow> u8 \<Rightarrow> u32 \<Rightarrow> ('h, unit) io" where
  "usbhw_pipe_set_configuration b pipe cfg = on_pipe pipe (reg_set b (pipe_reg ''HSTPIPCFG'' pipe) cfg)"

definition usbhw_pipe_allocate_set :: "'h mmio \<Rightarrow> u8 \<Rightarrow> ('h, unit) io" where
  "usbhw_pipe_allocate_set b pipe = on_pipe pipe (reg_or b (pipe_reg ''HSTPIPCFG'' pipe) (push_bit 1 1))"

definition usbhw_pipe_allocate_clear :: "'h mmio \<Rightarrow> u8 \<Rightarrow> ('h, unit) io" where
  "usbhw_pipe_allocate_clear b pipe = on_pipe pipe (reg_and b (pipe_reg ''HSTPIPCFG'' pipe) (NOT (push_bit 1 1)))"

definition usbhw_pipe_get_configuration :: "'h mmio \<Rightarrow> u8 \<Rightarrow> ('h, u32) io" where
  "usbhw_pipe_get_configuration b pipe = on_pipe pipe (reg_get b (pipe_reg ''HSTPIPCFG'' pipe))"

definition usbhw_pipe_check_configuration :: "'h mmio \<Rightarrow> u8 \<Rightarrow> ('h, u8) io" where
  "usbhw_pipe_check_configuration b pipe =
     on_pipe pipe (io_bind (reg_get b (pipe_reg ''HSTPIPISR'' pipe)) (\<lambda>v. io_return (if v AND push_bit 18 1 \<noteq> 0 then 1 else 0)))"

definition usbhw_pipe_set_token :: "'h mmio \<Rightarrow> u8 \<Rightarrow> pipe_token \<Rightarrow> ('h, unit) io" where
  "usbhw_pipe_set_token b pipe token =
     on_pipe pipe (io_bind (reg_get b (pipe_reg ''HSTPIPCFG'' pipe)) (\<lambda>reg.
       reg_set b (pipe_reg ''HSTPIPCFG'' pipe) ((reg AND NOT (push_bit 8 3)) OR push_bit 8 (token_code token))))"

definition usbhw_pipe_set_freq :: "'h mmio \<Rightarrow> u8 \<Rightarrow> u8 \<Rightarrow> ('h, unit) io" where
  "usbhw_pipe_set_freq b pipe irq_freq =
     on_pipe pipe (io_bind (reg_get b (pipe_reg ''HSTPIPCFG'' pipe)) (\<lambda>reg.
       reg_set b (pipe_reg ''HSTPIPCFG'' pipe) ((reg AND NOT (push_bit 24 0xFF)) OR push_bit 24 (ucast irq_freq))))"

definition usbhw_pipe_get_byte_count :: "'h mmio \<Rightarrow> u8 \<Rightarrow> ('h, u32) io" where
  "usbhw_pipe_get_byte_count b pipe =
     on_pipe pipe (io_bind (reg_get b (pipe_reg ''HSTPIPISR'' pipe)) (\<lambda>v. io_return (drop_bit 20 v AND 0x7FF)))"

definition usbhw_pipe_get_error_reg :: "'h mmio \<Rightarrow> u8 \<Rightarrow> ('h, u32) io" where
  "usbhw_pipe_get_error_reg b pipe = reg_get b (pipe_reg ''HSTPIPERR'' pipe)"

definition usbhw_pipe_set_error_reg :: "'h mmio \<Rightarrow> u8 \<Rightarrow> u32 \<Rightarrow> ('h, unit) io" where
  "usbhw_pipe_set_error_reg b pipe reg = reg_set b (pipe_reg ''HSTPIPERR'' pipe) reg"

section \<open>Pipe operations return\<close>

lemma achieves_on_pipe [achieves_simps]: "pipe < 10 \<Longrightarrow> achieves (on_pipe pipe m) Q h \<longleftrightarrow> achieves m Q h"
  by (simp add: on_pipe_def not_less flip: not_le)

end
