(* ===== verification/Usb_Host.thy ===== *)
theory Usb_Host
  imports Usb_Hw Usb_Desc Circular_List Umalloc
begin

text \<open>
  The USB host controller driver (\<^verbatim>\<open>drivers/usbhc.c\<close>): pipes, the queues of transfer requests (URBs) on them, and
  the interrupt handler. A pipe is an index into the array of pipes, a URB is named by its address, and the list
  nodes embedded in pipes, URBs, devices, interfaces and drivers share one node heap. The buffers a URB points to are
  the two static buffers of \<^verbatim>\<open>usb/usb.c\<close>. The functions the layer above registers are called through the parameter
  \<open>up\<close>, and its own state is the field \<open>core\<close>.

  Console output is left out; where a message reads a register or indexes a table, the access is kept.
\<close>

section \<open>State\<close>

datatype usb_node = PipeHead nat | UrbNode u32 | DevHead | DevNode u32 | IfaceHead u32 | IfaceNode u32 nat
  | DriverHead | DriverNode u32

datatype usb_buffer = Setup_Buffer | Enum_Buffer

datatype root_hub_event = RH_EVENT_CONNECTION | RH_EVENT_DISCONNECTION | RH_EVENT_RESET_SENT

datatype pipe_state = PIPE_STATE_FREE | PIPE_STATE_CLAIMED | PIPE_STATE_IDLE | PIPE_STATE_CTRL_OUT | PIPE_STATE_ZLP_IN
  | PIPE_STATE_ZLP_OUT | PIPE_STATE_IN | PIPE_STATE_OUT | PIPE_STATE_STATUS | PIPE_STATE_ERROR

datatype urb_status = URB_STATUS_OK | URB_STATUS_ERROR | URB_STATUS_STALL | URB_STATUS_NAK | URB_STATUS_ABORT

text \<open>The only function that is ever the callback of a URB is the one of the enumeration.\<close>

datatype urb_callback = Enumerate_Handler
datatype root_hub_callback = Default_Root_Hub | Core_Root_Hub
datatype sof_callback = Default_Sof | Core_Sof

datatype upcall = Urb_Done urb_callback u32 | Root_Hub root_hub_callback root_hub_event

record pipe_config =
  pc_dev_addr :: u8
  pc_ep_addr :: u8
  pc_size :: u32
  pc_frequency :: u8
  pc_banks :: "2 word"
  pc_bank_switch :: "1 word"
  pc_type :: pipe_type

definition URB_FLAGS_SETUP :: u32 where "URB_FLAGS_SETUP = push_bit 0 1"
definition URB_FLAGS_INTERRUPT_IN :: u32 where "URB_FLAGS_INTERRUPT_IN = push_bit 3 1"

record urb =
  urb_flags :: u32
  setup_buffer :: usb_buffer
  transfer_buffer :: usb_buffer
  transfer_length :: u32
  acctual_length :: u32
  status_of :: urb_status
  urb_callback_of :: urb_callback
  urb_context :: bool \<comment> \<open>set to the USB core\<close>

record usb_pipe =
  pipe_num :: u32
  pipe_fifo :: u32
  pipe_lock :: u32
  pipe_state_of :: pipe_state
  pipe_ty :: pipe_type
  pipe_ep_size :: u32
  pipe_cfg :: pipe_config

record ('h, 'c) usb =
  usb_hw :: 'h
  pipes :: "usb_pipe list"
  num_pipes :: u32
  root_hub_cb :: root_hub_callback
  sof_cb :: "sof_callback option"
  urbs :: "u32 \<Rightarrow> urb"
  nodes :: "usb_node lheap"
  urb_allocator :: umalloc_desc
  usb_mm :: mm_state
  pipe_start :: nat
  bufs :: "usb_buffer \<Rightarrow> u8 list"
  core :: 'c

type_synonym ('h, 'c, 'a) usb_io = "(('h, 'c) usb, 'a) io"
type_synonym ('h, 'c) upcalls = "upcall \<Rightarrow> ('h, 'c, unit) usb_io"

abbreviation on_hw :: "('h, 'a) io \<Rightarrow> ('h, 'c, 'a) usb_io" where
  "on_hw \<equiv> io_zoom usb_hw usb_hw_update"

definition on_nodes :: "(usb_node lheap \<Rightarrow> usb_node lheap res) \<Rightarrow> ('h, 'c, unit) usb_io" where
  "on_nodes f = io_bind (io_gets nodes) (\<lambda>h. io_bind (io_res (f h)) (\<lambda>h'. io_update (\<lambda>s. s\<lparr>nodes := h'\<rparr>)))"

definition get_pipe :: "nat \<Rightarrow> ('h, 'c, usb_pipe) usb_io" where
  "get_pipe p = io_bind (io_gets pipes) (\<lambda>ps. io_res (array_get ps p))"

definition set_pipe :: "nat \<Rightarrow> (usb_pipe \<Rightarrow> usb_pipe) \<Rightarrow> ('h, 'c, unit) usb_io" where
  "set_pipe p f = io_bind (get_pipe p) (\<lambda>q. io_update (\<lambda>s. s\<lparr>pipes := (pipes s)[p := f q]\<rparr>))"

definition set_state :: "nat \<Rightarrow> pipe_state \<Rightarrow> ('h, 'c, unit) usb_io" where
  "set_state p st = set_pipe p (\<lambda>q. q\<lparr>pipe_state_of := st\<rparr>)"

definition get_urb :: "u32 \<Rightarrow> ('h, 'c, urb) usb_io" where
  "get_urb u = io_gets (\<lambda>s. urbs s u)"

definition set_urb :: "u32 \<Rightarrow> (urb \<Rightarrow> urb) \<Rightarrow> ('h, 'c, unit) usb_io" where
  "set_urb u f = io_update (\<lambda>s. s\<lparr>urbs := (urbs s)(u := f (urbs s u))\<rparr>)"

text \<open>A register operation on the number of a pipe, which the layer below takes as a byte.\<close>

definition with_num :: "nat \<Rightarrow> (u8 \<Rightarrow> ('h, 'a) io) \<Rightarrow> ('h, 'c, 'a) usb_io" where
  "with_num p m = io_bind (get_pipe p) (\<lambda>q. on_hw (m (ucast (pipe_num q))))"

text \<open>\<^verbatim>\<open>list_get_entry(pipe->urb_list.next, ...)\<close>: on an empty queue the entry of the head itself is no URB.\<close>

definition first_urb :: "nat \<Rightarrow> ('h, 'c, u32) usb_io" where
  "first_urb p = io_bind (io_gets (\<lambda>s. ln_next (nodes s (PipeHead p)))) (\<lambda>n.
     case n of Some (UrbNode u) \<Rightarrow> io_return u | Some _ \<Rightarrow> io_fail OutOfBounds | None \<Rightarrow> io_fail NullDeref)"

section \<open>The data stage\<close>

definition usbhc_get_fifo_ptr :: "u32 \<Rightarrow> u32" where
  "usbhc_get_fifo_ptr pipe = 0xA0100000 + 0x8000 * pipe"

definition in_step :: "'h mmio \<Rightarrow> u32 \<Rightarrow> u32 \<times> u32 \<Rightarrow> ('h, 'c, u32 \<times> u32 + unit) usb_io" where
  "in_step b u = (\<lambda>(fifo_count, src).
     if fifo_count = 0 then leave ()
     else
       io_bind (on_hw (reg_get b src)) (\<lambda>v.
       io_bind (get_urb u) (\<lambda>r.
       io_bind (io_gets (\<lambda>s. bufs s (transfer_buffer r))) (\<lambda>buf.
       io_bind (io_res (array_set buf (unat (acctual_length r)) (ucast v))) (\<lambda>buf'.
       io_then (io_update (\<lambda>s. s\<lparr>bufs := (bufs s)(transfer_buffer r := buf')\<rparr>))
       (io_then (set_urb u (\<lambda>r. r\<lparr>acctual_length := acctual_length r + 1\<rparr>))
       (if acctual_length r + 1 = transfer_length r then leave () else again (fifo_count - 1, src + 1))))))))"

definition usbhc_in :: "'h mmio \<Rightarrow> nat \<Rightarrow> u32 \<Rightarrow> ('h, 'c, bool) usb_io" where
  "usbhc_in b p u =
     io_bind (get_pipe p) (\<lambda>q.
     io_bind (with_num p (usbhw_pipe_get_byte_count b)) (\<lambda>fifo_count.
     io_then (repeat_io (in_step b u) (fifo_count, usbhc_get_fifo_ptr (pipe_num q)))
     (io_then (with_num p (\<lambda>n. usbhw_pipe_disable_interrupt b n USBHW_FIFO_CTRL))
     (io_return (fifo_count \<noteq> pipe_ep_size q)))))"

definition usbhc_out :: "nat \<Rightarrow> u32 \<Rightarrow> ('h, 'c, unit) usb_io" where
  "usbhc_out p u = io_return ()"

definition usbhc_setup_out :: "'h mmio \<Rightarrow> nat \<Rightarrow> u8 list \<Rightarrow> ('h, 'c, u8) usb_io" where
  "usbhc_setup_out b p setup' =
     io_bind (get_pipe p) (\<lambda>q.
     io_bind (with_num p (usbhw_pipe_get_byte_count b)) (\<lambda>n.
     if n \<noteq> 0 then io_return 0
     else
       io_then (with_num p (\<lambda>n. usbhw_pipe_clear_status b n USBHW_TXSETUP))
       (io_then (with_num p (\<lambda>n. usbhw_pipe_set_token b n PIPE_TOKEN_SETUP))
       (io_then (for_io (\<lambda>i _. io_bind (io_res (array_get setup' i)) (\<lambda>c.
           on_hw (reg_set b (usbhc_get_fifo_ptr (pipe_num q) + of_nat i) (ucast c)))) [0..<8] ())
       (io_then (with_num p (\<lambda>n. usbhw_pipe_enable_interrupt b n USBHW_TXSETUP))
       (io_then (with_num p (\<lambda>n. usbhw_pipe_disable_interrupt b n (USBHW_PFREEZE OR USBHW_FIFO_CTRL)))
       (io_return 1)))))))"

definition usbhc_control_status_out :: "'h mmio \<Rightarrow> nat \<Rightarrow> ('h, 'c, unit) usb_io" where
  "usbhc_control_status_out b p =
     io_bind (with_num p (usbhw_pipe_get_byte_count b)) (\<lambda>fifo_count.
     if fifo_count \<noteq> 0 then io_panic ''FIFO not zero''
     else
       io_then (with_num p (\<lambda>n. usbhw_pipe_clear_status b n USBHW_TXOUT))
       (io_then (with_num p (\<lambda>n. usbhw_pipe_set_token b n PIPE_TOKEN_OUT))
       (io_then (with_num p (\<lambda>n. usbhw_pipe_enable_interrupt b n USBHW_TXOUT))
       (with_num p (\<lambda>n. usbhw_pipe_disable_interrupt b n (USBHW_FIFO_CTRL OR USBHW_PFREEZE))))))"

definition usbhc_send_in :: "'h mmio \<Rightarrow> nat \<Rightarrow> ('h, 'c, unit) usb_io" where
  "usbhc_send_in b p =
     io_then (with_num p (\<lambda>n. usbhw_pipe_clear_status b n (USBHW_RXIN OR USBHW_SHORTPKT)))
     (io_then (with_num p (\<lambda>n. usbhw_pipe_in_request_defined b n 1))
     (io_then (with_num p (\<lambda>n. usbhw_pipe_set_token b n PIPE_TOKEN_IN))
     (io_then (with_num p (\<lambda>n. usbhw_pipe_enable_interrupt b n USBHW_RXIN))
     (with_num p (\<lambda>n. usbhw_pipe_disable_interrupt b n (USBHW_FIFO_CTRL OR USBHW_PFREEZE))))))"

section \<open>Requests\<close>

definition usbhc_start_urb :: "'h mmio \<Rightarrow> u32 \<Rightarrow> nat \<Rightarrow> ('h, 'c, unit) usb_io" where
  "usbhc_start_urb b u p =
     io_then (set_urb u (\<lambda>r. r\<lparr>acctual_length := 0\<rparr>))
     (io_bind (get_urb u) (\<lambda>r.
     if urb_flags r AND URB_FLAGS_SETUP \<noteq> 0 then
       io_then (set_state p PIPE_STATE_CTRL_OUT)
       (io_bind (io_gets (\<lambda>s. bufs s (setup_buffer r))) (\<lambda>setup'.
       io_bind (usbhc_setup_out b p setup') (\<lambda>_. io_return ())))
     else if urb_flags r AND URB_FLAGS_INTERRUPT_IN \<noteq> 0 then
       io_then (with_num p (usbhw_pipe_reset_assert b))
       (io_then (with_num p (usbhw_pipe_reset_deassert b))
       (io_then (set_state p PIPE_STATE_IN)
       (io_then (with_num p (usbhw_pipe_in_request_continous b))
       (io_then (with_num p (\<lambda>n. usbhw_pipe_disable_interrupt b n USBHW_PFREEZE))
       (with_num p (\<lambda>n. usbhw_pipe_enable_interrupt b n 0xFF))))))
     else io_return ()))"

definition usbhc_end_urb :: "'h mmio \<Rightarrow> ('h, 'c) upcalls \<Rightarrow> u32 \<Rightarrow> nat \<Rightarrow> urb_status \<Rightarrow> ('h, 'c, unit) usb_io" where
  "usbhc_end_urb b up u p st =
     io_bind (get_urb u) (\<lambda>r.
     if urb_flags r AND URB_FLAGS_INTERRUPT_IN \<noteq> 0 then
       io_then (set_urb u (\<lambda>r. r\<lparr>status_of := st\<rparr>)) (up (Urb_Done (urb_callback_of r) u))
     else
       io_then (set_state p PIPE_STATE_IDLE)
       (io_then (on_nodes (list_delete_node (UrbNode u)))
       (io_then (set_urb u (\<lambda>r. r\<lparr>status_of := st\<rparr>))
       (io_then (up (Urb_Done (urb_callback_of r) u))
       (io_bind (io_gets (\<lambda>s. list_is_empty (PipeHead p) (nodes s))) (\<lambda>list_empty.
       io_bind (get_pipe p) (\<lambda>q.
       if list_empty = 0 \<and> pipe_state_of q = PIPE_STATE_IDLE then io_bind (first_urb p) (\<lambda>v. usbhc_start_urb b v p)
       else io_return ())))))))"

definition usbhc_abort_transfer :: "'h mmio \<Rightarrow> nat \<Rightarrow> ('h, 'c, unit) usb_io" where
  "usbhc_abort_transfer b p = io_then (with_num p (usbhw_pipe_reset_assert b)) (with_num p (usbhw_pipe_reset_deassert b))"

definition usbhc_alloc_urb :: "('h, 'c, u32) usb_io" where
  "usbhc_alloc_urb =
     io_bind (io_gets (\<lambda>s. (urb_allocator s, usb_mm s))) (\<lambda>(al, mm).
     io_bind (io_res (umalloc al (mm_mem mm))) (\<lambda>(u, al', m).
     io_then (io_update (\<lambda>s. s\<lparr>urb_allocator := al', usb_mm := mm\<lparr>mm_mem := m\<rparr>\<rparr>))
     (if u = 0 then io_panic ''URB alloc failed''
      else io_then (io_update (\<lambda>s. s\<lparr>nodes := list_node_init (UrbNode u) (nodes s)\<rparr>)) (io_return u))))"

definition usbhc_submit_urb :: "'h mmio \<Rightarrow> u32 \<Rightarrow> nat \<Rightarrow> ('h, 'c, unit) usb_io" where
  "usbhc_submit_urb b u p =
     io_bind (with_num p (usbhw_pipe_get_status b)) (\<lambda>_.
     io_bind (io_gets (\<lambda>s. ln_next (nodes s (PipeHead p)) = Some (PipeHead p))) (\<lambda>urb_start.
     io_then (on_nodes (list_add_last (UrbNode u) (PipeHead p)))
     (if urb_start then usbhc_start_urb b u p else io_return ())))"

definition usbhc_set_urb_context :: "u32 \<Rightarrow> ('h, 'c, unit) usb_io" where
  "usbhc_set_urb_context u = set_urb u (\<lambda>r. r\<lparr>urb_context := True\<rparr>)"

definition usbhc_cancel_urb :: "u32 \<Rightarrow> ('h, 'c, u8) usb_io" where
  "usbhc_cancel_urb u = io_then (on_nodes (list_delete_node (UrbNode u))) (io_return 1)"

definition usbhc_fill_control_urb :: "u32 \<Rightarrow> usb_buffer \<Rightarrow> usb_buffer \<Rightarrow> urb_callback \<Rightarrow> ('h, 'c, unit) usb_io" where
  "usbhc_fill_control_urb u setup' transfer cb =
     io_bind (io_gets (\<lambda>s. bufs s setup')) (\<lambda>bs.
     io_bind (io_res (half_at bs 6)) (\<lambda>len.
     set_urb u (\<lambda>r. r\<lparr>setup_buffer := setup', transfer_buffer := transfer, urb_callback_of := cb,
       urb_flags := URB_FLAGS_SETUP, transfer_length := ucast len\<rparr>)))"

section \<open>Pipe events\<close>

text \<open>The first interrupted pipe from a starting point that moves on with every call.\<close>

fun pick_from :: "u32 \<Rightarrow> nat \<Rightarrow> nat \<Rightarrow> nat" where
  "pick_from pipe_mask 0 n = n"
| "pick_from pipe_mask (Suc k) n =
     (if bit pipe_mask n then n else pick_from pipe_mask k (if n + 1 \<ge> MAX_PIPES then 0 else n + 1))"

definition usbhc_pick_interrupted_pipe :: "u32 \<Rightarrow> ('h, 'c, nat) usb_io" where
  "usbhc_pick_interrupted_pipe pipe_mask =
     io_bind (io_gets pipe_start) (\<lambda>st.
     io_then (io_update (\<lambda>s. s\<lparr>pipe_start := (if st + 1 \<ge> MAX_PIPES then 0 else st + 1)\<rparr>))
     (io_return (pick_from pipe_mask MAX_PIPES st)))"

definition usbhc_naked :: "'h mmio \<Rightarrow> nat \<Rightarrow> ('h, 'c, unit) usb_io" where
  "usbhc_naked b p = with_num p (\<lambda>n. usbhw_pipe_clear_status b n USBHW_NAKED)"

definition usbhc_pipe_setup_sent :: "'h mmio \<Rightarrow> nat \<Rightarrow> ('h, 'c, unit) usb_io" where
  "usbhc_pipe_setup_sent b p =
     io_bind (get_pipe p) (\<lambda>q.
     if pipe_state_of q \<noteq> PIPE_STATE_CTRL_OUT then io_panic ''State error''
     else
       io_then (with_num p (\<lambda>n. usbhw_pipe_clear_status b n USBHW_TXSETUP))
       (io_bind (first_urb p) (\<lambda>u.
       io_bind (get_urb u) (\<lambda>r.
       io_bind (io_gets (\<lambda>s. bufs s (setup_buffer r))) (\<lambda>setup'.
       io_bind (io_res (array_get setup' 0)) (\<lambda>req_type.
       if transfer_length r \<noteq> 0 then
         (if req_type AND USB_DEVICE_TO_HOST = USB_DEVICE_TO_HOST then
            io_then (set_state p PIPE_STATE_IN) (usbhc_send_in b p)
          else io_then (set_state p PIPE_STATE_OUT) (usbhc_out p u))
       else if req_type AND USB_HOST_TO_DEVICE = USB_HOST_TO_DEVICE then
         io_then (set_state p PIPE_STATE_ZLP_IN) (usbhc_send_in b p)
       else io_panic ''''))))))"

definition usbhc_pipe_receive_in :: "'h mmio \<Rightarrow> ('h, 'c) upcalls \<Rightarrow> nat \<Rightarrow> ('h, 'c, unit) usb_io" where
  "usbhc_pipe_receive_in b up p =
     io_then (with_num p (\<lambda>n. usbhw_pipe_clear_status b n (USBHW_RXIN OR USBHW_SHORTPKT)))
     (io_bind (first_urb p) (\<lambda>u.
     io_bind (get_pipe p) (\<lambda>q.
     if pipe_state_of q = PIPE_STATE_ZLP_IN then usbhc_end_urb b up u p URB_STATUS_OK
     else
       io_bind (usbhc_in b p u) (\<lambda>short_pkt.
       if short_pkt then
         io_then (with_num p (\<lambda>n. usbhw_pipe_disable_interrupt b n USBHW_RXIN))
         (if pipe_ty q = PIPE_TYPE_CTRL then io_then (set_state p PIPE_STATE_ZLP_OUT) (usbhc_control_status_out b p)
          else usbhc_end_urb b up u p URB_STATUS_OK)
       else
         io_bind (get_urb u) (\<lambda>r.
         if transfer_length r \<le> acctual_length r then usbhc_end_urb b up u p URB_STATUS_OK else usbhc_send_in b p)))))"

definition usbhc_transmit_out :: "'h mmio \<Rightarrow> ('h, 'c) upcalls \<Rightarrow> nat \<Rightarrow> ('h, 'c, unit) usb_io" where
  "usbhc_transmit_out b up p =
     io_then (with_num p (\<lambda>n. usbhw_pipe_clear_status b n USBHW_TXOUT))
     (io_bind (get_pipe p) (\<lambda>q.
     if pipe_state_of q = PIPE_STATE_ZLP_OUT then
       io_bind (first_urb p) (\<lambda>u.
       io_bind (with_num p (usbhw_pipe_get_status b)) (\<lambda>_.
       io_then (with_num p (\<lambda>n. usbhw_pipe_enable_interrupt b n (USBHW_PFREEZE OR USBHW_FIFO_CTRL)))
       (io_then (with_num p (\<lambda>n. usbhw_pipe_in_request_defined b n 1))
       (usbhc_end_urb b up u p URB_STATUS_OK))))
     else io_return ()))"

definition usbhc_pipe_exception :: "'h mmio \<Rightarrow> ('h, 'c) upcalls \<Rightarrow> u32 \<Rightarrow> ('h, 'c, unit) usb_io" where
  "usbhc_pipe_exception b up isr =
     io_bind (usbhc_pick_interrupted_pipe (0x3FF AND drop_bit USBHW_PIPE_OFFSET isr)) (\<lambda>p.
     io_then (on_hw (usbhw_global_clear_status b (push_bit (p + USBHW_PIPE_OFFSET) 1)))
     (io_bind (on_hw (usbhw_pipe_get_status b (of_nat p))) (\<lambda>pipe_isr.
     io_bind (on_hw (usbhw_pipe_get_interrupt_mask b (of_nat p))) (\<lambda>pipe_imr.
     if pipe_isr AND USBHW_PERROR \<noteq> 0 then
       io_bind (on_hw (usbhw_pipe_get_error_reg b (of_nat p))) (\<lambda>_. io_panic '''')
     else
       io_then (if pipe_isr AND USBHW_NAKED \<noteq> 0 then usbhc_naked b p else io_return ())
       (io_then (if pipe_isr AND USBHW_TXSETUP \<noteq> 0 then usbhc_pipe_setup_sent b p else io_return ())
       (io_then (if pipe_isr AND pipe_imr AND USBHW_RXIN \<noteq> 0 then usbhc_pipe_receive_in b up p else io_return ())
       (if pipe_isr AND pipe_imr AND USBHW_TXOUT \<noteq> 0 then usbhc_transmit_out b up p else io_return ())))))))"

end
