(* ===== verification/Usb_Pipes.thy ===== *)
theory Usb_Pipes
  imports Usb_Host
begin

text \<open>
  The rest of the USB host controller driver: the root hub, the interrupt entry, the allocation and configuration of
  pipes, and the initialization.
\<close>

section \<open>The root hub\<close>

definition usbhc_send_reset :: "'h mmio \<Rightarrow> ('h, 'c, unit) usb_io" where
  "usbhc_send_reset b = on_hw (io_then (usbhw_set_host_speed b USB_HOST_SPEED_NORMAL) (usbhw_send_reset b))"

definition usbhc_root_hub_connect :: "'h mmio \<Rightarrow> ('h, 'c) upcalls \<Rightarrow> ('h, 'c, unit) usb_io" where
  "usbhc_root_hub_connect b up =
     io_then (on_hw (usbhw_global_clear_status b USBHW_CONN))
     (io_then (on_hw (usbhw_global_disable_interrupt b USBHW_CONN))
     (io_then (on_hw (usbhw_global_clear_status b (USBHW_RST OR USBHW_DCONN OR USBHW_SOF)))
     (io_then (on_hw (usbhw_global_enable_interrupt b (USBHW_RST OR USBHW_DCONN OR USBHW_SOF)))
     (io_bind (io_gets root_hub_cb) (\<lambda>cb. up (Root_Hub cb RH_EVENT_CONNECTION))))))"

definition usbhc_root_hub_disconnect :: "'h mmio \<Rightarrow> ('h, 'c, unit) usb_io" where
  "usbhc_root_hub_disconnect b = on_hw (usbhw_global_disable_interrupt b USBHW_DCONN)"

text \<open>The speed indexes a table of three names for the message.\<close>

definition usb_speed :: "string list" where
  "usb_speed = [''full speed'', ''high speed'', ''low speed'']"

definition usbhc_root_hub_reset :: "'h mmio \<Rightarrow> ('h, 'c) upcalls \<Rightarrow> ('h, 'c, unit) usb_io" where
  "usbhc_root_hub_reset b up =
     io_then (on_hw (usbhw_global_clear_status b USBHW_RST))
     (io_then (on_hw (usbhw_global_disable_interrupt b USBHW_RST))
     (io_bind (on_hw (usbhw_get_device_speed b)) (\<lambda>speed.
     io_bind (io_res (array_get usb_speed (unat speed))) (\<lambda>_.
     io_bind (io_gets root_hub_cb) (\<lambda>cb. up (Root_Hub cb RH_EVENT_RESET_SENT))))))"

text \<open>A wakeup interrupt ends in an endless loop.\<close>

definition usbhc_root_hub_exception :: "'h mmio \<Rightarrow> ('h, 'c) upcalls \<Rightarrow> u32 \<Rightarrow> ('h, 'c, unit) usb_io" where
  "usbhc_root_hub_exception b up isr =
     io_then (if isr AND USBHW_CONN \<noteq> 0 then usbhc_root_hub_connect b up else io_return ())
     (io_then (if isr AND USBHW_DCONN \<noteq> 0 then usbhc_root_hub_disconnect b else io_return ())
     (if isr AND USBHW_WAKEUP \<noteq> 0 then io_fail Diverge
      else if isr AND USBHW_RST \<noteq> 0 then usbhc_root_hub_reset b up else io_return ()))"

text \<open>Both start-of-frame callbacks do nothing; until one is registered the pointer is null.\<close>

definition usbhc_sof_exception :: "'h mmio \<Rightarrow> ('h, 'c, unit) usb_io" where
  "usbhc_sof_exception b =
     io_then (on_hw (usbhw_global_clear_status b USBHW_SOF))
     (io_bind (io_gets sof_cb) (\<lambda>cb. case cb of None \<Rightarrow> io_fail NullDeref | Some _ \<Rightarrow> io_return ()))"

definition usb_exception :: "'h mmio \<Rightarrow> ('h, 'c) upcalls \<Rightarrow> ('h, 'c, unit) usb_io" where
  "usb_exception b up =
     io_bind (on_hw (usbhw_global_get_status b)) (\<lambda>isr.
     io_then (if isr AND 0x20 \<noteq> 0 then usbhc_sof_exception b else io_return ())
     (io_then (if isr AND 0x3FF00 \<noteq> 0 then usbhc_pipe_exception b up isr else io_return ())
     (io_then (if isr AND 0x5F \<noteq> 0 then usbhc_root_hub_exception b up isr else io_return ())
     (on_hw (usbhw_global_clear_status b 0xFFFFFFFF)))))"

section \<open>Pipes\<close>

definition usbhc_pipe_soft_reset :: "nat \<Rightarrow> ('h, 'c, unit) usb_io" where
  "usbhc_pipe_soft_reset p =
     io_bind (get_pipe p) (\<lambda>q.
     if pipe_lock q \<noteq> 0 then io_fail Diverge
     else set_pipe p (\<lambda>q. q\<lparr>pipe_state_of := PIPE_STATE_FREE, pipe_lock := 0\<rparr>))"

definition usbhc_alloc_pipe :: "'h mmio \<Rightarrow> nat \<Rightarrow> u32 \<Rightarrow> ('h, 'c, u8) usb_io" where
  "usbhc_alloc_pipe b p cfg =
     io_then (with_num p (usbhw_pipe_enable b))
     (io_then (with_num p (usbhw_pipe_reset_assert b))
     (io_then (with_num p (usbhw_pipe_reset_deassert b))
     (let cfg0 = cfg AND NOT (push_bit 1 1); cfg1 = cfg0 OR push_bit 1 1
      in io_then (with_num p (\<lambda>n. usbhw_pipe_set_configuration b n cfg0))
         (io_then (with_num p (\<lambda>n. usbhw_pipe_set_configuration b n cfg1))
         (io_bind (with_num p (usbhw_pipe_get_status b)) (\<lambda>st.
         if st AND push_bit 18 1 = 0 then io_return 0
         else
           io_then (with_num p (\<lambda>n. usbhw_pipe_clear_status b n 0xFF))
           (io_then (with_num p (\<lambda>n. usbhw_pipe_enable_interrupt b n
              (USBHW_PERROR OR USBHW_OVERFLOW OR USBHW_STALL OR USBHW_NAKED)))
           (io_bind (get_pipe p) (\<lambda>q.
           io_then (on_hw (usbhw_global_enable_interrupt b (push_bit (unat (pipe_num q) + USBHW_PIPE_OFFSET) 1)))
           (io_then (with_num p (\<lambda>n. usbhw_pipe_enable_interrupt b n USBHW_PFREEZE))
           (io_bind (with_num p (usbhw_pipe_get_status b)) (\<lambda>_.
           io_then (set_state p PIPE_STATE_IDLE) (io_return 1)))))))))))))"

fun request_from :: "nat list \<Rightarrow> ('h, 'c, nat option) usb_io" where
  "request_from [] = io_return None"
| "request_from (p # ps) =
     io_bind (get_pipe p) (\<lambda>q.
     if pipe_state_of q = PIPE_STATE_FREE then io_then (set_state p PIPE_STATE_CLAIMED) (io_return (Some p))
     else request_from ps)"

definition usbhc_request_pipe :: "('h, 'c, nat option) usb_io" where
  "usbhc_request_pipe = io_bind (io_gets num_pipes) (\<lambda>n. request_from [0..<unat n])"

text \<open>The highest bit of the size, rounded up to a power of two; 1 is shifted by more than 31 if no bit is set.\<close>

fun highest_bit :: "u32 \<Rightarrow> nat \<Rightarrow> nat option" where
  "highest_bit size' 0 = None"
| "highest_bit size' (Suc i) = (if bit size' i then Some i else highest_bit size' i)"

definition usbhc_size_to_pipe_size :: "u32 \<Rightarrow> u8 option res" where
  "usbhc_size_to_pipe_size size' =
     (case highest_bit size' 32 of
        None \<Rightarrow> Inl ShiftRange
      | Some i \<Rightarrow>
          (let i' = if size' AND (push_bit i 1 - 1) \<noteq> 0 then i + 1 else i
           in Inr (if 3 \<le> i' \<and> i' \<le> 10 then Some (of_nat (i' - 3)) else None)))"

definition usbhc_pipe_reallocate :: "'h mmio \<Rightarrow> ('h, 'c) upcalls \<Rightarrow> nat \<Rightarrow> ('h, 'c, u8) usb_io" where
  "usbhc_pipe_reallocate b up p =
     io_bind (get_pipe p) (\<lambda>q.
     if pipe_state_of q = PIPE_STATE_FREE \<or> pipe_state_of q = PIPE_STATE_CLAIMED then io_return 1
     else
       io_then (usbhc_abort_transfer b p)
       (io_bind (with_num p (usbhw_pipe_get_configuration b)) (\<lambda>cfg.
       let cfg0 = cfg AND NOT (push_bit 1 1); cfg1 = cfg0 OR push_bit 1 1
       in io_then (with_num p (\<lambda>n. usbhw_pipe_set_configuration b n cfg0))
          (io_then (with_num p (\<lambda>n. usbhw_pipe_set_configuration b n cfg1))
          (io_bind (with_num p (usbhw_pipe_get_status b)) (\<lambda>st.
          if st AND push_bit 18 1 = 0 then io_return 0
          else io_bind (first_urb p) (\<lambda>u. io_then (usbhc_end_urb b up u p URB_STATUS_ABORT) (io_return 1))))))))"

fun reallocate_all :: "'h mmio \<Rightarrow> ('h, 'c) upcalls \<Rightarrow> nat list \<Rightarrow> ('h, 'c, u8) usb_io" where
  "reallocate_all b up [] = io_return 1"
| "reallocate_all b up (p # ps) =
     io_bind (usbhc_pipe_reallocate b up p) (\<lambda>ok. if ok = 0 then io_return 0 else reallocate_all b up ps)"

definition usbhc_solve_pipe_conflicts :: "'h mmio \<Rightarrow> ('h, 'c) upcalls \<Rightarrow> nat \<Rightarrow> ('h, 'c, u8) usb_io" where
  "usbhc_solve_pipe_conflicts b up p =
     io_bind (get_pipe p) (\<lambda>q. io_bind (io_gets num_pipes) (\<lambda>n.
       reallocate_all b up [unat (pipe_num q) + 1..<unat n]))"

definition usbhc_set_address :: "'h mmio \<Rightarrow> nat \<Rightarrow> u8 \<Rightarrow> ('h, 'c, unit) usb_io" where
  "usbhc_set_address b p addr = with_num p (\<lambda>n. usbhw_pipe_set_addr b n addr)"

definition usbhc_set_ep_size :: "nat \<Rightarrow> u32 \<Rightarrow> ('h, 'c, unit) usb_io" where
  "usbhc_set_ep_size p sz = set_pipe p (\<lambda>q. q\<lparr>pipe_ep_size := sz\<rparr>)"

definition config_word :: "pipe_config \<Rightarrow> u8 \<Rightarrow> u32" where
  "config_word cfg size' =
     push_bit 24 (ucast (pc_frequency cfg)) OR push_bit 16 (ucast (pc_ep_addr cfg)) OR push_bit 12 (type_code (pc_type cfg))
     OR push_bit 10 (ucast (pc_bank_switch cfg)) OR push_bit 4 (ucast size') OR push_bit 2 (ucast (pc_banks cfg) - 1)"

definition usbhc_pipe_configure :: "'h mmio \<Rightarrow> ('h, 'c) upcalls \<Rightarrow> nat \<Rightarrow> pipe_config \<Rightarrow> ('h, 'c, u8) usb_io" where
  "usbhc_pipe_configure b up p cfg =
     io_bind (get_pipe p) (\<lambda>q.
     if pipe_num q \<noteq> 0 \<and> 64 < pc_size cfg then io_return 0
     else if pipe_state_of q \<noteq> PIPE_STATE_CLAIMED then io_return 0
     else
       io_bind (io_res (usbhc_size_to_pipe_size (pc_size cfg))) (\<lambda>code.
       case code of
         None \<Rightarrow> io_return 0
       | Some size' \<Rightarrow>
           if pc_banks cfg < 1 then io_return 0
           else
             io_bind (usbhc_alloc_pipe b p (config_word cfg size')) (\<lambda>ok.
             if ok = 0 then io_return 0
             else
               io_then (usbhc_set_address b p (pc_dev_addr cfg))
               (io_then (set_pipe p (\<lambda>q. q\<lparr>pipe_ep_size := pc_size cfg, pipe_cfg := cfg, pipe_state_of := PIPE_STATE_IDLE\<rparr>))
               (io_bind (usbhc_solve_pipe_conflicts b up p) (\<lambda>_. io_return 1))))))"

section \<open>Initialization\<close>

definition usbhc_early_init :: "'h mmio \<Rightarrow> ('h, 'c, unit) usb_io" where
  "usbhc_early_init b =
     on_hw (io_then (usbhw_unfreeze_clock b) (io_then (usbhw_set_mode b USB_HOST) (usbhw_enable b)))"

definition usbhc_pipe_init :: "'h mmio \<Rightarrow> nat \<Rightarrow> ('h, 'c, unit) usb_io" where
  "usbhc_pipe_init b p =
     io_then (io_update (\<lambda>s. s\<lparr>nodes := list_init (PipeHead p) (nodes s)\<rparr>))
     (io_then (with_num p (\<lambda>n. usbhw_pipe_set_configuration b n 0))
     (io_then (with_num p (usbhw_pipe_reset_assert b))
     (io_then (with_num p (usbhw_pipe_reset_deassert b))
     (io_then (with_num p (usbhw_pipe_disable b))
     (set_state p PIPE_STATE_FREE)))))"

text \<open>A URB has 40 bytes; 256 of them are taken from the second bank.\<close>

definition usbhc_init :: "'h mmio \<Rightarrow> u32 \<Rightarrow> ('h, 'c, unit) usb_io" where
  "usbhc_init b pipe_count =
     io_then (usbhc_early_init b)
     (io_then (on_hw (usbhw_global_disable_interrupt b 0xFFFFFFFF))
     (io_then (on_hw (usbhw_global_clear_status b 0xFFFFFFFF))
     (io_then (on_hw (usbhw_vbus_request_enable b))
     (io_bind (io_gets usb_mm) (\<lambda>mm.
     io_bind (io_res (umalloc_new 40 256 2 mm)) (\<lambda>(al, mm').
     io_then (io_update (\<lambda>s. s\<lparr>urb_allocator := al, usb_mm := mm', num_pipes := pipe_count, root_hub_cb := Default_Root_Hub\<rparr>))
     (io_then (for_io (\<lambda>i _.
         io_then (set_pipe i (\<lambda>q. q\<lparr>pipe_num := of_nat i, pipe_fifo := usbhc_get_fifo_ptr (of_nat i)\<rparr>))
           (usbhc_pipe_init b i)) [0..<unat pipe_count] ())
     (io_then (on_hw (usbhw_global_clear_status b (USBHW_CONN OR USBHW_WAKEUP)))
     (on_hw (usbhw_global_enable_interrupt b (USBHW_CONN OR USBHW_WAKEUP)))))))))))"

definition usbhc_clock_usable :: "'h mmio \<Rightarrow> ('h, 'c, u8) usb_io" where
  "usbhc_clock_usable b = on_hw (usbhw_clock_usable b)"

definition usbhc_add_root_hub_callback :: "root_hub_callback \<Rightarrow> ('h, 'c, unit) usb_io" where
  "usbhc_add_root_hub_callback cb = io_update (\<lambda>s. s\<lparr>root_hub_cb := cb\<rparr>)"

definition usbhc_add_sof_callback :: "sof_callback \<Rightarrow> ('h, 'c, unit) usb_io" where
  "usbhc_add_sof_callback cb = io_update (\<lambda>s. s\<lparr>sof_cb := Some cb\<rparr>)"

end
