(* ===== verification/Usb_Core.thy ===== *)
theory Usb_Core
  imports Usb_Pipes Cpu_Drivers
begin

text \<open>
  The USB core (\<^verbatim>\<open>usb/usb.c\<close>), the HID driver (\<^verbatim>\<open>usb/drivers/usb_hid.c\<close>) and the start of the USB system
  (\<^verbatim>\<open>board/usb_host.c\<close>). A new device is enumerated by a state machine that runs in the callback of one request on
  pipe 0: each answer is stored and the next request is sent. Console output is left out.
\<close>

section \<open>State\<close>

datatype usb_enum_state = USB_ENUM_IDLE | USB_ENUM_GET_EP0_SIZE | USB_ENUM_GET_DEV_DESC | USB_ENUM_SET_ADDRESS
  | USB_ENUM_GET_DESC_LENGTH | USB_ENUM_GET_DESCRIPTORS | USB_ENUM_GET_PRODUCT_NAME | USB_ENUM_GET_MANUFACTURER_NAME

text \<open>A device; its descriptor has 18 bytes, each of its names 64.\<close>

record usb_dev =
  dev_desc :: "u8 list"
  desc_total_size :: u32
  dev_configs :: u32 \<comment> \<open>address of the arrays of descriptors\<close>
  num_configs :: u32
  dev_pipes :: "u32 list"
  pipe_bm :: u32
  dev_address :: u8
  ep0_size :: u16
  product :: "u8 list"
  manufacturer :: "u8 list"

datatype driver_connect = Hid_Connect

record usb_driver =
  drv_connect :: driver_connect
  drv_ids :: "usb_dev_id list"

record usb_core =
  enum_state :: usb_enum_state
  enum_dev :: "u32 option"
  devs :: "u32 \<Rightarrow> usb_dev"
  desc_store :: "u32 \<Rightarrow> desc_mem"
  dev_addr_bm :: u16
  drivers :: "u32 \<Rightarrow> usb_driver"
  hid_driver :: u32 \<comment> \<open>address of the static driver\<close>

type_synonym ('h, 'a) core_io = "('h, usb_core, 'a) usb_io"

abbreviation on_core :: "(usb_core, 'a) io \<Rightarrow> ('h, 'a) core_io" where
  "on_core \<equiv> io_zoom core core_update"

definition current_dev :: "('h, u32) core_io" where
  "current_dev = io_bind (on_core (io_gets enum_dev)) (\<lambda>d. io_res (deref d))"

definition get_dev :: "u32 \<Rightarrow> ('h, usb_dev) core_io" where
  "get_dev d = on_core (io_gets (\<lambda>c. devs c d))"

definition set_dev :: "u32 \<Rightarrow> (usb_dev \<Rightarrow> usb_dev) \<Rightarrow> ('h, unit) core_io" where
  "set_dev d f = on_core (io_update (\<lambda>c. c\<lparr>devs := (devs c)(d := f (devs c d))\<rparr>))"

definition to_enum :: "usb_enum_state \<Rightarrow> ('h, unit) core_io" where
  "to_enum st = on_core (io_update (\<lambda>c. c\<lparr>enum_state := st\<rparr>))"

definition transfer_bytes :: "u32 \<Rightarrow> ('h, u8 list) core_io" where
  "transfer_bytes u = io_bind (get_urb u) (\<lambda>r. io_gets (\<lambda>s. bufs s (transfer_buffer r)))"

definition setup_of :: "u32 \<Rightarrow> ('h, u8 list) core_io" where
  "setup_of u = io_bind (get_urb u) (\<lambda>r. io_gets (\<lambda>s. bufs s (setup_buffer r)))"

section \<open>Requests\<close>

definition send_setup :: "'h mmio \<Rightarrow> u32 \<Rightarrow> usb_setup_desc \<Rightarrow> ('h, unit) core_io" where
  "send_setup b u req =
     io_then (io_update (\<lambda>s. s\<lparr>bufs := (bufs s)(Setup_Buffer := setup_bytes req)\<rparr>))
     (io_then (usbhc_fill_control_urb u Setup_Buffer Enum_Buffer Enumerate_Handler)
     (usbhc_submit_urb b u 0))"

definition get_descriptor :: "u8 \<Rightarrow> u8 \<Rightarrow> u16 \<Rightarrow> u16 \<Rightarrow> usb_setup_desc" where
  "get_descriptor type' index lang len =
     \<lparr>bmRequestType = USB_DEVICE_TO_HOST, bRequest = USB_REQ_GET_DESCRIPTOR, wValue = descriptor_value type' index,
      wIndex = lang, wLength = len\<rparr>"

definition usbc_get_dev_desc :: "'h mmio \<Rightarrow> u32 \<Rightarrow> u8 \<Rightarrow> ('h, unit) core_io" where
  "usbc_get_dev_desc b u full = send_setup b u (get_descriptor USB_DESC_DEVICE 0 0 (if full \<noteq> 0 then 18 else 8))"

definition usb_get_string_desc :: "'h mmio \<Rightarrow> u32 \<Rightarrow> u8 \<Rightarrow> u16 \<Rightarrow> ('h, unit) core_io" where
  "usb_get_string_desc b u desc_index lang_id = send_setup b u (get_descriptor USB_DESC_STRING desc_index lang_id 1024)"

definition usbc_set_dev_addr :: "'h mmio \<Rightarrow> u32 \<Rightarrow> ('h, unit) core_io" where
  "usbc_set_dev_addr b u =
     io_bind (on_core (io_gets (\<lambda>c. usbc_new_address (dev_addr_bm c)))) (\<lambda>(addr, bm).
     io_then (on_core (io_update (\<lambda>c. c\<lparr>dev_addr_bm := bm\<rparr>)))
     (send_setup b u \<lparr>bmRequestType = USB_HOST_TO_DEVICE, bRequest = USB_REQ_SET_ADDRESS, wValue = ucast addr,
       wIndex = 0, wLength = 0\<rparr>))"

definition usbc_get_cfg_desc :: "'h mmio \<Rightarrow> u32 \<Rightarrow> ('h, unit) core_io" where
  "usbc_get_cfg_desc b u = send_setup b u (get_descriptor USB_DESC_CONFIG 0 0 9)"

definition usbc_get_all_desc :: "'h mmio \<Rightarrow> u32 \<Rightarrow> ('h, unit) core_io" where
  "usbc_get_all_desc b u =
     io_bind current_dev (\<lambda>d. io_bind (get_dev d) (\<lambda>dev.
       send_setup b u (get_descriptor USB_DESC_CONFIG 0 0 (ucast (desc_total_size dev)))))"

section \<open>Answers\<close>

definition usbc_ep0_size_done :: "u32 \<Rightarrow> u32 \<Rightarrow> ('h, unit) core_io" where
  "usbc_ep0_size_done u d =
     io_bind (transfer_bytes u) (\<lambda>buf.
     io_bind (io_res (array_get buf 7)) (\<lambda>packet_size.
     if packet_size < 8 then io_panic ''Abort enumeration''
     else set_dev d (\<lambda>dev. dev\<lparr>ep0_size := ucast packet_size\<rparr>)))"

definition usbc_device_desc_done :: "u32 \<Rightarrow> u32 \<Rightarrow> ('h, unit) core_io" where
  "usbc_device_desc_done u d =
     io_bind (setup_of u) (\<lambda>setup'.
     io_bind (io_res (half_at setup' 6)) (\<lambda>len.
     io_bind (transfer_bytes u) (\<lambda>buf.
     io_bind (io_res (read_slice buf 0 (unat len))) (\<lambda>bs.
     if 18 < unat len then io_fail OutOfBounds
     else set_dev d (\<lambda>dev. dev\<lparr>dev_desc := bs @ drop (unat len) (dev_desc dev)\<rparr>)))))"

definition usbc_address_done :: "'h mmio \<Rightarrow> u32 \<Rightarrow> u32 \<Rightarrow> ('h, unit) core_io" where
  "usbc_address_done b u d =
     io_bind (setup_of u) (\<lambda>setup'.
     io_bind (io_res (half_at setup' 2)) (\<lambda>v.
     io_then (set_dev d (\<lambda>dev. dev\<lparr>dev_address := ucast v\<rparr>))
     (usbhc_set_address b 0 (ucast v))))"

definition usbc_desc_length_done :: "u32 \<Rightarrow> u32 \<Rightarrow> ('h, unit) core_io" where
  "usbc_desc_length_done u d =
     io_bind (get_urb u) (\<lambda>r.
     if acctual_length r \<noteq> 9 then io_panic ''Error''
     else
       io_bind (transfer_bytes u) (\<lambda>buf.
       io_bind (io_res (half_at buf 2)) (\<lambda>len.
       set_dev d (\<lambda>dev. dev\<lparr>desc_total_size := ucast len\<rparr>))))"

section \<open>The descriptor tree\<close>

definition usbc_alloc_descriptors :: "u32 \<Rightarrow> counts \<Rightarrow> ('h, u8) core_io" where
  "usbc_alloc_descriptors d = (\<lambda>(configs, ifaces, eps).
     io_bind (io_gets usb_mm) (\<lambda>mm.
     io_bind (io_res (bmalloc (desc_mem_size configs ifaces eps) 0 mm)) (\<lambda>(ptr, mm').
     io_then (io_update (\<lambda>s. s\<lparr>usb_mm := mm'\<rparr>))
     (io_then (set_dev d (\<lambda>dev. dev\<lparr>dev_configs := ptr, desc_total_size := desc_mem_size configs ifaces eps\<rparr>))
     (io_return (if ptr \<noteq> 0 then 1 else 0))))))"

definition usbc_delete_descriptors :: "u32 \<Rightarrow> ('h, unit) core_io" where
  "usbc_delete_descriptors d =
     io_bind (get_dev d) (\<lambda>dev.
     io_bind (io_gets usb_mm) (\<lambda>mm.
     io_bind (io_res (bfree (dev_configs dev) mm)) (\<lambda>mm'.
     io_then (io_update (\<lambda>s. s\<lparr>usb_mm := mm'\<rparr>))
     (set_dev d (\<lambda>dev. dev\<lparr>dev_configs := 0, desc_total_size := 0, num_configs := 0\<rparr>)))))"

definition set_store :: "u32 \<Rightarrow> (desc_mem \<Rightarrow> desc_mem) \<Rightarrow> ('h, unit) core_io" where
  "set_store a f = on_core (io_update (\<lambda>c. c\<lparr>desc_store := (desc_store c)(a := f (desc_store c a))\<rparr>))"

definition usbc_init_descriptors :: "u32 \<Rightarrow> counts \<Rightarrow> ('h, unit) core_io" where
  "usbc_init_descriptors d = (\<lambda>(configs, ifaces, eps).
     io_bind (get_dev d) (\<lambda>dev.
     let a = dev_configs dev
     in io_then (set_store a (init_desc_mem d (unat configs) (unat ifaces) (unat eps)))
        (for_io (\<lambda>i _. on_nodes (list_add_first (IfaceNode a i) (IfaceHead d))) [0..<unat ifaces] ())))"

definition usbc_parse_descriptors :: "u32 \<Rightarrow> u8 list \<Rightarrow> u32 \<Rightarrow> ('h, u8) core_io" where
  "usbc_parse_descriptors d data size' =
     io_bind (usbc_verify_descriptors data size') (\<lambda>v.
     case v of
       None \<Rightarrow> io_return 0
     | Some counts \<Rightarrow>
         io_bind (usbc_alloc_descriptors d counts) (\<lambda>ok.
         if ok = 0 then io_return 0
         else
           io_then (usbc_init_descriptors d counts)
           (io_bind (get_dev d) (\<lambda>dev.
           io_bind (on_core (io_gets (\<lambda>c. desc_store c (dev_configs dev)))) (\<lambda>m.
           io_bind (parse_walk data size' \<lparr>ps_mem = m, ps_num_configs = num_configs dev, config_index = 0, iface_index = 0,
             ep_index = 0, last_cfg = None, last_iface = None\<rparr>) (\<lambda>r.
           case r of
             None \<Rightarrow> io_return 0
           | Some ps \<Rightarrow>
               io_then (set_store (dev_configs dev) (\<lambda>_. ps_mem ps))
               (io_then (set_dev d (\<lambda>dev. dev\<lparr>num_configs := ps_num_configs ps\<rparr>)) (io_return 1))))))))"

definition usbc_get_all_desc_done :: "u32 \<Rightarrow> u32 \<Rightarrow> ('h, unit) core_io" where
  "usbc_get_all_desc_done u d =
     io_bind (get_urb u) (\<lambda>r.
     io_bind (transfer_bytes u) (\<lambda>buf.
     io_bind (usbc_parse_descriptors d buf (acctual_length r)) (\<lambda>ok.
     if ok = 0 then io_panic ''Cannot parse descriptors'' else io_return ())))"

section \<open>Names\<close>

definition name_done :: "u32 \<Rightarrow> (u8 list \<Rightarrow> ('h, unit) core_io) \<Rightarrow> u8 list \<Rightarrow> ('h, unit) core_io" where
  "name_done u store old =
     io_bind (setup_of u) (\<lambda>setup'.
     io_bind (io_res (array_get setup' 2)) (\<lambda>index.
     if index = 0 then io_return ()
     else
       io_bind (get_urb u) (\<lambda>r.
       io_bind (transfer_bytes u) (\<lambda>buf.
       io_bind (usbc_uni_to_string (drop 2 buf) (acctual_length r - 2) old 64) store))))"

definition usbc_get_product_name_done :: "u32 \<Rightarrow> u32 \<Rightarrow> ('h, unit) core_io" where
  "usbc_get_product_name_done u d =
     io_bind (get_dev d) (\<lambda>dev. name_done u (\<lambda>n. set_dev d (\<lambda>dev. dev\<lparr>product := n\<rparr>)) (product dev))"

definition usbc_get_manufacturer_name_done :: "u32 \<Rightarrow> u32 \<Rightarrow> ('h, unit) core_io" where
  "usbc_get_manufacturer_name_done u d =
     io_bind (get_dev d) (\<lambda>dev. name_done u (\<lambda>n. set_dev d (\<lambda>dev. dev\<lparr>manufacturer := n\<rparr>)) (manufacturer dev))"

section \<open>Drivers\<close>

text \<open>\<^verbatim>\<open>list_iterate\<close>: from the head round the ring; the body may leave the loop.\<close>

definition iterate_step ::
  "usb_node \<Rightarrow> (usb_node \<Rightarrow> ('h, 'r option) core_io) \<Rightarrow> 'r \<Rightarrow> usb_node option \<Rightarrow> ('h, usb_node option + 'r) core_io" where
  "iterate_step l body dflt cur =
     (if cur = Some l then leave dflt
      else
        io_bind (io_res (deref cur)) (\<lambda>n.
        io_bind (body n) (\<lambda>r.
        case r of
          Some x \<Rightarrow> leave x
        | None \<Rightarrow> io_bind (io_gets (\<lambda>s. ln_next (nodes s n))) again)))"

definition list_iterate :: "usb_node \<Rightarrow> (usb_node \<Rightarrow> ('h, 'r option) core_io) \<Rightarrow> 'r \<Rightarrow> ('h, 'r) core_io" where
  "list_iterate l body dflt =
     io_bind (io_gets (\<lambda>s. ln_next (nodes s l))) (repeat_io (iterate_step l body dflt))"

definition usb_hid_connect :: "u32 \<Rightarrow> nat \<Rightarrow> ('h, u8) core_io" where
  "usb_hid_connect a i =
     io_bind (on_core (io_gets hid_driver)) (\<lambda>h.
     io_then (set_store a (upd_iface i (\<lambda>f. f\<lparr>iface_driver := Some h\<rparr>))) (io_return 1))"

fun call_connect :: "driver_connect \<Rightarrow> u32 \<Rightarrow> nat \<Rightarrow> ('h, u8) core_io" where
  "call_connect Hid_Connect a i = usb_hid_connect a i"

definition try_driver :: "u32 \<Rightarrow> nat \<Rightarrow> usb_iface \<Rightarrow> usb_node \<Rightarrow> ('h, u32 option option) core_io" where
  "try_driver a i iface n =
     (case n of
        DriverNode drv \<Rightarrow>
          io_bind (on_core (io_gets (\<lambda>c. drivers c drv))) (\<lambda>driver.
          io_bind (get_dev (parent_dev iface)) (\<lambda>dev.
          if usbc_check_driver_match (drv_ids driver) (dev_desc dev) (iface_desc iface) \<noteq> 0 then
            io_bind (call_connect (drv_connect driver) a i) (\<lambda>ok. io_return (Some (if ok = 0 then None else Some drv)))
          else io_return None))
      | _ \<Rightarrow> io_fail OutOfBounds)"

definition usbc_find_driver :: "u32 \<Rightarrow> nat \<Rightarrow> ('h, u32 option) core_io" where
  "usbc_find_driver a i =
     io_bind (on_core (io_gets (\<lambda>c. dm_iface (desc_store c a) i))) (\<lambda>iface.
     if assigned iface then io_return None
     else list_iterate DriverHead (try_driver a i iface) None)"

text \<open>Every interface of the device is offered to the drivers; the function has no return statement.\<close>

definition usbc_assign_driver :: "u32 \<Rightarrow> ('h, unit) core_io" where
  "usbc_assign_driver d =
     list_iterate (IfaceHead d) (\<lambda>n. case n of
         IfaceNode a i \<Rightarrow> io_bind (usbc_find_driver a i) (\<lambda>_. io_return None)
       | _ \<Rightarrow> io_fail OutOfBounds) ()"

definition usbc_add_driver :: "u32 \<Rightarrow> ('h, unit) core_io" where
  "usbc_add_driver drv = on_nodes (list_add_first (DriverNode drv) DriverHead)"

definition hid_dev_id :: "usb_dev_id list" where
  "hid_dev_id = [\<lparr>id_flags = push_bit 5 1, id_vendor = 0, id_product = 0, id_dev_class = 0, id_dev_sub_class = 0,
     id_dev_protocol = 0, id_iface_class = 3, id_iface_sub_class = 0, id_iface_protocol = 0\<rparr>]"

definition usb_hid_init :: "('h, unit) core_io" where
  "usb_hid_init =
     io_bind (on_core (io_gets hid_driver)) (\<lambda>h.
     io_then (on_core (io_update (\<lambda>c. c\<lparr>drivers := (drivers c)(h := \<lparr>drv_connect = Hid_Connect, drv_ids = hid_dev_id\<rparr>)\<rparr>)))
       (usbc_add_driver h))"

section \<open>The enumeration\<close>

definition usbc_enumerate_handler :: "'h mmio \<Rightarrow> u32 \<Rightarrow> ('h, unit) core_io" where
  "usbc_enumerate_handler b u =
     io_bind (get_urb u) (\<lambda>r.
     if status_of r \<noteq> URB_STATUS_OK then io_panic ''Enumeration URB failed''
     else if \<not> urb_context r then io_fail NullDeref
     else
       io_bind (on_core (io_gets enum_state)) (\<lambda>st.
       if st = USB_ENUM_IDLE then io_return ()
       else
         io_bind current_dev (\<lambda>d.
         case st of
           USB_ENUM_GET_EP0_SIZE \<Rightarrow>
             io_then (usbc_ep0_size_done u d)
             (io_bind (get_dev d) (\<lambda>dev.
             io_then (usbhc_set_ep_size 0 (ucast (ep0_size dev)))
             (io_then (to_enum USB_ENUM_GET_DEV_DESC) (usbc_get_dev_desc b u 1))))
         | USB_ENUM_GET_DEV_DESC \<Rightarrow>
             io_then (usbc_device_desc_done u d) (io_then (to_enum USB_ENUM_SET_ADDRESS) (usbc_set_dev_addr b u))
         | USB_ENUM_SET_ADDRESS \<Rightarrow>
             io_then (usbc_address_done b u d) (io_then (to_enum USB_ENUM_GET_DESC_LENGTH) (usbc_get_cfg_desc b u))
         | USB_ENUM_GET_DESC_LENGTH \<Rightarrow>
             io_then (usbc_desc_length_done u d) (io_then (to_enum USB_ENUM_GET_DESCRIPTORS) (usbc_get_all_desc b u))
         | USB_ENUM_GET_DESCRIPTORS \<Rightarrow>
             io_then (usbc_get_all_desc_done u d)
             (io_then (to_enum USB_ENUM_GET_PRODUCT_NAME)
             (io_bind (get_dev d) (\<lambda>dev. io_bind (io_res (array_get (dev_desc dev) 15)) (\<lambda>i. usb_get_string_desc b u i 0))))
         | USB_ENUM_GET_PRODUCT_NAME \<Rightarrow>
             io_then (usbc_get_product_name_done u d)
             (io_then (to_enum USB_ENUM_GET_MANUFACTURER_NAME)
             (io_bind (get_dev d) (\<lambda>dev. io_bind (io_res (array_get (dev_desc dev) 14)) (\<lambda>i. usb_get_string_desc b u i 0))))
         | USB_ENUM_GET_MANUFACTURER_NAME \<Rightarrow>
             io_then (usbc_get_manufacturer_name_done u d)
             (io_then (with_num 0 (usbhw_pipe_disable b)) (usbc_assign_driver d))
         | USB_ENUM_IDLE \<Rightarrow> io_return ())))"

text \<open>While a pipe is configured only requests end, so only their callback can be called.\<close>

fun urb_upcall :: "'h mmio \<Rightarrow> ('h, usb_core) upcalls" where
  "urb_upcall b (Urb_Done Enumerate_Handler u) = usbc_enumerate_handler b u"
| "urb_upcall b (Root_Hub cb ev) = io_return ()"

text \<open>A device takes 228 bytes; what is not set here keeps the former contents of that memory.\<close>

definition none_name :: "u8 list" where
  "none_name = map of_char ''None'' @ [0]"

definition usbc_add_device :: "('h, u32) core_io" where
  "usbc_add_device =
     io_bind (io_gets usb_mm) (\<lambda>mm.
     io_bind (io_res (bmalloc 228 0 mm)) (\<lambda>(d, mm').
     io_then (io_update (\<lambda>s. s\<lparr>usb_mm := mm'\<rparr>))
     (io_then (on_nodes (list_add_first (DevNode d) DevHead))
     (io_then (on_core (io_update (\<lambda>c. c\<lparr>enum_dev := Some d\<rparr>)))
     (io_then (io_update (\<lambda>s. s\<lparr>nodes := list_init (IfaceHead d) (nodes s)\<rparr>))
     (io_then (set_dev d (\<lambda>dev. dev\<lparr>product := none_name @ drop 5 (product dev),
         manufacturer := none_name @ drop 5 (manufacturer dev), dev_pipes := replicate 10 0, pipe_bm := 0\<rparr>))
     (io_return d)))))))"

definition control_config :: pipe_config where
  "control_config = \<lparr>pc_dev_addr = 0, pc_ep_addr = 0, pc_size = 64, pc_frequency = 0, pc_banks = 1, pc_bank_switch = 0,
     pc_type = PIPE_TYPE_CTRL\<rparr>"

definition usbc_start_enum :: "'h mmio \<Rightarrow> ('h, unit) core_io" where
  "usbc_start_enum b =
     io_then (set_state 0 PIPE_STATE_CLAIMED)
     (io_bind (usbhc_pipe_configure b (urb_upcall b) 0 control_config) (\<lambda>_.
     io_bind usbc_add_device (\<lambda>_.
     io_bind usbhc_alloc_urb (\<lambda>u.
     io_then (usbhc_set_urb_context u)
     (io_then (to_enum USB_ENUM_GET_EP0_SIZE) (usbc_get_dev_desc b u 0))))))"

definition root_hub_event :: "'h mmio \<Rightarrow> root_hub_event \<Rightarrow> ('h, unit) core_io" where
  "root_hub_event b event =
     (case event of
        RH_EVENT_CONNECTION \<Rightarrow> usbhc_send_reset b
      | RH_EVENT_DISCONNECTION \<Rightarrow> io_return ()
      | RH_EVENT_RESET_SENT \<Rightarrow> usbc_start_enum b)"

fun core_upcall :: "'h mmio \<Rightarrow> ('h, usb_core) upcalls" where
  "core_upcall b (Urb_Done cb u) = urb_upcall b (Urb_Done cb u)"
| "core_upcall b (Root_Hub Default_Root_Hub ev) = io_return ()"
| "core_upcall b (Root_Hub Core_Root_Hub ev) = root_hub_event b ev"

section \<open>Start\<close>

definition usbc_init :: "('h, unit) core_io" where
  "usbc_init =
     io_then (to_enum USB_ENUM_IDLE)
     (io_then (io_update (\<lambda>s. s\<lparr>nodes := list_init DevHead (nodes s)\<rparr>))
     (io_then (on_core (io_update (\<lambda>c. c\<lparr>dev_addr_bm := 1\<rparr>)))
     (io_then (io_update (\<lambda>s. s\<lparr>nodes := list_init DriverHead (nodes s)\<rparr>))
     (io_then (usbhc_add_root_hub_callback Core_Root_Hub) (usbhc_add_sof_callback Core_Sof)))))"

definition usb_host_init :: "'h mmio \<Rightarrow> ('h, unit) core_io" where
  "usb_host_init b =
     io_then (on_hw (peripheral_clock_enable b 34))
     (io_then (usbhc_early_init b)
     (io_then (on_hw (upll_init b 0))
     (io_bind (usbhc_clock_usable b) (\<lambda>ok.
     if ok = 0 then io_panic ''USB clock not usable''
     else
       io_then (usbhc_init b 10)
       (io_then usbc_init
       (io_then usb_hid_init
       (on_hw (io_then (nvic_enable b 34) (nvic_set_prioriy b 34 NVIC_PRI_3)))))))))"

definition usb_interrupt :: "'h mmio \<Rightarrow> ('h, unit) core_io" where
  "usb_interrupt b = usb_exception b (core_upcall b)"

end
