(* ===== verification/Usb_Enum.thy ===== *)
theory Usb_Enum
  imports Usb_Tree Usb_Core
begin

text \<open>
  The enumeration of a device, one stage at a time. \<open>waiting u req s\<close> says that the request \<open>u\<close> of the enumeration is alone in the
  queue of pipe 0 with the setup packet \<open>req\<close>; \<open>reply b u bs\<close> is the device answering it with the bytes \<open>bs\<close>, which ends the request
  and runs the callback. For every state of the enumeration there is a lemma that the reply brings the next request
  into the queue and stores what was read. Registers may read anything: the lemmas hold for every bus.

  At the end, the loop of \<^verbatim>\<open>list_iterate\<close> over a ring, and the drivers the interfaces of a device get.
\<close>

section \<open>Sending a request\<close>

text \<open>Operations that only touch the registers.\<close>

definition hw_only :: "('h, 'c, 'a) usb_io \<Rightarrow> bool" where
  "hw_only m \<longleftrightarrow> (\<forall>s. 0 < length (pipes s) \<longrightarrow> pipe_num (pipes s ! 0) = 0 \<longrightarrow> achieves m (\<lambda>_ t. \<exists>h. t = s\<lparr>usb_hw := h\<rparr>) s)"

lemma hw_only_return: "hw_only (io_return x)"
  unfolding hw_only_def by (simp add: achieves_simps) (metis usb.surjective usb.update_convs(1))

lemma hw_only_bind:
  fixes m :: "('h, 'c, 'a) usb_io"
  assumes "hw_only m" "\<And>x. hw_only (f x)"
  shows "hw_only (io_bind m f)"
  unfolding hw_only_def
proof (intro allI impI)
  fix s :: "('h, 'c) usb"
  assume p: "0 < length (pipes s)" "pipe_num (pipes s ! 0) = 0"
  show "achieves (io_bind m f) (\<lambda>_ t. \<exists>h. t = s\<lparr>usb_hw := h\<rparr>) s"
  proof (rule achieves_bindI)
    show "achieves m (\<lambda>_ t. \<exists>h. t = s\<lparr>usb_hw := h\<rparr>) s" using assms(1) p by (simp add: hw_only_def)
    fix x t
    assume "\<exists>h. t = s\<lparr>usb_hw := h\<rparr>"
    then obtain h where t: "t = s\<lparr>usb_hw := h\<rparr>" by blast
    then have "achieves (f x) (\<lambda>_ t'. \<exists>h. t' = t\<lparr>usb_hw := h\<rparr>) t"
      using assms(2) [of x, unfolded hw_only_def, rule_format, of t] p t by simp
    then show "achieves (f x) (\<lambda>_ t. \<exists>h. t = s\<lparr>usb_hw := h\<rparr>) t"
      by (rule achieves_mono) (auto simp: t)
  qed
qed

lemma hw_only_then: "hw_only m \<Longrightarrow> hw_only k \<Longrightarrow> hw_only (io_then m k)"
  unfolding io_then_def by (rule hw_only_bind)

lemma hw_only_num:
  fixes m :: "u8 \<Rightarrow> ('h, 'a) io"
  assumes "\<And>h. achieves (m 0) (\<lambda>_ _. True) h"
  shows "hw_only (with_num 0 m :: ('h, 'c, 'a) usb_io)"
  unfolding hw_only_def
proof (intro allI impI)
  fix s :: "('h, 'c) usb"
  assume "0 < length (pipes s)" "pipe_num (pipes s ! 0) = 0"
  moreover obtain x h where "m 0 (usb_hw s) = Inr (x, h)" using assms by (fastforce simp: achieves_def)
  ultimately show "achieves (with_num 0 m) (\<lambda>_ t. \<exists>h. t = s\<lparr>usb_hw := h\<rparr>) s"
    by (auto simp: achieves_def with_num_def get_pipe_def io_simps)
qed

lemma hw_only_pipe0: "hw_only (get_pipe 0)"
  unfolding hw_only_def get_pipe_def by (simp add: achieves_simps) (metis usb.surjective usb.update_convs(1))

lemma hw_only_res: "hw_only (io_res (Inr x))"
  unfolding hw_only_def by (simp add: achieves_simps) (metis usb.surjective usb.update_convs(1))

lemma hw_only_if: "hw_only m \<Longrightarrow> hw_only k \<Longrightarrow> hw_only (if c then m else k)"
  by simp

lemma hw_only_for: "(\<And>i. i \<in> set is \<Longrightarrow> hw_only (body i ())) \<Longrightarrow> hw_only (for_io body is ())"
  by (induction "is") (auto intro: hw_only_return hw_only_bind)

lemma hw_only_set: "hw_only (on_hw (reg_set b a v))"
  by (auto simp: hw_only_def achieves_simps)

lemmas hw_ops = usbhw_pipe_get_byte_count_def usbhw_pipe_clear_status_def usbhw_pipe_set_token_def
  usbhw_pipe_enable_interrupt_def usbhw_pipe_disable_interrupt_def usbhw_pipe_get_status_def usbhw_pipe_set_addr_def
  usbhw_pipe_disable_def reg_and_def

lemmas hw_only_intros = hw_only_return hw_only_bind hw_only_then hw_only_pipe0 hw_only_res hw_only_if hw_only_set hw_only_num

lemma write_setup_hw:
  assumes "length su = 8"
  shows "hw_only (for_io (\<lambda>i _. io_bind (io_res (array_get su i)) (\<lambda>c. on_hw (reg_set b (a + of_nat i) (ucast c)))) [0..<8] ())"
  by (rule hw_only_for) (use assms in \<open>auto intro!: hw_only_intros\<close>)

lemma setup_out_hw: "length su = 8 \<Longrightarrow> hw_only (usbhc_setup_out b 0 su)"
  unfolding usbhc_setup_out_def
  by (intro hw_only_intros write_setup_hw) (auto simp: achieves_simps hw_ops Let_def split: prod.split)

lemma status_hw: "hw_only (with_num 0 (usbhw_pipe_get_status b))"
  and address_hw: "hw_only (usbhc_set_address b 0 x)"
  and disable_hw: "hw_only (with_num 0 (usbhw_pipe_disable b))"
  unfolding usbhc_set_address_def
  by (intro hw_only_intros; auto simp: achieves_simps hw_ops Let_def split: prod.split)+

section \<open>A stage of the enumeration\<close>

text \<open>The request \<open>u\<close> of the enumeration is alone in the queue of pipe 0 and its setup packet is \<open>req\<close>; the device with
  address \<open>d\<close> in memory is being enumerated.\<close>

definition pipe0_ok :: "('h, usb_core) usb \<Rightarrow> bool" where
  "pipe0_ok s \<longleftrightarrow> 0 < length (pipes s) \<and> pipe_num (pipes s ! 0) = 0 \<and> length (bufs s Enum_Buffer) = 1024"

definition waiting :: "u32 \<Rightarrow> usb_setup_desc \<Rightarrow> ('h, usb_core) usb \<Rightarrow> bool" where
  "waiting u req s \<longleftrightarrow> pipe0_ok s \<and> ring (nodes s) (PipeHead 0) [UrbNode u]
     \<and> pipe_state_of (pipes s ! 0) = PIPE_STATE_CTRL_OUT \<and> bufs s Setup_Buffer = setup_bytes req
     \<and> urb_flags (urbs s u) = URB_FLAGS_SETUP \<and> setup_buffer (urbs s u) = Setup_Buffer
     \<and> transfer_buffer (urbs s u) = Enum_Buffer \<and> transfer_length (urbs s u) = ucast (wLength req)
     \<and> urb_context (urbs s u)"

text \<open>What stays as it was, but for the list of pipe 0.\<close>

definition same_core :: "('h, usb_core) usb \<Rightarrow> ('h, usb_core) usb \<Rightarrow> bool" where
  "same_core s t \<longleftrightarrow> core t = core s \<and> usb_mm t = usb_mm s
     \<and> (\<forall>n. n \<notin> range PipeHead \<union> range UrbNode \<longrightarrow> nodes t n = nodes s n)"

lemma length_setup_bytes [simp]: "length (setup_bytes req) = 8"
  by (simp add: setup_bytes_def)

lemma le16_split: "le16 (ucast v) (ucast (drop_bit 8 v)) = v"
  by (rule bit_word_eqI) (auto simp: le16_def bit_simps)

lemma setup_fields:
  "half_at (setup_bytes req) 6 = Inr (wLength req)" "half_at (setup_bytes req) 2 = Inr (wValue req)"
  "array_get (setup_bytes req) 2 = Inr (ucast (wValue req))"
  by (simp_all add: half_at_def setup_bytes_def array_get_def le16_split)

lemma flags_simps [simp]: "URB_FLAGS_SETUP \<noteq> 0" "URB_FLAGS_SETUP AND URB_FLAGS_INTERRUPT_IN = 0"
  by (simp_all add: URB_FLAGS_SETUP_def URB_FLAGS_INTERRUPT_IN_def)

lemma achieves_hw:
  assumes "hw_only m" "0 < length (pipes s)" "pipe_num (pipes s ! 0) = 0" "\<And>x h. Q x (s\<lparr>usb_hw := h\<rparr>)"
  shows "achieves m Q s"
  using assms unfolding hw_only_def by (blast intro: achieves_mono)

lemma send_setup_waits:
  assumes "pipe0_ok s" "ring (nodes s) (PipeHead 0) []" "urb_context (urbs s u)"
  shows "achieves (send_setup b u req) (\<lambda>_ t. waiting u req t \<and> same_core s t) s"
proof -
  have ring: "ln_next (nodes s (PipeHead 0)) = Some (PipeHead 0)" using assms(2) by (simp add: ring_def)
  have add: "\<exists>n. list_add_last (UrbNode u) (PipeHead 0) (nodes s) = Inr n \<and> ring n (PipeHead 0) [UrbNode u]
      \<and> (\<forall>x. x \<notin> {UrbNode u, PipeHead 0} \<longrightarrow> n x = nodes s x)"
    using add_last_yields [OF assms(2), of "UrbNode u"] by (auto simp: ring_yields_def)
  then obtain n where n: "list_add_last (UrbNode u) (PipeHead 0) (nodes s) = Inr n" "ring n (PipeHead 0) [UrbNode u]"
    "\<And>x. x \<notin> {UrbNode u, PipeHead 0} \<Longrightarrow> n x = nodes s x" by blast
  show ?thesis
    unfolding send_setup_def usbhc_fill_control_urb_def usbhc_submit_urb_def usbhc_start_urb_def set_state_def set_pipe_def
    apply (simp add: achieves_simps setup_fields set_urb_def get_urb_def)
    apply (rule achieves_hw [OF status_hw])
    using assms ring n
      apply (simp_all add: pipe0_ok_def achieves_simps on_nodes_def get_pipe_def set_urb_def get_urb_def)
    apply (rule achieves_hw [OF setup_out_hw])
    apply (auto simp: achieves_simps waiting_def pipe0_ok_def same_core_def)
    done
qed

text \<open>The device answers with some bytes; the request ends and the handler runs.\<close>

definition answer :: "u32 \<Rightarrow> u8 list \<Rightarrow> ('h, unit) core_io" where
  "answer u bs = io_then (io_update (\<lambda>s. s\<lparr>bufs := (bufs s)(Enum_Buffer := bs @ drop (length bs) (bufs s Enum_Buffer))\<rparr>))
     (set_urb u (\<lambda>r. r\<lparr>acctual_length := of_nat (length bs)\<rparr>))"

definition reply :: "'h mmio \<Rightarrow> u32 \<Rightarrow> u8 list \<Rightarrow> ('h, unit) core_io" where
  "reply b u bs = io_then (answer u bs) (usbhc_end_urb b (core_upcall b) u 0 URB_STATUS_OK)"

definition answered :: "u32 \<Rightarrow> usb_setup_desc \<Rightarrow> u8 list \<Rightarrow> ('h, usb_core) usb \<Rightarrow> bool" where
  "answered u req bs s \<longleftrightarrow> pipe0_ok s \<and> ring (nodes s) (PipeHead 0) [] \<and> urb_context (urbs s u)
     \<and> status_of (urbs s u) = URB_STATUS_OK \<and> setup_buffer (urbs s u) = Setup_Buffer
     \<and> transfer_buffer (urbs s u) = Enum_Buffer \<and> bufs s Setup_Buffer = setup_bytes req
     \<and> acctual_length (urbs s u) = of_nat (length bs) \<and> (\<exists>rest. bufs s Enum_Buffer = bs @ rest)"

lemma urb_upcall_handler: "urb_upcall b (Urb_Done cb u) = usbc_enumerate_handler b u"
  by (cases cb) simp

lemma reply_stage:
  assumes "waiting u req s" "length bs \<le> 1024"
    and "\<And>s1. answered u req bs s1 \<Longrightarrow> same_core s s1 \<Longrightarrow> achieves (usbc_enumerate_handler b u) (\<lambda>_ t. waiting u req' t \<and> P t) s1"
  shows "achieves (reply b u bs) (\<lambda>_ t. waiting u req' t \<and> P t) s"
proof -
  have w: "pipe0_ok s" "ring (nodes s) (PipeHead 0) [UrbNode u]" "urb_flags (urbs s u) = URB_FLAGS_SETUP"
    "urb_context (urbs s u)" "setup_buffer (urbs s u) = Setup_Buffer" "transfer_buffer (urbs s u) = Enum_Buffer"
    "bufs s Setup_Buffer = setup_bytes req"
    using assms(1) by (auto simp: waiting_def)
  obtain n where n: "list_delete_node (UrbNode u) (nodes s) = Inr n" "ring n (PipeHead 0) []"
    "\<And>x. x \<notin> {UrbNode u, PipeHead 0} \<Longrightarrow> n x = nodes s x"
    using delete_node_yields [of "nodes s" "PipeHead 0" "[]" "UrbNode u" "[]"] w(2) by (auto simp: ring_yields_def)
  define s1 where "s1 = s\<lparr>bufs := (bufs s)(Enum_Buffer := bs @ drop (length bs) (bufs s Enum_Buffer)),
     pipes := (pipes s)[0 := (pipes s ! 0)\<lparr>pipe_state_of := PIPE_STATE_IDLE\<rparr>], nodes := n,
     urbs := (urbs s)(u := (urbs s u)\<lparr>acctual_length := of_nat (length bs), status_of := URB_STATUS_OK\<rparr>)\<rparr>"
  have "answered u req bs s1" "same_core s s1"
    using w n assms(2) by (auto simp: s1_def answered_def same_core_def pipe0_ok_def)
  then have "achieves (usbc_enumerate_handler b u) (\<lambda>_ t. waiting u req' t \<and> P t) s1" by (rule assms(3))
  then have "achieves (usbc_enumerate_handler b u) (\<lambda>_ t. \<exists>q. q = pipes t ! 0 \<and> pipes t \<noteq> []
      \<and> pipe_state_of q = PIPE_STATE_CTRL_OUT \<and> waiting u req' t \<and> P t) s1"
    by (rule achieves_mono) (auto simp: waiting_def pipe0_ok_def)
  then show ?thesis
    using w n unfolding reply_def answer_def usbhc_end_urb_def set_state_def set_pipe_def
    apply (simp add: achieves_simps set_urb_def get_urb_def get_pipe_def pipe0_ok_def on_nodes_def urb_upcall_handler flip: s1_def)
    apply (erule achieves_mono)
    apply (simp add: achieves_simps)
    done
qed

section \<open>The descriptors of a device\<close>

definition ifaces_added :: "u32 \<Rightarrow> u32 \<Rightarrow> nat \<Rightarrow> usb_node lheap \<Rightarrow> usb_node lheap \<Rightarrow> bool" where
  "ifaces_added d a n h h' \<longleftrightarrow> ring h' (IfaceHead d) (rev (map (IfaceNode a) [0..<n]))
     \<and> (\<forall>x. x \<notin> insert (IfaceHead d) (range (IfaceNode a)) \<longrightarrow> h' x = h x)"

lemma init_ifaces_ring:
  fixes s :: "('h, 'c) usb"
  assumes "ring (nodes s) (IfaceHead d) []"
  shows "achieves (for_io (\<lambda>i _. on_nodes (list_add_first (IfaceNode a i) (IfaceHead d))) [0..<n] ())
     (\<lambda>_ t. \<exists>h. t = s\<lparr>nodes := h\<rparr> \<and> ifaces_added d a n (nodes s) h) s"
proof -
  have "achieves (for_io (\<lambda>i _. on_nodes (list_add_first (IfaceNode a i) (IfaceHead d))) [0..<n] ())
     ((\<lambda>k _ t. t = s\<lparr>nodes := nodes t\<rparr> \<and> ifaces_added d a k (nodes s) (nodes t)) (length [0..<n])) s"
  proof (rule achieves_for)
    fix k acc and t :: "('h, 'c) usb"
    assume k: "k < length [0..<n]" and "t = s\<lparr>nodes := nodes t\<rparr> \<and> ifaces_added d a k (nodes s) (nodes t)"
    then have t: "t = s\<lparr>nodes := nodes t\<rparr>" and h: "ring (nodes t) (IfaceHead d) (rev (map (IfaceNode a) [0..<k]))"
      and frame: "\<forall>x. x \<notin> insert (IfaceHead d) (range (IfaceNode a)) \<longrightarrow> nodes t x = nodes s x"
      by (auto simp: ifaces_added_def)
    have new: "IfaceNode a k \<notin> set (IfaceHead d # rev (map (IfaceNode a) [0..<k]))" by auto
    obtain h' where h': "list_add_first (IfaceNode a k) (IfaceHead d) (nodes t) = Inr h'"
      "ring h' (IfaceHead d) (IfaceNode a k # rev (map (IfaceNode a) [0..<k]))"
      "\<forall>x. x \<notin> insert (IfaceNode a k) (set (IfaceHead d # rev (map (IfaceNode a) [0..<k]))) \<longrightarrow> h' x = nodes t x"
      using add_first_yields [OF h new] by (auto simp: ring_yields_def)
    have outside: "x \<notin> insert (IfaceNode a k) (set (IfaceHead d # rev (map (IfaceNode a) [0..<k])))"
      if "x \<notin> insert (IfaceHead d) (range (IfaceNode a))" for x using that by auto
    have frame': "\<forall>x. x \<notin> insert (IfaceHead d) (range (IfaceNode a)) \<longrightarrow> h' x = nodes t x"
      using h'(3) outside by blast
    have "t\<lparr>nodes := h'\<rparr> = s\<lparr>nodes := h'\<rparr>" by (subst t) simp
    then show "achieves (on_nodes (list_add_first (IfaceNode a ([0..<n] ! k)) (IfaceHead d)))
        (\<lambda>_ t. t = s\<lparr>nodes := nodes t\<rparr> \<and> ifaces_added d a (Suc k) (nodes s) (nodes t)) t"
      using k h'(1,2) frame frame' by (simp add: on_nodes_def achieves_simps ifaces_added_def)
  qed (use assms in \<open>auto simp: ifaces_added_def\<close>)
  then have "achieves (for_io (\<lambda>i _. on_nodes (list_add_first (IfaceNode a i) (IfaceHead d))) [0..<n] ())
     (\<lambda>_ t. t = s\<lparr>nodes := nodes t\<rparr> \<and> ifaces_added d a n (nodes s) (nodes t)) s" by simp
  then show ?thesis by (rule achieves_mono) blast
qed

definition tree_counts :: "config_tree list \<Rightarrow> counts" where
  "tree_counts t = (of_nat (length t), of_nat (length (flat_ifaces t)), of_nat (length (flat_eps (flat_ifaces t))))"

definition tree_bytes :: "config_tree list \<Rightarrow> u32" where
  "tree_bytes t = (case tree_counts t of (c, i, e) \<Rightarrow> desc_mem_size c i e)"

lemma verify_tree:
  assumes "list_all good_config cs" "length (sent_bytes cs @ rest) < 2 ^ 32"
  shows "usbc_verify_descriptors (sent_bytes cs @ rest) (of_nat (length (sent_bytes cs))) s
    = Inr (Some (tree_counts (map config_tree_of cs)), s)"
proof -
  have "repeat_io (verify_step (sent_bytes cs @ rest) (of_nat (length (sent_bytes cs)))) (0, 0, 0, 0) s
      = Inr (Some (fold tally (concat (map sent_config_list cs)) (0, 0, 0)), s)"
    using assms sent_well_formed(3)
    by (intro verify_list [where w = rest]) (auto simp: sent_bytes_def list_all_iff unat_of_nat take_bit_nat_eq_self)
  then show ?thesis
    using assms(1) by (simp add: usbc_verify_descriptors_def tally_configs tree_counts_def)
qed

lemma walk_tree:
  assumes "list_all good_config cs" "length (sent_bytes cs @ rest) < 2 ^ 32" "5 \<le> length rest"
  shows "\<exists>ps. parse_walk (sent_bytes cs @ rest) (of_nat (length (sent_bytes cs)))
       \<lparr>ps_mem = m, ps_num_configs = n, config_index = 0, iface_index = 0, ep_index = 0, last_cfg = None, last_iface = None\<rparr> s
       = Inr (Some ps, s)
     \<and> stores_tree (ps_mem ps) (map config_tree_of cs) \<and> ps_num_configs ps = n + of_nat (length cs)"
proof -
  let ?s0 = "\<lparr>ps_mem = m, ps_num_configs = n, config_index = 0, iface_index = 0, ep_index = 0, last_cfg = None, last_iface = None\<rparr>"
  let ?ds = "concat (map sent_config_list cs)"
  have "repeat_io (parse_step (sent_bytes cs @ rest) (of_nat (length (sent_bytes cs)))) (0, ?s0) s
      = Inr (parse_list (concat ?ds @ rest) ?ds ?s0, s)"
    using assms sent_well_formed(3)
    by (intro parse_walk_list) (auto simp: sent_bytes_def list_all_iff unat_of_nat take_bit_nat_eq_self)
  moreover have "walked n ?s0 []"
    by (simp add: walked_def stores_tree_def stores_configs_def stores_ifaces_def stores_eps_def)
  then have "\<exists>ps. parse_list (concat ?ds @ rest) ?ds ?s0 = Some ps \<and> walked n ps ([] @ map config_tree_of cs)"
    using assms sent_bytes_bounds [of cs] by (intro parse_configs) auto
  ultimately show ?thesis by (auto simp: parse_walk_def walked_def)
qed

lemma flat_ifaces_less:
  assumes "list_all good_config cs" "length (sent_bytes cs) < 2 ^ 32"
  shows "length (flat_ifaces (map config_tree_of cs)) < 2 ^ 32"
proof -
  have "length (snd (config_tree_of c)) \<le> length (sent_config_list c)" for c
    using length_le_concat [of "snd (snd c)" sent_iface_list]
    by (auto simp: config_tree_of_def sent_config_list_def split: prod.split)
  then have "length (flat_ifaces (map config_tree_of cs)) \<le> length (concat (map sent_config_list cs))"
    by (induction cs) (auto simp: flat_ifaces_def intro: add_mono)
  also have "\<dots> \<le> length (sent_bytes cs)"
    using length_le_concat [of "concat (map sent_config_list cs)" "\<lambda>d. d"] assms(1) sent_well_formed(3)
    by (fastforce simp: sent_bytes_def list_all_iff well_formed_desc_def)
  finally show ?thesis using assms(2) by simp
qed

text \<open>The state after a device with well-formed descriptors was parsed.\<close>

definition parsed :: "u32 \<Rightarrow> u32 \<Rightarrow> config_tree list \<Rightarrow> ('h, usb_core) usb \<Rightarrow> ('h, usb_core) usb \<Rightarrow> bool" where
  "parsed d ptr t s s' \<longleftrightarrow> s' = s\<lparr>usb_mm := usb_mm s', nodes := nodes s', core := (core s)\<lparr>
        devs := (devs (core s))(d := (devs (core s) d)\<lparr>dev_configs := ptr, desc_total_size := tree_bytes t,
          num_configs := num_configs (devs (core s) d) + of_nat (length t)\<rparr>),
        desc_store := (desc_store (core s))(ptr := desc_store (core s') ptr)\<rparr>\<rparr>
     \<and> stores_tree (desc_store (core s') ptr) t \<and> ifaces_added d ptr (length (flat_ifaces t)) (nodes s) (nodes s')"

lemma parse_stores:
  fixes s :: "('h, usb_core) usb"
  assumes "list_all good_config cs" "length (sent_bytes cs @ rest) < 2 ^ 32" "5 \<le> length rest"
    "bmalloc (tree_bytes (map config_tree_of cs)) 0 (usb_mm s) = Inr (ptr, mm')" "ptr \<noteq> 0"
    "ring (nodes s) (IfaceHead d) []"
  shows "achieves (usbc_parse_descriptors d (sent_bytes cs @ rest) (of_nat (length (sent_bytes cs))))
     (\<lambda>v s'. v = 1 \<and> parsed d ptr (map config_tree_of cs) s s') s"
proof -
  let ?t = "map config_tree_of cs"
  have small: "length (flat_ifaces ?t) < 2 ^ 32" using assms(1,2) by (intro flat_ifaces_less) auto
  have verify: "achieves (usbc_verify_descriptors (sent_bytes cs @ rest) (of_nat (length (sent_bytes cs)))) Q x
      \<longleftrightarrow> Q (Some (tree_counts ?t)) x" for Q and x :: "('h, usb_core) usb"
    by (simp add: achieves_def verify_tree [OF assms(1,2)])
  have walk: "(\<And>ps. stores_tree (ps_mem ps) ?t \<Longrightarrow> ps_num_configs ps = n + of_nat (length cs) \<Longrightarrow> Q (Some ps) x) \<Longrightarrow>
      achieves (parse_walk (sent_bytes cs @ rest) (of_nat (length (sent_bytes cs)))
       \<lparr>ps_mem = m, ps_num_configs = n, config_index = 0, iface_index = 0, ep_index = 0, last_cfg = None, last_iface = None\<rparr>) Q x"
    for m n Q and x :: "('h, usb_core) usb"
    using walk_tree [OF assms(1-3), of m n x] by (auto simp: achieves_def)
  show ?thesis
    unfolding usbc_parse_descriptors_def usbc_alloc_descriptors_def usbc_init_descriptors_def
    using assms(4-5) small
    apply (simp add: achieves_simps verify tree_counts_def tree_bytes_def Let_def get_dev_def set_dev_def set_store_def unat_of_nat take_bit_nat_eq_self)
    apply (rule achieves_mono [OF init_ifaces_ring])
     apply (simp add: assms(6))
    apply (clarsimp simp: achieves_simps)
    apply (rule walk)
    apply (simp add: achieves_simps parsed_def tree_bytes_def tree_counts_def)
    done
qed

section \<open>The stages\<close>

text \<open>The state of the core after a stage that stored something of the device, and the rest of the system.\<close>

definition moved :: "('h, usb_core) usb \<Rightarrow> usb_core \<Rightarrow> ('h, usb_core) usb \<Rightarrow> bool" where
  "moved s c t \<longleftrightarrow> core t = c \<and> usb_mm t = usb_mm s
     \<and> (\<forall>n. n \<notin> range PipeHead \<union> range UrbNode \<longrightarrow> nodes t n = nodes s n)"

definition dev_stored :: "usb_enum_state \<Rightarrow> u32 \<Rightarrow> (usb_dev \<Rightarrow> usb_dev) \<Rightarrow> usb_core \<Rightarrow> usb_core" where
  "dev_stored st d f c = c\<lparr>enum_state := st, devs := (devs c)(d := f (devs c d))\<rparr>"

lemma send_setup_moves:
  assumes "pipe0_ok s" "ring (nodes s) (PipeHead 0) []" "urb_context (urbs s u)"
    "\<And>t. waiting u req t \<Longrightarrow> same_core s t \<Longrightarrow> Q () t"
  shows "achieves (send_setup b u req) Q s"
  by (rule achieves_mono [OF send_setup_waits [OF assms(1-3)]]) (use assms(4) in auto)

lemma widened [simp]: "ucast (ucast a :: u16) = (a :: u8)" "ucast (ucast h :: u32) = (h :: u16)"
  by (rule bit_word_eqI, simp add: bit_simps)+

lemmas stage_defs = usbc_enumerate_handler_def current_dev_def get_dev_def set_dev_def to_enum_def transfer_bytes_def
  setup_of_def get_urb_def

lemma stage_ep0_size:
  assumes "answered u req bs s" "enum_state (core s) = USB_ENUM_GET_EP0_SIZE" "enum_dev (core s) = Some d"
    "8 \<le> length bs" "8 \<le> bs ! 7"
  shows "achieves (usbc_enumerate_handler b u) (\<lambda>_ t. waiting u (get_descriptor USB_DESC_DEVICE 0 0 18) t
    \<and> moved s (dev_stored USB_ENUM_GET_DEV_DESC d (\<lambda>dev. dev\<lparr>ep0_size := ucast (bs ! 7)\<rparr>) (core s)) t) s"
proof -
  obtain rest where "bufs s Enum_Buffer = bs @ rest" using assms(1) by (auto simp: answered_def)
  then show ?thesis
    using assms unfolding stage_defs usbc_ep0_size_done_def usbhc_set_ep_size_def set_pipe_def get_pipe_def usbc_get_dev_desc_def
    apply (simp add: achieves_simps answered_def array_get_def nth_append not_less pipe0_ok_def)
    apply (rule send_setup_moves)
       apply (simp_all add: pipe0_ok_def same_core_def moved_def dev_stored_def)
    done
qed

lemma stage_dev_desc:
  assumes "answered u (get_descriptor USB_DESC_DEVICE 0 0 18) bs s" "enum_state (core s) = USB_ENUM_GET_DEV_DESC"
    "enum_dev (core s) = Some d" "length bs = 18" "length (dev_desc (devs (core s) d)) = 18"
    "usbc_new_address (dev_addr_bm (core s)) = (addr, bm)"
  shows "achieves (usbc_enumerate_handler b u) (\<lambda>_ t. waiting u \<lparr>bmRequestType = USB_HOST_TO_DEVICE,
      bRequest = USB_REQ_SET_ADDRESS, wValue = ucast addr, wIndex = 0, wLength = 0\<rparr> t
    \<and> moved s (dev_stored USB_ENUM_SET_ADDRESS d (\<lambda>dev. dev\<lparr>dev_desc := bs\<rparr>) (core s)\<lparr>dev_addr_bm := bm\<rparr>) t) s"
proof -
  obtain rest where "bufs s Enum_Buffer = bs @ rest" using assms(1) by (auto simp: answered_def)
  then show ?thesis
    using assms unfolding stage_defs usbc_device_desc_done_def usbc_set_dev_addr_def
    apply (simp add: achieves_simps answered_def setup_fields get_descriptor_def read_slice_def)
    apply (rule send_setup_moves)
       apply (simp_all add: pipe0_ok_def same_core_def moved_def dev_stored_def)
    done
qed

lemma stage_address:
  assumes "answered u req bs s" "enum_state (core s) = USB_ENUM_SET_ADDRESS" "enum_dev (core s) = Some d"
    "wValue req = ucast addr"
  shows "achieves (usbc_enumerate_handler b u) (\<lambda>_ t. waiting u (get_descriptor USB_DESC_CONFIG 0 0 9) t
    \<and> moved s (dev_stored USB_ENUM_GET_DESC_LENGTH d (\<lambda>dev. dev\<lparr>dev_address := addr\<rparr>) (core s)) t) s"
  using assms unfolding stage_defs usbc_address_done_def usbc_get_cfg_desc_def
  apply (simp add: achieves_simps answered_def setup_fields)
  apply (rule achieves_hw [OF address_hw])
    apply (simp_all add: pipe0_ok_def achieves_simps)
  apply (rule send_setup_moves)
     apply (simp_all add: pipe0_ok_def same_core_def moved_def dev_stored_def)
  done

lemma stage_length:
  assumes "answered u req bs s" "enum_state (core s) = USB_ENUM_GET_DESC_LENGTH" "enum_dev (core s) = Some d"
    "length bs = 9"
  shows "achieves (usbc_enumerate_handler b u)
    (\<lambda>_ t. waiting u (get_descriptor USB_DESC_CONFIG 0 0 (le16 (bs ! 2) (bs ! 3))) t
    \<and> moved s (dev_stored USB_ENUM_GET_DESCRIPTORS d (\<lambda>dev. dev\<lparr>desc_total_size := ucast (le16 (bs ! 2) (bs ! 3))\<rparr>) (core s)) t) s"
proof -
  obtain rest where "bufs s Enum_Buffer = bs @ rest" using assms(1) by (auto simp: answered_def)
  then show ?thesis
    using assms unfolding stage_defs usbc_desc_length_done_def usbc_get_all_desc_def
    apply (simp add: achieves_simps answered_def half_at_def array_get_def nth_append current_dev_def get_dev_def)
    apply (rule send_setup_moves)
       apply (simp_all add: pipe0_ok_def same_core_def moved_def dev_stored_def)
    done
qed

text \<open>The string index of the next name is a byte of the device descriptor.\<close>

definition string_request :: "u8 \<Rightarrow> usb_setup_desc" where
  "string_request i = get_descriptor USB_DESC_STRING i 0 1024"

lemma ring_empty_frame: "ring h l [] \<Longrightarrow> h' l = h l \<Longrightarrow> ring h' l []"
  by (simp add: ring_def)

lemma parsed_keeps:
  assumes "parsed d ptr T s t" "pipe0_ok s" "ring (nodes s) (PipeHead 0) []"
  shows "pipe0_ok t \<and> ring (nodes t) (PipeHead 0) [] \<and> urbs t = urbs s
    \<and> dev_desc (devs (core t) d) = dev_desc (devs (core s) d)"
proof -
  obtain mm h m where t: "t = s\<lparr>usb_mm := mm, nodes := h, core := (core s)\<lparr>
        devs := (devs (core s))(d := (devs (core s) d)\<lparr>dev_configs := ptr, desc_total_size := tree_bytes T,
          num_configs := num_configs (devs (core s) d) + of_nat (length T)\<rparr>),
        desc_store := (desc_store (core s))(ptr := m)\<rparr>\<rparr>"
    using assms(1) unfolding parsed_def by blast
  have "h (PipeHead 0) = nodes s (PipeHead 0)"
    using assms(1) by (auto simp: parsed_def ifaces_added_def t)
  then show ?thesis using assms(2,3) by (simp add: t pipe0_ok_def ring_empty_frame)
qed

lemma stage_descriptors:
  assumes "answered u req (sent_bytes cs) s" "enum_state (core s) = USB_ENUM_GET_DESCRIPTORS" "enum_dev (core s) = Some d"
    "list_all good_config cs" "length (sent_bytes cs) \<le> 1019" "length (dev_desc (devs (core s) d)) = 18"
    "bmalloc (tree_bytes (map config_tree_of cs)) 0 (usb_mm s) = Inr (ptr, mm')" "ptr \<noteq> 0" "ring (nodes s) (IfaceHead d) []"
  shows "achieves (usbc_enumerate_handler b u) (\<lambda>_ t. waiting u (string_request (dev_desc (devs (core s) d) ! 15)) t
    \<and> (\<exists>s1. parsed d ptr (map config_tree_of cs) s s1 \<and> moved s1 ((core s1)\<lparr>enum_state := USB_ENUM_GET_PRODUCT_NAME\<rparr>) t)) s"
proof -
  let ?req = "string_request (dev_desc (devs (core s) d) ! 15)" and ?T = "map config_tree_of cs"
  obtain rest where rest: "bufs s Enum_Buffer = sent_bytes cs @ rest" using assms(1) by (auto simp: answered_def)
  have "length (sent_bytes cs @ rest) = 1024"
    using assms(1) rest by (simp add: answered_def pipe0_ok_def)
  then have len: "length (sent_bytes cs @ rest) < 2 ^ 32" "5 \<le> length rest" using assms(5) by simp_all
  have next_request: "achieves (send_setup b u ?req) (\<lambda>_ t'. waiting u ?req t'
      \<and> (\<exists>s1. parsed d ptr ?T s s1 \<and> moved s1 ((core s1)\<lparr>enum_state := USB_ENUM_GET_PRODUCT_NAME\<rparr>) t'))
      (t\<lparr>core := (core t)\<lparr>enum_state := USB_ENUM_GET_PRODUCT_NAME\<rparr>\<rparr>)" if t: "parsed d ptr ?T s t" for t
    by (rule send_setup_moves)
      (use parsed_keeps [OF t] assms(1) t in \<open>auto simp: answered_def pipe0_ok_def same_core_def moved_def\<close>)
  show ?thesis
    using assms rest unfolding stage_defs usbc_get_all_desc_done_def usb_get_string_desc_def
    apply (simp add: achieves_simps answered_def)
    apply (rule achieves_mono [OF parse_stores [OF assms(4) len assms(7,8,9)]])
    subgoal for x t
      using parsed_keeps [of d ptr ?T s t] next_request [of t]
      by (simp add: achieves_simps array_get_def string_request_def)
    done
qed

text \<open>A string descriptor: its length, its type and the characters.\<close>

definition string_bytes :: "u8 list \<Rightarrow> u8 list" where
  "string_bytes cs = of_nat (2 + 2 * length cs) # USB_DESC_STRING # unicode cs"

definition stored_name :: "u8 list \<Rightarrow> u8 list \<Rightarrow> u8 list" where
  "stored_name cs old = take 63 cs @ [0] @ drop (length (take 63 cs) + 1) old"

lemma uni_to_string_run:
  assumes "length out = 64" "length cs < 2 ^ 31"
  shows "usbc_uni_to_string (unicode cs @ rest) (of_nat (length (unicode cs))) out 64 s = Inr (stored_name cs out, s)"
  using uni_loop [of out 0 cs rest s] assms by (simp add: usbc_uni_to_string_def append_at_def stored_name_def)

lemma stage_product:
  assumes "answered u (string_request i) (string_bytes cs) s" "enum_state (core s) = USB_ENUM_GET_PRODUCT_NAME"
    "enum_dev (core s) = Some d" "i \<noteq> 0" "length cs \<le> 511" "length (product (devs (core s) d)) = 64"
    "length (dev_desc (devs (core s) d)) = 18"
  shows "achieves (usbc_enumerate_handler b u) (\<lambda>_ t. waiting u (string_request (dev_desc (devs (core s) d) ! 14)) t
    \<and> moved s (dev_stored USB_ENUM_GET_MANUFACTURER_NAME d
        (\<lambda>dev. dev\<lparr>product := stored_name cs (product dev)\<rparr>) (core s)) t) s"
proof -
  obtain rest where rest: "bufs s Enum_Buffer = string_bytes cs @ rest" using assms(1) by (auto simp: answered_def)
  have len: "(of_nat (length (string_bytes cs)) :: u32) - 2 = of_nat (length (unicode cs))"
    by (simp add: string_bytes_def)
  have run: "achieves (usbc_uni_to_string (drop 2 (bufs s Enum_Buffer)) (of_nat (length (string_bytes cs)) - 2)
      (product (devs (core s) d)) 64) Q t \<longleftrightarrow> Q (stored_name cs (product (devs (core s) d))) t" for Q and t :: "('a, usb_core) usb"
    using uni_to_string_run [of "product (devs (core s) d)" cs rest t] assms(5,6)
    unfolding len by (simp add: achieves_def rest string_bytes_def)
  have "ucast (wValue (string_request i)) = i"
    by (rule bit_word_eqI) (auto simp: string_request_def get_descriptor_def descriptor_value_def le16_def bit_simps)
  then have index: "setup_bytes (string_request i) ! 2 = i" by (simp add: setup_bytes_def)
  show ?thesis
    using assms unfolding stage_defs usbc_get_product_name_done_def name_done_def usb_get_string_desc_def
    apply (simp add: achieves_simps answered_def setup_fields index run array_get_def flip: string_request_def)
    apply (rule send_setup_moves)
       apply (simp_all add: pipe0_ok_def same_core_def moved_def dev_stored_def)
    done
qed

section \<open>Drivers\<close>

lemma list_iterate_ring:
  fixes body :: "usb_node \<Rightarrow> ('h, 'r option) core_io"
  assumes "ring (nodes s) l xs" "P [] s"
    and step: "\<And>ys x zs t. xs = ys @ x # zs \<Longrightarrow> P ys t \<Longrightarrow> nodes t = nodes s \<Longrightarrow>
      achieves (body x) (\<lambda>r t'. nodes t' = nodes s \<and> (case r of None \<Rightarrow> P (ys @ [x]) t' | Some v \<Rightarrow> Q v t')) t"
    and stop: "\<And>t. P xs t \<Longrightarrow> nodes t = nodes s \<Longrightarrow> Q dflt t"
  shows "achieves (list_iterate l body dflt) Q s"
proof -
  have seg: "lseg (nodes s) (Some l) xs (Some l)" "l \<notin> set xs" "ln_next (nodes s l) = head_or xs (Some l)"
    using assms(1) by (auto simp: ring_def)
  have "achieves (repeat_io (iterate_step l body dflt) (head_or zs (Some l))) Q t"
    if "xs = ys @ zs" "P ys t" "nodes t = nodes s" for ys zs t
    using that
  proof (induction zs arbitrary: ys t)
    case Nil
    then have "repeat_io (iterate_step l body dflt) (head_or [] (Some l)) t = Inr (dflt, t)"
      by (intro repeat_io_leave) (simp add: iterate_step_def io_simps)
    then show ?case using Nil stop by (simp add: achieves_def)
  next
    case (Cons x zs)
    have x: "x \<noteq> l" "ln_next (nodes s x) = head_or zs (Some l)" using seg Cons.prems(1) by auto
    obtain r t' where r: "body x t = Inr (r, t')" "nodes t' = nodes s" "case r of None \<Rightarrow> P (ys @ [x]) t' | Some v \<Rightarrow> Q v t'"
      using step [OF Cons.prems] by (auto simp: achieves_def)
    show ?case
    proof (cases r)
      case None
      have "repeat_io (iterate_step l body dflt) (Some x) t = repeat_io (iterate_step l body dflt) (head_or zs (Some l)) t'"
        by (rule repeat_io_again) (use x r None in \<open>simp add: iterate_step_def io_simps\<close>)
      then show ?thesis using Cons.IH [of "ys @ [x]" t'] Cons.prems(1) r None by (simp add: achieves_def)
    next
      case (Some v)
      have "repeat_io (iterate_step l body dflt) (Some x) t = Inr (v, t')"
        by (rule repeat_io_leave) (use x r Some in \<open>simp add: iterate_step_def io_simps\<close>)
      then show ?thesis using r Some by (simp add: achieves_def)
    qed
  qed
  from this [of "[]" xs s] assms(2) seg(3) show ?thesis by (simp add: list_iterate_def achieves_simps)
qed

section \<open>Replies\<close>

lemma same_moved: "same_core s s1 \<Longrightarrow> moved s1 c t \<Longrightarrow> moved s c t"
  by (simp add: same_core_def moved_def)

lemma reply_moves:
  assumes "waiting u req s" "length bs \<le> 1024"
    and "\<And>s1. answered u req bs s1 \<Longrightarrow> core s1 = core s \<Longrightarrow>
      achieves (usbc_enumerate_handler b u) (\<lambda>_ t. waiting u req' t \<and> moved s1 (f (core s1)) t) s1"
  shows "achieves (reply b u bs) (\<lambda>_ t. waiting u req' t \<and> moved s (f (core s)) t) s"
proof (rule reply_stage [OF assms(1,2)])
  fix s1
  assume s1: "answered u req bs s1" "same_core s s1"
  then have "core s1 = core s" by (simp add: same_core_def)
  then show "achieves (usbc_enumerate_handler b u) (\<lambda>_ t. waiting u req' t \<and> moved s (f (core s)) t) s1"
    by (intro achieves_mono [OF assms(3) [OF s1(1)]]) (use same_moved [OF s1(2)] in auto)
qed

lemma reply_ep0_size:
  assumes "waiting u req s" "enum_state (core s) = USB_ENUM_GET_EP0_SIZE" "enum_dev (core s) = Some d"
    "length bs = 8" "8 \<le> bs ! 7"
  shows "achieves (reply b u bs) (\<lambda>_ t. waiting u (get_descriptor USB_DESC_DEVICE 0 0 18) t
    \<and> moved s (dev_stored USB_ENUM_GET_DEV_DESC d (\<lambda>dev. dev\<lparr>ep0_size := ucast (bs ! 7)\<rparr>) (core s)) t) s"
  by (rule reply_moves [OF assms(1), where f = "dev_stored USB_ENUM_GET_DEV_DESC d (\<lambda>dev. dev\<lparr>ep0_size := ucast (bs ! 7)\<rparr>)"])
    (use assms in simp, rule stage_ep0_size, assumption, use assms in simp_all)

lemma reply_dev_desc:
  assumes "waiting u (get_descriptor USB_DESC_DEVICE 0 0 18) s" "enum_state (core s) = USB_ENUM_GET_DEV_DESC"
    "enum_dev (core s) = Some d" "length bs = 18" "length (dev_desc (devs (core s) d)) = 18"
    "usbc_new_address (dev_addr_bm (core s)) = (addr, bm)"
  shows "achieves (reply b u bs) (\<lambda>_ t. waiting u \<lparr>bmRequestType = USB_HOST_TO_DEVICE,
      bRequest = USB_REQ_SET_ADDRESS, wValue = ucast addr, wIndex = 0, wLength = 0\<rparr> t
    \<and> moved s (dev_stored USB_ENUM_SET_ADDRESS d (\<lambda>dev. dev\<lparr>dev_desc := bs\<rparr>) (core s)\<lparr>dev_addr_bm := bm\<rparr>) t) s"
  by (rule reply_moves [OF assms(1), where f = "\<lambda>c. dev_stored USB_ENUM_SET_ADDRESS d (\<lambda>dev. dev\<lparr>dev_desc := bs\<rparr>) c\<lparr>dev_addr_bm := bm\<rparr>"])
    (use assms in simp, rule stage_dev_desc, assumption, use assms in simp_all)

lemma reply_address:
  assumes "waiting u req s" "enum_state (core s) = USB_ENUM_SET_ADDRESS" "enum_dev (core s) = Some d" "wValue req = ucast addr"
  shows "achieves (reply b u []) (\<lambda>_ t. waiting u (get_descriptor USB_DESC_CONFIG 0 0 9) t
    \<and> moved s (dev_stored USB_ENUM_GET_DESC_LENGTH d (\<lambda>dev. dev\<lparr>dev_address := addr\<rparr>) (core s)) t) s"
  by (rule reply_moves [OF assms(1), where f = "dev_stored USB_ENUM_GET_DESC_LENGTH d (\<lambda>dev. dev\<lparr>dev_address := addr\<rparr>)"])
    (use assms in simp, rule stage_address, assumption, use assms in simp_all)

lemma reply_length:
  assumes "waiting u req s" "enum_state (core s) = USB_ENUM_GET_DESC_LENGTH" "enum_dev (core s) = Some d" "length bs = 9"
  shows "achieves (reply b u bs) (\<lambda>_ t. waiting u (get_descriptor USB_DESC_CONFIG 0 0 (le16 (bs ! 2) (bs ! 3))) t
    \<and> moved s (dev_stored USB_ENUM_GET_DESCRIPTORS d (\<lambda>dev. dev\<lparr>desc_total_size := ucast (le16 (bs ! 2) (bs ! 3))\<rparr>) (core s)) t) s"
  by (rule reply_moves [OF assms(1), where f = "dev_stored USB_ENUM_GET_DESCRIPTORS d (\<lambda>dev. dev\<lparr>desc_total_size := ucast (le16 (bs ! 2) (bs ! 3))\<rparr>)"])
    (use assms in simp, rule stage_length, assumption, use assms in simp_all)

lemma reply_product:
  assumes "waiting u (string_request i) s" "enum_state (core s) = USB_ENUM_GET_PRODUCT_NAME"
    "enum_dev (core s) = Some d" "i \<noteq> 0" "length cs \<le> 511" "length (product (devs (core s) d)) = 64"
    "length (dev_desc (devs (core s) d)) = 18"
  shows "achieves (reply b u (string_bytes cs)) (\<lambda>_ t. waiting u (string_request (dev_desc (devs (core s) d) ! 14)) t
    \<and> moved s (dev_stored USB_ENUM_GET_MANUFACTURER_NAME d
        (\<lambda>dev. dev\<lparr>product := stored_name cs (product dev)\<rparr>) (core s)) t) s"
proof (rule reply_moves [OF assms(1), where f = "dev_stored USB_ENUM_GET_MANUFACTURER_NAME d (\<lambda>dev. dev\<lparr>product := stored_name cs (product dev)\<rparr>)"])
  show "length (string_bytes cs) \<le> 1024" using assms(5) by (simp add: string_bytes_def)
  show "achieves (usbc_enumerate_handler b u) (\<lambda>_ t. waiting u (string_request (dev_desc (devs (core s) d) ! 14)) t
      \<and> moved s1 (dev_stored USB_ENUM_GET_MANUFACTURER_NAME d (\<lambda>dev. dev\<lparr>product := stored_name cs (product dev)\<rparr>) (core s1)) t) s1"
    if "answered u (string_request i) (string_bytes cs) s1" "core s1 = core s" for s1
    using stage_product [OF that(1)] that(2) assms by simp
qed

lemma moved_ring: "moved s c t \<Longrightarrow> ring (nodes s) (IfaceHead d) [] \<Longrightarrow> ring (nodes t) (IfaceHead d) []"
  by (erule ring_empty_frame) (auto simp: moved_def)

lemma ring_frame: "ring h l xs \<Longrightarrow> (\<And>x. x \<in> set (l # xs) \<Longrightarrow> h' x = h x) \<Longrightarrow> ring h' l xs"
  unfolding ring_def by (metis list.set_intros(1,2) lseg_cong)

text \<open>The whole tree of a device, as the arrays and the list of its interfaces hold it.\<close>

definition tree_stored :: "u32 \<Rightarrow> u32 \<Rightarrow> config_tree list \<Rightarrow> ('h, usb_core) usb \<Rightarrow> bool" where
  "tree_stored d ptr T t \<longleftrightarrow> dev_configs (devs (core t) d) = ptr \<and> stores_tree (desc_store (core t) ptr) T
     \<and> ring (nodes t) (IfaceHead d) (rev (map (IfaceNode ptr) [0..<length (flat_ifaces T)]))"

lemma reply_descriptors:
  assumes "waiting u req s" "enum_state (core s) = USB_ENUM_GET_DESCRIPTORS" "enum_dev (core s) = Some d"
    "list_all good_config cs" "length (sent_bytes cs) \<le> 1019" "length (dev_desc (devs (core s) d)) = 18"
    "bmalloc (tree_bytes (map config_tree_of cs)) 0 (usb_mm s) = Inr (ptr, mm')" "ptr \<noteq> 0" "ring (nodes s) (IfaceHead d) []"
  shows "achieves (reply b u (sent_bytes cs)) (\<lambda>_ t. waiting u (string_request (dev_desc (devs (core s) d) ! 15)) t
    \<and> tree_stored d ptr (map config_tree_of cs) t
    \<and> (\<exists>store. core t = (core s)\<lparr>enum_state := USB_ENUM_GET_PRODUCT_NAME,
        devs := (devs (core s))(d := (devs (core s) d)\<lparr>dev_configs := ptr, desc_total_size := tree_bytes (map config_tree_of cs),
          num_configs := num_configs (devs (core s) d) + of_nat (length cs)\<rparr>), desc_store := store\<rparr>)) s"
proof (rule reply_stage [OF assms(1)])
  fix s1
  assume s1: "answered u req (sent_bytes cs) s1" "same_core s s1"
  then have c: "core s1 = core s" "usb_mm s1 = usb_mm s" "ring (nodes s1) (IfaceHead d) []"
    using assms(9) by (auto simp: same_core_def intro: ring_empty_frame)
  show "achieves (usbc_enumerate_handler b u) (\<lambda>_ t. waiting u (string_request (dev_desc (devs (core s) d) ! 15)) t
    \<and> tree_stored d ptr (map config_tree_of cs) t
    \<and> (\<exists>store. core t = (core s)\<lparr>enum_state := USB_ENUM_GET_PRODUCT_NAME,
        devs := (devs (core s))(d := (devs (core s) d)\<lparr>dev_configs := ptr, desc_total_size := tree_bytes (map config_tree_of cs),
          num_configs := num_configs (devs (core s) d) + of_nat (length cs)\<rparr>), desc_store := store\<rparr>)) s1"
  proof (rule achieves_mono [OF stage_descriptors [OF s1(1), where d = d]])
    fix x t
    assume t: "waiting u (string_request (dev_desc (devs (core s1) d) ! 15)) t
      \<and> (\<exists>s2. parsed d ptr (map config_tree_of cs) s1 s2 \<and> moved s2 ((core s2)\<lparr>enum_state := USB_ENUM_GET_PRODUCT_NAME\<rparr>) t)"
    then obtain s2 where s2: "parsed d ptr (map config_tree_of cs) s1 s2"
      "moved s2 ((core s2)\<lparr>enum_state := USB_ENUM_GET_PRODUCT_NAME\<rparr>) t" by blast
    obtain mm h m where e: "s2 = s1\<lparr>usb_mm := mm, nodes := h, core := (core s1)\<lparr>
        devs := (devs (core s1))(d := (devs (core s1) d)\<lparr>dev_configs := ptr, desc_total_size := tree_bytes (map config_tree_of cs),
          num_configs := num_configs (devs (core s1) d) + of_nat (length (map config_tree_of cs))\<rparr>),
        desc_store := (desc_store (core s1))(ptr := m)\<rparr>\<rparr>"
      using s2(1) unfolding parsed_def by blast
    have "stores_tree m (map config_tree_of cs)"
      and r: "ring h (IfaceHead d) (rev (map (IfaceNode ptr) [0..<length (flat_ifaces (map config_tree_of cs))]))"
      using s2(1) by (auto simp: parsed_def ifaces_added_def e)
    moreover have "ring (nodes t) (IfaceHead d) (rev (map (IfaceNode ptr) [0..<length (flat_ifaces (map config_tree_of cs))]))"
      by (rule ring_frame [OF r]) (use s2(2) in \<open>auto simp: moved_def e\<close>)
    moreover have "core t = (core s)\<lparr>enum_state := USB_ENUM_GET_PRODUCT_NAME,
        devs := (devs (core s))(d := (devs (core s) d)\<lparr>dev_configs := ptr, desc_total_size := tree_bytes (map config_tree_of cs),
          num_configs := num_configs (devs (core s) d) + of_nat (length cs)\<rparr>),
        desc_store := (desc_store (core s))(ptr := m)\<rparr>"
      using s2(2) c(1) by (simp add: moved_def e)
    moreover have "waiting u (string_request (dev_desc (devs (core s) d) ! 15)) t" using t c(1) by simp
    ultimately show "waiting u (string_request (dev_desc (devs (core s) d) ! 15)) t
      \<and> tree_stored d ptr (map config_tree_of cs) t
      \<and> (\<exists>store. core t = (core s)\<lparr>enum_state := USB_ENUM_GET_PRODUCT_NAME,
        devs := (devs (core s))(d := (devs (core s) d)\<lparr>dev_configs := ptr, desc_total_size := tree_bytes (map config_tree_of cs),
          num_configs := num_configs (devs (core s) d) + of_nat (length cs)\<rparr>), desc_store := store\<rparr>)"
      by (simp only: tree_stored_def) auto
  qed (use assms c in simp_all)
qed (use assms(5) in simp)

lemma moved_trans: "moved s c t \<Longrightarrow> moved t c' t' \<Longrightarrow> moved s c' t'"
  by (simp add: moved_def)

lemma moved_core: "moved s c t \<Longrightarrow> core t = c" "moved s c t \<Longrightarrow> usb_mm t = usb_mm s"
  by (simp_all add: moved_def)

lemma tree_stored_moved:
  assumes "tree_stored d ptr T s" "moved s (dev_stored st d f (core s)) t" "\<And>dev. dev_configs (f dev) = dev_configs dev"
  shows "tree_stored d ptr T t"
proof -
  have "ring (nodes t) (IfaceHead d) (rev (map (IfaceNode ptr) [0..<length (flat_ifaces T)]))"
    by (rule ring_frame [of "nodes s"]) (use assms(1,2) in \<open>auto simp: tree_stored_def moved_def\<close>)
  then show ?thesis using assms by (simp add: tree_stored_def moved_def dev_stored_def)
qed

definition replies :: "'h mmio \<Rightarrow> u32 \<Rightarrow> u8 list list \<Rightarrow> ('h, unit) core_io" where
  "replies b u bss = for_io (\<lambda>bs _. reply b u bs) bss ()"

lemma replies_step:
  assumes "achieves (reply b u bs) P s" "\<And>t. P () t \<Longrightarrow> achieves (replies b u bss) Q t"
  shows "achieves (replies b u (bs # bss)) Q s"
  unfolding replies_def for_io.simps achieves_bind
  by (rule achieves_mono [OF assms(1)]) (use assms(2) in \<open>simp add: replies_def\<close>)

lemma replies_last: "achieves (reply b u bs) Q s \<Longrightarrow> achieves (replies b u [bs]) Q s"
  by (rule replies_step) (simp_all add: replies_def achieves_simps)

lemma descriptors_and_name:
  fixes s :: "('h, usb_core) usb"
  assumes "waiting u req s" "enum_state (core s) = USB_ENUM_GET_DESCRIPTORS" "enum_dev (core s) = Some d"
    "list_all good_config cs" "length (sent_bytes cs) \<le> 1019" "length (dev_desc (devs (core s) d)) = 18"
    "bmalloc (tree_bytes (map config_tree_of cs)) 0 (usb_mm s) = Inr (ptr, mm')" "ptr \<noteq> 0" "ring (nodes s) (IfaceHead d) []"
    "dev_desc (devs (core s) d) ! 15 \<noteq> 0" "length name \<le> 511" "length (product (devs (core s) d)) = 64"
  shows "achieves (replies b u [sent_bytes cs, string_bytes name])
    (\<lambda>_ t. waiting u (string_request (dev_desc (devs (core s) d) ! 14)) t \<and> enum_state (core t) = USB_ENUM_GET_MANUFACTURER_NAME
       \<and> tree_stored d ptr (map config_tree_of cs) t
       \<and> (let dev = devs (core t) d; old = devs (core s) d in dev_desc dev = dev_desc old \<and> ep0_size dev = ep0_size old
          \<and> dev_address dev = dev_address old \<and> num_configs dev = num_configs old + of_nat (length cs)
          \<and> product dev = stored_name name (product old))) s" (is "achieves _ ?Q s")
proof (rule replies_step [OF reply_descriptors [OF assms(1-9)]])
  fix t :: "('h, usb_core) usb"
  assume t: "waiting u (string_request (dev_desc (devs (core s) d) ! 15)) t \<and> tree_stored d ptr (map config_tree_of cs) t
    \<and> (\<exists>store. core t = (core s)\<lparr>enum_state := USB_ENUM_GET_PRODUCT_NAME,
        devs := (devs (core s))(d := (devs (core s) d)\<lparr>dev_configs := ptr, desc_total_size := tree_bytes (map config_tree_of cs),
          num_configs := num_configs (devs (core s) d) + of_nat (length cs)\<rparr>), desc_store := store\<rparr>)"
  then obtain store where core: "core t = (core s)\<lparr>enum_state := USB_ENUM_GET_PRODUCT_NAME,
        devs := (devs (core s))(d := (devs (core s) d)\<lparr>dev_configs := ptr, desc_total_size := tree_bytes (map config_tree_of cs),
          num_configs := num_configs (devs (core s) d) + of_nat (length cs)\<rparr>), desc_store := store\<rparr>" by blast
  have name: "achieves (reply b u (string_bytes name)) (\<lambda>_ t'. waiting u (string_request (dev_desc (devs (core t) d) ! 14)) t'
    \<and> moved t (dev_stored USB_ENUM_GET_MANUFACTURER_NAME d (\<lambda>dev. dev\<lparr>product := stored_name name (product dev)\<rparr>) (core t)) t') t"
    by (rule reply_product [OF conjunct1 [OF t]]) (use assms in \<open>simp_all add: core\<close>)
  show "achieves (replies b u [string_bytes name]) ?Q t"
  proof (rule replies_last, rule achieves_mono [OF name])
    fix x t'
    assume t': "waiting u (string_request (dev_desc (devs (core t) d) ! 14)) t'
      \<and> moved t (dev_stored USB_ENUM_GET_MANUFACTURER_NAME d (\<lambda>dev. dev\<lparr>product := stored_name name (product dev)\<rparr>) (core t)) t'"
    have "tree_stored d ptr (map config_tree_of cs) t'"
      by (rule tree_stored_moved [OF conjunct1 [OF conjunct2 [OF t]] conjunct2 [OF t']]) simp
    moreover have "core t' = dev_stored USB_ENUM_GET_MANUFACTURER_NAME d (\<lambda>dev. dev\<lparr>product := stored_name name (product dev)\<rparr>) (core t)"
      using moved_core(1) [OF conjunct2 [OF t']] .
    ultimately show "?Q x t'" using conjunct1 [OF t'] by (simp add: core dev_stored_def)
  qed
qed

section \<open>Drivers of the interfaces\<close>

definition driver_fits :: "usb_core \<Rightarrow> u32 \<Rightarrow> usb_iface \<Rightarrow> bool" where
  "driver_fits c drv f \<longleftrightarrow>
     usbc_check_driver_match (drv_ids (drivers c drv)) (dev_desc (devs c (parent_dev f))) (iface_desc f) \<noteq> 0"

definition with_driver :: "usb_core \<Rightarrow> u32 list \<Rightarrow> nat set \<Rightarrow> desc_mem \<Rightarrow> desc_mem" where
  "with_driver c drvs I m = m\<lparr>dm_iface := (\<lambda>i. let f = dm_iface m i
     in if i \<in> I \<and> \<not> assigned f \<and> (\<exists>drv\<in>set drvs. driver_fits c drv f) then f\<lparr>iface_driver := Some (hid_driver c)\<rparr> else f)\<rparr>"

definition in_store :: "u32 \<Rightarrow> (desc_mem \<Rightarrow> desc_mem) \<Rightarrow> ('h, usb_core) usb \<Rightarrow> ('h, usb_core) usb" where
  "in_store a g s = s\<lparr>core := (core s)\<lparr>desc_store := (desc_store (core s))(a := g (desc_store (core s) a))\<rparr>\<rparr>"

lemma in_store_simps [simp]: "nodes (in_store a g s) = nodes s" "hid_driver (core (in_store a g s)) = hid_driver (core s)"
  "drivers (core (in_store a g s)) = drivers (core s)" "devs (core (in_store a g s)) = devs (core s)"
  "desc_store (core (in_store a g s)) a = g (desc_store (core s) a)"
  "in_store a g (in_store a h s) = in_store a (\<lambda>m. g (h m)) s" "in_store a (\<lambda>m. m) s = s"
  by (simp_all add: in_store_def)

lemma find_driver_run:
  fixes s :: "('h, usb_core) usb"
  assumes "ring (nodes s) DriverHead (map DriverNode drvs)"
  shows "achieves (usbc_find_driver a i) (\<lambda>_ t. t = in_store a (with_driver (core s) drvs {i}) s) s"
proof -
  let ?f = "dm_iface (desc_store (core s) a) i" and ?t = "in_store a (with_driver (core s) drvs {i}) s"
  have none: "?t = s" if "assigned ?f \<or> (\<forall>drv\<in>set drvs. \<not> driver_fits (core s) drv ?f)"
  proof -
    have "with_driver (core s) drvs {i} (desc_store (core s) a) = desc_store (core s) a"
      using that by (auto simp: with_driver_def Let_def fun_eq_iff intro!: desc_mem.equality)
    then show ?thesis by (simp add: in_store_def)
  qed
  have some: "in_store a (upd_iface i (\<lambda>f. f\<lparr>iface_driver := Some (hid_driver (core s))\<rparr>)) s = ?t"
    if "\<not> assigned ?f" "drv \<in> set drvs" "driver_fits (core s) drv ?f" for drv
  proof -
    have "upd_iface i (\<lambda>f. f\<lparr>iface_driver := Some (hid_driver (core s))\<rparr>) (desc_store (core s) a)
        = with_driver (core s) drvs {i} (desc_store (core s) a)"
      using that by (auto simp: with_driver_def upd_iface_def Let_def fun_eq_iff intro!: desc_mem.equality)
    then show ?thesis by (simp add: in_store_def)
  qed
  show ?thesis
  proof (cases "assigned ?f")
    case True
    then show ?thesis using none by (simp add: usbc_find_driver_def achieves_simps)
  next
    case False
    have "achieves (list_iterate DriverHead (try_driver a i ?f) None) (\<lambda>_ t. t = ?t) s"
    proof (rule list_iterate_ring [OF assms, where P = "\<lambda>ys t. t = s \<and> (\<forall>drv. DriverNode drv \<in> set ys \<longrightarrow> \<not> driver_fits (core s) drv ?f)"])
      fix ys x zs and t :: "('h, usb_core) usb"
      assume split: "map DriverNode drvs = ys @ x # zs"
        and t: "t = s \<and> (\<forall>drv. DriverNode drv \<in> set ys \<longrightarrow> \<not> driver_fits (core s) drv ?f)"
      then obtain drv where x: "x = DriverNode drv" "drv \<in> set drvs" by (force simp: map_eq_append_conv)
      show "achieves (try_driver a i ?f x) (\<lambda>r t'. nodes t' = nodes s
          \<and> (case r of None \<Rightarrow> t' = s \<and> (\<forall>drv. DriverNode drv \<in> set (ys @ [x]) \<longrightarrow> \<not> driver_fits (core s) drv ?f) | Some v \<Rightarrow> t' = ?t)) t"
        using some [OF False x(2)] t x(1) False
        by (cases "drv_connect (drivers (core s) drv)")
          (auto simp: try_driver_def achieves_simps get_dev_def driver_fits_def usb_hid_connect_def set_store_def in_store_def)
    next
      show "t = ?t" if "t = s \<and> (\<forall>drv. DriverNode drv \<in> set (map DriverNode drvs) \<longrightarrow> \<not> driver_fits (core s) drv ?f)" for t
        using none that by auto
    qed simp
    then show ?thesis using False by (simp add: usbc_find_driver_def achieves_simps)
  qed
qed

lemma with_driver_with_driver:
  "with_driver c drvs {i} (with_driver c drvs I m) = with_driver c drvs (insert i I) m"
  by (auto simp: with_driver_def driver_fits_def Let_def fun_eq_iff intro!: desc_mem.equality)

lemma with_driver_core: "with_driver (core (in_store a g s)) = with_driver (core s)"
  by (intro ext) (simp add: with_driver_def driver_fits_def Let_def cong: if_cong)

lemma assign_driver_run:
  fixes s :: "('h, usb_core) usb"
  assumes "ring (nodes s) (IfaceHead d) (map (IfaceNode a) is)" "ring (nodes s) DriverHead (map DriverNode drvs)"
  shows "achieves (usbc_assign_driver d) (\<lambda>_ t. t = in_store a (with_driver (core s) drvs (set is)) s) s"
  unfolding usbc_assign_driver_def
proof (rule list_iterate_ring [OF assms(1), where P = "\<lambda>ys t. \<exists>js. ys = map (IfaceNode a) js \<and> t = in_store a (with_driver (core s) drvs (set js)) s"])
  have "with_driver (core s) drvs {} = (\<lambda>m. m)" by (auto simp: with_driver_def fun_eq_iff)
  then show "\<exists>js. [] = map (IfaceNode a) js \<and> s = in_store a (with_driver (core s) drvs (set js)) s" by simp
next
  fix ys x zs and t :: "('h, usb_core) usb"
  assume split: "map (IfaceNode a) is = ys @ x # zs"
    and "\<exists>js. ys = map (IfaceNode a) js \<and> t = in_store a (with_driver (core s) drvs (set js)) s"
  then obtain js i where js: "ys = map (IfaceNode a) js" "t = in_store a (with_driver (core s) drvs (set js)) s" "x = IfaceNode a i"
    by (auto simp: map_eq_append_conv)
  have "achieves (usbc_find_driver a i) (\<lambda>_ t'. t' = in_store a (with_driver (core s) drvs (set (js @ [i]))) s) t"
    by (rule achieves_mono [OF find_driver_run [where drvs = drvs]])
      (use assms(2) js(2) in \<open>simp_all add: with_driver_core with_driver_with_driver\<close>)
  then show "achieves (case x of IfaceNode a i \<Rightarrow> io_bind (usbc_find_driver a i) (\<lambda>_. io_return None) | _ \<Rightarrow> io_fail OutOfBounds)
      (\<lambda>r t'. nodes t' = nodes s \<and> (case r of None \<Rightarrow> \<exists>js. ys @ [x] = map (IfaceNode a) js
         \<and> t' = in_store a (with_driver (core s) drvs (set js)) s | Some v \<Rightarrow> t' = in_store a (with_driver (core s) drvs (set is)) s)) t"
    unfolding js(1,3) usb_node.case achieves_bind
    by (rule achieves_mono) (auto simp: achieves_simps intro!: exI [of _ "js @ [i]"])
next
  show "t = in_store a (with_driver (core s) drvs (set is)) s"
    if "\<exists>js. map (IfaceNode a) is = map (IfaceNode a) js \<and> t = in_store a (with_driver (core s) drvs (set js)) s" for t
    using that by (auto simp: inj_map_eq_map inj_def)
qed

lemma hid_fits: "usbc_check_driver_match hid_dev_id dev iface \<noteq> 0 \<longleftrightarrow> iface ! 5 = 3"
  by (auto simp: hid_dev_id_def usbc_check_dev_match_def usbc_check_iface_match_def flag_match_def bit_simps)

end
