(* ===== verification/Usb_Transfer.thy ===== *)
theory Usb_Transfer
  imports Usb_Pipes
begin

text \<open>
  The pipes of the host controller: which pipe an interrupt serves, the size a pipe is given, and the bytes of a packet.
  An example state of the driver, on a bus that always reads the same, is at the end.
\<close>

section \<open>Picking a pipe\<close>

lemma next_start: "n < 10 \<Longrightarrow> ((if n + 1 \<ge> 10 then 0 else n + 1) + l) mod 10 = (n + Suc l) mod (10 :: nat)"
proof (cases "n = 9")
  case True
  then have *: "n + Suc l = l + 10" by simp
  show ?thesis unfolding * mod_add_self2 using True by simp
qed simp

lemma pick_from_spec:
  assumes "n < MAX_PIPES" "j \<le> MAX_PIPES" "j < k" "k \<le> MAX_PIPES" "bit m ((n + j) mod MAX_PIPES)"
    "\<forall>i < j. \<not> bit m ((n + i) mod MAX_PIPES)"
  shows "pick_from m k n = (n + j) mod MAX_PIPES"
  using assms
proof (induction k arbitrary: n j)
  case (Suc k)
  let ?n = "if n + 1 \<ge> MAX_PIPES then 0 else n + 1"
  show ?case
  proof (cases j)
    case (Suc i)
    have shift: "(?n + l) mod MAX_PIPES = (n + Suc l) mod MAX_PIPES" for l
      using Suc.prems(1) next_start [of n l] by (simp add: MAX_PIPES_def)
    have "\<not> bit m n" using Suc.prems(1,6) Suc by fastforce
    moreover have "pick_from m k ?n = (?n + i) mod MAX_PIPES"
      using Suc.prems Suc shift by (intro Suc.IH) (auto simp: MAX_PIPES_def)
    ultimately show ?thesis using shift [of i] Suc by simp
  qed (use Suc.prems in simp)
qed simp

text \<open>The masks of successive calls, and the pipes picked.\<close>

fun picks :: "u32 list \<Rightarrow> ('h, 'c, nat list) usb_io" where
  "picks [] = io_return []"
| "picks (m # ms) = io_bind (usbhc_pick_interrupted_pipe m) (\<lambda>p. io_bind (picks ms) (\<lambda>ps. io_return (p # ps)))"

lemma pick_run: "usbhc_pick_interrupted_pipe m s
    = Inr (pick_from m MAX_PIPES (pipe_start s), s\<lparr>pipe_start := (if pipe_start s + 1 \<ge> MAX_PIPES then 0 else pipe_start s + 1)\<rparr>)"
  by (simp add: usbhc_pick_interrupted_pipe_def io_simps)

lemma picks_return: "\<exists>ps s'. picks ms s = Inr (ps, s')"
proof (induction ms arbitrary: s)
  case (Cons m ms)
  let ?s = "s\<lparr>pipe_start := (if pipe_start s + 1 \<ge> MAX_PIPES then 0 else pipe_start s + 1)\<rparr>"
  show ?case using Cons.IH [of ?s] by (auto simp: io_simps pick_run)
qed (simp add: io_simps)

lemma pipe_gap: "p < 10 \<Longrightarrow> n < 10 \<Longrightarrow> (p + 10 - n) mod 10 = (if n \<le> p then p - n else p + 10 - n)" for p n :: nat
  by (simp add: mod_if)

lemma picks_reach:
  assumes "pipe_start s < MAX_PIPES" "\<forall>m\<in>set ms. bit m p" "p < MAX_PIPES"
    "(p + MAX_PIPES - pipe_start s) mod MAX_PIPES < length ms"
  shows "\<exists>ps s'. picks ms s = Inr (ps, s') \<and> p \<in> set ps"
  using assms
proof (induction ms arbitrary: s)
  case (Cons m ms)
  let ?s = "s\<lparr>pipe_start := (if pipe_start s + 1 \<ge> MAX_PIPES then 0 else pipe_start s + 1)\<rparr>"
  show ?case
  proof (cases "pipe_start s = p")
    case True
    then have "pick_from m MAX_PIPES (pipe_start s) = p"
      using Cons.prems by (simp add: MAX_PIPES_def numeral_eq_Suc)
    then show ?thesis using picks_return [of ms ?s] by (auto simp: io_simps pick_run)
  next
    case False
    then have "(p + MAX_PIPES - pipe_start ?s) mod MAX_PIPES < length ms" "pipe_start ?s < MAX_PIPES"
      using Cons.prems False pipe_gap [of p "pipe_start s"] pipe_gap [of p "pipe_start ?s"]
      by (auto simp: MAX_PIPES_def split: if_splits)
    then obtain ps s' where "picks ms ?s = Inr (ps, s')" "p \<in> set ps"
      using Cons.IH [of ?s] Cons.prems by auto
    then show ?thesis by (auto simp: io_simps pick_run)
  qed
qed simp

text \<open>\<^bold>\<open>No pipe is starved (C38).\<close> A pipe that stays interrupted is served within ten interrupts, whatever other pipes
  are interrupted meanwhile, because the scan starts one pipe further with every interrupt.\<close>

theorem no_pipe_starves:
  assumes "pipe_start s < MAX_PIPES" and "p < MAX_PIPES" and "length ms = MAX_PIPES" and "\<forall>m\<in>set ms. bit m p"
  shows "\<exists>ps s'. picks ms s = Inr (ps, s') \<and> p \<in> set ps"
  by (rule picks_reach) (use assms in \<open>auto simp: MAX_PIPES_def\<close>)

section \<open>Sizes\<close>

lemma highest_bit_Some: "highest_bit w n = Some i \<longleftrightarrow> i < n \<and> bit w i \<and> (\<forall>j. i < j \<and> j < n \<longrightarrow> \<not> bit w j)"
  by (induction n) (auto simp: less_Suc_eq)

lemma highest_bit_None: "highest_bit w n = None \<longleftrightarrow> (\<forall>j < n. \<not> bit w j)"
  by (induction n) (auto simp: less_Suc_eq)

lemma highest_bit_bounds:
  fixes w :: u32
  assumes i: "highest_bit w 32 = Some i"
  shows "2 ^ i \<le> unat w \<and> unat w < 2 ^ (i + 1)"
proof -
  have "i < 32" "bit w i" and above: "\<not> bit w j" if "i < j" "j < 32" for j
    using i that unfolding highest_bit_Some by auto
  then have "bit (unat w) i" and hi: "\<not> bit (unat w) j" if "i < j" for j
    using that bit_imp_le_length [of w j] i unfolding highest_bit_Some by (auto simp: bit_unsigned_iff)
  have low: "bit (unat w) i" using i unfolding highest_bit_Some by (auto simp: bit_unsigned_iff)
  have "2 ^ i \<le> unat w" using low by (metis bit_iff_odd div_less even_zero not_le)
  moreover have "take_bit (i + 1) (unat w) = unat w"
    by (rule bit_eqI) (use hi in \<open>auto simp: bit_take_bit_iff less_Suc_eq_le intro: leI\<close>)
  ultimately show ?thesis by (metis take_bit_nat_eq_self_iff)
qed

lemma low_bits_zero: "w AND (2 ^ i - 1) = 0 \<longleftrightarrow> 2 ^ i dvd unat w" for w :: u32
proof -
  have "w AND (2 ^ i - 1) = take_bit i w"
    by (simp add: take_bit_eq_mask flip: mask_eq_exp_minus_1)
  then show ?thesis by (metis unsigned_take_bit_eq take_bit_eq_0_iff unsigned_0 unsigned_word_eqI)
qed

text \<open>\<^bold>\<open>The pipe is as large as needed and no larger (C39).\<close> For a size of 5 to 1024 bytes the code of the pipe size is
  that of the least of 8, 16, ..., 1024 that holds it. A size of 1 to 4 bytes or of more than 1024 is refused, and a
  size of 0 shifts by more than 31.\<close>

theorem pipe_size_least:
  "usbhc_size_to_pipe_size n = (if n = 0 then Inl ShiftRange else if unat n < 5 \<or> 1024 < unat n then Inr None
     else Inr (Some (of_nat (LEAST c. unat n \<le> 8 * 2 ^ c))))"
proof (cases "highest_bit n 32")
  case None
  then have "n = 0" unfolding highest_bit_None by (auto intro: bit_word_eqI)
  then show ?thesis using None by (simp add: usbhc_size_to_pipe_size_def)
next
  case (Some i)
  then have n: "2 ^ i \<le> unat n" "unat n < 2 ^ (i + 1)" using highest_bit_bounds by auto
  then have "n \<noteq> 0" by (metis not_one_le_zero one_le_numeral one_le_power order_trans unsigned_0)
  define k where "k = (if 2 ^ i dvd unat n then i else i + 1)"
  have "unat n = 2 ^ i" if dvd: "2 ^ i dvd unat n"
  proof -
    obtain c where c: "unat n = 2 ^ i * c" using dvd by (elim dvdE)
    then have "c < 2" "c \<noteq> 0" using n by auto
    then show ?thesis using c by (simp add: less_2_cases_iff)
  qed
  note exact = this
  have up: "unat n \<le> 2 ^ k" using exact n by (cases "2 ^ i dvd unat n") (auto simp: k_def)
  have below: "2 ^ j < unat n" if "j < k" for j
  proof (cases "2 ^ i dvd unat n")
    case True
    then show ?thesis using exact that by (simp add: k_def)
  next
    case False
    then have "2 ^ i < unat n" using n by (metis dvd_refl le_neq_implies_less)
    moreover have "(2 :: nat) ^ j \<le> 2 ^ i" using that False by (intro power_increasing) (auto simp: k_def)
    ultimately show ?thesis by (rule le_less_trans [rotated])
  qed
  have small: "3 \<le> k \<longleftrightarrow> 4 < unat n"
    using below [of 2] up power_increasing [of k 2 "2 :: nat"] by (fastforce simp: not_le)
  have large: "k \<le> 10 \<longleftrightarrow> unat n \<le> 1024"
    using below [of 10] up power_increasing [of k 10 "2 :: nat"] by (fastforce simp: not_le)
  have "usbhc_size_to_pipe_size n = Inr (if 3 \<le> k \<and> k \<le> 10 then Some (of_nat (k - 3)) else None)"
    by (simp add: usbhc_size_to_pipe_size_def Some Let_def k_def low_bits_zero)
  moreover have "(LEAST c. unat n \<le> 8 * 2 ^ c) = k - 3" if "3 \<le> k"
  proof (rule Least_equality)
    show "unat n \<le> 8 * 2 ^ (k - 3)" using up that power_add [of "2 :: nat" 3 "k - 3"] by simp
    show "k - 3 \<le> c" if "unat n \<le> 8 * 2 ^ c" for c
      using below [of "c + 3"] that by (cases "c + 3 < k") (simp_all add: power_add)
  qed
  ultimately show ?thesis using small large \<open>n \<noteq> 0\<close> by (auto simp: not_less)
qed

section \<open>Packets\<close>

text \<open>Reading the queue of a pipe, byte by byte from successive addresses, gives these bytes and that hardware.\<close>

fun fifo_yields :: "'h mmio \<Rightarrow> u32 \<Rightarrow> 'h \<Rightarrow> u8 list \<Rightarrow> 'h \<Rightarrow> bool" where
  "fifo_yields b a h [] h' \<longleftrightarrow> h' = h"
| "fifo_yields b a h (x # xs) h' \<longleftrightarrow>
     (case bus_read b a h of (v, h1) \<Rightarrow> ucast v = x \<and> fifo_yields b (a + 1) h1 xs h')"

lemma in_loop:
  fixes s :: "('h, 'c) usb"
  assumes "fifo_yields b a (usb_hw s) pkt h'" "urbs s u = r" "buf = bufs s (transfer_buffer r)"
    "unat (acctual_length r) + length pkt \<le> length buf" "acctual_length r < transfer_length r"
    "length pkt = min (unat n) (unat (transfer_length r) - unat (acctual_length r))"
  shows "achieves (repeat_io (in_step b u) (n, a)) (\<lambda>_ t. t = s\<lparr>usb_hw := h',
      bufs := (bufs s)(transfer_buffer r := append_at buf (unat (acctual_length r)) pkt),
      urbs := (urbs s)(u := r\<lparr>acctual_length := acctual_length r + of_nat (length pkt)\<rparr>)\<rparr>) s"
  using assms
proof (induction pkt arbitrary: s a n r buf)
  case Nil
  then have "n = 0" by (simp add: word_less_nat_alt unat_eq_zero min_def split: if_splits)
  then have "repeat_io (in_step b u) (n, a) s = Inr ((), s)"
    by (intro repeat_io_leave) (simp add: in_step_def io_simps)
  moreover have "(urbs s)(u := r) = urbs s" "(bufs s)(transfer_buffer r := buf) = bufs s"
    using Nil.prems(2,3) by auto
  ultimately show ?case using Nil.prems(1) by (simp add: achieves_def)
next
  case (Cons x xs)
  obtain v h1 where v: "bus_read b a (usb_hw s) = (v, h1)" "ucast v = x" "fifo_yields b (a + 1) h1 xs h'"
    using Cons.prems(1) by (auto split: prod.splits)
  have n: "n \<noteq> 0" "unat (n - 1) = unat n - 1"
  proof -
    show "n \<noteq> 0" using Cons.prems(6) by auto
    then show "unat (n - 1) = unat n - 1" by (rule unat_minus_one)
  qed
  let ?k = "unat (acctual_length r)" and ?r = "r\<lparr>acctual_length := acctual_length r + 1\<rparr>"
  have k: "?k < length buf" "unat (acctual_length r + 1) = ?k + 1"
  proof -
    show "?k < length buf" using Cons.prems(4) by simp
    have "?k + 1 < 2 ^ 32"
      using Cons.prems(5) unsigned_less [of "transfer_length r", where ?'a = nat] by (simp add: word_less_nat_alt)
    then show "unat (acctual_length r + 1) = ?k + 1" by (simp add: unat_word_ariths)
  qed
  let ?s = "s\<lparr>usb_hw := h1, bufs := (bufs s)(transfer_buffer r := buf[?k := x]), urbs := (urbs s)(u := ?r)\<rparr>"
  have step: "in_step b u (n, a) s = Inr (if acctual_length r + 1 = transfer_length r then Inr () else Inl (n - 1, a + 1), ?s)"
    using Cons.prems k n v by (simp add: in_step_def io_simps get_urb_def set_urb_def array_set_def)
  show ?case
  proof (cases "acctual_length r + 1 = transfer_length r")
    case True
    then have "length (x # xs) \<le> 1" unfolding Cons.prems(6) using k(2) by simp
    then have "length xs = 0" by simp
    then have target: "s\<lparr>usb_hw := h', bufs := (bufs s)(transfer_buffer r := append_at buf ?k (x # xs)),
        urbs := (urbs s)(u := r\<lparr>acctual_length := acctual_length r + of_nat (length (x # xs))\<rparr>)\<rparr> = ?s"
      using v append_at_Cons [OF k(1), of x "[]"] by simp
    have "repeat_io (in_step b u) (n, a) s = Inr ((), ?s)"
      by (rule repeat_io_leave) (simp add: step True)
    then show ?thesis unfolding achieves_def target by blast
  next
    case False
    have less: "?k + 1 < unat (transfer_length r)"
      using False Cons.prems(5) k(2) by (metis Suc_eq_plus1 Suc_lessI word_less_nat_alt word_unat_eq_iff)
    then have next': "acctual_length r + 1 < transfer_length r" using k(2) by (simp add: word_less_nat_alt)
    have "min (unat n) (unat (transfer_length r) - ?k) = Suc (min (unat (n - 1)) (unat (transfer_length r) - (?k + 1)))"
    proof -
      have "min x (y - k) = Suc (min (x - 1) (y - (k + 1)))" if "0 < x" "k + 1 < y" for x y k :: nat
        using that by linarith
      then show ?thesis using less n by (simp add: unat_gt_0)
    qed
    then have len: "length xs = min (unat (n - 1)) (unat (transfer_length r) - unat (acctual_length r + 1))"
      using Cons.prems(6) k(2) by simp
    have ih: "achieves (repeat_io (in_step b u) (n - 1, a + 1)) (\<lambda>_ t. t = ?s\<lparr>usb_hw := h',
        bufs := (bufs ?s)(transfer_buffer ?r := append_at (buf[?k := x]) (unat (acctual_length ?r)) xs),
        urbs := (urbs ?s)(u := ?r\<lparr>acctual_length := acctual_length ?r + of_nat (length xs)\<rparr>)\<rparr>) ?s"
      by (rule Cons.IH) (use Cons.prems(2-4) k v(3) next' len in simp_all)
    have run: "repeat_io (in_step b u) (n, a) s = repeat_io (in_step b u) (n - 1, a + 1) ?s"
      by (rule repeat_io_again) (simp add: step False)
    have target: "?s\<lparr>usb_hw := h',
        bufs := (bufs ?s)(transfer_buffer ?r := append_at (buf[?k := x]) (unat (acctual_length ?r)) xs),
        urbs := (urbs ?s)(u := ?r\<lparr>acctual_length := acctual_length ?r + of_nat (length xs)\<rparr>)\<rparr>
      = s\<lparr>usb_hw := h', bufs := (bufs s)(transfer_buffer r := append_at buf ?k (x # xs)),
        urbs := (urbs s)(u := r\<lparr>acctual_length := acctual_length r + of_nat (length (x # xs))\<rparr>)\<rparr>"
      using k append_at_Cons [of ?k buf x xs] by (simp add: add.assoc)
    show ?thesis using ih unfolding target achieves_def run .
  qed
qed

text \<open>\<^bold>\<open>A packet goes to the right place (C40).\<close> When a packet arrives on a pipe, its bytes are read from the queue of the pipe in
  order and appended to what the request has received, at most up to the length of the transfer; the count of the
  request grows by as many bytes, nothing else in memory changes, and the packet counts as short exactly when its size
  is not that of the endpoint. The buffer must have room, which the driver does not check.\<close>

theorem packet_received:
  fixes s :: "('h, 'c) usb"
  assumes "p < length (pipes s)" and "q = pipes s ! p" and "pipe_num q < 10" and "r = urbs s u"
    and "usbhw_pipe_get_byte_count b (ucast (pipe_num q)) (usb_hw s) = Inr (n, h1)"
    and "fifo_yields b (usbhc_get_fifo_ptr (pipe_num q)) h1 pkt h2"
    and "length pkt = min (unat n) (unat (transfer_length r) - unat (acctual_length r))"
    and "acctual_length r < transfer_length r"
    and "unat (acctual_length r) + length pkt \<le> length (bufs s (transfer_buffer r))"
  shows "\<exists>h3. usbhc_in b p u s = Inr (n \<noteq> pipe_ep_size q, s\<lparr>usb_hw := h3,
      bufs := (bufs s)(transfer_buffer r := append_at (bufs s (transfer_buffer r)) (unat (acctual_length r)) pkt),
      urbs := (urbs s)(u := r\<lparr>acctual_length := acctual_length r + of_nat (length pkt)\<rparr>)\<rparr>)"
proof -
  let ?s1 = "s\<lparr>usb_hw := h1\<rparr>"
  have num: "(ucast (pipe_num q) :: u8) < 10"
    using assms(3) by (simp add: word_less_nat_alt unsigned_ucast_eq take_bit_nat_eq_self)
  have loop: "achieves (repeat_io (in_step b u) (n, usbhc_get_fifo_ptr (pipe_num q))) (\<lambda>_ t. t = ?s1\<lparr>usb_hw := h2,
      bufs := (bufs ?s1)(transfer_buffer r := append_at (bufs s (transfer_buffer r)) (unat (acctual_length r)) pkt),
      urbs := (urbs ?s1)(u := r\<lparr>acctual_length := acctual_length r + of_nat (length pkt)\<rparr>)\<rparr>) ?s1"
    by (rule in_loop) (use assms in simp_all)
  have "usbhc_in b p u s = Inr (n \<noteq> pipe_ep_size q, s\<lparr>usb_hw := bus_write b (pipe_reg ''HSTPIPIDR'' (ucast (pipe_num q))) USBHW_FIFO_CTRL h2,
      bufs := (bufs s)(transfer_buffer r := append_at (bufs s (transfer_buffer r)) (unat (acctual_length r)) pkt),
      urbs := (urbs s)(u := r\<lparr>acctual_length := acctual_length r + of_nat (length pkt)\<rparr>)\<rparr>)"
    using loop assms(1,2,5) num
    by (auto simp: achieves_def usbhc_in_def get_pipe_def with_num_def io_simps array_get_def
      usbhw_pipe_disable_interrupt_def on_pipe_def reg_set_def not_le)
  then show ?thesis by blast
qed

section \<open>An example\<close>

text \<open>A bus on which every status register reads the same and the queue of pipe 0 holds two bytes; pipe 0 waits for the
  answer to the request at address 4.\<close>

definition still_bus :: "unit mmio" where
  "still_bus = \<lparr>bus_read = (\<lambda>a _. (if a = 0xA0100000 then 0x41 else if a = 0xA0100001 then 0x42 else push_bit 20 2, ())),
     bus_write = (\<lambda>_ _ _. ())\<rparr>"

definition example_pipe :: "nat \<Rightarrow> usb_pipe" where
  "example_pipe n = \<lparr>pipe_num = of_nat n, pipe_fifo = usbhc_get_fifo_ptr (of_nat n), pipe_lock = 0,
     pipe_state_of = (if n = 0 then PIPE_STATE_CTRL_OUT else PIPE_STATE_FREE), pipe_ty = PIPE_TYPE_CTRL, pipe_ep_size = 64,
     pipe_cfg = \<lparr>pc_dev_addr = 0, pc_ep_addr = 0, pc_size = 64, pc_frequency = 0, pc_banks = 1, pc_bank_switch = 0,
       pc_type = PIPE_TYPE_CTRL\<rparr>\<rparr>"

definition example_nodes :: "usb_node lheap" where
  "example_nodes = (\<lambda>_. \<lparr>ln_next = None, ln_prev = None\<rparr>)(
     PipeHead 0 := \<lparr>ln_next = Some (UrbNode 4), ln_prev = Some (UrbNode 4)\<rparr>,
     UrbNode 4 := \<lparr>ln_next = Some (PipeHead 0), ln_prev = Some (PipeHead 0)\<rparr>,
     IfaceHead 8 := \<lparr>ln_next = Some (IfaceHead 8), ln_prev = Some (IfaceHead 8)\<rparr>,
     DriverHead := \<lparr>ln_next = Some DriverHead, ln_prev = Some DriverHead\<rparr>)"

definition example_usb :: "'c \<Rightarrow> (unit, 'c) usb" where
  "example_usb c = \<lparr>usb_hw = (), pipes = map example_pipe [0..<10], num_pipes = 10, root_hub_cb = Core_Root_Hub, sof_cb = Some Core_Sof,
     urbs = (\<lambda>_. \<lparr>urb_flags = URB_FLAGS_SETUP, setup_buffer = Setup_Buffer, transfer_buffer = Enum_Buffer,
       transfer_length = 8, acctual_length = 0, status_of = URB_STATUS_OK, urb_callback_of = Enumerate_Handler, urb_context = True\<rparr>),
     nodes = example_nodes, urb_allocator = demo_desc, usb_mm = demo_boot, pipe_start = 3,
     bufs = (\<lambda>x. case x of Setup_Buffer \<Rightarrow> [0x80, 6, 0, 1, 0, 0, 8, 0] | Enum_Buffer \<Rightarrow> replicate 1024 0), core = c\<rparr>"

theorem no_pipe_starves_witness:
  "\<exists>ps s'. picks [4, 4, 0x3FF, 4, 0xC, 4, 4, 5, 6, 7] (example_usb ()) = Inr (ps, s') \<and> 2 \<in> set ps"
  using no_pipe_starves [of "example_usb ()" 2 "[4, 4, 0x3FF, 4, 0xC, 4, 4, 5, 6, 7]"]
  by (simp add: example_usb_def MAX_PIPES_def bit_numeral_rec)

lemma example_byte_count: "usbhw_pipe_get_byte_count still_bus 0 () = Inr (2, ())"
  by code_simp

theorem packet_received_witness:
  "\<exists>h3. usbhc_in still_bus 0 4 (example_usb ()) = Inr (True, (example_usb ())\<lparr>usb_hw := h3,
      bufs := (bufs (example_usb ()))(Enum_Buffer := append_at (replicate 1024 0) 0 [0x41, 0x42]),
      urbs := (urbs (example_usb ()))(4 := (urbs (example_usb ()) 4)\<lparr>acctual_length := 2\<rparr>)\<rparr>)"
  using packet_received [of 0 "example_usb ()" "example_pipe 0" "urbs (example_usb ()) 4" 4 still_bus 2 "()" "[0x41, 0x42]" "()"]
  by (simp add: example_usb_def example_pipe_def example_byte_count usbhc_get_fifo_ptr_def) (simp add: still_bus_def)

end
