(* ===== verification/Usb_Claims.thy ===== *)
theory Usb_Claims
  imports Usb_Enum Usb_Transfer
begin

text \<open>
  What the USB core guarantees: the descriptors of a device are stored as the tree it sent, a device that answers is
  enumerated, its HID interfaces get the HID driver; and one descriptor it does not survive.
\<close>

section \<open>Descriptors\<close>

text \<open>\<^bold>\<open>Descriptors are stored as their tree (C34).\<close> For every device that sends well-formed descriptors, however many and
  with descriptors of other types among them, and where the memory for the arrays is allocated, the parser of the USB
  core returns 1; the arrays then hold exactly the tree that was sent: each configuration with its interfaces, each
  interface with its endpoints, in order; and every interface is in the list of the device once.\<close>

theorem descriptors_stored_as_tree:
  fixes s :: "('h, usb_core) usb"
  assumes "list_all good_config cs" and "length (sent_bytes cs @ rest) < 2 ^ 32" and "5 \<le> length rest"
    and "bmalloc (tree_bytes (map config_tree_of cs)) 0 (usb_mm s) = Inr (ptr, mm')" and "ptr \<noteq> 0"
    and "ring (nodes s) (IfaceHead d) []"
  shows "\<exists>s'. usbc_parse_descriptors d (sent_bytes cs @ rest) (of_nat (length (sent_bytes cs))) s = Inr (1, s')
    \<and> tree_stored d ptr (map config_tree_of cs) s'
    \<and> num_configs (devs (core s') d) = num_configs (devs (core s) d) + of_nat (length cs)"
proof -
  obtain s' where run: "usbc_parse_descriptors d (sent_bytes cs @ rest) (of_nat (length (sent_bytes cs))) s = Inr (1, s')"
    and p: "parsed d ptr (map config_tree_of cs) s s'"
    using parse_stores [OF assms] by (auto simp: achieves_def)
  then obtain mm h m where "s' = s\<lparr>usb_mm := mm, nodes := h, core := (core s)\<lparr>
        devs := (devs (core s))(d := (devs (core s) d)\<lparr>dev_configs := ptr, desc_total_size := tree_bytes (map config_tree_of cs),
          num_configs := num_configs (devs (core s) d) + of_nat (length (map config_tree_of cs))\<rparr>),
        desc_store := (desc_store (core s))(ptr := m)\<rparr>\<rparr>"
    unfolding parsed_def by blast
  then show ?thesis using run p by (auto simp: parsed_def ifaces_added_def tree_stored_def)
qed

text \<open>\<^bold>\<open>A descriptor of length zero stops the kernel (C37).\<close> If a device sends, after well-formed descriptors, a descriptor of
  another type whose length is 0, the walk that verifies the descriptors stays at it for ever. It runs in the
  interrupt handler.\<close>

theorem zero_length_descriptor_loops:
  assumes "\<forall>d\<in>set ds. well_formed_desc d" and "ty \<notin> {USB_DESC_CONFIG, USB_DESC_IFACE, USB_DESC_EP}"
    and "data = concat ds @ 0 # ty # rest" and "length data < 2 ^ 32" and "length (concat ds) < unat n"
  shows "usbc_verify_descriptors data n s = Inl Diverge"
proof -
  let ?pos = "of_nat (length (concat ds)) :: u32"
  have pos: "unat ?pos = length (concat ds)" "unat (?pos + 1) = length (concat ds) + 1"
    using assms(3,4) by (simp_all add: unat_of_nat take_bit_nat_eq_self unat_word_ariths)
  have "usbc_verify_descriptors data n s = repeat_io (verify_step data n) (?pos, fold tally ds (0, 0, 0)) s"
    unfolding usbc_verify_descriptors_def
    using verify_walk [of 0 data ds "0 # ty # rest" n "(0, 0, 0)" s] assms by simp
  also have "\<dots> = Inl Diverge"
  proof (rule repeat_io_stuck [where I = "\<lambda>c t. fst c = ?pos"])
    show "\<exists>c' s'. verify_step data n c t = Inr (Inl c', s') \<and> fst c' = ?pos" if "fst c = ?pos" for c and t :: 'a
      using that assms pos by (cases c)
        (auto simp: verify_step_def desc_head_def io_simps word_less_nat_alt array_get_def nth_append)
  qed simp
  finally show ?thesis .
qed

theorem zero_length_descriptor_loops_witness:
  "usbc_verify_descriptors [9, 2, 18, 0, 1, 1, 0, 0xA0, 50, 0, 0x21] 20 () = Inl Diverge"
  using zero_length_descriptor_loops [of "[[9, 2, 18, 0, 1, 1, 0, 0xA0, 50]]" "0x21" "[9, 2, 18, 0, 1, 1, 0, 0xA0, 50, 0, 0x21]" "[]" 20 "()"]
  by (simp add: well_formed_desc_def desc_types)

section \<open>Enumeration\<close>

text \<open>\<^bold>\<open>A device is enumerated (C35).\<close> The first request of the enumeration waits in the queue of pipe 0 and the device answers the
  requests one after the other: the first 8 bytes of its descriptor, the whole descriptor, the new address, the head of
  its configuration, all its descriptors, the name of the product. Whatever the registers read, every answer brings the
  state machine to the next request; then the record of the device holds its descriptor, packet size, new address,
  product name, and the tree of its configurations, interfaces and endpoints, and the name of the manufacturer is
  being asked for.\<close>

theorem device_enumerated:
  fixes s :: "('h, usb_core) usb"
  assumes "waiting u (get_descriptor USB_DESC_DEVICE 0 0 8) s" and "enum_state (core s) = USB_ENUM_GET_EP0_SIZE"
    and "enum_dev (core s) = Some d" and "ring (nodes s) (IfaceHead d) []"
    and "length (dev_desc (devs (core s) d)) = 18" and "length (product (devs (core s) d)) = 64"
    and "length desc = 18" and "8 \<le> desc ! 7" and "desc ! 15 \<noteq> 0" and "length cfg = 9"
    and "list_all good_config cs" and "length (sent_bytes cs) \<le> 1019" and "length name \<le> 511"
    and "bmalloc (tree_bytes (map config_tree_of cs)) 0 (usb_mm s) = Inr (ptr, mm')" and "ptr \<noteq> 0"
  shows "achieves (replies b u [take 8 desc, desc, [], cfg, sent_bytes cs, string_bytes name])
    (\<lambda>_ t. waiting u (string_request (desc ! 14)) t \<and> enum_state (core t) = USB_ENUM_GET_MANUFACTURER_NAME
       \<and> tree_stored d ptr (map config_tree_of cs) t
       \<and> (let dev = devs (core t) d in dev_desc dev = desc \<and> ep0_size dev = ucast (desc ! 7)
          \<and> dev_address dev = fst (usbc_new_address (dev_addr_bm (core s)))
          \<and> num_configs dev = num_configs (devs (core s) d) + of_nat (length cs)
          \<and> product dev = stored_name name (product (devs (core s) d)))) s"
    (is "achieves _ ?Q s")
proof -
  obtain addr bm where new: "usbc_new_address (dev_addr_bm (core s)) = (addr, bm)" by fastforce
  define c1 where "c1 = dev_stored USB_ENUM_GET_DEV_DESC d (\<lambda>dev. dev\<lparr>ep0_size := ucast (desc ! 7)\<rparr>) (core s)"
  define c2 where "c2 = dev_stored USB_ENUM_SET_ADDRESS d (\<lambda>dev. dev\<lparr>dev_desc := desc\<rparr>) c1\<lparr>dev_addr_bm := bm\<rparr>"
  define c3 where "c3 = dev_stored USB_ENUM_GET_DESC_LENGTH d (\<lambda>dev. dev\<lparr>dev_address := addr\<rparr>) c2"
  define c4 where "c4 = dev_stored USB_ENUM_GET_DESCRIPTORS d (\<lambda>dev. dev\<lparr>desc_total_size := ucast (le16 (cfg ! 2) (cfg ! 3))\<rparr>) c3"
  note cs = c1_def c2_def c3_def c4_def dev_stored_def
  have st: "enum_state c1 = USB_ENUM_GET_DEV_DESC" "enum_state c2 = USB_ENUM_SET_ADDRESS" "enum_state c3 = USB_ENUM_GET_DESC_LENGTH"
    "enum_state c4 = USB_ENUM_GET_DESCRIPTORS" "enum_dev c1 = Some d" "enum_dev c2 = Some d" "enum_dev c3 = Some d" "enum_dev c4 = Some d"
    "length (dev_desc (devs c1 d)) = 18" "dev_desc (devs c4 d) = desc" "dev_addr_bm c1 = dev_addr_bm (core s)"
    "product (devs c4 d) = product (devs (core s) d)" "ep0_size (devs c4 d) = ucast (desc ! 7)" "dev_address (devs c4 d) = addr"
    "num_configs (devs c4 d) = num_configs (devs (core s) d)"
    using assms(3,5) by (simp_all add: cs)
  show ?thesis
  proof (rule replies_step [OF reply_ep0_size [OF assms(1-3)]])
    fix t1 assume t1: "waiting u (get_descriptor USB_DESC_DEVICE 0 0 18) t1
      \<and> moved s (dev_stored USB_ENUM_GET_DEV_DESC d (\<lambda>dev. dev\<lparr>ep0_size := ucast (take 8 desc ! 7)\<rparr>) (core s)) t1"
    then have m1: "moved s c1 t1" by (simp add: c1_def)
    have k1: "core t1 = c1" using m1 by (rule moved_core)
    show "achieves (replies b u [desc, [], cfg, sent_bytes cs, string_bytes name]) ?Q t1"
    proof (rule replies_step [OF reply_dev_desc [where d = d and addr = addr and bm = bm]])
      fix t2 assume t2: "waiting u \<lparr>bmRequestType = USB_HOST_TO_DEVICE,
          bRequest = USB_REQ_SET_ADDRESS, wValue = ucast addr, wIndex = 0, wLength = 0\<rparr> t2
        \<and> moved t1 (dev_stored USB_ENUM_SET_ADDRESS d (\<lambda>dev. dev\<lparr>dev_desc := desc\<rparr>) (core t1)\<lparr>dev_addr_bm := bm\<rparr>) t2"
      then have m2: "moved s c2 t2" using moved_trans [OF m1] by (simp add: k1 c2_def)
      have k2: "core t2 = c2" using m2 by (rule moved_core)
      show "achieves (replies b u [[], cfg, sent_bytes cs, string_bytes name]) ?Q t2"
      proof (rule replies_step [OF reply_address [OF conjunct1 [OF t2], where d = d and addr = addr]])
        show "achieves (replies b u [cfg, sent_bytes cs, string_bytes name]) ?Q t3"
          if t3: "waiting u (get_descriptor USB_DESC_CONFIG 0 0 9) t3
            \<and> moved t2 (dev_stored USB_ENUM_GET_DESC_LENGTH d (\<lambda>dev. dev\<lparr>dev_address := addr\<rparr>) (core t2)) t3" for t3
        proof (rule replies_step [OF reply_length [where d = d]])
          have m3: "moved s c3 t3" using t3 moved_trans [OF m2] by (simp add: k2 c3_def)
          have k3: "core t3 = c3" using m3 by (rule moved_core)
          show "waiting u (get_descriptor USB_DESC_CONFIG 0 0 9) t3" using t3 by simp
          show "enum_state (core t3) = USB_ENUM_GET_DESC_LENGTH" "enum_dev (core t3) = Some d" using k3 st by simp_all
          show "achieves (replies b u [sent_bytes cs, string_bytes name]) ?Q t4"
            if t4: "waiting u (get_descriptor USB_DESC_CONFIG 0 0 (le16 (cfg ! 2) (cfg ! 3))) t4
              \<and> moved t3 (dev_stored USB_ENUM_GET_DESCRIPTORS d (\<lambda>dev. dev\<lparr>desc_total_size := ucast (le16 (cfg ! 2) (cfg ! 3))\<rparr>) (core t3)) t4" for t4
          proof -
            have m4: "moved s c4 t4" using t4 moved_trans [OF m3] by (simp add: k3 c4_def)
            show ?thesis
              by (rule achieves_mono [OF descriptors_and_name [OF conjunct1 [OF t4], where d = d and ptr = ptr and mm' = mm']])
                (use t4 m4 st assms new moved_ring [OF m4 assms(4)] in \<open>simp_all add: moved_core Let_def\<close>)
          qed
        qed (use assms in simp)
      qed (use t2 k2 st in simp_all)
    qed (use t1 k1 st assms new in simp_all)
  qed (use assms in simp_all)
qed

text \<open>\<^bold>\<open>The HID driver gets the HID interfaces (C36).\<close> After the HID driver was registered, offering the interfaces of a device to
  the drivers connects it to exactly those interfaces that are not assigned and have class 3, and changes nothing else
  in the descriptors.\<close>

theorem hid_interfaces_connected:
  fixes s :: "('h, usb_core) usb"
  assumes "ring (nodes s) DriverHead []" and "ring (nodes s) (IfaceHead d) (map (IfaceNode a) is)"
  shows "\<exists>s'. io_then usb_hid_init (usbc_assign_driver d) s = Inr ((), s')
    \<and> (\<forall>i. dm_iface (desc_store (core s') a) i = (let f = dm_iface (desc_store (core s) a) i
         in if i \<in> set is \<and> \<not> assigned f \<and> iface_desc f ! 5 = 3 then f\<lparr>iface_driver := Some (hid_driver (core s))\<rparr> else f))"
proof -
  let ?h = "hid_driver (core s)"
  obtain n where n: "list_add_first (DriverNode ?h) DriverHead (nodes s) = Inr n" "ring n DriverHead [DriverNode ?h]"
    "\<And>x. x \<notin> {DriverNode ?h, DriverHead} \<Longrightarrow> n x = nodes s x"
    using add_first_yields [OF assms(1), of "DriverNode ?h"] by (auto simp: ring_yields_def)
  let ?s = "s\<lparr>core := (core s)\<lparr>drivers := (drivers (core s))(?h := \<lparr>drv_connect = Hid_Connect, drv_ids = hid_dev_id\<rparr>)\<rparr>, nodes := n\<rparr>"
  have init: "usb_hid_init s = Inr ((), ?s)"
    using n(1) by (simp add: usb_hid_init_def usbc_add_driver_def on_nodes_def io_simps)
  have "ring n (IfaceHead d) (map (IfaceNode a) is)"
    by (rule ring_frame [OF assms(2)]) (use n(3) in auto)
  then have "achieves (usbc_assign_driver d) (\<lambda>_ t. t = in_store a (with_driver (core ?s) [?h] (set is)) ?s) ?s"
    using n(2) by (intro assign_driver_run) simp_all
  then show ?thesis
    using init by (auto simp: achieves_def io_simps with_driver_def driver_fits_def hid_fits Let_def)
qed

section \<open>An example\<close>

text \<open>A keyboard: one configuration with one HID interface, its HID descriptor and one endpoint.\<close>

definition keyboard :: "sent_config list" where
  "keyboard = [([9, 2, 34, 0, 1, 1, 0, 0xA0, 50], [],
     [([9, 4, 0, 0, 1, 3, 1, 1, 0], [[9, 0x21, 0x11, 1, 0, 1, 0x22, 0x3F, 0]], [([7, 5, 0x81, 3, 8, 0, 10], [])])])]"

definition keyboard_desc :: "u8 list" where
  "keyboard_desc = [18, 1, 0, 2, 0, 0, 0, 8, 0x6D, 4, 0x1C, 0xC3, 0, 0x64, 1, 2, 0, 1]"

definition new_dev :: usb_dev where
  "new_dev = \<lparr>dev_desc = replicate 18 0, desc_total_size = 0, dev_configs = 0, num_configs = 0, dev_pipes = replicate 10 0,
     pipe_bm = 0, dev_address = 0, ep0_size = 0, product = none_name @ replicate 59 0, manufacturer = none_name @ replicate 59 0\<rparr>"

definition keyboard_iface :: usb_iface where
  "keyboard_iface = \<lparr>iface_desc = [9, 4, 0, 0, 1, 3, 1, 1, 0], iface_eps = None, num_eps = 0, iface_driver = None,
     parent_dev = 8, assigned = False\<rparr>"

definition example_core :: usb_core where
  "example_core = \<lparr>enum_state = USB_ENUM_GET_EP0_SIZE, enum_dev = Some 8, devs = (\<lambda>_. new_dev),
     desc_store = (\<lambda>_. \<lparr>dm_config = (\<lambda>_. \<lparr>config_desc = [], config_ifaces = None, num_ifaces = 0, curr_iface = None\<rparr>),
       dm_iface = (\<lambda>_. keyboard_iface), dm_ep = (\<lambda>_. \<lparr>ep_desc = [], ep_pad = 0, ep_pipe = 0\<rparr>)\<rparr>),
     dev_addr_bm = 1, drivers = (\<lambda>_. \<lparr>drv_connect = Hid_Connect, drv_ids = []\<rparr>), hid_driver = 12\<rparr>"

lemma keyboard_good: "list_all good_config keyboard" "length (sent_bytes keyboard) = 34"
  by (simp_all add: keyboard_def sent_bytes_def sent_defs of_type_def other_desc_def well_formed_desc_def desc_types)

lemma keyboard_memory: "\<exists>mm'. bmalloc (tree_bytes (map config_tree_of keyboard)) 0 demo_boot = Inr (0x20400108, mm')"
proof -
  have "tree_bytes (map config_tree_of keyboard) = 76"
    by (simp add: tree_bytes_def tree_counts_def keyboard_def config_tree_of_def iface_tree_of_def flat_ifaces_def flat_eps_def
      desc_mem_size_def config_bytes_def iface_bytes_def ep_bytes_def)
  moreover have "\<exists>mm'. mm_alloc 76 0 demo_boot = Inr (0x20400108, mm')"
    using alloc_implements [OF demo_rep demo_region(2), of 76] demo_region(3)
    by (simp add: demo_region(1) request_def spec_alloc_def) blast
  ultimately show ?thesis by (auto simp: bmalloc_def or_panic_def)
qed

lemma example_rings:
  "ring (nodes (example_usb c)) (PipeHead 0) [UrbNode 4]" "ring (nodes (example_usb c)) (IfaceHead 8) []"
  "ring (nodes (example_usb c)) DriverHead []"
  by (simp_all add: example_usb_def example_nodes_def ring_def head_or_def last_or_def)

lemma example_waiting: "waiting 4 (get_descriptor USB_DESC_DEVICE 0 0 8) (example_usb example_core)"
  using example_rings(1) [of example_core]
  by (simp add: waiting_def pipe0_ok_def example_usb_def example_pipe_def setup_bytes_def get_descriptor_def descriptor_value_def
    le16_def USB_DEVICE_TO_HOST_def USB_REQ_GET_DESCRIPTOR_def USB_DESC_DEVICE_def)

theorem descriptors_stored_as_tree_witness:
  "\<exists>s'. usbc_parse_descriptors 8 (sent_bytes keyboard @ replicate 5 0) 34 (example_usb example_core) = Inr (1, s')
     \<and> tree_stored 8 0x20400108 (map config_tree_of keyboard) s' \<and> num_configs (devs (core s') 8) = 1"
proof -
  obtain mm' where mm': "bmalloc (tree_bytes (map config_tree_of keyboard)) 0 demo_boot = Inr (0x20400108, mm')"
    using keyboard_memory by blast
  show ?thesis
    using descriptors_stored_as_tree [of keyboard "replicate 5 0" "example_usb example_core" "0x20400108" mm' 8]
      keyboard_good example_rings(2) [of example_core] mm'
    by (simp add: example_usb_def example_core_def new_dev_def keyboard_def)
qed

theorem device_enumerated_witness:
  "achieves (replies still_bus 4 [take 8 keyboard_desc, keyboard_desc, [], [9, 2, 34, 0, 1, 1, 0, 0xA0, 50], sent_bytes keyboard, string_bytes []])
    (\<lambda>_ t. tree_stored 8 0x20400108 (map config_tree_of keyboard) t \<and> dev_desc (devs (core t) 8) = keyboard_desc) (example_usb example_core)"
proof -
  obtain mm' where mm': "bmalloc (tree_bytes (map config_tree_of keyboard)) 0 demo_boot = Inr (0x20400108, mm')"
    using keyboard_memory by blast
  show ?thesis
    by (rule achieves_mono [OF device_enumerated [OF example_waiting, where d = 8 and ptr = "0x20400108" and mm' = mm' and cs = keyboard]])
      (use keyboard_good example_rings(2) [of example_core] mm' in
        \<open>simp_all add: example_usb_def example_core_def new_dev_def none_name_def keyboard_desc_def Let_def\<close>)
qed

theorem hid_interfaces_connected_witness:
  "\<exists>s'. io_then usb_hid_init (usbc_assign_driver 8) ((example_usb example_core)\<lparr>nodes := example_nodes(
       IfaceHead 8 := \<lparr>ln_next = Some (IfaceNode 0x100 0), ln_prev = Some (IfaceNode 0x100 0)\<rparr>,
       IfaceNode 0x100 0 := \<lparr>ln_next = Some (IfaceHead 8), ln_prev = Some (IfaceHead 8)\<rparr>)\<rparr>) = Inr ((), s')
     \<and> iface_driver (dm_iface (desc_store (core s') 0x100) 0) = Some 12"
  using hid_interfaces_connected [of "(example_usb example_core)\<lparr>nodes := example_nodes(
       IfaceHead 8 := \<lparr>ln_next = Some (IfaceNode 0x100 0), ln_prev = Some (IfaceNode 0x100 0)\<rparr>,
       IfaceNode 0x100 0 := \<lparr>ln_next = Some (IfaceHead 8), ln_prev = Some (IfaceHead 8)\<rparr>)\<rparr>" 8 "0x100" "[0]"]
  by (force simp: ring_def head_or_def last_or_def example_nodes_def example_usb_def example_core_def keyboard_iface_def Let_def)

end
