(* ===== verification/Loader.thy ===== *)
theory Loader
  imports Thread_Create Fat_Files Fat_Api Bootloader
begin

text \<open>
  Starting applications (\<^verbatim>\<open>kernel/dynamic_linker.c\<close>, \<^verbatim>\<open>kernel/run.c\<close>, \<^verbatim>\<open>misc/fpi.c\<close>). A binary starts with
  the structure \<^verbatim>\<open>app_info\<close>: its end at offset 0, the entry at 4, the stack size at 8, the start and end of the
  two tables of addresses at 12, 16, 20 and 24, the name of 32 bytes at 28 and the scheduling class, an
  enumeration of one byte, at 60. The linker adds the load address to every word of the tables.

  The binary comes from a file or from the host. The file system has its own allocator state \<open>f_mm\<close>,
  which reading a file does not use; the memory of the kernel holds the binary.
\<close>

section \<open>The linker\<close>

definition app_entry :: "u32 \<Rightarrow> mem \<Rightarrow> u32" where
  "app_entry bin m = load32 m (bin + 4)"

definition app_stack :: "u32 \<Rightarrow> mem \<Rightarrow> u32" where
  "app_stack bin m = load32 m (bin + 8)"

definition got_start :: "u32 \<Rightarrow> mem \<Rightarrow> u32" where
  "got_start bin m = load32 m (bin + 12)"

definition got_end :: "u32 \<Rightarrow> mem \<Rightarrow> u32" where
  "got_end bin m = load32 m (bin + 16)"

definition plt_start :: "u32 \<Rightarrow> mem \<Rightarrow> u32" where
  "plt_start bin m = load32 m (bin + 20)"

definition plt_end :: "u32 \<Rightarrow> mem \<Rightarrow> u32" where
  "plt_end bin m = load32 m (bin + 24)"

definition app_name :: "u32 \<Rightarrow> mem \<Rightarrow> u8 list" where
  "app_name bin m = map (\<lambda>i. m (bin + 28 + of_nat i)) [0..<32]"

definition app_class :: "u32 \<Rightarrow> mem \<Rightarrow> sched_class res" where
  "app_class bin m = (let c = m (bin + 60) in
     if c = 0 then Inr REAL_TIME else if c = 1 then Inr APPLICATION
     else if c = 2 then Inr BACKGROUND else if c = 3 then Inr IDLE else Inl OutOfBounds)"

definition relocate :: "u32 \<Rightarrow> u32 \<Rightarrow> u32 \<Rightarrow> (mem, unit) io" where
  "relocate bin end' = repeat_io (\<lambda>p.
     if p = end' then leave ()
     else io_then (io_update (\<lambda>m. store32 m p (load32 m p + bin))) (again (p + 4)))"

definition dynamic_linker :: "u32 \<Rightarrow> (mem, unit) io" where
  "dynamic_linker bin =
     io_bind (io_gets (got_start bin)) (\<lambda>gs. io_bind (io_gets (got_end bin)) (\<lambda>ge.
     io_then (relocate bin (bin + ge) (bin + gs))
     (io_bind (io_gets (plt_start bin)) (\<lambda>ps. io_bind (io_gets (plt_end bin)) (\<lambda>pe.
       relocate bin (bin + pe) (bin + ps))))))"

definition on_memory :: "(mem, 'a) io \<Rightarrow> (kernel, 'a) io" where
  "on_memory m k = rbind (m (kmem k)) (\<lambda>(x, m'). Inr (x, set_kmem m' k))"

text \<open>The thread information is read before the tables change; the entry has its Thumb bit set.\<close>

definition dynamic_linker_run :: "u32 \<Rightarrow> u32 \<Rightarrow> (kernel, u32) io" where
  "dynamic_linker_run exit_addr bin =
     io_bind (io_gets kmem) (\<lambda>m.
     io_bind (io_res (app_class bin m)) (\<lambda>cls.
     let info = \<lparr>ti_name = app_name bin m, ti_stack_size = app_stack bin m,
         ti_thread = (app_entry bin m + bin) OR 1, ti_arg = 0, ti_class = cls, ti_code_addr = bin\<rparr>
     in io_then (on_memory (dynamic_linker bin)) (new_thread exit_addr info)))"

section \<open>Running a file\<close>

record 'd system =
  sys_kernel :: kernel
  sys_fat :: "'d fat"

abbreviation on_kernel :: "(kernel, 'a) io \<Rightarrow> ('d system, 'a) io" where
  "on_kernel \<equiv> io_zoom sys_kernel sys_kernel_update"

abbreviation on_fat :: "('d fat, 'a) io \<Rightarrow> ('d system, 'a) io" where
  "on_fat \<equiv> io_zoom sys_fat sys_fat_update"

definition read_or_panic :: "'d sd_ops \<Rightarrow> string \<Rightarrow> fat_file \<Rightarrow> u32 \<Rightarrow> ('d system, fat_file \<times> u8 list) io" where
  "read_or_panic ops reason f count =
     io_bind (on_fat (at_volume (file_vol f) (fat_file_read ops f count))) (\<lambda>(st, f', bytes).
       if st \<noteq> FSTATUS_OK then io_panic reason else io_return (f', bytes))"

definition binary_pages :: "u32 \<Rightarrow> u32" where
  "binary_pages size' = size' div 512 + (if size' AND 512 \<noteq> 0 then 1 else 0)"

text \<open>The loop goes on while a read returns all the 512 bytes it asked for.\<close>

definition load_file :: "'d sd_ops \<Rightarrow> fat_file \<times> u32 \<Rightarrow> ('d system, unit) io" where
  "load_file ops = repeat_io (\<lambda>(f, p).
     io_bind (read_or_panic ops ''Cant read from file'' f 512) (\<lambda>(f', bytes).
     io_then (on_kernel (on_memory (io_update (write_bytes p bytes))))
       (if length bytes = 512 then again (f', p + 512) else leave ())))"

text \<open>\<open>path\<close> is the zero-terminated path; \<^verbatim>\<open>fat_file_open\<close> takes its length in 16 bits.\<close>

definition run_binary :: "'d sd_ops \<Rightarrow> u32 \<Rightarrow> fat_file \<Rightarrow> u8 list \<Rightarrow> ('d system, u8) io" where
  "run_binary ops exit_addr file0 path =
     (let len = length (takeWhile (\<lambda>c. c \<noteq> 0) path) in
     io_bind (on_fat (fat_file_open ops path (of_nat len) file0)) (\<lambda>(st, f).
     if st \<noteq> FSTATUS_OK then io_panic ''Cant open file''
     else
       io_bind (read_or_panic ops ''Cant read'' f 4) (\<lambda>(f, bytes).
       if length bytes \<noteq> 4 then io_panic ''Cant read binary size''
       else
         io_bind (io_res (load_word bytes 0)) (\<lambda>size'.
         io_bind (on_kernel (io_zoom k_mm k_mm_update (pmalloc (binary_pages size') 1))) (\<lambda>bin.
         io_bind (on_fat (at_volume (file_vol f) (fat_file_jump ops f 0))) (\<lambda>(_, f).
         io_then (load_file ops (f, bin))
         (io_bind (on_kernel (dynamic_linker_run exit_addr bin)) (\<lambda>_. io_return 1))))))))"

section \<open>Applications from the host\<close>

text \<open>
  The state of the thread that serves the programming interface: the receiver of the kernel, the
  kernel, and its three local variables.
\<close>

record 'h fpi_state =
  fpi_rx :: "'h receiver"
  fpi_kernel :: kernel
  binary_buffer :: u32
  buffer_ptr :: u32
  curr_tid :: u32

abbreviation fpi_link :: "('h receiver, 'a) io \<Rightarrow> ('h fpi_state, 'a) io" where
  "fpi_link \<equiv> io_zoom fpi_rx fpi_rx_update"

abbreviation in_kernel :: "(kernel, 'a) io \<Rightarrow> ('h fpi_state, 'a) io" where
  "in_kernel \<equiv> io_zoom fpi_kernel fpi_kernel_update"

definition fpi_allocate :: "u8 list \<Rightarrow> ('h fpi_state, unit) io" where
  "fpi_allocate f =
     io_bind (io_res (payload_word (frame_payload f))) (\<lambda>size'.
     io_bind (in_kernel (io_zoom k_mm k_mm_update (mm_alloc size' SRAM))) (\<lambda>p.
     io_update (\<lambda>s. s\<lparr>binary_buffer := p, buffer_ptr := p\<rparr>)))"

text \<open>\<^verbatim>\<open>frame.payload[i]\<close> for \<open>i\<close> below \<^verbatim>\<open>frame.size\<close>.\<close>

definition fpi_append :: "u8 list \<Rightarrow> ('h fpi_state, unit) io" where
  "fpi_append f =
     (let n = unat (frame_size f) in
     if n \<le> length (frame_payload f) then
       io_bind (io_gets buffer_ptr) (\<lambda>p.
       io_then (in_kernel (on_memory (io_update (write_bytes p (take n (frame_payload f))))))
         (io_update (\<lambda>s. s\<lparr>buffer_ptr := p + of_nat n\<rparr>)))
     else io_fail OutOfBounds)"

definition fpi_start :: "u32 \<Rightarrow> ('h fpi_state, unit) io" where
  "fpi_start exit_addr =
     io_bind (io_gets curr_tid) (\<lambda>t.
     io_then (if t \<noteq> 0 then in_kernel (\<lambda>k. rbind (kill_thread t k) (\<lambda>k'. Inr ((), k'))) else io_return ())
     (io_bind (io_gets binary_buffer) (\<lambda>bin.
     io_bind (in_kernel (dynamic_linker_run exit_addr bin)) (\<lambda>t'.
     io_update (\<lambda>s. s\<lparr>curr_tid := t'\<rparr>)))))"

definition fpi_frame :: "u32 \<Rightarrow> u8 list \<Rightarrow> ('h fpi_state, unit) io" where
  "fpi_frame exit_addr f =
     (if frame_cmd f = 1 then fpi_allocate f
      else if frame_cmd f = 2 \<or> frame_cmd f = 3 then
        io_then (fpi_append f) (if frame_cmd f = 3 then fpi_start exit_addr else io_return ())
      else io_return ())"

text \<open>One round of the endless loop.\<close>

definition fpi_poll :: "'h mmio \<Rightarrow> u32 \<Rightarrow> ('h fpi_state, unit) io" where
  "fpi_poll b exit_addr =
     io_bind (fpi_link check_new_frame) (\<lambda>new.
     if new = 0 then io_return ()
     else
       io_bind (io_gets (\<lambda>s. frame (fpi_rx s))) (\<lambda>f.
       io_then (fpi_frame exit_addr f) (fpi_link (send_response b True RESP_OK))))"

definition fpi :: "'h mmio \<Rightarrow> u32 \<Rightarrow> ('h fpi_state, unit) io" where
  "fpi b exit_addr =
     io_then (io_update (\<lambda>s. s\<lparr>binary_buffer := 0, buffer_ptr := 0, curr_tid := 0\<rparr>))
       (repeat_io (\<lambda>_. io_bind (fpi_poll b exit_addr) again) ())"

section \<open>What the relocation does\<close>

definition relocated :: "u32 \<Rightarrow> u32 \<Rightarrow> nat \<Rightarrow> mem \<Rightarrow> mem \<Rightarrow> bool" where
  "relocated bin s n m m' \<longleftrightarrow> (\<forall>i<n. load32 m' (s + W (4 * i)) = load32 m (s + W (4 * i)) + bin)
     \<and> (\<forall>x. \<not> within s (4 * n) x \<longrightarrow> m' x = m x)"

lemma within_4: "within s (4 * Suc n) x \<longleftrightarrow> x \<in> word_at s \<or> within (s + 4) (4 * n) x"
  using within_Suc [of s "4 * n + 3" x] within_Suc [of "s + 1" "4 * n + 2" x] within_Suc [of "s + 2" "4 * n + 1" x]
    within_Suc [of "s + 3" "4 * n" x]
  by (auto simp: word_at_def algebra_simps numeral_eq_Suc)

lemma word_not_within:
  assumes "n < 2 ^ 30" "x \<in> word_at s"
  shows "\<not> within (s + 4) (4 * n) x"
proof -
  have "unat (x - (s + 4)) \<in> {2 ^ 32 - 4, 2 ^ 32 - 3, 2 ^ 32 - 2, 2 ^ 32 - 1}"
    using assms(2) by (auto simp: word_at_def unsigned_minus_1_eq_mask mask_eq_exp_minus_1)
  then show ?thesis using assms(1) by (auto simp: within_def)
qed

lemma relocated_step:
  assumes n: "n < 2 ^ 29 - 1" and r: "relocated bin (s + 4) n (store32 m s (load32 m s + bin)) m'"
  shows "relocated bin s (Suc n) m m'"
  unfolding relocated_def
proof (intro conjI allI impI)
  fix i assume i: "i < Suc n"
  show "load32 m' (s + W (4 * i)) = load32 m (s + W (4 * i)) + bin"
  proof (cases i)
    case 0
    have "load32 m' s = load32 (store32 m s (load32 m s + bin)) s"
      using r n word_not_within by (intro load32_cong) (auto simp: relocated_def)
    then show ?thesis using 0 by simp
  next
    case (Suc j)
    have "word_at s \<inter> word_at (s + W (4 * i)) = {}"
      using words_apart [of i "s + W (4 * i)"] i n Suc by (auto simp: Int_commute)
    then have "load32 (store32 m s (load32 m s + bin)) (s + W (4 * i)) = load32 m (s + W (4 * i))"
      by (rule load32_store32_other)
    moreover have "s + W (4 * i) = s + 4 + W (4 * j)" using Suc by (simp add: algebra_simps)
    moreover have "load32 m' (s + 4 + W (4 * j)) = load32 (store32 m s (load32 m s + bin)) (s + 4 + W (4 * j)) + bin"
      using r i Suc unfolding relocated_def by simp
    ultimately show ?thesis by (simp only:)
  qed
next
  fix x assume "\<not> within s (4 * Suc n) x"
  then have "x \<notin> word_at s" "\<not> within (s + 4) (4 * n) x" unfolding within_4 by simp_all
  then show "m' x = m x" using r by (simp add: relocated_def)
qed

lemma relocate_step [io_simps]:
  "relocate bin e s m = (if s = e then Inr ((), m) else relocate bin e (s + 4) (store32 m s (load32 m s + bin)))"
  unfolding relocate_def by (subst repeat_io_unfold) (simp add: io_simps)

lemma relocate_ok:
  assumes "n < 2 ^ 29"
  shows "\<exists>m'. relocate bin (s + W (4 * n)) s m = Inr ((), m') \<and> relocated bin s n m m'"
  using assms
proof (induction n arbitrary: s m)
  case 0
  show ?case by (subst relocate_step) (simp add: relocated_def)
next
  case (Suc n)
  let ?m = "store32 m s (load32 m s + bin)"
  have e: "s + W (4 * Suc n) = s + 4 + W (4 * n)" by (simp add: algebra_simps)
  have "W (4 * Suc n) \<noteq> 0" using Suc.prems W_eq_iff [of "4 * Suc n" 0] by simp
  then have ne: "s \<noteq> s + W (4 * Suc n)" by simp
  obtain m' where "relocate bin (s + 4 + W (4 * n)) (s + 4) ?m = Inr ((), m')" "relocated bin (s + 4) n ?m m'"
    using Suc.IH [of "s + 4" ?m] Suc.prems by auto
  then show ?case
    using relocated_step [of n bin s m m'] Suc.prems ne unfolding e by (subst relocate_step) auto
qed

text \<open>A table whose size is no multiple of four has no last word: the loop steps over its end for ever.\<close>

lemma relocate_stuck:
  assumes "\<not> 4 dvd unat (e - s)"
  shows "relocate bin e s m = Inl Diverge"
  unfolding relocate_def
proof (rule repeat_io_stuck [where I = "\<lambda>p _. \<not> 4 dvd unat (e - p)"])
  fix p m assume odd: "\<not> 4 dvd unat (e - p)"
  have "\<not> 4 dvd unat (e - (p + 4))"
  proof
    assume d: "4 dvd unat (e - (p + 4))"
    have "unat (e - p) = unat ((e - (p + 4)) + 4)" by simp
    also have "\<dots> = (unat (e - (p + 4)) + 4) mod 2 ^ 32" by (simp only: unat_word_ariths) simp
    finally have "unat (e - p) = (unat (e - (p + 4)) + 4) mod 2 ^ 32" .
    moreover have "4 dvd (unat (e - (p + 4)) + 4) mod 2 ^ 32" using d by (intro dvd_mod) simp_all
    ultimately show False using odd by simp
  qed
  moreover have "p \<noteq> e" using odd by auto
  ultimately show "\<exists>c' s'. (if p = e then leave () else
      io_then (io_update (\<lambda>m. store32 m p (load32 m p + bin))) (again (p + 4))) m = Inr (Inl c', s') \<and> \<not> 4 dvd unat (e - c')"
    by (simp add: io_simps)
qed (rule assms)

section \<open>Properties of the linker\<close>

lemma dynamic_linker_run_eq [io_simps]:
  "dynamic_linker bin m = rbind (relocate bin (bin + got_end bin m) (bin + got_start bin m) m) (\<lambda>(_, m1).
     relocate bin (bin + plt_end bin m1) (bin + plt_start bin m1) m1)"
  by (simp add: dynamic_linker_def io_simps)

lemma table_header:
  assumes "\<forall>x. \<not> within s n x \<longrightarrow> m' x = m x" "\<forall>i. 20 \<le> i \<and> i < 28 \<longrightarrow> \<not> within s n (bin + W i)"
  shows "plt_start bin m' = plt_start bin m" "plt_end bin m' = plt_end bin m"
proof -
  have same: "m' (bin + W i) = m (bin + W i)" if "20 \<le> i" "i < 28" for i using assms that by blast
  have "m' (bin + 20) = m (bin + 20)" "m' (bin + 21) = m (bin + 21)" "m' (bin + 22) = m (bin + 22)" "m' (bin + 23) = m (bin + 23)"
    "m' (bin + 24) = m (bin + 24)" "m' (bin + 25) = m (bin + 25)" "m' (bin + 26) = m (bin + 26)" "m' (bin + 27) = m (bin + 27)"
    using same [of 20] same [of 21] same [of 22] same [of 23] same [of 24] same [of 25] same [of 26] same [of 27] by simp_all
  then show "plt_start bin m' = plt_start bin m" "plt_end bin m' = plt_end bin m"
    by (simp_all add: plt_start_def plt_end_def load32_def add.assoc)
qed

text \<open>
  Relocation. For a binary whose two tables are apart from each other, and whose first table is
  apart from the header fields that locate the second, the linker returns; every word of both tables is then
  its old value plus the load address, and no other byte of the memory has changed.
\<close>

lemma linker_relocates_once:
  assumes got: "got_end bin m = got_start bin m + of_nat (4 * g)" "g < 2 ^ 29"
    and plt: "plt_end bin m = plt_start bin m + of_nat (4 * p)" "p < 2 ^ 29"
    and apart: "\<forall>x. \<not> (within (bin + got_start bin m) (4 * g) x \<and> within (bin + plt_start bin m) (4 * p) x)"
    and header: "\<forall>i. 20 \<le> i \<and> i < 28 \<longrightarrow> \<not> within (bin + got_start bin m) (4 * g) (bin + of_nat i)"
  shows "\<exists>m'. dynamic_linker bin m = Inr ((), m')
    \<and> (\<forall>i<g. let a = bin + got_start bin m + of_nat (4 * i) in load32 m' a = load32 m a + bin)
    \<and> (\<forall>i<p. let a = bin + plt_start bin m + of_nat (4 * i) in load32 m' a = load32 m a + bin)
    \<and> (\<forall>x. \<not> within (bin + got_start bin m) (4 * g) x \<and> \<not> within (bin + plt_start bin m) (4 * p) x \<longrightarrow> m' x = m x)"
proof -
  let ?gs = "bin + got_start bin m" and ?ps = "bin + plt_start bin m"
  obtain m1 where m1: "relocate bin (?gs + W (4 * g)) ?gs m = Inr ((), m1)" "relocated bin ?gs g m m1"
    using relocate_ok [OF got(2)] by blast
  obtain m2 where m2: "relocate bin (?ps + W (4 * p)) ?ps m1 = Inr ((), m2)" "relocated bin ?ps p m1 m2"
    using relocate_ok [OF plt(2)] by blast
  note fields = table_header [OF conjunct2 [OF m1(2) [unfolded relocated_def]] header]
  have ends: "bin + got_end bin m = ?gs + W (4 * g)" "bin + plt_end bin m = ?ps + W (4 * p)"
    unfolding got(1) plt(1) by (simp_all only: add.assoc)
  have run: "dynamic_linker bin m = Inr ((), m2)"
    unfolding dynamic_linker_run_eq ends m1(1) by (simp only: rbind.simps prod.case fields ends m2(1))
  have in_table: "\<forall>x \<in> word_at (s + W (4 * i)). within s (4 * n) x" if "i < n" "n < 2 ^ 29" for s i n
  proof
    fix x assume "x \<in> word_at (s + W (4 * i))"
    then have "x - s \<in> {W (4 * i), W (4 * i + 1), W (4 * i + 2), W (4 * i + 3)}" by (auto simp: word_at_def)
    moreover have "unat (W (4 * i + j)) = 4 * i + j" if "j < 4" for j using that \<open>i < n\<close> \<open>n < 2 ^ 29\<close> by (intro unat_W) simp
    from this [of 0] this [of 1] this [of 2] this [of 3] have "unat (W (4 * i)) = 4 * i" "unat (W (4 * i + 1)) = 4 * i + 1"
      "unat (W (4 * i + 2)) = 4 * i + 2" "unat (W (4 * i + 3)) = 4 * i + 3" by simp_all
    ultimately have "unat (x - s) \<le> 4 * i + 3" by (auto simp del: of_nat_add of_nat_mult)
    then show "within s (4 * n) x" using \<open>i < n\<close> by (simp add: within_def)
  qed
  have got_kept: "load32 m2 (?gs + W (4 * i)) = load32 m1 (?gs + W (4 * i))" if "i < g" for i
    using in_table [OF that got(2)] apart m2(2) by (intro load32_cong) (auto simp: relocated_def)
  have plt_kept: "load32 m1 (?ps + W (4 * i)) = load32 m (?ps + W (4 * i))" if "i < p" for i
    using in_table [OF that plt(2)] apart m1(2) by (intro load32_cong) (auto simp: relocated_def)
  show ?thesis
    using run m1(2) m2(2) got_kept plt_kept unfolding relocated_def Let_def by (intro exI [of _ m2]) auto
qed

text \<open>
  The pages \<^verbatim>\<open>run_binary\<close> allocates are too few exactly when the size is no multiple of 512 and its bit 9 is
  clear: the code tests that bit, and not the remainder, before it rounds up.
\<close>

lemma binary_pages_short:
  "512 * unat (binary_pages n) < unat n \<longleftrightarrow> unat n mod 512 \<noteq> 0 \<and> \<not> bit n 9"
proof -
  have "n AND 512 \<noteq> 0 \<longleftrightarrow> bit n 9" using bit_iff_and_push_bit_not_eq_0 [of n 9] by simp
  then have pages: "binary_pages n = n div 512 + (if bit n 9 then 1 else 0)" by (simp add: binary_pages_def)
  have "unat n div 512 < 2 ^ 23" using unsigned_less [of n, where ?'a = nat] by simp
  then have "unat (n div 512 + 1) = unat n div 512 + 1"
    by (subst unat_add_lem [THEN iffD1]) (simp_all add: unat_div)
  then have "unat (binary_pages n) = unat n div 512 + (if bit n 9 then 1 else 0)"
    by (simp add: pages unat_div)
  moreover have "512 * (q + (if c then 1 else 0)) < 512 * q + r \<longleftrightarrow> r \<noteq> 0 \<and> \<not> c" if "r < 512" for q r :: nat and c
    using that by (cases c) auto
  from this [of "unat n mod 512" "unat n div 512" "bit n 9"]
  have "512 * (unat n div 512 + (if bit n 9 then 1 else 0)) < unat n \<longleftrightarrow> unat n mod 512 \<noteq> 0 \<and> \<not> bit n 9" by simp
  ultimately show ?thesis by simp
qed

end
