(* ===== verification/Ethernet.thy ===== *)
theory Ethernet
  imports Serial_Port Device_Registers
begin

text \<open>
  The Ethernet controller (\<^verbatim>\<open>drivers/gmac.c\<close>) and the pins of its physical layer (\<^verbatim>\<open>board/ethernet.c\<close>). The
  descriptors and buffers are static arrays, whose addresses come from the linker (\<open>gmac_layout\<close>). The
  controller writes into the receive descriptors by itself; the state holds what the processor reads there.
  The functions that read and write raw frames return zero and do nothing else.
\<close>

record gmac_desc =
  desc_addr :: u32
  desc_info :: u32

record gmac_layout =
  at_tx_descriptors :: u32
  at_rx_descriptors :: u32
  at_tx_descriptor_dummy :: u32
  at_rx_descriptor_dummy :: u32
  at_tx_buffers :: u32
  at_rx_buffers :: u32
  at_tx_buffer_dummy :: u32
  at_rx_buffer_dummy :: u32

record 'h gmac =
  tx_descriptors :: "gmac_desc list"
  rx_descriptors :: "gmac_desc list"
  tx_descriptor_dummy :: gmac_desc
  rx_descriptor_dummy :: gmac_desc
  tx_buffer_index :: u32
  rx_buffer_index :: u32
  gmac_hw :: 'h

abbreviation on_gmac :: "('h, 'a) io \<Rightarrow> ('h gmac, 'a) io" where
  "on_gmac \<equiv> io_zoom gmac_hw gmac_hw_update"

definition GMAC_TX_BUFFER_SIZE :: nat where "GMAC_TX_BUFFER_SIZE = 1500"
definition GMAC_RX_BUFFER_SIZE :: nat where "GMAC_RX_BUFFER_SIZE = 128"
definition GMAC_TX_DESCRIPTORS :: nat where "GMAC_TX_DESCRIPTORS = 2"
definition GMAC_RX_DESCRIPTORS :: nat where "GMAC_RX_DESCRIPTORS = 16"

section \<open>The pools of buffers\<close>

definition pool_desc :: "u32 \<Rightarrow> nat \<Rightarrow> nat \<Rightarrow> gmac_desc" where
  "pool_desc base bytes i = \<lparr>desc_addr = base + of_nat (bytes * i), desc_info = 0\<rparr>"

definition gmac_init_tx_buffer_pool :: "'h mmio \<Rightarrow> gmac_layout \<Rightarrow> ('h gmac, unit) io" where
  "gmac_init_tx_buffer_pool b A =
     (let ds = map (pool_desc (at_tx_buffers A) GMAC_TX_BUFFER_SIZE) [0..<GMAC_TX_DESCRIPTORS];
          l = GMAC_TX_DESCRIPTORS - 1
      in io_then (io_update (\<lambda>s. s\<lparr>tx_buffer_index := 0,
            tx_descriptors := ds[l := (ds ! l)\<lparr>desc_info := desc_info (ds ! l) OR push_bit 30 1\<rparr>]\<rparr>))
         (on_gmac (reg_set b (GMAC ''TBQB'') (at_tx_descriptors A))))"

definition gmac_init_rx_buffer_pool :: "'h mmio \<Rightarrow> gmac_layout \<Rightarrow> ('h gmac, unit) io" where
  "gmac_init_rx_buffer_pool b A =
     (let ds = map (pool_desc (at_rx_buffers A) GMAC_RX_BUFFER_SIZE) [0..<GMAC_RX_DESCRIPTORS];
          l = GMAC_RX_DESCRIPTORS - 1
      in io_then (io_update (\<lambda>s. s\<lparr>rx_buffer_index := 0,
            rx_descriptors := ds[l := (ds ! l)\<lparr>desc_addr := desc_addr (ds ! l) OR push_bit 1 1\<rparr>]\<rparr>))
         (on_gmac (reg_set b (GMAC ''RBQB'') (at_rx_descriptors A))))"

text \<open>The queue registers of the five priority queues, and the bit of the receive wrap set in the transmit address.\<close>

definition gmac_init_dummy_buffer_pool :: "'h mmio \<Rightarrow> gmac_layout \<Rightarrow> ('h gmac, unit) io" where
  "gmac_init_dummy_buffer_pool b A =
     io_then (io_update (\<lambda>s. s\<lparr>rx_descriptor_dummy := \<lparr>desc_addr = at_rx_buffer_dummy A, desc_info = 0\<rparr>,
         tx_descriptor_dummy := \<lparr>desc_addr = at_tx_buffer_dummy A OR push_bit 1 1, desc_info = push_bit 30 1\<rparr>\<rparr>))
     (for_io (\<lambda>i _. on_gmac
         (io_then (reg_set b (GMAC ''TBQBAPQ'' + 4 * of_nat i) (at_tx_descriptor_dummy A))
           (reg_set b (GMAC ''RBQBAPQ'' + 4 * of_nat i) (at_rx_descriptor_dummy A)))) [0..<5] ())"

section \<open>Control\<close>

definition loop_back_pause :: "'h mmio \<Rightarrow> ('h, unit) io \<Rightarrow> ('h, unit) io" where
  "loop_back_pause b change =
     io_bind (reg_get b (GMAC ''NCR'')) (\<lambda>v.
     let gmac_state = ucast (drop_bit 2 v AND 3) :: u8
     in io_then (reg_and b (GMAC ''NCR'') (NOT (push_bit 2 1 OR push_bit 3 1)))
        (io_then change
        (reg_or b (GMAC ''NCR'') (push_bit 2 (ucast (gmac_state AND 3))))))"

definition gmac_enable_loop_back :: "'h mmio \<Rightarrow> ('h, unit) io" where
  "gmac_enable_loop_back b = loop_back_pause b (reg_or b (GMAC ''NCR'') (push_bit 1 1))"

definition gmac_disable_loop_back :: "'h mmio \<Rightarrow> ('h, unit) io" where
  "gmac_disable_loop_back b = loop_back_pause b (reg_and b (GMAC ''NCR'') (NOT (push_bit 1 1)))"

definition gmac_init :: "'h mmio \<Rightarrow> gmac_layout \<Rightarrow> ('h gmac, unit) io" where
  "gmac_init b A =
     io_then (on_gmac
       (io_then (gmac_enable_loop_back b)
       (io_then (reg_or b (GMAC ''NCR'') (push_bit 5 1))
       (io_then (reg_set b (GMAC ''NCFGR'') (push_bit 0 1 OR push_bit 1 1 OR push_bit 18 4))
       (io_then (reg_set b (GMAC ''UR'') 0)
       (io_then (reg_set b (GMAC ''DCFGR'') (push_bit 0 4 OR push_bit 8 3 OR push_bit 10 1 OR push_bit 16 2))
       (io_then (reg_set b (GMAC ''WOL'') 0)
       (reg_set b (GMAC ''IPGS'') (push_bit 8 1 OR 1)))))))))
     (io_then (gmac_init_rx_buffer_pool b A)
     (io_then (gmac_init_tx_buffer_pool b A)
     (io_then (gmac_init_dummy_buffer_pool b A)
     (on_gmac (reg_set b (GMAC ''IER'') (push_bit 7 1 OR push_bit 1 1))))))"

definition gmac_deinit :: "'h mmio \<Rightarrow> ('h, unit) io" where
  "gmac_deinit b = io_then (reg_set b (GMAC ''IDR'') 0xFFFFFFFF) (reg_set b (GMAC ''NCR'') 0)"

definition gmac_enable :: "'h mmio \<Rightarrow> ('h, unit) io" where
  "gmac_enable b = reg_or b (GMAC ''NCR'') (push_bit 2 1 OR push_bit 3 1)"

text \<open>The complement binds tighter than the disjunction, so bit 3 is kept.\<close>

definition gmac_disable :: "'h mmio \<Rightarrow> ('h, unit) io" where
  "gmac_disable b = reg_and b (GMAC ''NCR'') (NOT (push_bit 2 1) OR push_bit 3 1)"

section \<open>The management interface of the physical layer\<close>

definition phy_command :: "u8 \<Rightarrow> u8 \<Rightarrow> u32 \<Rightarrow> u32" where
  "phy_command phy_addr reg op =
     push_bit 16 2 OR push_bit 23 (ucast (phy_addr AND 0x1F)) OR push_bit 18 (ucast (reg AND 0x1F))
       OR push_bit 28 op OR push_bit 30 1"

definition gmac_in_phy :: "'h mmio \<Rightarrow> u8 \<Rightarrow> u8 \<Rightarrow> ('h, u16) io" where
  "gmac_in_phy b phy_addr reg =
     io_then (reg_or b (GMAC ''NCR'') (push_bit 4 1))
     (io_then (reg_set b (GMAC ''MAN'') (phy_command phy_addr reg 2))
     (io_bind (reg_wait b (GMAC ''NSR'') (\<lambda>v. v AND push_bit 2 1 \<noteq> 0)) (\<lambda>_.
     io_bind (reg_get b (GMAC ''MAN'')) (\<lambda>v.
     io_then (reg_and b (GMAC ''NCR'') (NOT (push_bit 4 1))) (io_return (ucast (v AND 0xFFFF)))))))"

definition gmac_out_phy :: "'h mmio \<Rightarrow> u8 \<Rightarrow> u8 \<Rightarrow> u16 \<Rightarrow> ('h, unit) io" where
  "gmac_out_phy b phy_addr reg data =
     io_then (reg_or b (GMAC ''NCR'') (push_bit 4 1))
     (io_then (reg_set b (GMAC ''MAN'') (phy_command phy_addr reg 1 OR ucast data))
     (io_bind (reg_wait b (GMAC ''NSR'') (\<lambda>v. v AND push_bit 2 1 \<noteq> 0)) (\<lambda>_.
     reg_and b (GMAC ''NCR'') (NOT (push_bit 4 1)))))"

section \<open>Received frames\<close>

fun raw_length :: "gmac_desc list \<Rightarrow> u32 \<Rightarrow> nat list \<Rightarrow> u32 \<Rightarrow> bool \<Rightarrow> u32 res" where
  "raw_length ds start [] len sof_valid = Inr len"
| "raw_length ds start (i # is) len sof_valid =
     (let j = start + of_nat i;
          index = (if j \<ge> of_nat GMAC_RX_DESCRIPTORS then j - of_nat GMAC_RX_DESCRIPTORS else j)
      in rbind (array_get ds (unat index)) (\<lambda>d.
         if desc_addr d AND 1 = 0 then Inr len
         else
           (let sof = sof_valid \<or> desc_info d AND push_bit 14 1 \<noteq> 0
            in if desc_info d AND push_bit 15 1 \<noteq> 0 then Inr len
               else raw_length ds start is (if sof then len + (desc_info d AND 0x1FFF) else len) sof)))"

definition gmac_get_raw_length :: "('h gmac, u32) io" where
  "gmac_get_raw_length =
     io_bind (io_gets (\<lambda>s. s)) (\<lambda>s. io_res (raw_length (rx_descriptors s) (rx_buffer_index s) [0..<GMAC_RX_DESCRIPTORS] 0 False))"

definition gmac_read_raw :: "u32 \<Rightarrow> u32 \<Rightarrow> u32" where
  "gmac_read_raw buffer size' = 0"

definition gmac_write_raw :: "u32 \<Rightarrow> u32 \<Rightarrow> u32" where
  "gmac_write_raw buffer size' = 0"

definition gmac_handler :: "'h mmio \<Rightarrow> ('h, unit) io" where
  "gmac_handler b =
     io_bind (reg_get b (GMAC ''ISR'')) (\<lambda>_. io_bind (reg_get b (GMAC ''TSR'')) (\<lambda>_. io_bind (reg_get b (GMAC ''RSR'')) (\<lambda>_.
       printl b True (cstr ''GMAC'') [])))"

section \<open>The board\<close>

definition eth_init :: "'h mmio \<Rightarrow> ('h, unit) io" where
  "eth_init b =
     io_then (gpio_set_function b GPIOD 8 GPIO_FUNC_A)
     (io_then (gpio_set_function b GPIOD 9 GPIO_FUNC_A)
     (io_then (gpio_set_function b GPIOD 0 GPIO_FUNC_A)
     (io_then (gpio_set_function b GPIOC 10 GPIO_FUNC_OFF)
     (io_then (gpio_set b GPIOC 10)
     (io_then (gpio_set_direction b GPIOC 10 GPIO_OUTPUT)
     (io_then (gpio_set_function b GPIOD 2 GPIO_FUNC_A)
     (io_then (gpio_set_function b GPIOC 3 GPIO_FUNC_A)
     (io_then (gpio_set_function b GPIOD 1 GPIO_FUNC_A)
     (io_then (gpio_set_function b GPIOD 5 GPIO_FUNC_A)
     (io_then (gpio_set_function b GPIOD 6 GPIO_FUNC_A)
     (io_then (gpio_set_function b GPIOD 7 GPIO_FUNC_A)
     (io_then (gpio_set_function b GPIOD 4 GPIO_FUNC_A)
     (io_then (peripheral_clock_enable b 39) (nvic_enable b 39))))))))))))))"

definition eth_phy_reset_assert :: "'h mmio \<Rightarrow> ('h, unit) io" where
  "eth_phy_reset_assert b = gpio_clear b GPIOC 10"

definition eth_phy_reset_deassert :: "'h mmio \<Rightarrow> ('h, unit) io" where
  "eth_phy_reset_deassert b = gpio_set b GPIOC 10"

section \<open>Random numbers\<close>

text \<open>The generator of \<^verbatim>\<open>drivers/trand.c\<close>; \<open>srand\<close> and \<open>rand\<close> of the C library are parameters of \<^verbatim>\<open>generic/prand.c\<close>.\<close>

definition trand_init :: "'h mmio \<Rightarrow> ('h, unit) io" where
  "trand_init b = io_then (peripheral_clock_enable b 57) (reg_set b (TRAND ''CR'') (0x524E4700 OR 1))"

definition trand :: "'h mmio \<Rightarrow> ('h, u32) io" where
  "trand b = io_bind (reg_wait b (TRAND ''ISR'') (\<lambda>v. v AND 1 \<noteq> 0)) (\<lambda>_. reg_get b (TRAND ''ODATA''))"

definition prand_init :: "'h mmio \<Rightarrow> (u32 \<Rightarrow> ('h, unit) io) \<Rightarrow> ('h, unit) io" where
  "prand_init b srand = io_then (trand_init b) (io_bind (trand b) srand)"

definition prand :: "('h, u32) io \<Rightarrow> ('h, u32) io" where
  "prand rand = rand"

section \<open>What the code does\<close>

text \<open>Disabling the controller keeps a running transmitter on.\<close>

lemma gmac_disable_keeps_transmitter:
  "gmac_disable b h = (let (v, h') = bus_read b (GMAC ''NCR'') h in Inr ((), bus_write b (GMAC ''NCR'') (v AND NOT 4) h'))"
proof -
  have "(NOT (push_bit 2 1) OR push_bit 3 1 :: u32) = NOT 4" by simp
  then show ?thesis by (simp add: gmac_disable_def reg_and_def io_simps split: prod.split)
qed

text \<open>The buffer that ends a frame is not counted: a frame in one buffer has the length zero.\<close>

lemma single_buffer_frame_length:
  assumes "rx_buffer_index s < 16" "unat (rx_buffer_index s) < length (rx_descriptors s)"
    "desc_info (rx_descriptors s ! unat (rx_buffer_index s)) AND push_bit 15 1 \<noteq> 0"
  shows "gmac_get_raw_length s = Inr (0, s)"
proof -
  have "[0..<GMAC_RX_DESCRIPTORS] = 0 # [1..<16]" by (simp add: GMAC_RX_DESCRIPTORS_def upt_conv_Cons)
  moreover have "raw_length (rx_descriptors s) (rx_buffer_index s) (0 # is) 0 False = Inr 0" for "is"
  proof -
    have "\<not> 16 \<le> rx_buffer_index s" using assms(1) by simp
    then show ?thesis using assms(2,3) by (simp add: GMAC_RX_DESCRIPTORS_def Let_def)
  qed
  ultimately show ?thesis by (simp add: gmac_get_raw_length_def io_simps del: raw_length.simps)
qed

end
