(* ===== verification/Fatal.thy ===== *)
theory Fatal
  imports Boot_Claims
begin

text \<open>
  The end of a run: \<^verbatim>\<open>generic/panic.c\<close> of the kernel and of the bootloader, and the fault handlers of
  \<^verbatim>\<open>kernel/fault.c\<close>. The kernel's handler leaves the trigger of the bootloader in RAM and resets the chip; the
  loop behind the reset is not modelled. The bootloader's handler stops at a breakpoint and does not return. The file
  name and the line of a panic are parameters, which the compiler fills in. Disabling interrupts and
  barriers have no effect on the modelled state.
\<close>

section \<open>Panic\<close>

definition panic_text :: "'h mmio \<Rightarrow> bool \<Rightarrow> u8 list \<Rightarrow> u32 \<Rightarrow> u8 list \<Rightarrow> ('h, unit) io" where
  "panic_text b kern file line reason =
     io_then (print_fmt b kern (cstr ''Panic! %s \<newline>'') [ArgStr reason])
     (io_then (print_fmt b kern (cstr ''File: %s \<newline>'') [ArgStr file])
     (io_then (print_fmt b kern (cstr ''Line: %d \<newline>'') [ArgInt line]) (print_flush b)))"

definition panic_handler :: "'h mmio \<Rightarrow> u8 list \<Rightarrow> u32 \<Rightarrow> u8 list \<Rightarrow> ('h host_link, unit) io" where
  "panic_handler b file line reason =
     io_then (on_link (on_rx (io_then (dcache_disable b) (io_then (icache_disable b) (panic_text b True file line reason)))))
     (io_then (io_update (\<lambda>s. s\<lparr>link_signature := boot_trigger @ drop 16 (link_signature s)\<rparr>))
     (on_link (on_rx (reg_set b 0x400E1800 (0xA5000000 OR 1)))))"

definition boot_panic_handler :: "'h mmio \<Rightarrow> u8 list \<Rightarrow> u32 \<Rightarrow> u8 list \<Rightarrow> ('h, unit) io" where
  "boot_panic_handler b file line reason = io_then (panic_text b False file line reason) (io_fail Diverge)"

section \<open>Faults\<close>

text \<open>One message for each bit that is set.\<close>

fun report :: "'h mmio \<Rightarrow> u32 \<Rightarrow> (nat \<times> string) list \<Rightarrow> ('h, unit) io" where
  "report b status [] = io_return ()"
| "report b status ((i, msg) # ms) =
     io_then (if status AND push_bit i 1 \<noteq> 0 then printl b True (cstr msg) [] else io_return ()) (report b status ms)"

definition report_any :: "'h mmio \<Rightarrow> u32 \<Rightarrow> u32 \<Rightarrow> string \<Rightarrow> ('h, unit) io" where
  "report_any b status bits msg = (if status AND bits \<noteq> 0 then printl b True (cstr msg) [] else io_return ())"

definition print_bus_fault :: "'h mmio \<Rightarrow> ('h, unit) io" where
  "print_bus_fault b =
     io_bind (reg_get b 0xE000ED28) (\<lambda>v.
     let bus_status = drop_bit 8 v AND 0xFF
     in io_then (report_any b bus_status 0xFF ''Bus fault has occured: '')
        (io_then (if bus_status AND push_bit 7 1 \<noteq> 0 then
            io_bind (reg_get b (SCB ''BFAR'')) (\<lambda>a. printl b True (cstr ''Bus fault at address 0x%4h'') [ArgInt a])
          else io_return ())
        (report b bus_status [(5, ''Bus fault during FPU lazy state preservation''), (4, ''Exception stacking caused a bus fault''),
          (3, ''Exception unstacking caused a bus fault''), (2, ''Imprecise bus fault''),
          (1, ''Precise error - PC contains the reason''), (0, ''Instruction bus error'')])))"

text \<open>The status is the truth value of a conjunction (\<^verbatim>\<open>&&\<close>), not the bits of the register.\<close>

definition usage_status :: "u32 \<Rightarrow> u32" where
  "usage_status v = (if drop_bit 16 v \<noteq> 0 \<and> (0xFFFF :: u32) \<noteq> 0 then 1 else 0)"

definition usage_messages :: "(nat \<times> string) list" where
  "usage_messages = [(9, ''Devision by zero''), (8, ''Unaligned memory access''),
     (3, ''Coprocessor error - instruction not supported''), (2, ''Illegal use of EXE_RETURN''), (1, ''Illegal use of ePSR''),
     (0, ''Undefined instruction'')]"

definition print_usage_fault :: "'h mmio \<Rightarrow> ('h, unit) io" where
  "print_usage_fault b =
     io_bind (reg_get b 0xE000ED28) (\<lambda>v.
     io_then (report_any b (usage_status v) 0xFFFF ''Usage fault has occured: '') (report b (usage_status v) usage_messages))"

definition print_memory_fault :: "'h mmio \<Rightarrow> ('h, unit) io" where
  "print_memory_fault b =
     io_bind (reg_get b 0xE000ED28) (\<lambda>v.
     let mem_status = v AND 0xFF
     in io_then (report_any b mem_status 0xFF ''Memory fault has occured:'')
        (report b mem_status [(7, ''MMAR hold the fault address''), (5, ''Memory error during FPU lazy state preservation''),
          (4, ''Exception stacking caused a memory fault''), (3, ''Exception unstacking caused a memory fault''),
          (1, ''Forbidden load or store address''), (0, ''Instruction fetch from forbidden address'')]))"

definition print_hard_fault :: "'h mmio \<Rightarrow> ('h, unit) io" where
  "print_hard_fault b =
     io_bind (reg_get b (SCB ''HFSR'')) (\<lambda>v.
       report b v [(30, ''Forced hard fault escalated from a none servicable fault handler''),
         (1, ''Bus fault during vector table read'')])"

text \<open>The handlers of single faults print their name and panic; \<open>at\<close> gives the file and the line of the panic.\<close>

type_synonym place = "u8 list \<times> u32"

definition panic_at :: "'h mmio \<Rightarrow> place \<Rightarrow> string \<Rightarrow> ('h host_link, unit) io" where
  "panic_at b at reason = panic_handler b (fst at) (snd at) (cstr reason)"

definition exception_fault :: "'h mmio \<Rightarrow> place \<Rightarrow> ('h host_link, unit) io" where
  "exception_fault b at = panic_at b at ''Exception not handled - default handler triggered''"

definition mem_fault :: "'h mmio \<Rightarrow> place \<Rightarrow> ('h host_link, unit) io" where
  "mem_fault b at = io_then (on_link (on_rx (printl b True (cstr ''Memory\<newline>'') []))) (panic_at b at ''Memory fault'')"

definition bus_fault :: "'h mmio \<Rightarrow> place \<Rightarrow> ('h host_link, unit) io" where
  "bus_fault b at = io_then (on_link (on_rx (printl b True (cstr ''Bus\<newline>'') []))) (panic_at b at ''Bus fault'')"

definition usage_fault :: "'h mmio \<Rightarrow> place \<Rightarrow> ('h host_link, unit) io" where
  "usage_fault b at = io_then (on_link (on_rx (printl b True (cstr ''Usage\<newline>'') []))) (panic_at b at ''Usage fault'')"

section \<open>What a panic leaves behind\<close>

lemma panic_leaves_trigger:
  "panic_handler b file line reason s = Inr ((), t) \<Longrightarrow> link_signature t = boot_trigger @ drop 16 (link_signature s)"
  by (auto simp: panic_handler_def run_Inr)

lemma enter_leaves_trigger:
  "enter_bootloader b s = Inr ((), t) \<Longrightarrow> link_signature t = boot_trigger @ drop 16 (link_signature s)"
  by (auto simp: enter_bootloader_def run_Inr)

lemma trigger_length: "length boot_trigger = 16"
  by (simp add: boot_trigger_def)

lemma trigger_found: "signature_loop (boot_trigger @ xs) [0..<16] = Inr 1"
proof -
  have "signature_loop (boot_trigger @ xs) is = Inr 1" if "\<forall>i \<in> set is. i < 16" for "is"
    using that by (induction "is") (simp_all add: trigger_length nth_append)
  then show ?thesis by simp
qed

text \<open>
  After a panic, or after the host asked for it, the bootloader stays: whatever the flash holds, it finds the trigger, clears it
  and does not start the kernel.
\<close>

lemma panic_stays_in_bootloader:
  assumes "panic_handler b file line reason s = Inr ((), t) \<or> enter_bootloader b s = Inr ((), t)"
    and "boot_signature u = link_signature t"
    and "gpio_get_pin_status (m_bus M) GPIOA 11 (rx_hw (rx u)) = Inr (pin, h)"
  shows "\<exists>u'. boot_decide M desc digest u = Inr (Stayed, u') \<and> boot_signature u' = replicate 32 0"
proof -
  have "signature_loop (boot_signature u) [0..<16] = Inr 1"
    using assms(1,2) panic_leaves_trigger enter_leaves_trigger by (metis trigger_found)
  then show ?thesis
    using assms(3)
    by (simp add: boot_decide_def check_boot_signature_def clear_boot_signature_def io_simps)
qed

text \<open>A usage fault of any cause is reported as an undefined instruction.\<close>

lemma usage_fault_cause:
  assumes "drop_bit 16 v \<noteq> 0"
  shows "report b (usage_status v) usage_messages = printl b True (cstr ''Undefined instruction'') []"
proof -
  have s: "usage_status v = 1" using assms by (simp add: usage_status_def)
  have unit: "rbind r (\<lambda>(u :: unit, h). Inr ((), h)) = r" for r :: "(unit \<times> 'a) res"
    by (cases r) auto
  show ?thesis
    by (simp add: usage_messages_def s io_then_def io_bind_def io_return_def fun_eq_iff unit)
qed

end
