(* ===== verification/Tictactoe.thy ===== *)
theory Tictactoe
  imports Io_Monad
begin

text \<open>
  The game of \<^verbatim>\<open>apps/tictactoe/src/game.c\<close>: the board, the search for a winner, the moves and the loop of the
  game. The two system calls it uses are parameters: \<open>read\<close> gives the status and the characters of
  \<^verbatim>\<open>syscall_read_print\<close>, \<open>sleep\<close> waits; both may change the state \<open>'w\<close> of the system. The output on the console
  is not modelled.
\<close>

record game =
  board :: "u8 list"
  turn :: u8
  waiting_move :: u8

definition game_init :: game where
  "game_init = \<lparr>board = replicate 9 0, turn = 1, waiting_move = 0\<rparr>"

text \<open>The loop along a line from \<open>p\<close> in steps of \<open>d\<close>, and the lines in the order of the code.\<close>

fun line_loop :: "u8 list \<Rightarrow> nat \<Rightarrow> nat \<Rightarrow> nat \<Rightarrow> u8 \<Rightarrow> u8 res" where
  "line_loop data 0 p d winner = Inr winner"
| "line_loop data (Suc n) p d winner =
     rbind (array_get data p) (\<lambda>c. if c \<noteq> winner then Inr 0 else line_loop data n (p + d) d winner)"

definition line_winner :: "u8 list \<Rightarrow> nat \<Rightarrow> nat \<Rightarrow> u8 res" where
  "line_winner data p d = rbind (array_get data p) (line_loop data 3 p d)"

fun first_winner :: "u8 list \<Rightarrow> (nat \<times> nat) list \<Rightarrow> u8 res" where
  "first_winner data [] = Inr 0"
| "first_winner data ((p, d) # ls) =
     rbind (line_winner data p d) (\<lambda>w. if w \<noteq> 0 then Inr w else first_winner data ls)"

definition check_winner :: "u8 list \<Rightarrow> nat \<Rightarrow> u8 res" where
  "check_winner data size' =
     first_winner data (map (\<lambda>i. (i * 3, 1)) [0..<size'] @ map (\<lambda>i. (i, 3)) [0..<size'] @ [(0, 4), (2, 2)])"

definition add_piece :: "u8 list \<Rightarrow> u8 \<Rightarrow> game \<Rightarrow> (u8 \<times> game) res" where
  "add_piece data piece g =
     rbind (array_get data 0) (\<lambda>c0. rbind (array_get data 1) (\<lambda>c1.
     let x_pos = c0 - 0x30 - 1; y_pos = c1 - 0x30 - 1; i = 3 * unat y_pos + unat x_pos
     in if x_pos \<ge> 3 \<or> y_pos \<ge> 3 then Inr (0, g)
        else
          rbind (array_get (board g) i) (\<lambda>old.
          if old = 0 then rbind (array_set (board g) i piece) (\<lambda>bd. Inr (1, g\<lparr>board := bd\<rparr>))
          else Inr (0, g))))"

definition next_turn :: "game \<Rightarrow> game" where
  "next_turn g = (if waiting_move g = 0 then g\<lparr>turn := (if turn g = 1 then 2 else 1), waiting_move := 1\<rparr> else g)"

text \<open>One round of the loop returns the winner, 0 while there is none.\<close>

definition game_round :: "('w, u32 \<times> u8 list) io \<Rightarrow> ('w, unit) io \<Rightarrow> (game \<times> 'w, u8) io" where
  "game_round read sleep = (\<lambda>(g0, w0).
     let g1 = next_turn g0 in
     rbind (read w0) (\<lambda>((status, chars), w1).
     rbind (if status = 2 then
              rbind (add_piece chars (turn g1) g1) (\<lambda>(added, g2).
              if added \<noteq> 0 then rbind (check_winner (board g2) 3) (\<lambda>winner. Inr (winner, g2\<lparr>waiting_move := 0\<rparr>))
              else Inr (0, g2))
            else Inr (0, g1)) (\<lambda>(winner, g3).
     rbind (sleep w1) (\<lambda>(_, w2). Inr (winner, g3, w2)))))"

definition game_loop :: "('w, u32 \<times> u8 list) io \<Rightarrow> ('w, unit) io \<Rightarrow> (game \<times> 'w, u8) io" where
  "game_loop read sleep = repeat_io (\<lambda>_. io_bind (game_round read sleep) (\<lambda>winner.
     if winner = 0 then again () else leave winner)) ()"

section \<open>The winner\<close>

text \<open>Three equal pieces on a line of the board.\<close>

definition winning_lines :: "nat set set" where
  "winning_lines = {{0, 1, 2}, {3, 4, 5}, {6, 7, 8}, {0, 3, 6}, {1, 4, 7}, {2, 5, 8}, {0, 4, 8}, {2, 4, 6}}"

definition wins :: "u8 list \<Rightarrow> u8 \<Rightarrow> bool" where
  "wins data piece \<longleftrightarrow> (\<exists>l \<in> winning_lines. \<forall>i \<in> l. data ! i = piece)"

lemma line_winner_eq:
  assumes "p + 2 * d < length data"
  shows "line_winner data p d = Inr (if data ! (p + d) = data ! p \<and> data ! (p + 2 * d) = data ! p then data ! p else 0)"
  using assms by (simp add: line_winner_def numeral_eq_Suc add.assoc)

lemma check_winner_lines:
  "check_winner data 3 = first_winner data [(0, 1), (3, 1), (6, 1), (0, 3), (1, 3), (2, 3), (0, 4), (2, 2)]"
  by (simp add: check_winner_def upt_conv_Cons numeral_eq_Suc)

text \<open>
  The search finds a winner if and only if some piece has three in a line, and the piece it names has.
\<close>

lemma first_winner_spec:
  assumes "\<forall>(p, d) \<in> set ls. p + 2 * d < length data"
  shows "\<exists>w. first_winner data ls = Inr w
    \<and> (w \<noteq> 0 \<longrightarrow> (\<exists>(p, d) \<in> set ls. \<forall>i \<in> {p, p + d, p + 2 * d}. data ! i = w))
    \<and> (w = 0 \<longrightarrow> (\<forall>x. x \<noteq> 0 \<longrightarrow> \<not> (\<exists>(p, d) \<in> set ls. \<forall>i \<in> {p, p + d, p + 2 * d}. data ! i = x)))"
  using assms
proof (induction ls)
  case (Cons l ls)
  obtain p d where l: "l = (p, d)" by (cases l)
  obtain w where w: "first_winner data ls = Inr w"
    "w \<noteq> 0 \<longrightarrow> (\<exists>(p, d) \<in> set ls. \<forall>i \<in> {p, p + d, p + 2 * d}. data ! i = w)"
    "w = 0 \<longrightarrow> (\<forall>x. x \<noteq> 0 \<longrightarrow> \<not> (\<exists>(p, d) \<in> set ls. \<forall>i \<in> {p, p + d, p + 2 * d}. data ! i = x))"
    using Cons by auto
  have line: "line_winner data p d = Inr (if data ! (p + d) = data ! p \<and> data ! (p + 2 * d) = data ! p then data ! p else 0)"
    using Cons.prems l by (intro line_winner_eq) auto
  show ?case
  proof (cases "data ! p \<noteq> 0 \<and> data ! (p + d) = data ! p \<and> data ! (p + 2 * d) = data ! p")
    case True
    then have "first_winner data (l # ls) = Inr (data ! p)" using l line by simp
    then show ?thesis using True l by auto
  next
    case False
    then have "first_winner data (l # ls) = Inr w" using l line w(1) by auto
    then show ?thesis using False l w(2,3) by auto
  qed
qed simp

lemma check_winner_correct:
  assumes "length data = 9"
  shows "\<exists>w. check_winner data 3 = Inr w \<and> (w \<noteq> 0 \<longrightarrow> wins data w) \<and> (w = 0 \<longrightarrow> (\<forall>x. x \<noteq> 0 \<longrightarrow> \<not> wins data x))"
proof -
  let ?ls = "[(0, 1), (3, 1), (6, 1), (0, 3), (1, 3), (2, 3), (0, 4), (2, 2)] :: (nat \<times> nat) list"
  have wins: "wins data x \<longleftrightarrow> (\<exists>(p, d) \<in> set ?ls. \<forall>i \<in> {p, p + d, p + 2 * d}. data ! i = x)" for x
  proof -
    have "(\<exists>l \<in> winning_lines. \<forall>i \<in> l. P i) \<longleftrightarrow> (\<exists>(p, d) \<in> set ?ls. \<forall>i \<in> {p, p + d, p + 2 * d}. P i)" for P
      by (simp add: winning_lines_def)
    then show ?thesis by (simp only: wins_def)
  qed
  have "\<forall>(p, d) \<in> set ?ls. p + 2 * d < length data" using assms by simp
  from first_winner_spec [OF this] show ?thesis unfolding check_winner_lines wins by blast
qed

section \<open>A draw\<close>

lemma full_board_refuses:
  assumes "length (board g) = 9" "0 \<notin> set (board g)" "length chars = 16"
  shows "add_piece chars piece g = Inr (0, g)"
proof -
  define x where "x = chars ! 0 - 0x30 - 1"
  define y where "y = chars ! 1 - 0x30 - 1"
  have read: "array_get chars 0 = Inr (chars ! 0)" "array_get chars 1 = Inr (chars ! 1)" using assms(3) by simp_all
  show ?thesis
  proof (cases "x \<ge> 3 \<or> y \<ge> 3")
    case True
    then show ?thesis unfolding add_piece_def read by (simp only: rbind.simps Let_def x_def [symmetric] y_def [symmetric] if_True)
  next
    case False
    then have i: "3 * unat y + unat x < 9" by (simp add: word_le_nat_alt)
    then have "board g ! (3 * unat y + unat x) \<in> set (board g)" using assms(1) by (intro nth_mem) simp
    then have "board g ! (3 * unat y + unat x) \<noteq> 0" using assms(2) by metis
    then show ?thesis using False i assms(1) unfolding add_piece_def read
      by (simp only: rbind.simps Let_def x_def [symmetric] y_def [symmetric] array_get_in if_False)
  qed
qed

text \<open>On a full board no move is accepted any more, so a game that is drawn never ends.\<close>

lemma draw_never_ends:
  assumes reads: "\<And>w. \<exists>st chars w'. read w = Inr ((st, chars), w') \<and> length chars = 16"
    and sleeps: "\<And>w. \<exists>w'. sleep w = Inr ((), w')"
    and full: "length (board g) = 9" "0 \<notin> set (board g)"
  shows "game_loop read sleep (g, w) = Inl Diverge"
  unfolding game_loop_def
proof (rule repeat_io_stuck [where I = "\<lambda>_ (g, w). length (board g) = 9 \<and> 0 \<notin> set (board g)"])
  fix c :: unit and s :: "game \<times> 'a" assume inv: "case s of (g, w) \<Rightarrow> length (board g) = 9 \<and> 0 \<notin> set (board g)"
  obtain g w where s: "s = (g, w)" by (cases s)
  obtain st chars w1 where read: "read w = Inr ((st, chars), w1)" "length chars = 16" using reads by blast
  obtain w2 where sleep: "sleep w1 = Inr ((), w2)" using sleeps by blast
  have bd: "board (next_turn g) = board g" by (simp add: next_turn_def)
  have "game_round read sleep s = Inr (0, next_turn g, w2)"
    using full_board_refuses [of "next_turn g" chars] inv read sleep bd by (simp add: game_round_def s Let_def)
  then show "\<exists>c' s'. io_bind (game_round read sleep) (\<lambda>winner. if winner = 0 then again () else leave winner) s = Inr (Inl c', s')
      \<and> (case s' of (g, w) \<Rightarrow> length (board g) = 9 \<and> 0 \<notin> set (board g))"
    using inv bd s by (simp add: io_simps)
qed (use full in simp)

end
