(* ===== verification/Spec2Isabelle.thy ===== *)
theory Spec2Isabelle
  imports Umalloc Circular_List Sched_Claims Sd_Claims Sprint_Claims Boot_Claims Usb_Claims Device_Registers
    Loader Ethernet Fatal Tictactoe
begin

text \<open>
  A verification library for \<^verbatim>\<open>Vanilla\<close>, an operating system for the Cortex-M7 in C: a bootloader that updates
  and verifies the kernel, and the kernel with its scheduler, memory allocators, drivers, FAT32 file system and USB
  host stack. Paths are relative to \<^verbatim>\<open>src/kernel/src\<close>, those of the bootloader to \<^verbatim>\<open>src/bootloader/src\<close>.

  \<^bold>\<open>How the parts interact.\<close> The bootloader checks a trigger in RAM, a pin, the information of the kernel's image
  and its hash, and jumps to the kernel or waits for frames from the host. The kernel initializes its drivers and
  allocator, creates threads and starts the scheduler; the system tick picks the next thread by scheduling class. A thread
  is a page allocation with a control block and a stack; it sleeps, blocks and exits through linked lists of the
  scheduler. The file system reads sectors through a cache and the SD card protocol over the card controller. The
  USB core turns the descriptors of a device into arrays, over requests that the host controller driver serves from
  its interrupt. The loader links a binary from a file or from the host and starts it as a thread. A panic leaves the trigger
  of the bootloader in RAM and resets the chip.

  \<^bold>\<open>Modelling.\<close> Machine integers are words, so arithmetic wraps around; \<^verbatim>\<open>char\<close> is unsigned and an enumeration is
  one byte, as the ARM calling standard of the build has it. Division by zero gives zero, as the processor does. Memory is
  a map from addresses to bytes where the code works on raw memory (allocators, stacks, buffers, binaries); structs
  with a fixed type are records at their addresses, and lists threaded through them are heaps of nodes. An operation returns a
  value and a state or an error: a panic with its reason, a null pointer, an access outside of an array, a shift by
  the width or more, or an endless loop (\<open>Kernel_Prelude\<close>, \<open>Io_Monad\<close>). Loops that may not end are partial functions or
  \<open>repeat_io\<close>; the properties say when they return. Registers are addresses on a bus that the operations take as an
  argument: reading one may change the device (\<open>Io_Monad\<close>, \<open>Registers\<close>). Barriers, interrupt masks and delay loops have no effect
  on the modelled state. Output on the console is modelled in the serial drivers, the bootloader, the panic and
  the fault handlers, and left out of the allocators, the file system, the SD protocol, the USB core, the loader and the game; the
  scheduler keeps a trace of what it prints and sets in hardware.
\<close>

text \<open>
  \<^bold>\<open>Theories and sources.\<close>

  \<^item> \<open>Kernel_Prelude\<close>, \<open>Io_Monad\<close>: words, errors, memory; stateful operations, loops, total correctness (\<open>achieves\<close>), no
    endless loop (\<open>settles\<close>), registers.
  \<^item> \<open>DList_Heap\<close> (\<^verbatim>\<open>kernel/dlist.c\<close>), \<open>Circular_List\<close> (\<^verbatim>\<open>kernel/list.h\<close>): the two kinds of lists as heaps of nodes, their
    representation of HOL lists, and the contracts \<open>fifo\<close> and \<open>intrusive_list\<close>.
  \<^item> \<open>Memory_Ops\<close> (\<^verbatim>\<open>generic/memory.c\<close>, \<^verbatim>\<open>generic/crc.c\<close>), \<open>Ring_Buffer\<close> (\<^verbatim>\<open>generic/ringbuffer.c\<close>), \<open>Sprint\<close>, \<open>Sprint_Claims\<close>
    (\<^verbatim>\<open>generic/sprint.c\<close>).
  \<^item> \<open>Mem_Core\<close> (\<^verbatim>\<open>mm/mm.c\<close>): the first-fit allocator over headers in the byte memory; \<open>Free_List\<close> its specification on
    numbers; \<open>Mem_Header\<close>, \<open>Mem_Invariant\<close>, \<open>Mem_Init\<close>, \<open>Mem_Run\<close> the refinement, boot, and arbitrary clients with the
    contract \<open>allocator\<close>. \<open>Page_Alloc\<close> (\<^verbatim>\<open>mm/bmalloc.c\<close>, \<^verbatim>\<open>mm/pmalloc.c\<close>), \<open>Umalloc\<close> (\<^verbatim>\<open>mm/umalloc.c\<close>).
  \<^item> \<open>Sched_Core\<close>, \<open>Scheduler\<close>, \<open>Thread\<close> (\<^verbatim>\<open>kernel/scheduler.c\<close>, \<^verbatim>\<open>rt.c\<close>, \<^verbatim>\<open>app.c\<close>, \<^verbatim>\<open>background.c\<close>, \<^verbatim>\<open>idle.c\<close>, \<^verbatim>\<open>thread.c\<close>,
    \<^verbatim>\<open>syscall.c\<close>): the record \<open>kernel\<close> is the run queue structure \<^verbatim>\<open>cpu_rq\<close> with the globals, \<open>k_node\<close> the list nodes, \<open>k_thread\<close> the
    control blocks, \<open>k_mm\<close> the allocator. \<open>Sched_Queues\<close>, \<open>Sched_Invariant\<close>, \<open>Sched_Run\<close>, \<open>Sched_Exit\<close>, \<open>Thread_Create\<close>, \<open>Kernel_Run\<close>:
    queues as lists of threads, the abstract tick, and the runs from boot; \<open>Sched_Claims\<close> the properties.
  \<^item> \<open>Registers\<close>, \<open>Core_Registers\<close>, \<open>Device_Registers\<close> (\<^verbatim>\<open>cpu/hardware.h\<close>): register blocks as lists of fields. \<open>Gpio_Clock\<close>,
    \<open>Cpu_Drivers\<close>, \<open>Serial_Port\<close>, \<open>Ethernet\<close>: pins, clocks, interrupt controller, caches, memory protection, DRAM, serial
    ports, Ethernet and random numbers.
  \<^item> \<open>Mmc\<close>, \<open>Sd_Protocol\<close> (\<^verbatim>\<open>drivers/mmc.c\<close>, \<^verbatim>\<open>disk/sd_protocol.c\<close>), \<open>Sd_Card\<close>, \<open>Sd_Claims\<close>: the card as a \<open>block_device\<close>;
    \<open>Disk_Io\<close>, \<open>Fat_Layout\<close>, \<open>Fat_Volume\<close>, \<open>Fat_Dir\<close>, \<open>Fat_Api\<close> (\<^verbatim>\<open>disk/fat32.c\<close>), \<open>Fat_Cache\<close>, \<open>Fat_Files\<close>, \<open>Fat_Claims\<close>: files as
    sequences of bytes on any block device.
  \<^item> \<open>Boot_Flash\<close>, \<open>Boot_Frame\<close>, \<open>Bootloader\<close>, \<open>Boot_Claims\<close>: the bootloader, and \<^verbatim>\<open>kernel/bootloader.c\<close>.
  \<^item> \<open>Usb_Hw\<close> (\<^verbatim>\<open>drivers/usbhw.h\<close>), \<open>Usb_Host\<close>, \<open>Usb_Pipes\<close> (\<^verbatim>\<open>drivers/usbhc.c\<close>), \<open>Usb_Desc\<close>, \<open>Usb_Core\<close> (\<^verbatim>\<open>usb/usb.c\<close>, \<^verbatim>\<open>usb_hid.c\<close>);
    \<open>Usb_Tree\<close>, \<open>Usb_Enum\<close>, \<open>Usb_Transfer\<close>, \<open>Usb_Claims\<close>: descriptors as a tree, the enumeration stage by stage, transfers.
  \<^item> \<open>Loader\<close> (\<^verbatim>\<open>kernel/dynamic_linker.c\<close>, \<^verbatim>\<open>run.c\<close>, \<^verbatim>\<open>misc/fpi.c\<close>), \<open>Fatal\<close> (\<^verbatim>\<open>generic/panic.c\<close>, \<^verbatim>\<open>kernel/fault.c\<close>), \<open>Tictactoe\<close>
    (\<^verbatim>\<open>apps/tictactoe\<close>).
\<close>

text \<open>
  \<^bold>\<open>What is shown.\<close> Allocations never overlap, no client step panics for requests the allocator accepts
  (\<open>mm_fits\<close>: rounding up does not wrap around), and the byte-level code refines the free list (C1 to C6, then the
  fixed-size allocator, the ring buffer and the checksum, C7 to C11). The scheduler does not panic in runs whose
  ticks satisfy \<open>may_exit\<close>, its tick implements the abstract one, which wakes at most one sleeper, ready threads run in turn,
  threads are created, put to sleep and removed correctly (C12 to C17); where an application or background thread exits, it
  panics or schedules a freed thread (C18, C19); blocking is C20. Files are read exactly, no walk over a file loops for ever, and
  the deviations at the end of a file, in names and in the allocation table are pinned (C21 to C25); the card driver is a
  block device, so the same holds on a card (C26 to C29). The formatter outputs the reference text, and the documented one
  but for large arguments of \<^verbatim>\<open>%u\<close> (C30). The bootloader starts a verified kernel only and receives frames and pages
  exactly (C31 to C33). Descriptors are stored as the tree a device sends, a device is enumerated, drivers are connected,
  pipes are served fairly and packets received (C34 to C40). Further lemmas: the linker relocates every word once
  (\<open>linker_relocates_once\<close>) and loops on a ragged table (\<open>relocate_stuck\<close>), a panic ends in the bootloader
  (\<open>panic_stays_in_bootloader\<close>), the winner of the game is the one on the board (\<open>check_winner_correct\<close>).

  \<^bold>\<open>Bounds.\<close> The tick counts cycles in 64 bits and the runs stay below \<open>2 ^ 64\<close> of them, \<open>SYSTICK_RVR\<close> (300000) per
  tick; stacks have fewer than \<open>2 ^ 28\<close> words, since the size in bytes is computed in 32 bits; a control block has 120 bytes
  (\<open>thread_size\<close>), a volume 828 (\<open>volume_bytes\<close>), and the USB structures 24 (configuration), 40 (interface), 12 (endpoint) and
  228 (device) bytes under the same calling standard; the buffer of the enumeration has 1024 bytes. Tables of the linker have fewer than \<open>2 ^ 29\<close>
  words, half of the address space. No loop is modelled with fuel.

  \<^bold>\<open>Parameters.\<close> The bus and the memory of a machine; the callbacks of disk operations, with the contracts \<open>reads_sectors\<close> and
  \<open>card_contract\<close>, which the card driver and an example card satisfy; the upcalls of the USB driver, instantiated by
  the core; addresses the linker assigns; \<^verbatim>\<open>srand\<close> and \<^verbatim>\<open>rand\<close>; the system calls of the game.

  \<^bold>\<open>Not modelled.\<close> Assembly: the vector table, the context switch, which is \<open>context_switch\<close> on the kernel's pointers, and processor
  intrinsics, spin locks and the floating-point unit among them. The order of initialization in \<^verbatim>\<open>kernel_entry\<close> and the
  threads of \<^verbatim>\<open>main\<close>, whose functions are modelled one by one. The button's interrupt, which calls arbitrary functions. Benchmarks, printing of
  USB descriptors, the empty hub, storage and audio drivers, the register dump of \<^verbatim>\<open>hard_fault\<close>. The bootloader's copies of drivers
  of the kernel. Preemption inside an operation: interrupts are steps between operations, and the copies of the control
  block's fields in the byte memory are those of its creation. The transfer of Ethernet frames, which the source leaves empty. Python
  tools and build files.
\<close>

end
